(* ===== verification/Prelude.thy ===== *)
theory Prelude
  imports Complex_Main "HOL-Library.AList" "HOL-Library.Code_Target_Nat" "HOL-Library.List_Lexorder"
    "HOL-Library.Char_ord" "HOL-Library.Sublist"
begin

text \<open>
  Generic material shared by the component theories: the Python string and container
  operations the sources use, a small algebra of database tables (a table is the list of
  its rows in rowid order), parsing of string-valued enums, and two locales about systems
  that execute fallible operations.  Strings are lists of characters with code points below
  256; case conversion and white space are those of Python on that range restricted to
  ASCII letters.
\<close>

named_theorems table_simps \<open>rewrite rules about table operations\<close>

section \<open>Python strings\<close>

definition is_py_space :: "char \<Rightarrow> bool" where
  "is_py_space c = (let n = (of_char c :: nat) in
     (9 \<le> n \<and> n \<le> 13) \<or> (28 \<le> n \<and> n \<le> 32) \<or> n = 133 \<or> n = 160)"

definition lstrip :: "string \<Rightarrow> string" where
  "lstrip s = dropWhile is_py_space s"

definition strip :: "string \<Rightarrow> string" where
  "strip s = rev (lstrip (rev (lstrip s)))"

definition blank :: "string \<Rightarrow> bool" where
  "blank s = list_all is_py_space s"

definition char_upper :: "char \<Rightarrow> char" where
  "char_upper c = (let n = (of_char c :: nat) in if 97 \<le> n \<and> n \<le> 122 then char_of (n - 32) else c)"

definition char_lower :: "char \<Rightarrow> char" where
  "char_lower c = (let n = (of_char c :: nat) in if 65 \<le> n \<and> n \<le> 90 then char_of (n + 32) else c)"

definition upper :: "string \<Rightarrow> string" where
  "upper s = map char_upper s"

definition casefold :: "string \<Rightarrow> string" where
  "casefold s = map char_lower s"

definition is_digit :: "char \<Rightarrow> bool" where
  "is_digit c = (let n = (of_char c :: nat) in 48 \<le> n \<and> n \<le> 57)"

definition is_upper_letter :: "char \<Rightarrow> bool" where
  "is_upper_letter c = (let n = (of_char c :: nat) in 65 \<le> n \<and> n \<le> 90)"

definition is_lower_letter :: "char \<Rightarrow> bool" where
  "is_lower_letter c = (let n = (of_char c :: nat) in 97 \<le> n \<and> n \<le> 122)"

text \<open>\<open>str(n)\<close> for integers.\<close>

fun nat_str :: "nat \<Rightarrow> string" where
  "nat_str n = (if n < 10 then [char_of (48 + n)] else nat_str (n div 10) @ [char_of (48 + n mod 10)])"

declare nat_str.simps [simp del]

definition int_str :: "int \<Rightarrow> string" where
  "int_str i = (if i < 0 then CHR ''-'' # nat_str (nat (- i)) else nat_str (nat i))"

lemma lstrip_Nil [simp]: "lstrip [] = []"
  by (simp add: lstrip_def)

lemma strip_Nil [simp]: "strip [] = []"
  by (simp add: strip_def lstrip_def)

lemma dropWhile_Nil_iff: "dropWhile P xs = [] \<longleftrightarrow> list_all P xs"
  by (induction xs) auto

lemma list_all_dropWhile: "list_all P (dropWhile P xs) \<longleftrightarrow> list_all P xs"
  by (induction xs) simp_all

lemma strip_empty_iff: "strip s = [] \<longleftrightarrow> blank s"
  unfolding strip_def lstrip_def blank_def
  by (simp add: dropWhile_Nil_iff list_all_dropWhile del: dropWhile_eq_Nil_conv)

lemma blank_Nil [simp]: "blank []"
  by (simp add: blank_def)

lemma hd_dropWhile_not: "dropWhile P xs \<noteq> [] \<Longrightarrow> \<not> P (hd (dropWhile P xs))"
  by (induction xs) auto

lemma dropWhile_id: "xs = [] \<or> \<not> P (hd xs) \<Longrightarrow> dropWhile P xs = xs"
  by (cases xs) auto

lemma last_lstrip: "lstrip s \<noteq> [] \<Longrightarrow> last (lstrip s) = last s"
  unfolding lstrip_def by (induction s) (auto simp del: dropWhile_eq_Nil_conv split: if_splits)

lemma hd_strip: "strip s \<noteq> [] \<Longrightarrow> \<not> is_py_space (hd (strip s))"
proof -
  assume ne: "strip s \<noteq> []"
  then have ne': "lstrip (rev (lstrip s)) \<noteq> []" by (auto simp: strip_def)
  have "last (lstrip (rev (lstrip s))) = last (rev (lstrip s))"
    using ne' by (rule last_lstrip)
  moreover have "lstrip s \<noteq> []" using ne' by auto
  ultimately have "hd (strip s) = hd (lstrip s)"
    using ne' by (simp add: strip_def hd_rev last_rev)
  with \<open>lstrip s \<noteq> []\<close> show ?thesis by (simp add: lstrip_def hd_dropWhile_not)
qed

lemma last_strip: "strip s \<noteq> [] \<Longrightarrow> \<not> is_py_space (last (strip s))"
  by (simp add: strip_def lstrip_def last_rev hd_dropWhile_not)

lemma strip_fixed:
  "s = [] \<or> (\<not> is_py_space (hd s) \<and> \<not> is_py_space (last s)) \<Longrightarrow> strip s = s"
  by (cases "s = []") (simp_all add: strip_def lstrip_def dropWhile_id hd_rev)

lemma strip_idem [simp]: "strip (strip s) = strip s"
  by (cases "strip s = []") (simp, rule strip_fixed, simp add: hd_strip last_strip)

section \<open>Errors as values\<close>

text \<open>Continue with the value of a call, or propagate what it raised.\<close>

definition and_then :: "'e + 'a \<Rightarrow> ('a \<Rightarrow> 'e + 'b) \<Rightarrow> 'e + 'b" where
  "and_then m f = (case m of Inl e \<Rightarrow> Inl e | Inr x \<Rightarrow> f x)"

definition map_error :: "('d \<Rightarrow> 'e) \<Rightarrow> 'd + 'a \<Rightarrow> 'e + 'a" where
  "map_error h m = (case m of Inl d \<Rightarrow> Inl (h d) | Inr x \<Rightarrow> Inr x)"

lemma and_then_simps [simp]: "and_then (Inl e) f = Inl e" "and_then (Inr x) f = f x"
  by (simp_all add: and_then_def)

lemma and_then_Inr: "and_then m f = Inr y \<longleftrightarrow> (\<exists>x. m = Inr x \<and> f x = Inr y)"
  by (cases m) simp_all

lemma and_then_InrE:
  assumes "and_then m f = Inr y"
  obtains x where "m = Inr x" "f x = Inr y"
  using assms by (auto simp: and_then_Inr)

lemma map_error_Inr [simp]: "map_error h m = Inr x \<longleftrightarrow> m = Inr x"
  by (cases m) (simp_all add: map_error_def)

lemma map_error_simps [simp]: "map_error h (Inl d) = Inl (h d)" "map_error h (Inr x) = Inr x"
  by (simp_all add: map_error_def)

text \<open>A loop over a list that threads a state and stops at the first error.\<close>

fun fold_result :: "('a \<Rightarrow> 's \<Rightarrow> 'e + 's) \<Rightarrow> 'a list \<Rightarrow> 's \<Rightarrow> 'e + 's" where
  "fold_result f [] s = Inr s"
| "fold_result f (x # xs) s = and_then (f x s) (fold_result f xs)"

lemma fold_result_inv:
  assumes "fold_result f xs s = Inr t" "I s"
    and "\<And>x s t. x \<in> set xs \<Longrightarrow> I s \<Longrightarrow> f x s = Inr t \<Longrightarrow> I t"
  shows "I t"
  using assms
proof (induction xs arbitrary: s)
  case Nil
  then show ?case by simp
next
  case (Cons x xs)
  from Cons.prems(1) obtain u where u: "f x s = Inr u" "fold_result f xs u = Inr t"
    by (auto simp: and_then_Inr)
  from u(2) show ?case
  proof (rule Cons.IH)
    show "I u" using Cons.prems(2) u(1) by (rule Cons.prems(3) [rotated]) simp
  qed (rule Cons.prems(3), auto)
qed

text \<open>A loop that maps a fallible function over a list.\<close>

fun map_result :: "('a \<Rightarrow> 'e + 'b) \<Rightarrow> 'a list \<Rightarrow> 'e + 'b list" where
  "map_result f [] = Inr []"
| "map_result f (x # xs) = and_then (f x) (\<lambda>y. and_then (map_result f xs) (\<lambda>ys. Inr (y # ys)))"

lemma map_result_Inr: "map_result f xs = Inr ys \<longleftrightarrow> list_all2 (\<lambda>x y. f x = Inr y) xs ys"
  by (induction xs arbitrary: ys) (auto simp: and_then_Inr list_all2_Cons1)

section \<open>Ordered containers\<close>

text \<open>\<open>tuple(dict.fromkeys(xs))\<close>: duplicates removed, first occurrences kept in order.\<close>

definition dict_fromkeys :: "'a list \<Rightarrow> 'a list" where
  "dict_fromkeys xs = rev (remdups (rev xs))"

lemma set_dict_fromkeys [simp]: "set (dict_fromkeys xs) = set xs"
  by (simp add: dict_fromkeys_def)

lemma distinct_dict_fromkeys [simp]: "distinct (dict_fromkeys xs)"
  by (simp add: dict_fromkeys_def)

lemma dict_fromkeys_distinct: "distinct xs \<Longrightarrow> dict_fromkeys xs = xs"
  by (simp add: dict_fromkeys_def distinct_remdups_id)

lemma length_dict_fromkeys_le: "length (dict_fromkeys xs) \<le> length xs"
  by (metis dict_fromkeys_def length_remdups_leq length_rev)

text \<open>\<open>sorted(set(xs))\<close>.\<close>

definition sorted_set :: "'a::linorder list \<Rightarrow> 'a list" where
  "sorted_set xs = sort (remdups xs)"

lemma set_sorted_set [simp]: "set (sorted_set xs) = set xs"
  by (simp add: sorted_set_def)

lemma distinct_sorted_set [simp]: "distinct (sorted_set xs)"
  by (simp add: sorted_set_def)

lemma sorted_set_eq_iff: "sorted_set xs = sorted_set ys \<longleftrightarrow> set xs = set ys"
proof
  assume "sorted_set xs = sorted_set ys"
  then have "set (sorted_set xs) = set (sorted_set ys)" by simp
  then show "set xs = set ys" by simp
next
  assume "set xs = set ys"
  then show "sorted_set xs = sorted_set ys"
    by (simp add: sorted_set_def sorted_list_of_set_sort_remdups [symmetric])
qed

section \<open>Tables\<close>

text \<open>
  \<open>UPDATE t SET .. WHERE p\<close>, \<open>SELECT .. WHERE p\<close> and \<open>fetchone()\<close> on a table given as
  the list of its rows.
\<close>

definition update_where :: "('r \<Rightarrow> bool) \<Rightarrow> ('r \<Rightarrow> 'r) \<Rightarrow> 'r list \<Rightarrow> 'r list" where
  "update_where p f t = map (\<lambda>r. if p r then f r else r) t"

definition fetchone :: "('r \<Rightarrow> bool) \<Rightarrow> 'r list \<Rightarrow> 'r option" where
  "fetchone p t = List.find p t"

definition exists_row :: "('r \<Rightarrow> bool) \<Rightarrow> 'r list \<Rightarrow> bool" where
  "exists_row p t = list_ex p t"

lemma fetchone_Some: "fetchone p t = Some r \<Longrightarrow> r \<in> set t \<and> p r"
  by (auto simp: fetchone_def find_Some_iff)

lemma fetchone_None [simp]: "fetchone p t = None \<longleftrightarrow> (\<forall>r \<in> set t. \<not> p r)"
  by (auto simp: fetchone_def find_None_iff)

lemma exists_row_iff [simp]: "exists_row p t \<longleftrightarrow> (\<exists>r \<in> set t. p r)"
  by (simp add: exists_row_def list_ex_iff)

lemma length_update_where [simp]: "length (update_where p f t) = length t"
  by (simp add: update_where_def)

lemma set_update_where: "set (update_where p f t) = (\<lambda>r. if p r then f r else r) ` set t"
  by (simp add: update_where_def)

lemma map_update_where [table_simps]:
  "(\<And>r. p r \<Longrightarrow> k (f r) = k r) \<Longrightarrow> map k (update_where p f t) = map k t"
  by (simp add: update_where_def)

lemma in_update_whereE:
  assumes "r \<in> set (update_where p f t)"
  obtains q where "q \<in> set t" "p q" "r = f q" | "r \<in> set t" "\<not> p r"
  using assms by (auto simp: set_update_where split: if_splits)

lemma nth_update_where [simp]:
  "i < length t \<Longrightarrow> update_where p f t ! i = (if p (t ! i) then f (t ! i) else t ! i)"
  by (simp add: update_where_def)

text \<open>\<open>INSERT\<close>: a second row with the same key violates the constraint.\<close>

definition insert_row :: "'e \<Rightarrow> ('r \<Rightarrow> 'k) \<Rightarrow> 'r \<Rightarrow> 'r list \<Rightarrow> 'e + 'r list" where
  "insert_row e k r t = (if exists_row (\<lambda>q. k q = k r) t then Inl e else Inr (t @ [r]))"

lemma insert_row_Inr: "insert_row e k r t = Inr u \<longleftrightarrow> u = t @ [r] \<and> k r \<notin> k ` set t"
  by (auto simp: insert_row_def image_iff) metis+

text \<open>
  How a table may change: rows are never deleted, every old row is related to the row in its
  place, new rows come at the end.
\<close>

definition rows_advance :: "('r \<Rightarrow> 'r \<Rightarrow> bool) \<Rightarrow> 'r list \<Rightarrow> 'r list \<Rightarrow> bool" where
  "rows_advance R t u \<longleftrightarrow> (\<exists>old new. u = old @ new \<and> list_all2 R t old)"

lemma rows_advance_refl: "(\<And>r. R r r) \<Longrightarrow> rows_advance R t t"
  unfolding rows_advance_def by (rule exI [of _ t]) (simp add: list_all2_same)

lemma rows_advance_trans:
  assumes "\<And>a b c. R a b \<Longrightarrow> R b c \<Longrightarrow> R a c" "rows_advance R t u" "rows_advance R u v"
  shows "rows_advance R t v"
proof -
  obtain o1 n1 where 1: "u = o1 @ n1" "list_all2 R t o1" using assms(2) by (auto simp: rows_advance_def)
  obtain o2 n2 where 2: "v = o2 @ n2" "list_all2 R u o2" using assms(3) by (auto simp: rows_advance_def)
  obtain a b where ab: "o2 = a @ b" "list_all2 R o1 a"
    using 2(2) unfolding 1(1) by (auto simp: list_all2_append1)
  have "list_all2 R t a" using 1(2) ab(2) assms(1) by (rule list_all2_trans [rotated])
  then show ?thesis unfolding rows_advance_def using 2(1) ab(1) by auto
qed

lemma rows_advance_append: "(\<And>r. R r r) \<Longrightarrow> rows_advance R t (t @ new)"
  unfolding rows_advance_def by (rule exI [of _ t]) (simp add: list_all2_same)

lemma rows_advance_update:
  "(\<And>r. R r r) \<Longrightarrow> (\<And>r. r \<in> set t \<Longrightarrow> p r \<Longrightarrow> R r (f r)) \<Longrightarrow> rows_advance R t (update_where p f t)"
  unfolding rows_advance_def
  by (rule exI [of _ "update_where p f t"])
     (auto simp: list_all2_conv_all_nth)

lemma rows_advance_eq: "rows_advance (=) t u \<longleftrightarrow> prefix t u"
  by (auto simp: rows_advance_def list.rel_eq prefix_def)

lemma rows_advance_nth:
  "rows_advance R t u \<Longrightarrow> i < length t \<Longrightarrow> i < length u \<and> R (t ! i) (u ! i)"
  by (auto simp: rows_advance_def list_all2_conv_all_nth nth_append)

lemma rows_advance_mem:
  assumes "rows_advance R t u" "r \<in> set t"
  obtains q where "q \<in> set u" "R r q"
  using assms by (metis in_set_conv_nth rows_advance_nth)

text \<open>The history of a table whose rows change along a preorder.\<close>

locale row_history =
  fixes R :: "'r \<Rightarrow> 'r \<Rightarrow> bool"
  assumes step_refl: "R r r"
    and step_trans: "R a b \<Longrightarrow> R b c \<Longrightarrow> R a c"
begin

lemma adv_refl [simp]: "rows_advance R t t"
  by (rule rows_advance_refl) (rule step_refl)

lemma adv_append [simp]: "rows_advance R t (t @ new)"
  by (rule rows_advance_append) (rule step_refl)

lemma adv_trans: "rows_advance R t u \<Longrightarrow> rows_advance R u v \<Longrightarrow> rows_advance R t v"
  by (rule rows_advance_trans) (rule step_trans)

lemma adv_update [intro]:
  "(\<And>r. r \<in> set t \<Longrightarrow> p r \<Longrightarrow> R r (f r)) \<Longrightarrow> rows_advance R t (update_where p f t)"
  by (rule rows_advance_update) (auto intro: step_refl)

lemma adv_update_append [intro]:
  "(\<And>r. r \<in> set t \<Longrightarrow> p r \<Longrightarrow> R r (f r)) \<Longrightarrow> rows_advance R t (update_where p f t @ new)"
  by (rule adv_trans [OF adv_update adv_append])

lemma adv_update2 [intro]:
  assumes "\<And>r. r \<in> set t \<Longrightarrow> R r (let q = (if p r then f r else r) in if p' q then f' q else q)"
  shows "rows_advance R t (update_where p' f' (update_where p f t))"
proof -
  have "update_where p' f' (update_where p f t) =
        update_where (\<lambda>r. True) (\<lambda>r. let q = (if p r then f r else r) in if p' q then f' q else q) t"
    by (simp add: update_where_def Let_def)
  then show ?thesis using adv_update [of t "\<lambda>r. True"] assms by simp
qed

end

text \<open>A log: rows never change.\<close>

interpretation log_history: row_history "(=) :: 'r \<Rightarrow> 'r \<Rightarrow> bool"
  by unfold_locales auto

text \<open>A row is determined by its primary key.\<close>

lemma key_unique:
  "distinct (map k t) \<Longrightarrow> r \<in> set t \<Longrightarrow> q \<in> set t \<Longrightarrow> k r = k q \<Longrightarrow> r = q"
  by (auto simp: distinct_map dest: inj_onD)

lemma fetchone_key:
  "distinct (map k t) \<Longrightarrow> r \<in> set t \<Longrightarrow> fetchone (\<lambda>q. k q = k r) t = Some r"
proof (cases "fetchone (\<lambda>q. k q = k r) t")
  case None
  assume "r \<in> set t"
  with None show ?thesis by auto
next
  case (Some q)
  assume "distinct (map k t)" "r \<in> set t"
  with Some show ?thesis using fetchone_Some [OF Some] key_unique [of k t q r] by auto
qed

section \<open>String-valued enums\<close>

text \<open>\<open>E(value)\<close> on a \<open>class E(str, Enum)\<close>; \<open>None\<close> stands for the \<open>ValueError\<close>.\<close>

definition enum_parse :: "'a list \<Rightarrow> ('a \<Rightarrow> string) \<Rightarrow> string \<Rightarrow> 'a option" where
  "enum_parse members val s = List.find (\<lambda>x. val x = s) members"

locale py_enum =
  fixes members :: "'a list" and val :: "'a \<Rightarrow> string"
  assumes members_all: "x \<in> set members"
    and val_inj: "val x = val y \<Longrightarrow> x = y"
begin

lemma parse_iff: "enum_parse members val s = Some x \<longleftrightarrow> s = val x"
proof
  assume "enum_parse members val s = Some x"
  then show "s = val x" by (auto simp: enum_parse_def find_Some_iff)
next
  assume s: "s = val x"
  have "\<exists>y. enum_parse members val s = Some y"
    using members_all [of x] s by (auto simp: enum_parse_def find_None_iff simp flip: not_None_eq)
  then obtain y where y: "enum_parse members val s = Some y" ..
  then have "val y = s" by (auto simp: enum_parse_def find_Some_iff)
  with s have "y = x" by (auto intro: val_inj)
  with y show "enum_parse members val s = Some x" by simp
qed

lemma parse_val: "enum_parse members val (val x) = Some x"
  by (simp add: parse_iff)

lemma parse_None: "enum_parse members val s = None \<longleftrightarrow> s \<notin> range val"
  using parse_iff [of s] by (cases "enum_parse members val s") auto

end

section \<open>Systems of fallible operations\<close>

text \<open>
  Running a list of operations; an operation that raises leaves the state as it was, the
  way a rolled-back transaction or an operation that checks before it writes does.
\<close>

definition step_or_stay :: "('op \<Rightarrow> 's \<Rightarrow> 'e + 's) \<Rightarrow> 'op \<Rightarrow> 's \<Rightarrow> 's" where
  "step_or_stay exec p s = (case exec p s of Inl _ \<Rightarrow> s | Inr t \<Rightarrow> t)"

fun run_ops :: "('op \<Rightarrow> 's \<Rightarrow> 'e + 's) \<Rightarrow> 'op list \<Rightarrow> 's \<Rightarrow> 's" where
  "run_ops exec [] s = s"
| "run_ops exec (p # ps) s = run_ops exec ps (step_or_stay exec p s)"

lemma run_ops_append: "run_ops exec (ps @ qs) s = run_ops exec qs (run_ops exec ps s)"
  by (induction ps arbitrary: s) auto

locale op_invariant =
  fixes exec :: "'op \<Rightarrow> 's \<Rightarrow> 'e + 's" and inv :: "'s \<Rightarrow> bool"
  assumes exec_inv: "inv s \<Longrightarrow> exec p s = Inr t \<Longrightarrow> inv t"
begin

lemma step_inv: "inv s \<Longrightarrow> inv (step_or_stay exec p s)"
  by (auto simp: step_or_stay_def split: sum.splits intro: exec_inv)

lemma run_inv: "inv s \<Longrightarrow> inv (run_ops exec ps s)"
  by (induction ps arbitrary: s) (auto intro: step_inv)

end

locale op_relation =
  fixes exec :: "'op \<Rightarrow> 's \<Rightarrow> 'e + 's" and inv :: "'s \<Rightarrow> bool"
    and rel :: "'s \<Rightarrow> 's \<Rightarrow> bool"
  assumes rel_inv: "inv s \<Longrightarrow> exec p s = Inr t \<Longrightarrow> inv t"
    and rel_refl: "rel s s"
    and rel_trans: "rel s t \<Longrightarrow> rel t u \<Longrightarrow> rel s u"
    and exec_rel: "inv s \<Longrightarrow> exec p s = Inr t \<Longrightarrow> rel s t"
begin

lemma step_rel: "inv s \<Longrightarrow> rel s (step_or_stay exec p s)"
  by (auto simp: step_or_stay_def split: sum.splits intro: exec_rel rel_refl)

lemma run_rel: "inv s \<Longrightarrow> rel s (run_ops exec ps s)"
proof (induction ps arbitrary: s)
  case Nil
  show ?case by (simp add: rel_refl)
next
  case (Cons p ps)
  have "inv (step_or_stay exec p s)"
    using Cons.prems by (auto simp: step_or_stay_def split: sum.splits intro: rel_inv)
  then have "rel (step_or_stay exec p s) (run_ops exec ps (step_or_stay exec p s))"
    by (rule Cons.IH)
  with step_rel [OF Cons.prems] show ?case by (auto intro: rel_trans)
qed

end

sublocale op_relation \<subseteq> op_invariant exec inv
  by unfold_locales (rule rel_inv)

end
