(* ===== verification/Json.thy ===== *)
theory Json
  imports Prelude
begin

text \<open>
  The JSON values the harness stores and exchanges (Python's \<open>None\<close>, \<open>bool\<close>, \<open>int\<close>,
  \<open>float\<close>, \<open>str\<close>, \<open>list\<close>/\<open>tuple\<close> and \<open>dict\<close>).  A dictionary is an association list in
  insertion order.  Floats are rationals: the sources only compare, add and subtract them.
\<close>

datatype json =
    JNull
  | JBool bool
  | JInt int
  | JFloat rat
  | JStr string
  | JArr "json list"
  | JObj "(string \<times> json) list"

type_synonym json_obj = "(string \<times> json) list"

text \<open>Python truthiness, as in \<open>value or default\<close> and \<open>if value\<close>.\<close>

fun truthy :: "json \<Rightarrow> bool" where
  "truthy JNull = False"
| "truthy (JBool b) = b"
| "truthy (JInt i) = (i \<noteq> 0)"
| "truthy (JFloat r) = (r \<noteq> 0)"
| "truthy (JStr s) = (s \<noteq> [])"
| "truthy (JArr xs) = (xs \<noteq> [])"
| "truthy (JObj kvs) = (kvs \<noteq> [])"

text \<open>\<open>d[k] = v\<close>, \<open>d.get(k)\<close> and \<open>d.update(e)\<close>.\<close>

abbreviation obj_set :: "string \<Rightarrow> json \<Rightarrow> json_obj \<Rightarrow> json_obj" where
  "obj_set \<equiv> AList.update"

abbreviation obj_get :: "json_obj \<Rightarrow> string \<Rightarrow> json option" where
  "obj_get \<equiv> map_of"

fun obj_merge :: "json_obj \<Rightarrow> json_obj \<Rightarrow> json_obj" where
  "obj_merge base [] = base"
| "obj_merge base ((k, v) # more) = obj_merge (obj_set k v base) more"

definition jstrs :: "string list \<Rightarrow> json" where
  "jstrs xs = JArr (map JStr xs)"

text \<open>
  \<open>str(value)\<close>: the text of a string is itself; floats, lists and dictionaries are printed by
  the interpreter's \<open>repr\<close>, a parameter.
\<close>

definition py_str :: "(json \<Rightarrow> string) \<Rightarrow> json \<Rightarrow> string" where
  "py_str repr v =
     (case v of JStr s \<Rightarrow> s
      | JNull \<Rightarrow> ''None''
      | JBool b \<Rightarrow> if b then ''True'' else ''False''
      | JInt i \<Rightarrow> int_str i
      | _ \<Rightarrow> repr v)"

lemma py_str_JStr [simp]: "py_str repr (JStr s) = s"
  by (simp add: py_str_def)

text \<open>\<open>for x in value\<close>; \<open>None\<close> is the \<open>TypeError\<close> of a value that cannot be iterated.\<close>

definition py_iter :: "json \<Rightarrow> json list option" where
  "py_iter v =
     (case v of JArr xs \<Rightarrow> Some xs
      | JStr s \<Rightarrow> Some (map (\<lambda>c. JStr [c]) s)
      | JObj kvs \<Rightarrow> Some (map (JStr \<circ> fst) kvs)
      | _ \<Rightarrow> None)"

text \<open>\<open>d.get(k, default)\<close>.\<close>

definition get_or :: "json \<Rightarrow> json_obj \<Rightarrow> string \<Rightarrow> json" where
  "get_or dflt d k = (case obj_get d k of None \<Rightarrow> dflt | Some v \<Rightarrow> v)"

lemma jstrs_inject [simp]: "jstrs xs = jstrs ys \<longleftrightarrow> xs = ys"
  by (auto simp: jstrs_def inj_map_eq_map inj_def)

lemma obj_get_set: "obj_get (obj_set k v d) k' = (if k' = k then Some v else obj_get d k')"
  by (simp add: update_conv')

lemma obj_get_merge:
  "distinct (map fst more) \<Longrightarrow>
   obj_get (obj_merge base more) k = (case obj_get more k of Some v \<Rightarrow> Some v | None \<Rightarrow> obj_get base k)"
proof (induction base more rule: obj_merge.induct)
  case (1 base)
  show ?case by simp
next
  case (2 base k' v more)
  then have "obj_get more k' = None" by (auto simp: map_of_eq_None_iff)
  with 2 show ?case by (auto simp: obj_get_set split: option.splits)
qed

text \<open>\<open>json.dumps(.., sort_keys=True)\<close> forgets the order of keys.\<close>

fun canonical :: "json \<Rightarrow> json"
  and canonical_list :: "json list \<Rightarrow> json list"
  and canonical_obj :: "json_obj \<Rightarrow> json_obj" where
  "canonical (JArr xs) = JArr (canonical_list xs)"
| "canonical (JObj kvs) = JObj (sort_key fst (canonical_obj kvs))"
| "canonical v = v"
| "canonical_list [] = []"
| "canonical_list (x # xs) = canonical x # canonical_list xs"
| "canonical_obj [] = []"
| "canonical_obj ((k, v) # kvs) = (k, canonical v) # canonical_obj kvs"

lemma canonical_jstrs [simp]: "canonical (jstrs xs) = jstrs xs"
proof -
  have "canonical_list (map JStr xs) = map JStr xs" by (induction xs) auto
  then show ?thesis by (simp add: jstrs_def)
qed

lemma canonical_list_map: "canonical_list xs = map canonical xs"
  by (induction xs) auto

lemma canonical_obj_map: "canonical_obj kvs = map (\<lambda>(k, v). (k, canonical v)) kvs"
  by (induction kvs) auto

lemma map_fst_canonical_obj [simp]: "map fst (canonical_obj kvs) = map fst kvs"
  by (induction kvs) auto

lemma map_of_canonical_obj: "map_of (canonical_obj kvs) k = map_option canonical (map_of kvs k)"
  by (induction kvs) auto

lemma sort_key_fst_map_of:
  "distinct (map fst kvs) \<Longrightarrow> map_of (sort_key fst kvs) = map_of kvs"
  by (subst map_of_inject_set) (simp_all add: distinct_map)

end
