(* ===== verification/Domain_Status.thy ===== *)
theory Domain_Status
  imports Json
begin

text \<open>
  \<open>agent/models.py\<close>, first part: the status enums of the control plane with their string
  values, the transition tables as functions from a status to the set of its successors, and
  the \<open>ensure_*_transition\<close> checks.  Each raise site of the module has its own
  constructor in the error types, which carries the values the message interpolates.
\<close>

section \<open>Status enumerations\<close>

datatype (plugins only: code size) goal_status =
    GOAL_NEW | GOAL_DISCOVERING | GOAL_AWAITING_PLAN_APPROVAL | GOAL_RUNNING | GOAL_REVISING
  | GOAL_VERIFYING | GOAL_REVIEWING | GOAL_PAUSED | GOAL_RECOVERING | GOAL_BLOCKED
  | GOAL_COMPLETED | GOAL_CANCELLED

primrec goal_value :: "goal_status \<Rightarrow> string" where
  "goal_value GOAL_NEW = ''new''"
| "goal_value GOAL_DISCOVERING = ''discovering''"
| "goal_value GOAL_AWAITING_PLAN_APPROVAL = ''awaiting_plan_approval''"
| "goal_value GOAL_RUNNING = ''running''"
| "goal_value GOAL_REVISING = ''revising''"
| "goal_value GOAL_VERIFYING = ''verifying''"
| "goal_value GOAL_REVIEWING = ''reviewing''"
| "goal_value GOAL_PAUSED = ''paused''"
| "goal_value GOAL_RECOVERING = ''recovering''"
| "goal_value GOAL_BLOCKED = ''blocked''"
| "goal_value GOAL_COMPLETED = ''completed''"
| "goal_value GOAL_CANCELLED = ''cancelled''"

definition goal_statuses :: "goal_status list" where
  "goal_statuses =
     [GOAL_NEW, GOAL_DISCOVERING, GOAL_AWAITING_PLAN_APPROVAL, GOAL_RUNNING, GOAL_REVISING,
      GOAL_VERIFYING, GOAL_REVIEWING, GOAL_PAUSED, GOAL_RECOVERING, GOAL_BLOCKED,
      GOAL_COMPLETED, GOAL_CANCELLED]"

datatype completion_disposition = VERIFIED | COMPLETED_WITH_LIMITATIONS

primrec disposition_value :: "completion_disposition \<Rightarrow> string" where
  "disposition_value VERIFIED = ''verified''"
| "disposition_value COMPLETED_WITH_LIMITATIONS = ''completed_with_limitations''"

datatype prompt_status =
  PROMPT_PENDING | PROMPT_RUNNING | PROMPT_COMPLETED | PROMPT_BLOCKED | PROMPT_CANCELLED

primrec prompt_value :: "prompt_status \<Rightarrow> string" where
  "prompt_value PROMPT_PENDING = ''pending''"
| "prompt_value PROMPT_RUNNING = ''running''"
| "prompt_value PROMPT_COMPLETED = ''completed''"
| "prompt_value PROMPT_BLOCKED = ''blocked''"
| "prompt_value PROMPT_CANCELLED = ''cancelled''"

datatype plan_status =
  PLAN_DRAFT | PLAN_PENDING_APPROVAL | PLAN_ACCEPTED | PLAN_REJECTED | PLAN_SUPERSEDED

primrec plan_value :: "plan_status \<Rightarrow> string" where
  "plan_value PLAN_DRAFT = ''draft''"
| "plan_value PLAN_PENDING_APPROVAL = ''pending_approval''"
| "plan_value PLAN_ACCEPTED = ''accepted''"
| "plan_value PLAN_REJECTED = ''rejected''"
| "plan_value PLAN_SUPERSEDED = ''superseded''"

datatype (plugins only: code size) task_status =
    TASK_PENDING | TASK_READY | TASK_IN_PROGRESS | TASK_VERIFYING | TASK_COMPLETED
  | TASK_FAILED | TASK_BLOCKED | TASK_CANCELLED | TASK_OBSOLETE | TASK_UNCERTAIN

primrec task_value :: "task_status \<Rightarrow> string" where
  "task_value TASK_PENDING = ''pending''"
| "task_value TASK_READY = ''ready''"
| "task_value TASK_IN_PROGRESS = ''in_progress''"
| "task_value TASK_VERIFYING = ''verifying''"
| "task_value TASK_COMPLETED = ''completed''"
| "task_value TASK_FAILED = ''failed''"
| "task_value TASK_BLOCKED = ''blocked''"
| "task_value TASK_CANCELLED = ''cancelled''"
| "task_value TASK_OBSOLETE = ''obsolete''"
| "task_value TASK_UNCERTAIN = ''uncertain''"

datatype delegation_status =
    DELEG_PENDING | DELEG_IN_PROGRESS | DELEG_COMPLETED | DELEG_FAILED | DELEG_CANCELLED
  | DELEG_UNCERTAIN

primrec delegation_value :: "delegation_status \<Rightarrow> string" where
  "delegation_value DELEG_PENDING = ''pending''"
| "delegation_value DELEG_IN_PROGRESS = ''in_progress''"
| "delegation_value DELEG_COMPLETED = ''completed''"
| "delegation_value DELEG_FAILED = ''failed''"
| "delegation_value DELEG_CANCELLED = ''cancelled''"
| "delegation_value DELEG_UNCERTAIN = ''uncertain''"

datatype (plugins only: code size) event_type =
    GOAL_CREATED | GOAL_STATUS_CHANGED | PLAN_CREATED | PLAN_REVISED | PLAN_SUBMITTED
  | PLAN_APPROVED | PLAN_REJECTED_EVENT | TASK_STATUS_CHANGED | EVIDENCE_ADDED
  | DELEGATION_CREATED | DELEGATION_STATUS_CHANGED | RECOVERY_PERFORMED

primrec event_value :: "event_type \<Rightarrow> string" where
  "event_value GOAL_CREATED = ''goal.created''"
| "event_value GOAL_STATUS_CHANGED = ''goal.status_changed''"
| "event_value PLAN_CREATED = ''plan.created''"
| "event_value PLAN_REVISED = ''plan.revised''"
| "event_value PLAN_SUBMITTED = ''plan.submitted''"
| "event_value PLAN_APPROVED = ''plan.approved''"
| "event_value PLAN_REJECTED_EVENT = ''plan.rejected''"
| "event_value TASK_STATUS_CHANGED = ''task.status_changed''"
| "event_value EVIDENCE_ADDED = ''evidence.added''"
| "event_value DELEGATION_CREATED = ''delegation.created''"
| "event_value DELEGATION_STATUS_CHANGED = ''delegation.status_changed''"
| "event_value RECOVERY_PERFORMED = ''recovery.performed''"

section \<open>Transition tables\<close>

primrec goal_transitions :: "goal_status \<Rightarrow> goal_status set" where
  "goal_transitions GOAL_NEW =
     {GOAL_DISCOVERING, GOAL_AWAITING_PLAN_APPROVAL, GOAL_PAUSED, GOAL_CANCELLED}"
| "goal_transitions GOAL_DISCOVERING =
     {GOAL_AWAITING_PLAN_APPROVAL, GOAL_PAUSED, GOAL_RECOVERING, GOAL_CANCELLED}"
| "goal_transitions GOAL_AWAITING_PLAN_APPROVAL =
     {GOAL_RUNNING, GOAL_REVISING, GOAL_PAUSED, GOAL_CANCELLED}"
| "goal_transitions GOAL_RUNNING =
     {GOAL_REVISING, GOAL_VERIFYING, GOAL_PAUSED, GOAL_RECOVERING, GOAL_BLOCKED, GOAL_CANCELLED}"
| "goal_transitions GOAL_REVISING =
     {GOAL_AWAITING_PLAN_APPROVAL, GOAL_RUNNING, GOAL_PAUSED, GOAL_RECOVERING, GOAL_CANCELLED}"
| "goal_transitions GOAL_VERIFYING =
     {GOAL_REVIEWING, GOAL_RUNNING, GOAL_REVISING, GOAL_PAUSED, GOAL_RECOVERING, GOAL_BLOCKED,
      GOAL_CANCELLED}"
| "goal_transitions GOAL_REVIEWING =
     {GOAL_COMPLETED, GOAL_RUNNING, GOAL_REVISING, GOAL_PAUSED, GOAL_RECOVERING, GOAL_BLOCKED,
      GOAL_CANCELLED}"
| "goal_transitions GOAL_PAUSED =
     {GOAL_DISCOVERING, GOAL_AWAITING_PLAN_APPROVAL, GOAL_RUNNING, GOAL_REVISING, GOAL_VERIFYING,
      GOAL_REVIEWING, GOAL_RECOVERING, GOAL_BLOCKED, GOAL_CANCELLED}"
| "goal_transitions GOAL_RECOVERING =
     {GOAL_RUNNING, GOAL_REVISING, GOAL_VERIFYING, GOAL_REVIEWING, GOAL_PAUSED, GOAL_BLOCKED,
      GOAL_CANCELLED}"
| "goal_transitions GOAL_BLOCKED =
     {GOAL_RUNNING, GOAL_REVISING, GOAL_PAUSED, GOAL_RECOVERING, GOAL_CANCELLED}"
| "goal_transitions GOAL_COMPLETED = {}"
| "goal_transitions GOAL_CANCELLED = {}"

primrec plan_transitions :: "plan_status \<Rightarrow> plan_status set" where
  "plan_transitions PLAN_DRAFT = {PLAN_PENDING_APPROVAL, PLAN_REJECTED, PLAN_SUPERSEDED}"
| "plan_transitions PLAN_PENDING_APPROVAL = {PLAN_ACCEPTED, PLAN_REJECTED, PLAN_SUPERSEDED}"
| "plan_transitions PLAN_ACCEPTED = {PLAN_SUPERSEDED}"
| "plan_transitions PLAN_REJECTED = {PLAN_SUPERSEDED}"
| "plan_transitions PLAN_SUPERSEDED = {}"

primrec task_transitions :: "task_status \<Rightarrow> task_status set" where
  "task_transitions TASK_PENDING =
     {TASK_READY, TASK_IN_PROGRESS, TASK_COMPLETED, TASK_BLOCKED, TASK_CANCELLED, TASK_OBSOLETE}"
| "task_transitions TASK_READY =
     {TASK_PENDING, TASK_IN_PROGRESS, TASK_BLOCKED, TASK_CANCELLED, TASK_OBSOLETE}"
| "task_transitions TASK_IN_PROGRESS =
     {TASK_PENDING, TASK_READY, TASK_VERIFYING, TASK_COMPLETED, TASK_FAILED, TASK_BLOCKED,
      TASK_CANCELLED, TASK_OBSOLETE, TASK_UNCERTAIN}"
| "task_transitions TASK_VERIFYING =
     {TASK_PENDING, TASK_READY, TASK_IN_PROGRESS, TASK_COMPLETED, TASK_FAILED, TASK_BLOCKED,
      TASK_CANCELLED, TASK_OBSOLETE, TASK_UNCERTAIN}"
| "task_transitions TASK_COMPLETED = {TASK_PENDING, TASK_READY, TASK_OBSOLETE}"
| "task_transitions TASK_FAILED =
     {TASK_PENDING, TASK_READY, TASK_IN_PROGRESS, TASK_BLOCKED, TASK_CANCELLED, TASK_OBSOLETE}"
| "task_transitions TASK_BLOCKED =
     {TASK_PENDING, TASK_READY, TASK_IN_PROGRESS, TASK_CANCELLED, TASK_OBSOLETE}"
| "task_transitions TASK_CANCELLED = {TASK_PENDING, TASK_READY, TASK_OBSOLETE}"
| "task_transitions TASK_OBSOLETE = {TASK_PENDING, TASK_READY}"
| "task_transitions TASK_UNCERTAIN =
     {TASK_PENDING, TASK_READY, TASK_IN_PROGRESS, TASK_VERIFYING, TASK_COMPLETED, TASK_FAILED,
      TASK_BLOCKED, TASK_CANCELLED, TASK_OBSOLETE}"

primrec delegation_transitions :: "delegation_status \<Rightarrow> delegation_status set" where
  "delegation_transitions DELEG_PENDING = {DELEG_IN_PROGRESS, DELEG_CANCELLED}"
| "delegation_transitions DELEG_IN_PROGRESS =
     {DELEG_COMPLETED, DELEG_FAILED, DELEG_CANCELLED, DELEG_UNCERTAIN}"
| "delegation_transitions DELEG_COMPLETED = {}"
| "delegation_transitions DELEG_FAILED = {DELEG_PENDING, DELEG_IN_PROGRESS, DELEG_CANCELLED}"
| "delegation_transitions DELEG_CANCELLED = {}"
| "delegation_transitions DELEG_UNCERTAIN =
     {DELEG_PENDING, DELEG_IN_PROGRESS, DELEG_COMPLETED, DELEG_FAILED, DELEG_CANCELLED}"

section \<open>Errors\<close>

datatype task_defect =
    NeedsIdAndTitle | BadTaskId | TextExceedsLimits | NeedsCriteria | NeedsVerification
  | BadCriteria | BadVerification | TooManyDependencies | BadRisk string | NegativeAttempts

datatype plan_defect =
  NeedsPlanIds | NeedsPlanSummary | BadTaskCount | ApplicabilityLimits | StrategyTooLong

datatype prompt_defect = NeedsPromptFields | BadPromptMode | BadPromptText | BadPromptSequence

datatype graph_defect =
    DuplicateTaskId string | DuplicateDependencies string
  | UnknownDependencies string "string list" | SelfDependency string
  | UnknownParent string string | SelfParent string
  | DependencyCycle "string list" | ParentCycle string

datatype (plugins only: code size) domain_error =
    InvalidTransition string string string
  | RoleRequiresNameAndMission | RoleExceedsLimit
  | GoalRequiresIdAndObjective | GoalObjectiveTooLong
  | InvalidPrompt prompt_defect
  | InvalidTask string task_defect
  | InvalidPlan plan_defect
  | EvidenceRequiresFields | DelegationRequiresFields | EventRequiresType
  | TaskGraphError graph_defect
  | DictKeyError string

definition ensure_transition ::
  "('s \<Rightarrow> string) \<Rightarrow> ('s \<Rightarrow> 's set) \<Rightarrow> string \<Rightarrow> 's \<Rightarrow> 's \<Rightarrow> domain_error + unit" where
  "ensure_transition val graph entity current target =
     (if current = target then Inr ()
      else if target \<notin> graph current
      then Inl (InvalidTransition entity (val current) (val target))
      else Inr ())"

definition ensure_goal_transition :: "goal_status \<Rightarrow> goal_status \<Rightarrow> domain_error + unit" where
  "ensure_goal_transition = ensure_transition goal_value goal_transitions ''goal''"

definition ensure_plan_transition :: "plan_status \<Rightarrow> plan_status \<Rightarrow> domain_error + unit" where
  "ensure_plan_transition = ensure_transition plan_value plan_transitions ''plan''"

definition ensure_task_transition :: "task_status \<Rightarrow> task_status \<Rightarrow> domain_error + unit" where
  "ensure_task_transition = ensure_transition task_value task_transitions ''task''"

definition ensure_delegation_transition ::
  "delegation_status \<Rightarrow> delegation_status \<Rightarrow> domain_error + unit" where
  "ensure_delegation_transition =
     ensure_transition delegation_value delegation_transitions ''delegation''"

definition terminal_goal_statuses :: "goal_status set" where
  "terminal_goal_statuses = {GOAL_COMPLETED, GOAL_CANCELLED}"

definition in_flight_task_statuses :: "task_status set" where
  "in_flight_task_statuses = {TASK_IN_PROGRESS, TASK_VERIFYING}"

definition in_flight_delegation_statuses :: "delegation_status set" where
  "in_flight_delegation_statuses = {DELEG_IN_PROGRESS}"

section \<open>Laws of the enums and of the graphs\<close>

definition plan_statuses :: "plan_status list" where
  "plan_statuses =
     [PLAN_DRAFT, PLAN_PENDING_APPROVAL, PLAN_ACCEPTED, PLAN_REJECTED, PLAN_SUPERSEDED]"

definition task_statuses :: "task_status list" where
  "task_statuses =
     [TASK_PENDING, TASK_READY, TASK_IN_PROGRESS, TASK_VERIFYING, TASK_COMPLETED, TASK_FAILED,
      TASK_BLOCKED, TASK_CANCELLED, TASK_OBSOLETE, TASK_UNCERTAIN]"

definition delegation_statuses :: "delegation_status list" where
  "delegation_statuses =
     [DELEG_PENDING, DELEG_IN_PROGRESS, DELEG_COMPLETED, DELEG_FAILED, DELEG_CANCELLED,
      DELEG_UNCERTAIN]"

definition prompt_statuses :: "prompt_status list" where
  "prompt_statuses =
     [PROMPT_PENDING, PROMPT_RUNNING, PROMPT_COMPLETED, PROMPT_BLOCKED, PROMPT_CANCELLED]"

lemma goal_value_inj: "goal_value x = goal_value y \<Longrightarrow> x = y"
  by (cases x; cases y; simp)

lemma task_value_inj: "task_value x = task_value y \<Longrightarrow> x = y"
  by (cases x; cases y; simp)

interpretation goal_enum: py_enum goal_statuses goal_value
proof
  fix x show "x \<in> set goal_statuses" by (cases x) (simp_all add: goal_statuses_def)
qed (rule goal_value_inj)

interpretation plan_enum: py_enum plan_statuses plan_value
proof
  fix x show "x \<in> set plan_statuses" by (cases x) (simp_all add: plan_statuses_def)
next
  fix x y assume "plan_value x = plan_value y" then show "x = y" by (cases x; cases y; simp)
qed

interpretation task_enum: py_enum task_statuses task_value
proof
  fix x show "x \<in> set task_statuses" by (cases x) (simp_all add: task_statuses_def)
qed (rule task_value_inj)

interpretation delegation_enum: py_enum delegation_statuses delegation_value
proof
  fix x show "x \<in> set delegation_statuses" by (cases x) (simp_all add: delegation_statuses_def)
next
  fix x y assume "delegation_value x = delegation_value y"
  then show "x = y" by (cases x; cases y; simp)
qed

interpretation prompt_enum: py_enum prompt_statuses prompt_value
proof
  fix x show "x \<in> set prompt_statuses" by (cases x) (simp_all add: prompt_statuses_def)
next
  fix x y assume "prompt_value x = prompt_value y" then show "x = y" by (cases x; cases y; simp)
qed

text \<open>A move the graph allows: staying put or following an edge.\<close>

definition moves :: "('s \<Rightarrow> 's set) \<Rightarrow> 's \<Rightarrow> 's \<Rightarrow> bool" where
  "moves graph c t \<longleftrightarrow> c = t \<or> t \<in> graph c"

lemma moves_refl [simp, intro]: "moves graph c c"
  by (simp add: moves_def)

text \<open>A history: every status reached from the one before by a checked transition.\<close>

fun ensured_run :: "('s \<Rightarrow> 's \<Rightarrow> 'e + unit) \<Rightarrow> 's \<Rightarrow> 's list \<Rightarrow> bool" where
  "ensured_run ensure s [] = True"
| "ensured_run ensure s (t # ts) = (ensure s t = Inr () \<and> ensured_run ensure t ts)"

locale status_graph =
  fixes val :: "'s \<Rightarrow> string" and graph :: "'s \<Rightarrow> 's set" and entity :: string
    and terminal :: "'s set"
  assumes terminal_stuck: "s \<in> terminal \<Longrightarrow> graph s = {}"
begin

lemma ensure_iff: "ensure_transition val graph entity c t = Inr u \<longleftrightarrow> moves graph c t"
  by (auto simp: ensure_transition_def moves_def)

lemma ensure_error:
  "ensure_transition val graph entity c t = Inl e \<longleftrightarrow>
   \<not> moves graph c t \<and> e = InvalidTransition entity (val c) (val t)"
  by (auto simp: ensure_transition_def moves_def)

lemma moves_terminal: "s \<in> terminal \<Longrightarrow> moves graph s t \<Longrightarrow> t = s"
  by (auto simp: moves_def dest: terminal_stuck)

lemma run_terminal:
  "s \<in> terminal \<Longrightarrow> ensured_run (ensure_transition val graph entity) s ts \<Longrightarrow> set ts \<subseteq> {s}"
  by (induction ts) (auto simp: ensure_iff dest: moves_terminal)

lemma rtranclp_terminal: "(moves graph)\<^sup>*\<^sup>* s t \<Longrightarrow> s \<in> terminal \<Longrightarrow> t = s"
  by (induction rule: rtranclp_induct) (auto dest: moves_terminal)

end

interpretation goal_graph: status_graph goal_value goal_transitions "''goal''" terminal_goal_statuses
  by unfold_locales (auto simp: terminal_goal_statuses_def)

interpretation plan_graph: status_graph plan_value plan_transitions "''plan''" "{PLAN_SUPERSEDED}"
  by unfold_locales auto

interpretation task_graph: status_graph task_value task_transitions "''task''" "{}"
  by unfold_locales auto

interpretation delegation_graph:
  status_graph delegation_value delegation_transitions "''delegation''" "{DELEG_COMPLETED, DELEG_CANCELLED}"
  by unfold_locales auto

lemmas ensure_iffs =
  goal_graph.ensure_iff [folded ensure_goal_transition_def]
  plan_graph.ensure_iff [folded ensure_plan_transition_def]
  task_graph.ensure_iff [folded ensure_task_transition_def]
  delegation_graph.ensure_iff [folded ensure_delegation_transition_def]

lemmas ensure_errors =
  goal_graph.ensure_error [folded ensure_goal_transition_def]
  plan_graph.ensure_error [folded ensure_plan_transition_def]
  task_graph.ensure_error [folded ensure_task_transition_def]
  delegation_graph.ensure_error [folded ensure_delegation_transition_def]

lemma goal_stuck_iff: "goal_transitions s = {} \<longleftrightarrow> s \<in> terminal_goal_statuses"
  by (cases s) (simp_all add: terminal_goal_statuses_def)

lemma completed_only_from_reviewing: "GOAL_COMPLETED \<in> goal_transitions s \<longleftrightarrow> s = GOAL_REVIEWING"
  by (cases s) simp_all

lemma cancel_always_possible: "s \<notin> terminal_goal_statuses \<Longrightarrow> GOAL_CANCELLED \<in> goal_transitions s"
  by (cases s) (simp_all add: terminal_goal_statuses_def)

lemma run_to_completed:
  "ensured_run ensure_goal_transition s (ts @ [GOAL_COMPLETED]) \<Longrightarrow>
   last (s # ts) \<in> {GOAL_REVIEWING, GOAL_COMPLETED}"
  by (induction ts arbitrary: s)
     (auto simp: ensure_iffs moves_def completed_only_from_reviewing split: if_splits)

lemma run_completed_reviewed:
  assumes "ensured_run ensure_goal_transition s ts" "GOAL_COMPLETED \<in> set ts" "s \<noteq> GOAL_COMPLETED"
  shows "GOAL_REVIEWING \<in> set (s # ts)"
  using assms
proof (induction ts arbitrary: s)
  case Nil
  then show ?case by simp
next
  case (Cons t ts)
  show ?case
  proof (cases "t = GOAL_COMPLETED")
    case True
    with Cons.prems show ?thesis
      by (auto simp: ensure_iffs moves_def completed_only_from_reviewing)
  next
    case False
    with Cons.prems have "GOAL_REVIEWING \<in> set (t # ts)" by (intro Cons.IH) auto
    then show ?thesis by auto
  qed
qed

end
