(* ===== verification/Domain_Types.thy ===== *)
theory Domain_Types
  imports Domain_Status
begin

text \<open>
  \<open>agent/models.py\<close>, second part: the dataclasses.  A dataclass is a record, its
  \<open>__post_init__\<close> the function \<open>mk_*\<close> that checks the fields in the source's order and
  returns the first error or the (normalised) record.  Status fields are already typed, so
  the \<open>Status(value)\<close> coercions of the constructors are identities here.  Timestamps are
  integers and identifiers strings, both supplied by the caller (\<open>utc_now\<close> and
  \<open>new_id\<close> draw them from the clock and from \<open>uuid4\<close>).
\<close>

section \<open>Roles\<close>

record role_profile =
  rp_name :: string
  rp_mission :: string
  rp_expertise :: "string list"
  rp_constraints :: "string list"
  rp_deliverables :: "string list"
  rp_tool_policy :: json_obj
  rp_metadata :: json_obj

definition default_role :: role_profile where
  "default_role =
     \<lparr>rp_name = ''focused worker'',
      rp_mission = ''Complete the assigned task and provide verifiable evidence.'',
      rp_expertise = [], rp_constraints = [], rp_deliverables = [],
      rp_tool_policy = [], rp_metadata = []\<rparr>"

definition mk_role :: "role_profile \<Rightarrow> domain_error + role_profile" where
  "mk_role r =
     (if strip (rp_name r) = [] \<or> strip (rp_mission r) = [] then Inl RoleRequiresNameAndMission
      else if 200 < length (rp_name r) \<or> 4000 < length (rp_mission r) then Inl RoleExceedsLimit
      else Inr r)"

definition role_to_dict :: "role_profile \<Rightarrow> json" where
  "role_to_dict r = JObj
     [(''name'', JStr (rp_name r)),
      (''mission'', JStr (rp_mission r)),
      (''expertise'', jstrs (rp_expertise r)),
      (''constraints'', jstrs (rp_constraints r)),
      (''deliverables'', jstrs (rp_deliverables r)),
      (''tool_policy'', JObj (rp_tool_policy r)),
      (''metadata'', JObj (rp_metadata r))]"

section \<open>Goals\<close>

record goal =
  g_id :: string
  g_objective :: string
  g_success_criteria :: "string list"
  g_constraints :: "string list"
  g_status :: goal_status
  g_active_plan_revision :: "int option"
  g_metadata :: json_obj
  g_created_at :: int
  g_updated_at :: int

definition mk_goal :: "goal \<Rightarrow> domain_error + goal" where
  "mk_goal g =
     (if g_id g = [] \<or> strip (g_objective g) = [] then Inl GoalRequiresIdAndObjective
      else if 20000 < length (g_objective g) then Inl GoalObjectiveTooLong
      else Inr g)"

section \<open>Queued prompts\<close>

record queued_prompt =
  q_id :: string
  q_session_id :: string
  q_sequence :: int
  q_text :: string
  q_mode :: string
  q_status :: prompt_status
  q_goal_id :: "string option"
  q_error :: string
  q_created_at :: int
  q_started_at :: "int option"
  q_completed_at :: "int option"

definition mk_prompt :: "queued_prompt \<Rightarrow> domain_error + queued_prompt" where
  "mk_prompt q =
     (if q_id q = [] \<or> q_session_id q = [] \<or> strip (q_text q) = []
      then Inl (InvalidPrompt NeedsPromptFields)
      else let normalized_mode = casefold (strip (q_mode q)) in
        if normalized_mode \<notin> {''plan'', ''normal'', ''ultra''}
        then Inl (InvalidPrompt BadPromptMode)
        else if 20000 < length (q_text q) \<or> CHR 0x00 \<in> set (q_text q)
        then Inl (InvalidPrompt BadPromptText)
        else if q_sequence q < 1 then Inl (InvalidPrompt BadPromptSequence)
        else Inr (q\<lparr>q_mode := normalized_mode\<rparr>))"

section \<open>Tasks\<close>

record task =
  t_id :: string
  t_title :: string
  t_description :: string
  t_goal_id :: string
  t_plan_revision :: int
  t_parent_id :: "string option"
  t_status :: task_status
  t_depends_on :: "string list"
  t_acceptance_criteria :: "string list"
  t_verification :: "string list"
  t_role :: role_profile
  t_mode :: string
  t_risk :: string
  t_priority :: int
  t_attempts :: int
  t_origin :: string
  t_metadata :: json_obj
  t_created_at :: int
  t_updated_at :: int

text \<open>\<open>re.fullmatch(r"[A-Za-z0-9][A-Za-z0-9_.-]{0,23}", id)\<close>.\<close>

definition id_head_char :: "char \<Rightarrow> bool" where
  "id_head_char c \<longleftrightarrow> is_upper_letter c \<or> is_lower_letter c \<or> is_digit c"

definition id_tail_char :: "char \<Rightarrow> bool" where
  "id_tail_char c \<longleftrightarrow> id_head_char c \<or> c \<in> set ''_.-''"

definition valid_task_id :: "string \<Rightarrow> bool" where
  "valid_task_id s =
     (case s of [] \<Rightarrow> False
      | c # cs \<Rightarrow> id_head_char c \<and> list_all id_tail_char cs \<and> length cs \<le> 23)"

definition bad_line :: "string \<Rightarrow> bool" where
  "bad_line item \<longleftrightarrow> strip item = [] \<or> 1000 < length item"

definition mk_task :: "task \<Rightarrow> domain_error + task" where
  "mk_task t =
     (if t_id t = [] \<or> strip (t_title t) = [] then Inl (InvalidTask (t_id t) NeedsIdAndTitle)
      else if \<not> valid_task_id (t_id t) then Inl (InvalidTask (t_id t) BadTaskId)
      else if 180 < length (t_title t) \<or> 4000 < length (t_description t)
      then Inl (InvalidTask (t_id t) TextExceedsLimits)
      else if t_acceptance_criteria t = [] then Inl (InvalidTask (t_id t) NeedsCriteria)
      else if t_verification t = [] then Inl (InvalidTask (t_id t) NeedsVerification)
      else if 20 < length (t_acceptance_criteria t) \<or> list_ex bad_line (t_acceptance_criteria t)
      then Inl (InvalidTask (t_id t) BadCriteria)
      else if 20 < length (t_verification t) \<or> list_ex bad_line (t_verification t)
      then Inl (InvalidTask (t_id t) BadVerification)
      else if 80 < length (t_depends_on t) then Inl (InvalidTask (t_id t) TooManyDependencies)
      else if t_risk t \<notin> {''low'', ''medium'', ''high'', ''critical''}
      then Inl (InvalidTask (t_id t) (BadRisk (t_risk t)))
      else if t_attempts t < 0 then Inl (InvalidTask (t_id t) NegativeAttempts)
      else Inr t)"

section \<open>Evidence, delegations, events, approvals\<close>

record evidence =
  e_goal_id :: string
  e_summary :: string
  e_id :: string
  e_plan_revision :: "int option"
  e_task_id :: "string option"
  e_kind :: string
  e_artifact_uri :: "string option"
  e_data :: json_obj
  e_created_by :: string
  e_verified :: bool
  e_created_at :: int

definition mk_evidence :: "evidence \<Rightarrow> domain_error + evidence" where
  "mk_evidence e =
     (if e_id e = [] \<or> e_goal_id e = [] \<or> strip (e_summary e) = [] then Inl EvidenceRequiresFields
      else Inr e)"

record delegation =
  d_goal_id :: string
  d_task_id :: string
  d_brief :: string
  d_id :: string
  d_plan_revision :: int
  d_parent_id :: "string option"
  d_worker_id :: "string option"
  d_role :: role_profile
  d_status :: delegation_status
  d_attempt :: int
  d_result_summary :: "string option"
  d_error :: "string option"
  d_metadata :: json_obj
  d_created_at :: int
  d_updated_at :: int

definition mk_delegation :: "delegation \<Rightarrow> domain_error + delegation" where
  "mk_delegation d =
     (if d_id d = [] \<or> d_goal_id d = [] \<or> d_task_id d = [] \<or> strip (d_brief d) = []
      then Inl DelegationRequiresFields else Inr d)"

record runtime_event =
  ev_event_type :: string
  ev_id :: string
  ev_sequence :: "int option"
  ev_goal_id :: "string option"
  ev_entity_type :: "string option"
  ev_entity_id :: "string option"
  ev_payload :: json_obj
  ev_created_at :: int

definition mk_event :: "runtime_event \<Rightarrow> domain_error + runtime_event" where
  "mk_event ev = (if ev_event_type ev = [] then Inl EventRequiresType else Inr ev)"

record plan_approval =
  ap_id :: string
  ap_goal_id :: string
  ap_plan_id :: string
  ap_revision :: int
  ap_fingerprint :: string
  ap_approved_by :: string
  ap_approved_at :: int

record recovery_report =
  rr_task_ids :: "string list"
  rr_delegation_ids :: "string list"
  rr_action_ids :: "string list"
  rr_goal_ids :: "string list"

definition recovery_changed :: "recovery_report \<Rightarrow> bool" where
  "recovery_changed r \<longleftrightarrow>
     rr_task_ids r \<noteq> [] \<or> rr_delegation_ids r \<noteq> [] \<or> rr_action_ids r \<noteq> [] \<or> rr_goal_ids r \<noteq> []"

section \<open>Facts about the constructors\<close>

lemma mk_goal_Inr: "mk_goal g = Inr h \<longleftrightarrow>
    h = g \<and> g_id g \<noteq> [] \<and> \<not> blank (g_objective g) \<and> length (g_objective g) \<le> 20000"
  by (auto simp: mk_goal_def strip_empty_iff)

lemma mk_evidence_Inr: "mk_evidence e = Inr f \<longleftrightarrow>
    f = e \<and> e_id e \<noteq> [] \<and> e_goal_id e \<noteq> [] \<and> \<not> blank (e_summary e)"
  by (auto simp: mk_evidence_def strip_empty_iff)

lemma mk_delegation_Inr: "mk_delegation d = Inr f \<Longrightarrow> f = d"
  by (auto simp: mk_delegation_def split: if_splits)

lemma mk_event_Inr: "mk_event ev = Inr ew \<longleftrightarrow> ew = ev \<and> ev_event_type ev \<noteq> []"
  by (auto simp: mk_event_def)

lemma mk_task_Inr:
  "mk_task t = Inr u \<Longrightarrow> u = t \<and> valid_task_id (t_id t) \<and> t_acceptance_criteria t \<noteq> [] \<and>
     t_verification t \<noteq> [] \<and> list_all (\<lambda>c. \<not> bad_line c) (t_acceptance_criteria t) \<and>
     list_all (\<lambda>c. \<not> bad_line c) (t_verification t) \<and> length (t_depends_on t) \<le> 80 \<and> 0 \<le> t_attempts t"
  by (auto simp: mk_task_def list_ex_iff list_all_iff split: if_splits)

definition task_ok :: "task \<Rightarrow> bool" where
  "task_ok t \<longleftrightarrow>
     t_id t \<noteq> [] \<and> strip (t_title t) \<noteq> [] \<and> valid_task_id (t_id t) \<and> length (t_title t) \<le> 180 \<and>
     length (t_description t) \<le> 4000 \<and> t_acceptance_criteria t \<noteq> [] \<and> t_verification t \<noteq> [] \<and>
     length (t_acceptance_criteria t) \<le> 20 \<and> \<not> list_ex bad_line (t_acceptance_criteria t) \<and>
     length (t_verification t) \<le> 20 \<and> \<not> list_ex bad_line (t_verification t) \<and>
     length (t_depends_on t) \<le> 80 \<and> t_risk t \<in> {''low'', ''medium'', ''high'', ''critical''} \<and>
     0 \<le> t_attempts t"

lemma mk_task_iff: "mk_task t = Inr u \<longleftrightarrow> u = t \<and> task_ok t"
proof -
  define risks where "risks = {''low'', ''medium'', ''high'', ''critical''}"
  show ?thesis
    unfolding mk_task_def task_ok_def risks_def [symmetric] by (auto simp: not_less)
qed

text \<open>Building a queued prompt is idempotent: the stored mode is already normalised.\<close>

lemma mk_prompt_Inr:
  "mk_prompt q = Inr p \<longleftrightarrow>
     (let m = casefold (strip (q_mode q)) in
      q_id q \<noteq> [] \<and> q_session_id q \<noteq> [] \<and> \<not> blank (q_text q) \<and>
      m \<in> {''plan'', ''normal'', ''ultra''} \<and> length (q_text q) \<le> 20000 \<and>
      CHR 0x00 \<notin> set (q_text q) \<and> 1 \<le> q_sequence q \<and> p = q\<lparr>q_mode := m\<rparr>)"
proof -
  define M where "M = {''plan'', ''normal'', ''ultra''}"
  define m where "m = casefold (strip (q_mode q))"
  show ?thesis
    unfolding mk_prompt_def Let_def M_def [symmetric] m_def [symmetric]
    by (auto simp: strip_empty_iff)
qed

lemma casefold_strip_modes: "m \<in> {''plan'', ''normal'', ''ultra''} \<Longrightarrow> casefold (strip m) = m"
proof -
  have "casefold (strip ''plan'') = ''plan''" by code_simp
  moreover have "casefold (strip ''normal'') = ''normal''" by code_simp
  moreover have "casefold (strip ''ultra'') = ''ultra''" by code_simp
  moreover assume "m \<in> {''plan'', ''normal'', ''ultra''}"
  ultimately show ?thesis by blast
qed

lemma mk_prompt_idem:
  assumes "mk_prompt q = Inr p"
  shows "mk_prompt p = Inr p"
proof -
  let ?m = "casefold (strip (q_mode q))"
  have p: "p = q\<lparr>q_mode := ?m\<rparr>" and m: "?m \<in> {''plan'', ''normal'', ''ultra''}"
    using assms by (simp_all only: mk_prompt_Inr Let_def)
  have "casefold (strip ?m) = ?m" using m by (rule casefold_strip_modes)
  then show ?thesis
    using assms unfolding mk_prompt_Inr Let_def p by simp
qed

end
