(* ===== verification/Task_Graph.thy ===== *)
theory Task_Graph
  imports Domain_Types
begin

text \<open>
  \<open>validate_task_dag\<close> of \<open>agent/models.py\<close>: the check every plan passes before it is
  stored.  It rejects malformed links, runs Kahn's algorithm over the dependency graph with a
  sorted ready list, and walks every parent chain.  The dictionaries \<open>indegree\<close> and
  \<open>task_by_id\<close> are association lists; the list \<open>dependants[x]\<close> is computed from the
  tasks.  The theorems give its exact acceptance condition and the order it returns.
\<close>

section \<open>The algorithm\<close>

fun duplicate_id :: "string list \<Rightarrow> task list \<Rightarrow> string option" where
  "duplicate_id seen [] = None"
| "duplicate_id seen (t # ts) =
     (if t_id t \<in> set seen then Some (t_id t) else duplicate_id (t_id t # seen) ts)"

definition check_links :: "string list \<Rightarrow> task \<Rightarrow> domain_error + unit" where
  "check_links ids t =
     (let missing = filter (\<lambda>d. d \<notin> set ids) (sorted_set (t_depends_on t)) in
      if length (remdups (t_depends_on t)) \<noteq> length (t_depends_on t)
      then Inl (TaskGraphError (DuplicateDependencies (t_id t)))
      else if missing \<noteq> [] then Inl (TaskGraphError (UnknownDependencies (t_id t) missing))
      else if t_id t \<in> set (t_depends_on t) then Inl (TaskGraphError (SelfDependency (t_id t)))
      else case t_parent_id t of
          None \<Rightarrow> Inr ()
        | Some p \<Rightarrow>
            if p \<notin> set ids then Inl (TaskGraphError (UnknownParent (t_id t) p))
            else if p = t_id t then Inl (TaskGraphError (SelfParent (t_id t)))
            else Inr ())"

fun check_all_links :: "string list \<Rightarrow> task list \<Rightarrow> domain_error + unit" where
  "check_all_links ids [] = Inr ()"
| "check_all_links ids (t # ts) =
     (case check_links ids t of Inl e \<Rightarrow> Inl e | Inr _ \<Rightarrow> check_all_links ids ts)"

definition dependants_of :: "task list \<Rightarrow> string \<Rightarrow> string list" where
  "dependants_of ts x = [t_id t. t \<leftarrow> ts, d \<leftarrow> t_depends_on t, d = x]"

definition initial_indegree :: "task list \<Rightarrow> (string \<times> int) list" where
  "initial_indegree ts = map (\<lambda>t. (t_id t, int (length (t_depends_on t)))) ts"

text \<open>The inner loop: decrement every dependant, queue it when it reaches zero.\<close>

fun relax :: "string list \<Rightarrow> (string \<times> int) list \<Rightarrow> string list \<Rightarrow>
    (string \<times> int) list \<times> string list" where
  "relax [] indeg ready = (indeg, ready)"
| "relax (d # ds) indeg ready =
     (let indeg' = AList.map_entry d (\<lambda>n. n - 1) indeg in
      if map_of indeg' d = Some 0 then relax ds indeg' (sort (ready @ [d]))
      else relax ds indeg' ready)"

definition kahn_weight :: "(string \<times> int) list \<Rightarrow> string list \<Rightarrow> nat" where
  "kahn_weight indeg ready = 2 * sum_list (map (nat \<circ> snd) indeg) + length ready"

lemma map_of_map_entry: "map_of (AList.map_entry k f al) k' =
    (if k' = k then map_option f (map_of al k) else map_of al k')"
  by (induction al) auto

lemma sum_decrement:
  "map_of al d = Some n \<Longrightarrow> 0 < n \<Longrightarrow>
   Suc (sum_list (map (nat \<circ> snd) (AList.map_entry d (\<lambda>n. n - 1) al))) = sum_list (map (nat \<circ> snd) al)"
  by (induction al) (auto split: if_splits)

lemma sum_decrement_le:
  "sum_list (map (nat \<circ> snd) (AList.map_entry d (\<lambda>n. n - 1) al)) \<le> sum_list (map (nat \<circ> snd) al)"
  by (induction al) auto

lemma relax_weight:
  "relax ds indeg ready = (indeg', ready') \<Longrightarrow> kahn_weight indeg' ready' \<le> kahn_weight indeg ready"
proof (induction ds indeg ready rule: relax.induct)
  case (1 indeg ready)
  then show ?case by simp
next
  case (2 d ds indeg ready)
  let ?i = "AList.map_entry d (\<lambda>n. n - 1) indeg"
  show ?case
  proof (cases "map_of ?i d = Some 0")
    case True
    then have "map_of indeg d = Some 1" by (auto simp: map_of_map_entry)
    then have "kahn_weight ?i (sort (ready @ [d])) \<le> kahn_weight indeg ready"
      using sum_decrement [of indeg d 1] by (simp add: kahn_weight_def)
    moreover have "kahn_weight indeg' ready' \<le> kahn_weight ?i (sort (ready @ [d]))"
      using 2 True by (simp add: Let_def)
    ultimately show ?thesis by linarith
  next
    case False
    then have "kahn_weight indeg' ready' \<le> kahn_weight ?i ready"
      using 2 by (simp add: Let_def)
    with sum_decrement_le [of d indeg] show ?thesis by (simp add: kahn_weight_def)
  qed
qed

text \<open>The outer loop: \<open>ready.pop(0)\<close>, append, relax.\<close>

function kahn :: "task list \<Rightarrow> (string \<times> int) list \<Rightarrow> string list \<Rightarrow> string list \<Rightarrow>
    (string \<times> int) list \<times> string list" where
  "kahn ts indeg [] ordered = (indeg, ordered)"
| "kahn ts indeg (x # ready) ordered =
     (case relax (sort (dependants_of ts x)) indeg ready of
        (indeg', ready') \<Rightarrow> kahn ts indeg' ready' (ordered @ [x]))"
  by pat_completeness auto
termination
  by (relation "measure (\<lambda>(ts, indeg, ready, ordered). kahn_weight indeg ready)")
     (simp, simp del: relax.simps, drule sym, drule relax_weight, simp add: kahn_weight_def)

text \<open>One parent chain: the set of seen identifiers grows inside the keys of the dictionary.\<close>

lemma filter_unseen_decreases:
  assumes "map_of al c = Some v" "c \<notin> set seen"
  shows "length (filter (\<lambda>kv. fst kv \<notin> set (c # seen)) al) < length (filter (\<lambda>kv. fst kv \<notin> set seen) al)"
  using assms
proof (induction al)
  case Nil
  then show ?case by simp
next
  case (Cons kv al)
  have "length (filter (\<lambda>kv. fst kv \<notin> set (c # seen)) al) \<le> length (filter (\<lambda>kv. fst kv \<notin> set seen) al)"
    by (induction al) auto
  with Cons show ?case by (auto split: if_splits)
qed

function parent_walk :: "(string \<times> string option) list \<Rightarrow> string \<Rightarrow> string list \<Rightarrow> string \<Rightarrow>
    domain_error + unit" where
  "parent_walk parents start seen cur =
     (if cur \<in> set seen then Inl (TaskGraphError (ParentCycle start))
      else case map_of parents cur of
          None \<Rightarrow> Inl (DictKeyError cur)
        | Some None \<Rightarrow> Inr ()
        | Some (Some p) \<Rightarrow> parent_walk parents start (cur # seen) p)"
  by pat_completeness auto
termination
  by (relation "measure (\<lambda>(parents, start, seen, cur). length (filter (\<lambda>kv. fst kv \<notin> set seen) parents))")
     (simp, simp del: set_simps, rule filter_unseen_decreases, auto)

declare parent_walk.simps [simp del]

definition parent_table :: "task list \<Rightarrow> (string \<times> string option) list" where
  "parent_table ts = map (\<lambda>t. (t_id t, t_parent_id t)) ts"

fun check_parents :: "(string \<times> string option) list \<Rightarrow> string list \<Rightarrow> domain_error + unit" where
  "check_parents parents [] = Inr ()"
| "check_parents parents (s # ss) =
     (case parent_walk parents s [] s of Inl e \<Rightarrow> Inl e | Inr _ \<Rightarrow> check_parents parents ss)"

definition validate_task_dag :: "task list \<Rightarrow> domain_error + string list" where
  "validate_task_dag ts =
     (let ids = map t_id ts in
      case duplicate_id [] ts of
        Some i \<Rightarrow> Inl (TaskGraphError (DuplicateTaskId i))
      | None \<Rightarrow>
        (case check_all_links ids ts of
           Inl e \<Rightarrow> Inl e
         | Inr _ \<Rightarrow>
           (let indeg = initial_indegree ts;
                ready = sort [i. (i, n) \<leftarrow> indeg, n = 0];
                (left, ordered) = kahn ts indeg ready []
            in if length ordered \<noteq> length ids
               then Inl (TaskGraphError (DependencyCycle (sort [i. (i, n) \<leftarrow> left, n \<noteq> 0])))
               else case check_parents (parent_table ts) (sort ids) of
                   Inl e \<Rightarrow> Inl e
                 | Inr _ \<Rightarrow> Inr ordered)))"

section \<open>Specification\<close>

definition dep_edges :: "task list \<Rightarrow> (string \<times> string) set" where
  "dep_edges ts = {(d, t_id t) | d t. t \<in> set ts \<and> d \<in> set (t_depends_on t)}"

definition parent_edges :: "task list \<Rightarrow> (string \<times> string) set" where
  "parent_edges ts = {(t_id t, p) | t p. t \<in> set ts \<and> t_parent_id t = Some p}"

definition links_ok :: "task list \<Rightarrow> bool" where
  "links_ok ts \<longleftrightarrow>
     distinct (map t_id ts) \<and>
     (\<forall>t \<in> set ts. distinct (t_depends_on t) \<and> set (t_depends_on t) \<subseteq> t_id ` set ts \<and>
        t_id t \<notin> set (t_depends_on t) \<and>
        (\<forall>p. t_parent_id t = Some p \<longrightarrow> p \<in> t_id ` set ts \<and> p \<noteq> t_id t))"

text \<open>Every element is listed after all its dependencies.\<close>

definition topological :: "task list \<Rightarrow> string list \<Rightarrow> bool" where
  "topological ts xs \<longleftrightarrow> (\<forall>i < length xs. \<forall>d. (d, xs ! i) \<in> dep_edges ts \<longrightarrow> d \<in> set (take i xs))"

lemma topological_Nil [simp]: "topological ts []"
  by (simp add: topological_def)

lemma topological_snoc:
  "topological ts (xs @ [x]) \<longleftrightarrow> topological ts xs \<and> (\<forall>d. (d, x) \<in> dep_edges ts \<longrightarrow> d \<in> set xs)"
  by (auto simp: topological_def nth_append less_Suc_eq)

section \<open>Link checks\<close>

lemma duplicate_id_None:
  "duplicate_id seen ts = None \<longleftrightarrow> distinct (map t_id ts) \<and> set seen \<inter> t_id ` set ts = {}"
  by (induction seen ts rule: duplicate_id.induct) auto

lemma distinct_iff_remdups: "length (remdups xs) = length xs \<longleftrightarrow> distinct xs"
  by (metis distinct_card length_remdups_card_conv card_distinct)

lemma check_links_Inr:
  "check_links ids t = Inr u \<longleftrightarrow>
     distinct (t_depends_on t) \<and> set (t_depends_on t) \<subseteq> set ids \<and> t_id t \<notin> set (t_depends_on t) \<and>
     (\<forall>p. t_parent_id t = Some p \<longrightarrow> p \<in> set ids \<and> p \<noteq> t_id t)"
  unfolding check_links_def Let_def
  by (auto simp: distinct_iff_remdups filter_empty_conv split: option.splits)

lemma check_all_links_Inr:
  "check_all_links ids ts = Inr u \<longleftrightarrow> (\<forall>t \<in> set ts. check_links ids t = Inr ())"
  by (induction ids ts rule: check_all_links.induct) (auto split: sum.splits)

lemma links_ok_iff:
  "links_ok ts \<longleftrightarrow> duplicate_id [] ts = None \<and> check_all_links (map t_id ts) ts = Inr ()"
  by (auto simp: links_ok_def duplicate_id_None check_all_links_Inr check_links_Inr)

section \<open>Kahn's algorithm\<close>

lemma set_dependants_of: "set (dependants_of ts x) = {y. (x, y) \<in> dep_edges ts}"
  by (auto simp: dependants_of_def dep_edges_def)

lemma dependants_of_filter:
  "(\<And>t. t \<in> set ts \<Longrightarrow> distinct (t_depends_on t)) \<Longrightarrow>
   dependants_of ts x = map t_id (filter (\<lambda>t. x \<in> set (t_depends_on t)) ts)"
proof (induction ts)
  case Nil
  show ?case by (simp add: dependants_of_def)
next
  case (Cons t ts)
  have "distinct ds \<Longrightarrow> concat (map (\<lambda>d. if d = x then [a] else []) ds) = (if x \<in> set ds then [a] else [])"
    for ds and a :: string by (induction ds) auto
  with Cons show ?case by (simp add: dependants_of_def)
qed

lemma distinct_dependants_of: "links_ok ts \<Longrightarrow> distinct (dependants_of ts x)"
  by (subst dependants_of_filter) (auto simp: links_ok_def distinct_map_filter)

lemma relax_props:
  assumes "relax ds indeg ready = (indeg', ready')" "distinct ds"
  shows "map fst indeg' = map fst indeg \<and>
    (\<forall>k. map_of indeg' k = map_option (\<lambda>n. if k \<in> set ds then n - 1 else n) (map_of indeg k)) \<and>
    set ready' = set ready \<union> {d \<in> set ds. map_of indeg d = Some 1} \<and>
    (distinct ready \<and> set ready \<inter> set ds = {} \<longrightarrow> distinct ready') \<and>
    (sorted ready \<longrightarrow> sorted ready')"
  using assms
proof (induction ds indeg ready rule: relax.induct)
  case (1 indeg ready)
  then show ?case by (simp add: option.map_ident)
next
  case (2 d ds indeg ready)
  let ?i = "AList.map_entry d (\<lambda>n. n - 1) indeg"
  have fst_i: "map fst ?i = map fst indeg" by (induction indeg) auto
  let ?r = "if map_of ?i d = Some 0 then sort (ready @ [d]) else ready"
  have rel: "relax ds ?i ?r = (indeg', ready')"
    using "2.prems" by (simp add: Let_def split: if_splits)
  have IH: "map fst indeg' = map fst ?i \<and>
    (\<forall>k. map_of indeg' k = map_option (\<lambda>n. if k \<in> set ds then n - 1 else n) (map_of ?i k)) \<and>
    set ready' = set ?r \<union> {d \<in> set ds. map_of ?i d = Some 1} \<and>
    (distinct ?r \<and> set ?r \<inter> set ds = {} \<longrightarrow> distinct ready') \<and> (sorted ?r \<longrightarrow> sorted ready')"
    using "2.IH" rel "2.prems" by (cases "map_of ?i d = Some 0") (simp_all add: Let_def)
  have dn: "d \<notin> set ds" using "2.prems" by simp
  have zero: "map_of ?i d = Some 0 \<longleftrightarrow> map_of indeg d = Some 1"
    by (auto simp: map_of_map_entry)
  have "map_of indeg' k = map_option (\<lambda>n. if k \<in> set (d # ds) then n - 1 else n) (map_of indeg k)" for k
    using IH dn by (auto simp: map_of_map_entry option.map_comp comp_def)
  moreover have "set ready' = set ready \<union> {e \<in> set (d # ds). map_of indeg e = Some 1}"
    using IH dn zero by (auto simp: map_of_map_entry split: if_splits)
  moreover have "distinct ready \<and> set ready \<inter> set (d # ds) = {} \<longrightarrow> distinct ready'"
    using IH dn by (auto split: if_splits)
  ultimately show ?case using IH fst_i by (auto split: if_splits)
qed

definition kahn_inv :: "task list \<Rightarrow> (string \<times> int) list \<Rightarrow> string list \<Rightarrow> string list \<Rightarrow> bool" where
  "kahn_inv ts indeg ready ordered \<longleftrightarrow>
     distinct (ordered @ ready) \<and> set (ordered @ ready) \<subseteq> t_id ` set ts \<and>
     (\<forall>t \<in> set ts. map_of indeg (t_id t) = Some (int (card (set (t_depends_on t) - set ordered)))) \<and>
     (\<forall>t \<in> set ts. t_id t \<in> set (ordered @ ready) \<longleftrightarrow> set (t_depends_on t) \<subseteq> set ordered) \<and>
     topological ts ordered"

lemma task_of_id:
  "links_ok ts \<Longrightarrow> u \<in> set ts \<Longrightarrow> t \<in> set ts \<Longrightarrow> t_id u = t_id t \<Longrightarrow> u = t"
  by (rule key_unique [of t_id ts]) (simp_all add: links_ok_def)

lemma dep_edges_id:
  assumes "links_ok ts" "t \<in> set ts"
  shows "(x, t_id t) \<in> dep_edges ts \<longleftrightarrow> x \<in> set (t_depends_on t)"
proof
  assume "(x, t_id t) \<in> dep_edges ts"
  then obtain u where u: "u \<in> set ts" "t_id t = t_id u" "x \<in> set (t_depends_on u)"
    unfolding dep_edges_def by blast
  have "u = t" using task_of_id [OF assms(1) u(1) assms(2)] u(2) by simp
  with u(3) show "x \<in> set (t_depends_on t)" by simp
next
  assume "x \<in> set (t_depends_on t)"
  with assms(2) show "(x, t_id t) \<in> dep_edges ts" unfolding dep_edges_def by blast
qed

lemma card_one_mem: "x \<in> A \<Longrightarrow> card A = 1 \<longleftrightarrow> A = {x}"
proof
  assume "x \<in> A" "card A = 1"
  then obtain y where "A = {y}" by (metis card_1_singletonE)
  with \<open>x \<in> A\<close> show "A = {x}" by simp
qed simp

lemma card_diff_insert:
  "x \<notin> O' \<Longrightarrow> finite D \<Longrightarrow> int (card (D - insert x O')) = int (card (D - O')) - (if x \<in> D then 1 else 0)"
proof -
  assume x: "x \<notin> O'" and f: "finite D"
  have "D - insert x O' = (D - O') - {x}" by auto
  moreover have "0 < card (D - O')" if "x \<in> D"
    using that x f by (metis Diff_iff card_gt_0_iff empty_iff finite_Diff)
  ultimately show ?thesis using x f by (cases "x \<in> D") (auto simp: of_nat_diff Suc_le_eq)
qed

lemma kahn_inv_step:
  assumes ok: "links_ok ts" and inv: "kahn_inv ts indeg (x # ready) ordered"
    and rel: "relax (sort (dependants_of ts x)) indeg ready = (indeg', ready')"
  shows "kahn_inv ts indeg' ready' (ordered @ [x])"
proof -
  let ?D = "set (dependants_of ts x)"
  note I = inv [unfolded kahn_inv_def]
  have dist: "distinct (sort (dependants_of ts x))" using distinct_dependants_of [OF ok] by simp
  note R = relax_props [OF rel dist]
  have x: "x \<notin> set ordered" "x \<notin> set ready" "x \<in> t_id ` set ts" using I by auto
  have sub: "set (ordered @ x # ready) \<subseteq> t_id ` set ts" using I by blast
  have dep: "t_id t \<in> ?D \<longleftrightarrow> x \<in> set (t_depends_on t)" if "t \<in> set ts" for t
    using dep_edges_id [OF ok that] by (simp add: set_dependants_of)
  have deg: "map_of indeg (t_id t) = Some (int (card (set (t_depends_on t) - set ordered)))"
    and listed: "t_id t \<in> set (ordered @ x # ready) \<longleftrightarrow> set (t_depends_on t) \<subseteq> set ordered"
    if "t \<in> set ts" for t using I that by auto
  have deg': "map_of indeg' (t_id t) = Some (int (card (set (t_depends_on t) - set (ordered @ [x]))))"
    if t: "t \<in> set ts" for t
    using R deg [OF t] dep [OF t] card_diff_insert [OF x(1), of "set (t_depends_on t)"] by auto
  have one: "card (set (t_depends_on t) - set ordered) = 1 \<longleftrightarrow> set (t_depends_on t) - set ordered = {x}"
    if "x \<in> set (t_depends_on t)" for t :: task
    using that x(1) by (intro card_one_mem) simp
  have D_ids: "?D \<subseteq> t_id ` set ts" by (auto simp: set_dependants_of dep_edges_def)
  have new: "t_id t \<in> {d \<in> ?D. map_of indeg d = Some 1} \<longleftrightarrow> set (t_depends_on t) - set ordered = {x}"
    if t: "t \<in> set ts" for t
    using deg [OF t] dep [OF t] one [of t] x(1) by auto
  have listed': "t_id t \<in> set ((ordered @ [x]) @ ready') \<longleftrightarrow> set (t_depends_on t) \<subseteq> set (ordered @ [x])"
    if t: "t \<in> set ts" for t
  proof -
    have "t_id t \<in> set ((ordered @ [x]) @ ready') \<longleftrightarrow>
        t_id t \<in> set (ordered @ x # ready) \<or> t_id t \<in> {d \<in> ?D. map_of indeg d = Some 1}"
      using R by auto
    also have "\<dots> \<longleftrightarrow> set (t_depends_on t) \<subseteq> set ordered \<or> set (t_depends_on t) - set ordered = {x}"
      using listed [OF t] new [OF t] by blast
    finally show ?thesis by auto
  qed
  have disj: "set (ordered @ x # ready) \<inter> {d \<in> ?D. map_of indeg d = Some 1} = {}"
  proof -
    have False if asm: "d \<in> set (ordered @ x # ready)" "d \<in> {d \<in> ?D. map_of indeg d = Some 1}" for d
    proof -
      obtain t where t: "t \<in> set ts" "d = t_id t" using asm(1) sub by auto
      with asm listed [OF t(1)] new [OF t(1)] x(1) show False by auto
    qed
    then show ?thesis by blast
  qed
  have "set ready \<inter> ?D = {}"
  proof -
    have False if asm: "d \<in> set ready" "d \<in> ?D" for d
    proof -
      obtain t where t: "t \<in> set ts" "d = t_id t" using asm(1) sub by auto
      with asm listed [OF t(1)] dep [OF t(1)] x(1) show False by auto
    qed
    then show ?thesis by blast
  qed
  with R I have "distinct ready'" by auto
  moreover have "distinct ordered" "set ordered \<inter> set (x # ready) = {}" "x \<notin> set ready" using I by auto
  ultimately have "distinct ((ordered @ [x]) @ ready')" using R disj x(1) by auto
  moreover have "set ((ordered @ [x]) @ ready') \<subseteq> t_id ` set ts" using R I D_ids by auto
  moreover have "topological ts (ordered @ [x])"
  proof -
    obtain t where t: "t \<in> set ts" "x = t_id t" using x(3) by auto
    then have "set (t_depends_on t) \<subseteq> set ordered" using listed [OF t(1)] by auto
    with I t dep_edges_id [OF ok t(1)] show ?thesis by (auto simp: topological_snoc)
  qed
  ultimately show ?thesis unfolding kahn_inv_def using deg' listed' by blast
qed

lemma kahn_invariant:
  "links_ok ts \<Longrightarrow> kahn_inv ts indeg ready ordered \<Longrightarrow> kahn ts indeg ready ordered = (left, order) \<Longrightarrow>
   kahn_inv ts left [] order"
proof (induction ts indeg ready ordered rule: kahn.induct)
  case (1 ts indeg ordered)
  then show ?case by simp
next
  case (2 ts indeg x ready ordered)
  obtain i r where r: "relax (sort (dependants_of ts x)) indeg ready = (i, r)" by fastforce
  with 2 kahn_inv_step [OF "2.prems"(1,2) r] show ?case by simp
qed

lemma map_of_initial_indegree:
  "distinct (map t_id ts) \<Longrightarrow> t \<in> set ts \<Longrightarrow>
   map_of (initial_indegree ts) (t_id t) = Some (int (length (t_depends_on t)))"
  unfolding initial_indegree_def
  by (rule map_of_is_SomeI) (simp_all add: comp_def)

lemma kahn_inv_init:
  assumes ok: "links_ok ts"
  shows "kahn_inv ts (initial_indegree ts) (sort [i. (i, n) \<leftarrow> initial_indegree ts, n = 0]) []"
proof -
  let ?ready = "[i. (i, n) \<leftarrow> initial_indegree ts, n = 0]"
  have ready: "?ready = map t_id (filter (\<lambda>t. t_depends_on t = []) ts)"
    unfolding initial_indegree_def by (induction ts) auto
  have "t_id t \<in> set ?ready \<longleftrightarrow> t_depends_on t = []" if "t \<in> set ts" for t
  proof -
    have "t_id t \<in> set ?ready \<longleftrightarrow> (\<exists>u \<in> set ts. t_depends_on u = [] \<and> t_id t = t_id u)"
      unfolding ready by auto
    also have "\<dots> \<longleftrightarrow> t_depends_on t = []"
      using task_of_id [OF ok _ that] that by metis
    finally show ?thesis .
  qed
  moreover have "distinct ?ready" using ok unfolding ready by (auto simp: links_ok_def distinct_map_filter)
  moreover have "set ?ready \<subseteq> t_id ` set ts" unfolding ready by auto
  ultimately show ?thesis
    using ok map_of_initial_indegree
    by (auto simp: kahn_inv_def links_ok_def distinct_card)
qed

text \<open>The tasks the algorithm leaves out form a set in which each waits for another.\<close>

lemma kahn_final:
  assumes ok: "links_ok ts"
    and k: "kahn ts (initial_indegree ts) (sort [i. (i, n) \<leftarrow> initial_indegree ts, n = 0]) [] = (left, order)"
  shows "distinct order" "set order \<subseteq> t_id ` set ts" "topological ts order"
    and "t \<in> set ts \<Longrightarrow> t_id t \<in> set order \<longleftrightarrow> set (t_depends_on t) \<subseteq> set order"
    and "t \<in> set ts \<Longrightarrow> map_of left (t_id t) = Some (int (card (set (t_depends_on t) - set order)))"
  using kahn_invariant [OF ok kahn_inv_init [OF ok] k] by (auto simp: kahn_inv_def)

lemma complete_length_iff:
  assumes "links_ok ts" "distinct order" "set order \<subseteq> t_id ` set ts"
  shows "length order = length (map t_id ts) \<longleftrightarrow> set order = t_id ` set ts"
proof -
  have l: "length order = card (set order)" "length (map t_id ts) = card (t_id ` set ts)"
    using assms distinct_card [of "map t_id ts"] by (auto simp: links_ok_def distinct_card)
  show ?thesis
    unfolding l using card_subset_eq [OF _ assms(3)] by auto
qed

lemma dep_edges_ids: "links_ok ts \<Longrightarrow> dep_edges ts \<subseteq> t_id ` set ts \<times> t_id ` set ts"
  by (fastforce simp: dep_edges_def links_ok_def)

lemma finite_dep_edges: "finite (dep_edges ts)"
proof -
  have "dep_edges ts \<subseteq> (\<Union>t \<in> set ts. set (t_depends_on t) \<times> {t_id t})"
    by (auto simp: dep_edges_def)
  then show ?thesis by (rule finite_subset) auto
qed

lemma incomplete_cyclic:
  assumes ok: "links_ok ts"
    and k: "kahn ts (initial_indegree ts) (sort [i. (i, n) \<leftarrow> initial_indegree ts, n = 0]) [] = (left, order)"
    and less: "set order \<noteq> t_id ` set ts"
  shows "\<not> acyclic (dep_edges ts)"
proof
  assume "acyclic (dep_edges ts)"
  then have wf: "wf (dep_edges ts)" using finite_dep_edges by (rule finite_acyclic_wf [rotated])
  let ?R = "t_id ` set ts - set order"
  obtain r where "r \<in> ?R" using less kahn_final(2) [OF ok k] by blast
  then obtain m where m: "m \<in> ?R" "\<And>y. (y, m) \<in> dep_edges ts \<Longrightarrow> y \<notin> ?R"
    using wfE_min [OF wf] by metis
  then obtain t where t: "t \<in> set ts" "m = t_id t" by blast
  have "t_id t \<notin> set order" using m(1) t(2) by simp
  then have "\<not> set (t_depends_on t) \<subseteq> set order" using kahn_final(4) [OF ok k t(1)] by simp
  then obtain d where d: "d \<in> set (t_depends_on t)" "d \<notin> set order" by (meson subsetI)
  then have "(d, m) \<in> dep_edges ts" using t by (auto simp: dep_edges_def)
  with m(2) dep_edges_ids [OF ok] d(2) show False by blast
qed

lemma topological_acyclic:
  assumes topo: "topological ts order" and dist: "distinct order" and all: "set order = t_id ` set ts"
  shows "acyclic (dep_edges ts)"
proof -
  define pos where "pos x = (SOME i. i < length order \<and> order ! i = x)" for x
  have pos: "pos x < length order" "order ! pos x = x" if "x \<in> set order" for x
  proof -
    have "\<exists>i. i < length order \<and> order ! i = x" using that by (simp add: in_set_conv_nth)
    then have "pos x < length order \<and> order ! pos x = x" unfolding pos_def by (rule someI_ex)
    then show "pos x < length order" "order ! pos x = x" by simp_all
  qed
  have "pos d < pos x" if e: "(d, x) \<in> dep_edges ts" for d x
  proof -
    have x: "x \<in> set order" using e all by (auto simp: dep_edges_def)
    with pos [OF x] e topo have "d \<in> set (take (pos x) order)" by (simp add: topological_def)
    then obtain j where j: "j < pos x" "j < length order" "order ! j = d" by (auto simp: in_set_conv_nth)
    then have d: "d \<in> set order" by auto
    have "pos d = j" using nth_eq_iff_index_eq [OF dist pos(1) [OF d] j(2)] pos(2) [OF d] j(3) by simp
    with j show ?thesis by simp
  qed
  then have "dep_edges ts \<subseteq> measure pos" by auto
  then show ?thesis by (rule acyclic_subset [OF wf_acyclic [OF wf_measure]])
qed

lemma kahn_complete_iff:
  assumes ok: "links_ok ts"
    and k: "kahn ts (initial_indegree ts) (sort [i. (i, n) \<leftarrow> initial_indegree ts, n = 0]) [] = (left, order)"
  shows "length order = length (map t_id ts) \<longleftrightarrow> acyclic (dep_edges ts)"
  using incomplete_cyclic [OF ok k] topological_acyclic [OF kahn_final(3) [OF ok k] kahn_final(1) [OF ok k]]
    complete_length_iff [OF ok kahn_final(1) [OF ok k] kahn_final(2) [OF ok k]]
  by blast

section \<open>Parent chains\<close>

lemma parent_edges_functional:
  "links_ok ts \<Longrightarrow> (c, p) \<in> parent_edges ts \<Longrightarrow> (c, q) \<in> parent_edges ts \<Longrightarrow> p = q"
  unfolding parent_edges_def using task_of_id [of ts] by (auto, metis option.inject)

lemma map_of_parent_table:
  "links_ok ts \<Longrightarrow> t \<in> set ts \<Longrightarrow> map_of (parent_table ts) (t_id t) = Some (t_parent_id t)"
  unfolding parent_table_def links_ok_def
  by (rule map_of_is_SomeI) (simp_all add: comp_def)

lemma parent_edge_iff:
  assumes "links_ok ts" "c \<in> t_id ` set ts"
  shows "(c, p) \<in> parent_edges ts \<longleftrightarrow> map_of (parent_table ts) c = Some (Some p)"
proof -
  obtain t where t: "t \<in> set ts" "c = t_id t" using assms(2) by blast
  have "(t_id t, p) \<in> parent_edges ts \<longleftrightarrow> t_parent_id t = Some p"
    using task_of_id [OF assms(1) _ t(1)] t(1) unfolding parent_edges_def by auto
  with map_of_parent_table [OF assms(1) t(1)] t(2) show ?thesis by simp
qed

lemma parent_walk_Inr_acyclic:
  assumes ok: "links_ok ts"
  shows "parent_walk (parent_table ts) start seen c = Inr u \<Longrightarrow> c \<in> t_id ` set ts \<Longrightarrow>
    (c, c) \<notin> (parent_edges ts)\<^sup>+"
proof (induction "parent_table ts" start seen c rule: parent_walk.induct)
  case (1 start seen cur)
  note E = parent_edge_iff [OF ok "1.prems"(2)]
  show ?case
  proof
    assume cyc: "(cur, cur) \<in> (parent_edges ts)\<^sup>+"
    then obtain p where p: "(cur, p) \<in> parent_edges ts" "(p, cur) \<in> (parent_edges ts)\<^sup>*"
      by (meson tranclD)
    have m: "map_of (parent_table ts) cur = Some (Some p)" using E p(1) by simp
    have ns: "cur \<notin> set seen" using "1.prems"(1) by (subst (asm) parent_walk.simps) (auto split: if_splits)
    have w: "parent_walk (parent_table ts) start (cur # seen) p = Inr u"
      using "1.prems"(1) m ns by (subst (asm) parent_walk.simps) auto
    have "p \<in> t_id ` set ts" using ok p(1) by (auto simp: parent_edges_def links_ok_def)
    then have "(p, p) \<notin> (parent_edges ts)\<^sup>+" using "1.hyps" [OF ns m refl w] by simp
    moreover have "(p, p) \<in> (parent_edges ts)\<^sup>+" using p by (meson rtrancl_into_trancl1)
    ultimately show False by blast
  qed
qed

lemma parent_walk_Inl_cyclic:
  assumes ok: "links_ok ts"
  shows "parent_walk (parent_table ts) start seen c = Inl e \<Longrightarrow> c \<in> t_id ` set ts \<Longrightarrow>
    \<forall>s \<in> set seen. (s, c) \<in> (parent_edges ts)\<^sup>+ \<Longrightarrow> \<not> acyclic (parent_edges ts)"
proof (induction "parent_table ts" start seen c rule: parent_walk.induct)
  case (1 start seen cur)
  show ?case
  proof (cases "cur \<in> set seen")
    case True
    with "1.prems"(3) show ?thesis by (auto simp: acyclic_def)
  next
    case False
    obtain t where t: "t \<in> set ts" "cur = t_id t" using "1.prems"(2) by blast
    have m: "map_of (parent_table ts) cur = Some (t_parent_id t)"
      using map_of_parent_table [OF ok t(1)] t(2) by simp
    with "1.prems"(1) False obtain p where p: "t_parent_id t = Some p"
      and w: "parent_walk (parent_table ts) start (cur # seen) p = Inl e"
      by (subst (asm) parent_walk.simps) (auto split: option.splits)
    have e: "(cur, p) \<in> parent_edges ts" using t p by (auto simp: parent_edges_def)
    have "p \<in> t_id ` set ts" using ok t p by (auto simp: links_ok_def)
    moreover have "\<forall>s \<in> set (cur # seen). (s, p) \<in> (parent_edges ts)\<^sup>+"
      using "1.prems"(3) e by (auto intro: trancl_into_trancl)
    ultimately show ?thesis using "1.hyps" [OF False _ refl w] m p by simp
  qed
qed

lemma check_parents_Inr:
  "check_parents parents ss = Inr u \<longleftrightarrow> (\<forall>s \<in> set ss. parent_walk parents s [] s = Inr ())"
  by (induction parents ss rule: check_parents.induct) (auto split: sum.splits)

lemma check_parents_iff:
  assumes ok: "links_ok ts"
  shows "check_parents (parent_table ts) (sort (map t_id ts)) = Inr () \<longleftrightarrow> acyclic (parent_edges ts)"
proof
  assume c: "check_parents (parent_table ts) (sort (map t_id ts)) = Inr ()"
  have "(x, x) \<notin> (parent_edges ts)\<^sup>+" for x
  proof (cases "x \<in> t_id ` set ts")
    case True
    with c have "parent_walk (parent_table ts) x [] x = Inr ()" by (auto simp: check_parents_Inr)
    from parent_walk_Inr_acyclic [OF ok this True] show ?thesis .
  next
    case False
    then have "(x, y) \<notin> parent_edges ts" for y by (auto simp: parent_edges_def)
    then show ?thesis by (meson tranclD)
  qed
  then show "acyclic (parent_edges ts)" by (simp add: acyclic_def)
next
  assume a: "acyclic (parent_edges ts)"
  have "parent_walk (parent_table ts) s [] s = Inr ()" if "s \<in> t_id ` set ts" for s
    using parent_walk_Inl_cyclic [OF ok, of s "[]" s] a that
    by (cases "parent_walk (parent_table ts) s [] s") auto
  then show "check_parents (parent_table ts) (sort (map t_id ts)) = Inr ()" by (simp add: check_parents_Inr)
qed

section \<open>The validator\<close>

lemma validate_unfold:
  assumes ok: "links_ok ts"
    and k: "kahn ts (initial_indegree ts) (sort [i. (i, n) \<leftarrow> initial_indegree ts, n = 0]) [] = (left, order)"
  shows "validate_task_dag ts =
     (if \<not> acyclic (dep_edges ts)
      then Inl (TaskGraphError (DependencyCycle (sort [i. (i, n) \<leftarrow> left, n \<noteq> 0])))
      else case check_parents (parent_table ts) (sort (map t_id ts)) of Inl e \<Rightarrow> Inl e | Inr _ \<Rightarrow> Inr order)"
  using ok k kahn_complete_iff [OF ok k] unfolding links_ok_iff
  by (simp add: validate_task_dag_def Let_def split: sum.splits)

lemma validate_links: "validate_task_dag ts = Inr order \<Longrightarrow> links_ok ts"
  unfolding links_ok_iff validate_task_dag_def
  by (auto simp: Let_def split: option.splits sum.splits)

lemma kahn_result:
  obtains left order where
    "kahn ts (initial_indegree ts) (sort [i. (i, n) \<leftarrow> initial_indegree ts, n = 0]) [] = (left, order)"
  by fastforce

lemma validate_iff:
  "(\<exists>order. validate_task_dag ts = Inr order) \<longleftrightarrow>
     links_ok ts \<and> acyclic (dep_edges ts) \<and> acyclic (parent_edges ts)"
proof (cases "links_ok ts")
  case True
  obtain left order where k: "kahn ts (initial_indegree ts) (sort [i. (i, n) \<leftarrow> initial_indegree ts, n = 0]) [] = (left, order)"
    by (rule kahn_result)
  show ?thesis
    using True unfolding validate_unfold [OF True k] check_parents_iff [OF True, symmetric]
    by (simp split: sum.splits)
next
  case False
  then show ?thesis using validate_links by blast
qed

lemma validate_order:
  assumes "validate_task_dag ts = Inr order"
  shows "distinct order" "set order = t_id ` set ts" "topological ts order"
proof -
  note ok = validate_links [OF assms]
  obtain left ord where k: "kahn ts (initial_indegree ts) (sort [i. (i, n) \<leftarrow> initial_indegree ts, n = 0]) [] = (left, ord)"
    by (rule kahn_result)
  have "ord = order" and ac: "acyclic (dep_edges ts)"
    using assms unfolding validate_unfold [OF ok k] by (auto split: if_splits sum.splits)
  then show "distinct order" "set order = t_id ` set ts" "topological ts order"
    using kahn_final [OF ok k] kahn_complete_iff [OF ok k]
      complete_length_iff [OF ok kahn_final(1) [OF ok k] kahn_final(2) [OF ok k]] by auto
qed

lemma check_links_not_cycle: "check_links ids t \<noteq> Inl (TaskGraphError (DependencyCycle c))"
  unfolding check_links_def by (auto simp: Let_def split: option.splits)

lemma check_all_links_not_cycle: "check_all_links ids ts \<noteq> Inl (TaskGraphError (DependencyCycle c))"
  by (induction ids ts rule: check_all_links.induct) (auto simp: check_links_not_cycle split: sum.splits)

lemma parent_walk_not_cycle:
  "parent_walk parents start seen cur \<noteq> Inl (TaskGraphError (DependencyCycle c))"
proof (induction parents start seen cur rule: parent_walk.induct)
  case (1 parents start seen cur)
  then show ?case by (subst parent_walk.simps) (auto split: option.splits)
qed

lemma check_parents_not_cycle: "check_parents parents ss \<noteq> Inl (TaskGraphError (DependencyCycle c))"
  by (induction parents ss rule: check_parents.induct) (auto simp: parent_walk_not_cycle split: sum.splits)

lemma map_entry_keys: "map fst (AList.map_entry k f al) = map fst al"
  by (induction al) auto

lemma relax_keys: "relax ds indeg ready = (indeg', ready') \<Longrightarrow> map fst indeg' = map fst indeg"
  by (induction ds indeg ready rule: relax.induct) (auto simp: Let_def map_entry_keys split: if_splits)

lemma kahn_keys: "kahn ts indeg ready ordered = (left, order) \<Longrightarrow> map fst left = map fst indeg"
proof (induction ts indeg ready ordered rule: kahn.induct)
  case (1 ts indeg ordered)
  then show ?case by simp
next
  case (2 ts indeg x ready ordered)
  obtain i r where r: "relax (sort (dependants_of ts x)) indeg ready = (i, r)" by fastforce
  with 2 relax_keys [OF r] show ?case by simp
qed

lemma validate_cycle:
  assumes v: "validate_task_dag ts = Inl (TaskGraphError (DependencyCycle c))"
  shows "c \<noteq> []" "set c \<subseteq> t_id ` set ts" "\<forall>x \<in> set c. \<exists>d \<in> set c. (d, x) \<in> dep_edges ts"
proof -
  have ok: "links_ok ts"
    using v unfolding links_ok_iff validate_task_dag_def
    by (auto simp: Let_def check_all_links_not_cycle split: option.splits sum.splits)
  obtain left order where k: "kahn ts (initial_indegree ts) (sort [i. (i, n) \<leftarrow> initial_indegree ts, n = 0]) [] = (left, order)"
    by (rule kahn_result)
  have cyc: "\<not> acyclic (dep_edges ts)" and c: "c = sort [i. (i, n) \<leftarrow> left, n \<noteq> 0]"
    using v unfolding validate_unfold [OF ok k]
    by (auto simp: check_parents_not_cycle split: if_splits sum.splits)
  have keys: "map fst left = map t_id ts"
    using kahn_keys [OF k] by (simp add: initial_indegree_def comp_def)
  have dist: "distinct (map fst left)" using keys ok by (simp add: links_ok_def)
  have mem: "t_id t \<in> set c \<longleftrightarrow> t_id t \<notin> set order" if t: "t \<in> set ts" for t
  proof -
    have "t_id t \<in> set c \<longleftrightarrow> (\<exists>n. (t_id t, n) \<in> set left \<and> n \<noteq> 0)" unfolding c by auto
    also have "\<dots> \<longleftrightarrow> (\<exists>n. map_of left (t_id t) = Some n \<and> n \<noteq> 0)"
      using dist by (metis map_of_is_SomeI map_of_SomeD)
    also have "\<dots> \<longleftrightarrow> \<not> set (t_depends_on t) \<subseteq> set order"
      using kahn_final(5) [OF ok k t] by auto
    also have "\<dots> \<longleftrightarrow> t_id t \<notin> set order" using kahn_final(4) [OF ok k t] by simp
    finally show ?thesis .
  qed
  have sub: "set c \<subseteq> t_id ` set ts"
  proof -
    have "set c \<subseteq> set (map fst left)" unfolding c by force
    then show ?thesis unfolding keys by simp
  qed
  then show "set c \<subseteq> t_id ` set ts" .
  have "set order \<noteq> t_id ` set ts"
    using cyc topological_acyclic [OF kahn_final(3) [OF ok k] kahn_final(1) [OF ok k]] by blast
  then obtain t where "t \<in> set ts" "t_id t \<notin> set order" using kahn_final(2) [OF ok k] by blast
  then have "t_id t \<in> set c" using mem by simp
  then show "c \<noteq> []" by auto
  show "\<forall>x \<in> set c. \<exists>d \<in> set c. (d, x) \<in> dep_edges ts"
  proof
    fix x assume x: "x \<in> set c"
    then obtain t where t: "t \<in> set ts" "x = t_id t" using sub by blast
    then have "\<not> set (t_depends_on t) \<subseteq> set order" using x mem kahn_final(4) [OF ok k t(1)] by simp
    then obtain d where d: "d \<in> set (t_depends_on t)" "d \<notin> set order" by (meson subsetI)
    have e: "(d, x) \<in> dep_edges ts" using t d(1) by (auto simp: dep_edges_def)
    then have "d \<in> t_id ` set ts" using dep_edges_ids [OF ok] by auto
    then have "d \<in> set c" using mem d(2) by auto
    with e show "\<exists>d \<in> set c. (d, x) \<in> dep_edges ts" by blast
  qed
qed

end
