(* ===== verification/Plan_Model.thy ===== *)
theory Plan_Model
  imports Task_Graph
begin

text \<open>
  The \<open>Plan\<close> dataclass of \<open>agent/models.py\<close>.  The columns of the \<open>plans\<close> table form the
  record \<open>plan_row\<close>; a plan extends a row with its tasks, as \<open>_plan_from_row\<close> joins them.
\<close>

record plan_row =
  p_id :: string
  p_goal_id :: string
  p_revision :: int
  p_summary :: string
  p_status :: plan_status
  p_applicability :: "json_obj list"
  p_strategy :: string
  p_changes :: "json_obj list"
  p_proposed_by :: string
  p_fingerprint :: string
  p_accepted_by :: "string option"
  p_accepted_at :: "int option"
  p_created_at :: int
  p_updated_at :: int

record plan = plan_row +
  p_tasks :: "task list"

definition mk_plan :: "plan \<Rightarrow> domain_error + plan" where
  "mk_plan p =
     (if p_id p = [] \<or> p_goal_id p = [] \<or> p_revision p < 1 then Inl (InvalidPlan NeedsPlanIds)
      else if strip (p_summary p) = [] \<or> 20000 < length (p_summary p)
      then Inl (InvalidPlan NeedsPlanSummary)
      else if p_tasks p = [] \<or> 80 < length (p_tasks p) then Inl (InvalidPlan BadTaskCount)
      else if 40 < length (p_applicability p) \<or> 80 < length (p_changes p)
      then Inl (InvalidPlan ApplicabilityLimits)
      else if 8000 < length (p_strategy p) then Inl (InvalidPlan StrategyTooLong)
      else and_then (validate_task_dag (p_tasks p)) (\<lambda>_. Inr p))"

lemma mk_plan_Inr:
  "mk_plan p = Inr q \<longleftrightarrow>
     q = p \<and> p_id p \<noteq> [] \<and> p_goal_id p \<noteq> [] \<and> 1 \<le> p_revision p \<and>
     \<not> blank (p_summary p) \<and> length (p_summary p) \<le> 20000 \<and>
     p_tasks p \<noteq> [] \<and> length (p_tasks p) \<le> 80 \<and>
     length (p_applicability p) \<le> 40 \<and> length (p_changes p) \<le> 80 \<and>
     length (p_strategy p) \<le> 8000 \<and> (\<exists>order. validate_task_dag (p_tasks p) = Inr order)"
  by (auto simp: mk_plan_def and_then_Inr strip_empty_iff)

text \<open>Validity does not depend on the order of the tasks, nor on their progress.\<close>

definition same_links :: "task \<Rightarrow> task \<Rightarrow> bool" where
  "same_links t u \<longleftrightarrow> t_id u = t_id t \<and> t_depends_on u = t_depends_on t \<and> t_parent_id u = t_parent_id t"

lemma valid_transfer:
  assumes "\<exists>order. validate_task_dag ts = Inr order"
    and "length us = length ts" "t_id ` set us = t_id ` set ts"
    and "\<And>u. u \<in> set us \<Longrightarrow> \<exists>t \<in> set ts. same_links t u"
  shows "\<exists>order. validate_task_dag us = Inr order"
proof -
  have ok: "links_ok ts" and ac: "acyclic (dep_edges ts)" "acyclic (parent_edges ts)"
    using assms(1) by (simp_all add: validate_iff)
  have "card (set (map t_id us)) = length (map t_id us)"
    using ok assms(2,3) distinct_card [of "map t_id ts"] by (simp add: links_ok_def)
  then have dist: "distinct (map t_id us)" by (rule card_distinct)
  have "links_ok us"
    unfolding links_ok_def assms(3)
  proof (intro conjI ballI allI impI dist)
    fix u assume "u \<in> set us"
    then obtain t where t: "t \<in> set ts" "same_links t u" using assms(4) by blast
    have l: "distinct (t_depends_on t)" "set (t_depends_on t) \<subseteq> t_id ` set ts"
      "t_id t \<notin> set (t_depends_on t)"
      and p: "\<And>p. t_parent_id t = Some p \<Longrightarrow> p \<in> t_id ` set ts \<and> p \<noteq> t_id t"
      using ok t(1) by (simp_all add: links_ok_def)
    show "distinct (t_depends_on u)" "set (t_depends_on u) \<subseteq> t_id ` set ts"
      "t_id u \<notin> set (t_depends_on u)"
      using l t(2) by (simp_all add: same_links_def)
    fix p assume "t_parent_id u = Some p"
    then show "p \<in> t_id ` set ts" "p \<noteq> t_id u" using p t(2) by (simp_all add: same_links_def)
  qed
  moreover have "dep_edges us \<subseteq> dep_edges ts"
    using assms(4) unfolding dep_edges_def same_links_def by fastforce
  moreover have "parent_edges us \<subseteq> parent_edges ts"
    using assms(4) unfolding parent_edges_def same_links_def by fastforce
  ultimately show ?thesis using ac by (auto simp: validate_iff intro: acyclic_subset)
qed

end
