(* ===== verification/Store_Types.thy ===== *)
theory Store_Types
  imports Plan_Model "HOL-Library.Product_Lexorder"
begin

text \<open>
  \<open>agent/store.py\<close>: the tables of the SQLite journal, the errors its operations raise, and
  the inserts with the constraints of the schema (primary keys, \<open>UNIQUE\<close>, foreign keys, the
  index \<open>idx_goals_one_unfinished_per_session\<close>).  A table is the list of its rows in rowid
  order.  An operation returns \<open>Inl\<close> the error it raises, in which case \<open>transaction()\<close>
  has rolled back and the caller keeps the old store, or \<open>Inr\<close> the new store with the result.
  What an operation reads from outside is the record \<open>env\<close>: the clock, read once per
  operation, and the identifiers \<open>new_id\<close> draws, by prefix and by position of the call;
  the record \<open>platform\<close> has the SHA-256 digests and conversions of the interpreter.
\<close>

section \<open>Rows\<close>

record goal_row = goal +
  g_session_id :: string

record task_row = task +
  t_plan_id :: string

datatype action_status =
    ACT_RUNNING | ACT_COMPLETED | ACT_DENIED | ACT_FAILED | ACT_UNCERTAIN
  | ACT_RESOLVED_APPLIED | ACT_RESOLVED_NOT_RUN

primrec action_value :: "action_status \<Rightarrow> string" where
  "action_value ACT_RUNNING = ''running''"
| "action_value ACT_COMPLETED = ''completed''"
| "action_value ACT_DENIED = ''denied''"
| "action_value ACT_FAILED = ''failed''"
| "action_value ACT_UNCERTAIN = ''uncertain''"
| "action_value ACT_RESOLVED_APPLIED = ''resolved_applied''"
| "action_value ACT_RESOLVED_NOT_RUN = ''resolved_not_run''"

record action_row =
  a_id :: string
  a_goal_id :: string
  a_task_id :: "string option"
  a_tool_name :: string
  a_args_hash :: string
  a_args :: json
  a_risk :: string
  a_mutating :: bool
  a_status :: action_status
  a_result_summary :: "string option"
  a_started_at :: int
  a_completed_at :: "int option"

record session_row =
  w_id :: string
  w_goal_id :: "string option"
  w_session_mode :: string
  w_plan_state :: string
  w_run_state :: string
  w_ultra_profile :: string
  w_sleep_state :: string
  w_state :: json_obj
  w_revision :: int
  w_updated_at :: int

record plan_document =
  pd_plan_id :: string
  pd_goal_id :: string
  pd_revision :: int
  pd_format_version :: int
  pd_content :: string
  pd_content_hash :: string
  pd_edited_by :: string
  pd_created_at :: int

record store =
  st_goals :: "goal_row list"
  st_plans :: "plan_row list"
  st_tasks :: "task_row list"
  st_evidence :: "evidence list"
  st_delegations :: "delegation list"
  st_approvals :: "plan_approval list"
  st_actions :: "action_row list"
  st_events :: "runtime_event list"
  st_sessions :: "session_row list"
  st_prompts :: "queued_prompt list"
  st_documents :: "plan_document list"

definition empty_store :: store where
  "empty_store =
     \<lparr>st_goals = [], st_plans = [], st_tasks = [], st_evidence = [], st_delegations = [],
      st_approvals = [], st_actions = [], st_events = [], st_sessions = [], st_prompts = [],
      st_documents = []\<rparr>"

section \<open>Environment and errors\<close>

record env =
  now :: int
  fresh :: "string \<Rightarrow> nat \<Rightarrow> string"

datatype (plugins only: code size) store_error =
    ValueError string
  | PyTypeError string
  | DomainFailure domain_error
  | NotFoundError string string
  | ActiveGoalError string string
  | StateCorruptionError string
  | StateStoreError string
  | StalePlanError string
  | CompletionGateError string
  | WorkflowSessionConflictError string int int
  | IntegrityError string

text \<open>
  \<open>int_of\<close> and \<open>dict_of\<close> are Python's \<open>int(..)\<close> and \<open>dict(..)\<close> of a value that is not an
  integer or a dictionary already.
\<close>

record platform =
  hash_json :: "json \<Rightarrow> string"
  hash_text :: "string \<Rightarrow> string"
  repr_of :: "json \<Rightarrow> string"
  int_of :: "json \<Rightarrow> store_error + int"
  dict_of :: "json \<Rightarrow> store_error + json_obj"

abbreviation domain :: "domain_error + 'a \<Rightarrow> store_error + 'a" where
  "domain \<equiv> map_error DomainFailure"

section \<open>Constraints of the schema\<close>

abbreviation goal_exists :: "string \<Rightarrow> store \<Rightarrow> bool" where
  "goal_exists gid s \<equiv> exists_row (\<lambda>g. g_id g = gid) (st_goals s)"

abbreviation unfinished :: "'a goal_scheme \<Rightarrow> bool" where
  "unfinished g \<equiv> g_status g \<notin> terminal_goal_statuses"

definition require_goal :: "string \<Rightarrow> store \<Rightarrow> store_error + unit" where
  "require_goal gid s =
     (if goal_exists gid s then Inr () else Inl (IntegrityError ''FOREIGN KEY goals(id)''))"

definition insert_goal :: "goal_row \<Rightarrow> store \<Rightarrow> store_error + store" where
  "insert_goal g s =
     (if unfinished g \<and> exists_row (\<lambda>h. g_session_id h = g_session_id g \<and> unfinished h) (st_goals s)
      then Inl (IntegrityError ''idx_goals_one_unfinished_per_session'')
      else and_then (insert_row (IntegrityError ''goals.id'') g_id g (st_goals s))
             (\<lambda>t. Inr (s\<lparr>st_goals := t\<rparr>)))"

definition insert_plan :: "plan_row \<Rightarrow> store \<Rightarrow> store_error + store" where
  "insert_plan p s =
     (if exists_row (\<lambda>q. p_goal_id q = p_goal_id p \<and> p_revision q = p_revision p) (st_plans s)
      then Inl (IntegrityError ''plans(goal_id, revision)'')
      else and_then (require_goal (p_goal_id p) s) (\<lambda>_.
           and_then (insert_row (IntegrityError ''plans.id'') p_id p (st_plans s))
             (\<lambda>t. Inr (s\<lparr>st_plans := t\<rparr>))))"

definition insert_task :: "task_row \<Rightarrow> store \<Rightarrow> store_error + store" where
  "insert_task t s =
     (if \<not> exists_row (\<lambda>p. p_id p = t_plan_id t) (st_plans s)
      then Inl (IntegrityError ''FOREIGN KEY plans(id)'')
      else and_then (require_goal (t_goal_id t) s) (\<lambda>_.
           and_then (insert_row (IntegrityError ''tasks(plan_id, task_id)'')
                       (\<lambda>r. (t_plan_id r, t_id r)) t (st_tasks s))
             (\<lambda>ts. Inr (s\<lparr>st_tasks := ts\<rparr>))))"

definition insert_evidence :: "evidence \<Rightarrow> store \<Rightarrow> store_error + store" where
  "insert_evidence e s =
     and_then (require_goal (e_goal_id e) s) (\<lambda>_.
     and_then (insert_row (IntegrityError ''evidence.id'') e_id e (st_evidence s))
       (\<lambda>t. Inr (s\<lparr>st_evidence := t\<rparr>)))"

definition insert_delegation :: "delegation \<Rightarrow> store \<Rightarrow> store_error + store" where
  "insert_delegation d s =
     and_then (require_goal (d_goal_id d) s) (\<lambda>_.
     and_then (insert_row (IntegrityError ''delegations.id'') d_id d (st_delegations s))
       (\<lambda>t. Inr (s\<lparr>st_delegations := t\<rparr>)))"

definition insert_approval :: "plan_approval \<Rightarrow> store \<Rightarrow> store_error + store" where
  "insert_approval a s =
     (if \<not> exists_row (\<lambda>p. p_id p = ap_plan_id a) (st_plans s)
      then Inl (IntegrityError ''FOREIGN KEY plans(id)'')
      else and_then (require_goal (ap_goal_id a) s) (\<lambda>_.
           and_then (insert_row (IntegrityError ''approvals.id'') ap_id a (st_approvals s))
             (\<lambda>t. Inr (s\<lparr>st_approvals := t\<rparr>))))"

definition insert_action :: "action_row \<Rightarrow> store \<Rightarrow> store_error + store" where
  "insert_action a s =
     and_then (require_goal (a_goal_id a) s) (\<lambda>_.
     and_then (insert_row (IntegrityError ''actions.id'') a_id a (st_actions s))
       (\<lambda>t. Inr (s\<lparr>st_actions := t\<rparr>)))"

definition insert_document :: "plan_document \<Rightarrow> store \<Rightarrow> store_error + store" where
  "insert_document d s =
     (if exists_row (\<lambda>q. pd_goal_id q = pd_goal_id d \<and> pd_revision q = pd_revision d) (st_documents s)
      then Inl (IntegrityError ''plan_documents(goal_id, revision)'')
      else if \<not> exists_row (\<lambda>p. p_id p = pd_plan_id d) (st_plans s)
      then Inl (IntegrityError ''FOREIGN KEY plans(id)'')
      else and_then (require_goal (pd_goal_id d) s) (\<lambda>_.
           and_then (insert_row (IntegrityError ''plan_documents.plan_id'') pd_plan_id d (st_documents s))
             (\<lambda>t. Inr (s\<lparr>st_documents := t\<rparr>))))"

definition insert_prompt :: "queued_prompt \<Rightarrow> store \<Rightarrow> store_error + store" where
  "insert_prompt q s =
     (if exists_row (\<lambda>r. q_session_id r = q_session_id q \<and> q_sequence r = q_sequence q) (st_prompts s)
      then Inl (IntegrityError ''queued_prompts(session_id, sequence)'')
      else if \<not> exists_row (\<lambda>w. w_id w = q_session_id q) (st_sessions s)
      then Inl (IntegrityError ''FOREIGN KEY workflow_sessions(id)'')
      else and_then (insert_row (IntegrityError ''queued_prompts.id'') q_id q (st_prompts s))
             (\<lambda>t. Inr (s\<lparr>st_prompts := t\<rparr>)))"

section \<open>The event journal\<close>

text \<open>
  \<open>_event\<close>: the \<open>k\<close>-th event of an operation.  The sequence number is the next rowid: the
  journal is never deleted from and a rolled back insert gives its number back.
\<close>

definition log_event :: "env \<Rightarrow> nat \<Rightarrow> string \<Rightarrow> string option \<Rightarrow> string option \<Rightarrow> string option \<Rightarrow>
    json_obj \<Rightarrow> store \<Rightarrow> store_error + store" where
  "log_event E k ety gid enty eid payload s =
     and_then (domain (mk_event
         \<lparr>ev_event_type = ety, ev_id = fresh E ''event'' k,
          ev_sequence = Some (int (length (st_events s)) + 1),
          ev_goal_id = gid, ev_entity_type = enty, ev_entity_id = eid,
          ev_payload = payload, ev_created_at = now E\<rparr>)) (\<lambda>ev.
     and_then (insert_row (IntegrityError ''events.event_id'') ev_id ev (st_events s))
       (\<lambda>t. Inr (s\<lparr>st_events := t\<rparr>)))"

definition append_event :: "env \<Rightarrow> string \<Rightarrow> string option \<Rightarrow> string option \<Rightarrow> string option \<Rightarrow>
    json_obj \<Rightarrow> store \<Rightarrow> store_error + store" where
  "append_event E ety gid enty eid payload s = log_event E 0 ety gid enty eid payload s"

definition list_events :: "string option \<Rightarrow> int \<Rightarrow> int \<Rightarrow> store \<Rightarrow> runtime_event list" where
  "list_events gid after_sequence limit s =
     take (nat (max 1 (min limit 10000)))
       (filter (\<lambda>ev. (case ev_sequence ev of Some n \<Rightarrow> n > after_sequence | None \<Rightarrow> False) \<and>
                     (case gid of None \<Rightarrow> True | Some g \<Rightarrow> g = [] \<or> ev_goal_id ev = Some g))
               (st_events s))"

definition list_recent_events :: "string option \<Rightarrow> int \<Rightarrow> store \<Rightarrow> runtime_event list" where
  "list_recent_events gid limit s =
     rev (take (nat (max 1 (min limit 10000)))
       (rev (filter (\<lambda>ev. case gid of None \<Rightarrow> True | Some g \<Rightarrow> g = [] \<or> ev_goal_id ev = Some g)
               (st_events s))))"

definition opt_str :: "string option \<Rightarrow> json" where
  "opt_str x = (case x of None \<Rightarrow> JNull | Some v \<Rightarrow> JStr v)"

section \<open>What an insert does\<close>

lemmas insert_defs = insert_goal_def insert_plan_def insert_task_def insert_evidence_def
  insert_delegation_def insert_approval_def insert_action_def insert_document_def insert_prompt_def

lemma require_goal_Inr [simp]: "require_goal gid s = Inr u \<longleftrightarrow> goal_exists gid s"
  by (auto simp: require_goal_def)

lemma insert_goal_Inr: "insert_goal g s = Inr t \<longleftrightarrow>
    t = s\<lparr>st_goals := st_goals s @ [g]\<rparr> \<and> g_id g \<notin> g_id ` set (st_goals s) \<and>
    (unfinished g \<longrightarrow> (\<forall>h \<in> set (st_goals s). g_session_id h = g_session_id g \<longrightarrow> \<not> unfinished h))"
  unfolding insert_goal_def by (auto simp: and_then_Inr insert_row_Inr)

lemma insert_plan_Inr: "insert_plan p s = Inr t \<longleftrightarrow>
    t = s\<lparr>st_plans := st_plans s @ [p]\<rparr> \<and> p_id p \<notin> p_id ` set (st_plans s) \<and>
    goal_exists (p_goal_id p) s \<and>
    (\<forall>q \<in> set (st_plans s). p_goal_id q = p_goal_id p \<longrightarrow> p_revision q \<noteq> p_revision p)"
  unfolding insert_plan_def by (auto simp: and_then_Inr insert_row_Inr)

lemma insert_task_Inr: "insert_task t s = Inr s' \<longleftrightarrow>
    s' = s\<lparr>st_tasks := st_tasks s @ [t]\<rparr> \<and>
    (t_plan_id t, t_id t) \<notin> (\<lambda>r. (t_plan_id r, t_id r)) ` set (st_tasks s) \<and>
    goal_exists (t_goal_id t) s \<and> (\<exists>p \<in> set (st_plans s). p_id p = t_plan_id t)"
  unfolding insert_task_def by (auto simp: and_then_Inr insert_row_Inr)

lemma insert_evidence_Inr: "insert_evidence e s = Inr t \<longleftrightarrow>
    t = s\<lparr>st_evidence := st_evidence s @ [e]\<rparr> \<and> e_id e \<notin> e_id ` set (st_evidence s) \<and>
    goal_exists (e_goal_id e) s"
  unfolding insert_evidence_def by (auto simp: and_then_Inr insert_row_Inr)

lemma insert_delegation_Inr: "insert_delegation d s = Inr t \<longleftrightarrow>
    t = s\<lparr>st_delegations := st_delegations s @ [d]\<rparr> \<and> d_id d \<notin> d_id ` set (st_delegations s) \<and>
    goal_exists (d_goal_id d) s"
  unfolding insert_delegation_def by (auto simp: and_then_Inr insert_row_Inr)

lemma insert_approval_Inr: "insert_approval a s = Inr t \<longleftrightarrow>
    t = s\<lparr>st_approvals := st_approvals s @ [a]\<rparr> \<and> ap_id a \<notin> ap_id ` set (st_approvals s) \<and>
    goal_exists (ap_goal_id a) s \<and> (\<exists>p \<in> set (st_plans s). p_id p = ap_plan_id a)"
  unfolding insert_approval_def by (auto simp: and_then_Inr insert_row_Inr)

lemma insert_action_Inr: "insert_action a s = Inr t \<longleftrightarrow>
    t = s\<lparr>st_actions := st_actions s @ [a]\<rparr> \<and> a_id a \<notin> a_id ` set (st_actions s) \<and>
    goal_exists (a_goal_id a) s"
  unfolding insert_action_def by (auto simp: and_then_Inr insert_row_Inr)

lemma insert_document_Inr: "insert_document d s = Inr t \<Longrightarrow>
    t = s\<lparr>st_documents := st_documents s @ [d]\<rparr>"
  unfolding insert_document_def by (auto simp: and_then_Inr insert_row_Inr split: if_splits)

lemma insert_prompt_Inr: "insert_prompt q s = Inr t \<longleftrightarrow>
    t = s\<lparr>st_prompts := st_prompts s @ [q]\<rparr> \<and> q_id q \<notin> q_id ` set (st_prompts s) \<and>
    (\<exists>w \<in> set (st_sessions s). w_id w = q_session_id q) \<and>
    (\<forall>r \<in> set (st_prompts s). q_session_id r = q_session_id q \<longrightarrow> q_sequence r \<noteq> q_sequence q)"
  unfolding insert_prompt_def by (auto simp: and_then_Inr insert_row_Inr)

lemma log_event_Inr: "log_event E k ety gid enty eid payload s = Inr t \<longleftrightarrow>
    ety \<noteq> [] \<and> fresh E ''event'' k \<notin> ev_id ` set (st_events s) \<and>
    t = s\<lparr>st_events := st_events s @
      [\<lparr>ev_event_type = ety, ev_id = fresh E ''event'' k,
        ev_sequence = Some (int (length (st_events s)) + 1),
        ev_goal_id = gid, ev_entity_type = enty, ev_entity_id = eid,
        ev_payload = payload, ev_created_at = now E\<rparr>]\<rparr>"
  unfolding log_event_def by (auto simp: and_then_Inr insert_row_Inr mk_event_Inr)

lemmas insert_Inrs = insert_goal_Inr insert_plan_Inr insert_task_Inr insert_evidence_Inr
  insert_delegation_Inr insert_approval_Inr insert_action_Inr insert_prompt_Inr

end
