(* ===== verification/Store_Goals.thy ===== *)
theory Store_Goals
  imports Store_Types
begin

text \<open>
  The goal operations of \<open>StateStore\<close>: creation (with the at-most-one-unfinished-goal rule),
  the queries, \<open>transition_goal\<close> with the session projection it keeps aligned, atomic
  cancellation, metadata, and the resource claims stored in the metadata.
\<close>

section \<open>Creation\<close>

definition check_objective :: "string \<Rightarrow> store_error + unit" where
  "check_objective objective =
     (if strip objective = [] then Inl (ValueError ''goal objective must not be empty'')
      else if CHR 0x00 \<in> set objective
      then Inl (ValueError ''goal objective must not contain NUL bytes'')
      else if 20000 < length objective
      then Inl (ValueError ''goal objective exceeds 20,000 characters'')
      else Inr ())"

definition active_row :: "string \<Rightarrow> store \<Rightarrow> goal_row option" where
  "active_row session s = fetchone (\<lambda>g. g_session_id g = session \<and> unfinished g) (st_goals s)"

definition create_goal :: "env \<Rightarrow> string \<Rightarrow> string \<Rightarrow> string list \<Rightarrow> string list \<Rightarrow> json_obj \<Rightarrow>
    store \<Rightarrow> store_error + store \<times> goal" where
  "create_goal E objective session criteria constraints metadata s =
     and_then (check_objective objective) (\<lambda>_.
     case active_row session s of
       Some active \<Rightarrow> Inl (ActiveGoalError session (g_id active))
     | None \<Rightarrow>
       and_then (domain (mk_goal
           \<lparr>g_id = fresh E ''goal'' 0, g_objective = objective, g_success_criteria = criteria,
            g_constraints = constraints, g_status = GOAL_NEW, g_active_plan_revision = None,
            g_metadata = metadata, g_created_at = now E, g_updated_at = now E\<rparr>)) (\<lambda>goal.
       and_then (insert_goal (goal.extend goal (goal_row.fields session)) s) (\<lambda>s1.
       and_then (log_event E 0 ''goal.created'' (Some (g_id goal)) (Some ''goal'') (Some (g_id goal))
                   [(''objective'', JStr (g_objective goal))] s1) (\<lambda>s2.
       Inr (s2, goal)))))"

text \<open>The semantic turn the new goal completes is moved from pending to last.\<close>

definition complete_turn :: "platform \<Rightarrow> string option \<Rightarrow> json_obj \<Rightarrow> json_obj" where
  "complete_turn P turn state =
     (case turn of None \<Rightarrow> state
      | Some t \<Rightarrow>
        if t = [] then state
        else (case obj_get state ''pending_semantic_turn'' of
            Some (JObj pending) \<Rightarrow>
              (let turn_id = get_or JNull pending ''turn_id'' in
               if (if truthy turn_id then py_str (repr_of P) turn_id else []) = t
               then AList.delete ''pending_semantic_turn''
                 (obj_set ''last_semantic_turn''
                    (JObj (obj_merge pending
                       [(''status'', JStr ''completed''),
                        (''result_status'', JStr ''goal_created''),
                        (''attempt_state'', JStr ''completed'')])) state)
               else state)
          | _ \<Rightarrow> state))"

record bind_request =
  b_session_mode :: string
  b_plan_state :: string
  b_run_state :: string
  b_ultra_profile :: string
  b_sleep_state :: string
  b_state :: "json_obj option"
  b_expected_revision :: "int option"
  b_turn_id :: "string option"
  b_initial_status :: goal_status

definition create_goal_and_bind_workflow_session :: "platform \<Rightarrow> env \<Rightarrow> string \<Rightarrow> string \<Rightarrow>
    string list \<Rightarrow> string list \<Rightarrow> json_obj \<Rightarrow> bind_request \<Rightarrow> store \<Rightarrow> store_error + store \<times> goal" where
  "create_goal_and_bind_workflow_session P E objective session criteria constraints metadata b s =
     and_then (check_objective objective) (\<lambda>_.
     case fetchone (\<lambda>w. w_id w = session) (st_sessions s) of
       None \<Rightarrow> Inl (NotFoundError ''workflow session'' session)
     | Some row \<Rightarrow>
       if b_expected_revision b \<noteq> None \<and> b_expected_revision b \<noteq> Some (w_revision row)
       then Inl (WorkflowSessionConflictError session (the (b_expected_revision b)) (w_revision row))
       else case active_row session s of
         Some active \<Rightarrow> Inl (ActiveGoalError session (g_id active))
       | None \<Rightarrow>
         and_then (domain (mk_goal
           \<lparr>g_id = fresh E ''goal'' 0, g_objective = objective, g_success_criteria = criteria,
            g_constraints = constraints, g_status = b_initial_status b, g_active_plan_revision = None,
            g_metadata = metadata, g_created_at = now E, g_updated_at = now E\<rparr>)) (\<lambda>goal.
         and_then (insert_goal (goal.extend goal (goal_row.fields session)) s) (\<lambda>s1.
         let base = (case b_state b of Some st \<Rightarrow> st | None \<Rightarrow> w_state row);
             state_value = complete_turn P (b_turn_id b) base;
             next_revision = w_revision row + 1;
             s2 = s1\<lparr>st_sessions := update_where (\<lambda>w. w_id w = session) (\<lambda>w.
                 w\<lparr>w_goal_id := Some (g_id goal), w_session_mode := b_session_mode b,
                   w_plan_state := b_plan_state b, w_run_state := b_run_state b,
                   w_ultra_profile := b_ultra_profile b, w_sleep_state := b_sleep_state b,
                   w_state := state_value, w_revision := next_revision, w_updated_at := now E\<rparr>)
               (st_sessions s1)\<rparr>
         in and_then (log_event E 0 ''goal.created'' (Some (g_id goal)) (Some ''goal'') (Some (g_id goal))
                 [(''objective'', JStr (g_objective goal)), (''status'', JStr (goal_value (g_status goal))),
                  (''session_id'', JStr session), (''atomic_session_binding'', JBool True)] s2) (\<lambda>s3.
            and_then (log_event E 1 ''workflow.goal_bound'' (Some (g_id goal)) (Some ''workflow_session'')
                 (Some session)
                 [(''session_revision'', JInt next_revision), (''phase'', JStr ''planning''),
                  (''semantic_turn_id'', JStr (case b_turn_id b of None \<Rightarrow> [] | Some t \<Rightarrow> t))] s3) (\<lambda>s4.
            Inr (s4, goal))))))"

section \<open>Queries\<close>

definition get_goal :: "string \<Rightarrow> store \<Rightarrow> store_error + goal" where
  "get_goal gid s =
     (case fetchone (\<lambda>g. g_id g = gid) (st_goals s) of
        None \<Rightarrow> Inl (NotFoundError ''goal'' gid) | Some g \<Rightarrow> Inr (goal.truncate g))"

definition goal_session_id :: "string \<Rightarrow> store \<Rightarrow> store_error + string" where
  "goal_session_id gid s =
     (case fetchone (\<lambda>g. g_id g = gid) (st_goals s) of
        None \<Rightarrow> Inl (NotFoundError ''goal'' gid) | Some g \<Rightarrow> Inr (g_session_id g))"

definition load_active_goal :: "string \<Rightarrow> store \<Rightarrow> store_error + goal option" where
  "load_active_goal session s =
     (case rev (sort_key g_created_at (filter (\<lambda>g. g_session_id g = session \<and> unfinished g) (st_goals s))) of
        [] \<Rightarrow> Inr None
      | [g] \<Rightarrow> Inr (Some (goal.truncate g))
      | _ \<Rightarrow> Inl (StateCorruptionError session))"

definition newest_first :: "goal_row list \<Rightarrow> goal_row list" where
  "newest_first gs = rev (sort_key (\<lambda>g. (g_created_at g, g_id g)) gs)"

definition get_latest_goal :: "string option \<Rightarrow> store \<Rightarrow> goal option" where
  "get_latest_goal session s =
     (case newest_first (filter (\<lambda>g. session = None \<or> session = Some (g_session_id g)) (st_goals s)) of
        [] \<Rightarrow> None | g # _ \<Rightarrow> Some (goal.truncate g))"

definition list_goals :: "string option \<Rightarrow> int option \<Rightarrow> int \<Rightarrow> store \<Rightarrow> goal list" where
  "list_goals session after_created_at limit s =
     map goal.truncate (take (nat (max 1 (min limit 500))) (newest_first
       (filter (\<lambda>g. (session = None \<or> session = Some (g_session_id g)) \<and>
                    (case after_created_at of None \<Rightarrow> True | Some c \<Rightarrow> g_created_at g < c)) (st_goals s))))"

section \<open>Status\<close>

definition session_projection :: "goal_status \<Rightarrow> string \<times> string option" where
  "session_projection st =
     (case st of
        GOAL_NEW \<Rightarrow> (''idle'', Some ''none'')
      | GOAL_DISCOVERING \<Rightarrow> (''planning'', Some ''inspecting'')
      | GOAL_AWAITING_PLAN_APPROVAL \<Rightarrow> (''planning'', Some ''awaiting_approval'')
      | GOAL_RUNNING \<Rightarrow> (''executing'', Some ''approved'')
      | GOAL_REVISING \<Rightarrow> (''planning'', Some ''reviewing'')
      | GOAL_VERIFYING \<Rightarrow> (''verifying'', Some ''approved'')
      | GOAL_REVIEWING \<Rightarrow> (''reviewing'', Some ''approved'')
      | GOAL_PAUSED \<Rightarrow> (''blocked'', None)
      | GOAL_RECOVERING \<Rightarrow> (''executing'', Some ''approved'')
      | GOAL_BLOCKED \<Rightarrow> (''blocked'', None)
      | GOAL_COMPLETED \<Rightarrow> (''completed'', Some ''approved'')
      | GOAL_CANCELLED \<Rightarrow> (''cancelled'', Some ''none''))"

definition project_session :: "goal_status \<Rightarrow> int \<Rightarrow> session_row \<Rightarrow> session_row" where
  "project_session st t w =
     (case session_projection st of
        (run_state, None) \<Rightarrow>
          w\<lparr>w_run_state := run_state, w_revision := w_revision w + 1, w_updated_at := t\<rparr>
      | (run_state, Some plan_state) \<Rightarrow>
          w\<lparr>w_run_state := run_state, w_plan_state := plan_state,
            w_revision := w_revision w + 1, w_updated_at := t\<rparr>)"

definition transition_goal :: "env \<Rightarrow> string \<Rightarrow> goal_status \<Rightarrow> string \<Rightarrow> json_obj \<Rightarrow> store \<Rightarrow>
    store_error + store \<times> goal" where
  "transition_goal E gid target reason metadata s =
     (case fetchone (\<lambda>g. g_id g = gid) (st_goals s) of
        None \<Rightarrow> Inl (NotFoundError ''goal'' gid)
      | Some current \<Rightarrow>
        and_then (domain (ensure_goal_transition (g_status current) target)) (\<lambda>_.
        let merged = obj_merge (g_metadata current) metadata;
            s1 = s\<lparr>st_goals := update_where (\<lambda>g. g_id g = gid)
                     (\<lambda>g. g\<lparr>g_status := target, g_metadata := merged, g_updated_at := now E\<rparr>) (st_goals s)\<rparr>;
            s2 = s1\<lparr>st_sessions := update_where (\<lambda>w. w_goal_id w = Some gid)
                     (project_session target (now E)) (st_sessions s1)\<rparr>
        in and_then (log_event E 0 ''goal.status_changed'' (Some gid) (Some ''goal'') (Some gid)
               [(''from'', JStr (goal_value (g_status current))), (''to'', JStr (goal_value target)),
                (''reason'', JStr reason)] s2) (\<lambda>s3.
           Inr (s3, goal.truncate (current\<lparr>g_status := target, g_metadata := merged, g_updated_at := now E\<rparr>)))))"

definition cancel_goal_and_session :: "env \<Rightarrow> string \<Rightarrow> string \<Rightarrow> string \<Rightarrow> store \<Rightarrow>
    store_error + store \<times> goal" where
  "cancel_goal_and_session E gid session reason s =
     (case fetchone (\<lambda>g. g_id g = gid) (st_goals s) of
        None \<Rightarrow> Inl (NotFoundError ''goal'' gid)
      | Some current \<Rightarrow>
        and_then (domain (ensure_goal_transition (g_status current) GOAL_CANCELLED)) (\<lambda>_.
        let base = (case fetchone (\<lambda>w. w_id w = session) (st_sessions s) of
                      Some w \<Rightarrow> w_state w | None \<Rightarrow> []);
            state = obj_merge base
                      [(''terminal_goal_id'', JStr gid),
                       (''terminal_goal_status'', JStr (goal_value GOAL_CANCELLED)),
                       (''terminal_reason'', JStr reason)];
            s1 = s\<lparr>st_goals := update_where (\<lambda>g. g_id g = gid)
                     (\<lambda>g. g\<lparr>g_status := GOAL_CANCELLED, g_updated_at := now E\<rparr>) (st_goals s)\<rparr>;
            s2 = s1\<lparr>st_sessions := update_where (\<lambda>w. w_id w = session)
                     (\<lambda>w. w\<lparr>w_goal_id := None, w_plan_state := ''none'', w_run_state := ''cancelled'',
                            w_state := state, w_revision := w_revision w + 1, w_updated_at := now E\<rparr>)
                     (st_sessions s1)\<rparr>;
            s3 = s2\<lparr>st_prompts := update_where
                     (\<lambda>q. q_session_id q = session \<and> q_goal_id q = Some gid \<and>
                          (q_status q = PROMPT_PENDING \<or> q_status q = PROMPT_RUNNING))
                     (\<lambda>q. q\<lparr>q_status := PROMPT_CANCELLED, q_completed_at := Some (now E)\<rparr>)
                     (st_prompts s2)\<rparr>
        in and_then (log_event E 0 ''goal.status_changed'' (Some gid) (Some ''goal'') (Some gid)
               [(''from'', JStr (goal_value (g_status current))),
                (''to'', JStr (goal_value GOAL_CANCELLED)), (''reason'', JStr reason)] s3) (\<lambda>s4.
           Inr (s4, goal.truncate (current\<lparr>g_status := GOAL_CANCELLED, g_updated_at := now E\<rparr>)))))"

definition update_goal_metadata :: "env \<Rightarrow> string \<Rightarrow> json_obj \<Rightarrow> store \<Rightarrow> store_error + store \<times> goal" where
  "update_goal_metadata E gid metadata s =
     and_then (get_goal gid s) (\<lambda>current.
     let merged = obj_merge (g_metadata current) metadata;
         s1 = s\<lparr>st_goals := update_where (\<lambda>g. g_id g = gid)
                  (\<lambda>g. g\<lparr>g_metadata := merged, g_updated_at := now E\<rparr>) (st_goals s)\<rparr>
     in and_then (log_event E 0 ''goal.metadata_updated'' (Some gid) (Some ''goal'') (Some gid)
            [(''keys'', jstrs (sorted_set (map fst metadata)))] s1) (\<lambda>s2.
        Inr (s2, current\<lparr>g_metadata := merged, g_updated_at := now E\<rparr>)))"

section \<open>Resource claims\<close>

text \<open>The values of a field that is iterated, each as \<open>str(value).strip()\<close>.\<close>

definition stripped_items :: "platform \<Rightarrow> json \<Rightarrow> store_error + string list" where
  "stripped_items P v =
     (case py_iter v of None \<Rightarrow> Inl (PyTypeError ''not iterable'')
      | Some xs \<Rightarrow> Inr (map (\<lambda>x. strip (py_str (repr_of P) x)) xs))"

definition replace_backslash :: "string \<Rightarrow> string" where
  "replace_backslash s = map (\<lambda>c. if c = CHR 0x5C then CHR ''/'' else c) s"

definition goal_claims :: "json_obj \<Rightarrow> store_error + json_obj list" where
  "goal_claims metadata =
     (case py_iter (get_or (JArr []) metadata ''resource_claims'') of
        None \<Rightarrow> Inl (PyTypeError ''resource_claims is not iterable'')
      | Some xs \<Rightarrow> Inr (List.map_filter (\<lambda>x. case x of JObj c \<Rightarrow> Some c | _ \<Rightarrow> None) xs))"

text \<open>A claim is skipped when a task is named that it does not support.\<close>

definition claim_selected :: "platform \<Rightarrow> string option \<Rightarrow> json_obj \<Rightarrow> store_error + bool" where
  "claim_selected P task claim =
     and_then (stripped_items P (get_or (JArr []) claim ''supports_tasks'')) (\<lambda>supports.
     Inr (case task of None \<Rightarrow> True
          | Some t \<Rightarrow> t = [] \<or> upper (strip t) \<in> set (map upper supports)))"

fun lease_claims :: "platform \<Rightarrow> string option \<Rightarrow> json_obj list \<Rightarrow>
    store_error + json_obj list \<times> string list" where
  "lease_claims P task [] = Inr ([], [])"
| "lease_claims P task (claim # claims) =
     and_then (claim_selected P task claim) (\<lambda>selected.
     if \<not> selected
     then and_then (lease_claims P task claims) (\<lambda>(cs, leased). Inr (claim # cs, leased))
     else and_then (stripped_items P (get_or (JArr []) claim ''resolved_paths'')) (\<lambda>items.
       let paths = map replace_backslash (filter (\<lambda>p. p \<noteq> []) items);
           claim' = (if paths \<noteq> [] then obj_set ''state'' (JStr ''leased'') claim else claim)
       in and_then (lease_claims P task claims) (\<lambda>(cs, leased). Inr (claim' # cs, paths @ leased))))"

definition lease_resource_claims :: "platform \<Rightarrow> env \<Rightarrow> string \<Rightarrow> string option \<Rightarrow> store \<Rightarrow>
    store_error + store \<times> string list" where
  "lease_resource_claims P E gid task s =
     (case fetchone (\<lambda>g. g_id g = gid) (st_goals s) of
        None \<Rightarrow> Inl (NotFoundError ''goal'' gid)
      | Some row \<Rightarrow>
        and_then (goal_claims (g_metadata row)) (\<lambda>claims.
        and_then (lease_claims P task claims) (\<lambda>(cs, leased).
        Inr (s\<lparr>st_goals := update_where (\<lambda>g. g_id g = gid)
               (\<lambda>g. g\<lparr>g_metadata := obj_set ''resource_claims'' (JArr (map JObj cs)) (g_metadata row),
                      g_updated_at := now E\<rparr>) (st_goals s)\<rparr>,
             dict_fromkeys leased))))"

fun release_claims :: "platform \<Rightarrow> string option \<Rightarrow> json_obj list \<Rightarrow> store_error + json_obj list" where
  "release_claims P task [] = Inr []"
| "release_claims P task (claim # claims) =
     and_then (claim_selected P task claim) (\<lambda>selected.
     let claim' = (if selected \<and> obj_get claim ''state'' = Some (JStr ''leased'')
                   then obj_set ''state'' (JStr ''released'') claim else claim)
     in and_then (release_claims P task claims) (\<lambda>cs. Inr (claim' # cs)))"

definition release_resource_claims :: "platform \<Rightarrow> env \<Rightarrow> string \<Rightarrow> string option \<Rightarrow> store \<Rightarrow>
    store_error + store" where
  "release_resource_claims P E gid task s =
     (case fetchone (\<lambda>g. g_id g = gid) (st_goals s) of
        None \<Rightarrow> Inl (NotFoundError ''goal'' gid)
      | Some row \<Rightarrow>
        and_then (goal_claims (g_metadata row)) (\<lambda>claims.
        and_then (release_claims P task claims) (\<lambda>cs.
        Inr (s\<lparr>st_goals := update_where (\<lambda>g. g_id g = gid)
               (\<lambda>g. g\<lparr>g_metadata := obj_set ''resource_claims'' (JArr (map JObj cs)) (g_metadata row),
                      g_updated_at := now E\<rparr>) (st_goals s)\<rparr>))))"

end
