(* ===== verification/Store_Plans.thy ===== *)
theory Store_Plans
  imports Store_Goals
begin

text \<open>
  The plan operations of \<open>StateStore\<close>: normalising the tasks of a proposal, the fingerprint
  over the reviewable content, the coverage check of its evidence, \<open>create_plan\<close>, the
  queries that join a plan row with its tasks, and the approval and rejection gates.
\<close>

section \<open>Normalisation, fingerprint and basis\<close>

definition is_upper_id :: "string \<Rightarrow> bool" where
  "is_upper_id s =
     (case s of [] \<Rightarrow> False
      | c # cs \<Rightarrow> (is_upper_letter c \<or> is_digit c) \<and>
          list_all (\<lambda>d. is_upper_letter d \<or> is_digit d \<or> d \<in> set ''_.-'') cs \<and> length cs \<le> 23)"

text \<open>
  A proposal lists tasks as \<open>Task\<close> objects or as mappings.  \<open>value.get(k)\<close> of a mapping is used
  when it is truthy.  The lists of a role hold strings: an item of another type, which the source would
  keep as it is, becomes its text.
\<close>

datatype task_input = TaskObject task | TaskMapping json_obj

definition get_truthy :: "json_obj \<Rightarrow> string \<Rightarrow> json option" where
  "get_truthy d k = (case obj_get d k of Some v \<Rightarrow> if truthy v then Some v else None | None \<Rightarrow> None)"

definition text_items :: "platform \<Rightarrow> json \<Rightarrow> store_error + string list" where
  "text_items P v =
     (case py_iter v of None \<Rightarrow> Inl (PyTypeError ''not iterable'')
      | Some xs \<Rightarrow> Inr (map (py_str (repr_of P)) xs))"

definition to_int :: "platform \<Rightarrow> json \<Rightarrow> store_error + int" where
  "to_int P v =
     (case v of JInt i \<Rightarrow> Inr i | JBool b \<Rightarrow> Inr (if b then 1 else 0) | _ \<Rightarrow> int_of P v)"

definition dict_or_empty :: "platform \<Rightarrow> json_obj \<Rightarrow> string \<Rightarrow> store_error + json_obj" where
  "dict_or_empty P d k =
     (case get_truthy d k of None \<Rightarrow> Inr [] | Some (JObj kvs) \<Rightarrow> Inr kvs | Some v \<Rightarrow> dict_of P v)"

definition items_or_empty :: "platform \<Rightarrow> json_obj \<Rightarrow> string \<Rightarrow> store_error + string list" where
  "items_or_empty P d k = (case get_truthy d k of None \<Rightarrow> Inr [] | Some v \<Rightarrow> text_items P v)"

definition role_from_dict :: "platform \<Rightarrow> json_obj \<Rightarrow> store_error + role_profile" where
  "role_from_dict P value =
     and_then (items_or_empty P value ''expertise'') (\<lambda>expertise.
     and_then (items_or_empty P value ''constraints'') (\<lambda>constraints.
     and_then (items_or_empty P value ''deliverables'') (\<lambda>deliverables.
     and_then (dict_or_empty P value ''tool_policy'') (\<lambda>tool_policy.
     and_then (dict_or_empty P value ''metadata'') (\<lambda>metadata.
     domain (mk_role
       \<lparr>rp_name = py_str (repr_of P) (get_or (JStr (rp_name default_role)) value ''name''),
        rp_mission = py_str (repr_of P) (get_or (JStr (rp_mission default_role)) value ''mission''),
        rp_expertise = expertise, rp_constraints = constraints, rp_deliverables = deliverables,
        rp_tool_policy = tool_policy, rp_metadata = metadata\<rparr>))))))"

definition status_of_json :: "json \<Rightarrow> store_error + task_status" where
  "status_of_json v =
     (case v of JStr s \<Rightarrow> (case enum_parse task_statuses task_value s of
                           Some st \<Rightarrow> Inr st | None \<Rightarrow> Inl (ValueError ''not a valid TaskStatus''))
      | _ \<Rightarrow> Inl (ValueError ''not a valid TaskStatus''))"

definition task_metadata :: "platform \<Rightarrow> json_obj \<Rightarrow> store_error + json_obj" where
  "task_metadata P value =
     and_then (dict_or_empty P value ''metadata'') (\<lambda>metadata.
     case get_truthy value ''requirement_refs'' of
       None \<Rightarrow> Inr metadata
     | Some refs \<Rightarrow> and_then (text_items P refs) (\<lambda>names.
         Inr (obj_set ''requirement_refs'' (jstrs (map upper names)) metadata)))"

definition coerce_mapping :: "platform \<Rightarrow> env \<Rightarrow> nat \<Rightarrow> json_obj \<Rightarrow> string \<Rightarrow> int \<Rightarrow> string \<Rightarrow> store_error + task" where
  "coerce_mapping P E k value gid revision origin =
     and_then (role_from_dict P (case obj_get value ''role'' of Some (JObj r) \<Rightarrow> r | _ \<Rightarrow> [])) (\<lambda>role.
     let str = py_str (repr_of P);
         task_id = upper (strip (case get_truthy value ''id'' of
                     Some v \<Rightarrow> str v | None \<Rightarrow> take 24 (fresh E ''task'' k)));
         title = map_option str (get_truthy value ''title'')
     in if \<not> is_upper_id task_id then Inl (ValueError ''invalid task id'')
     else
     and_then (status_of_json (get_or (JStr ''pending'') value ''status'')) (\<lambda>status.
     and_then (text_items P (get_or (JArr []) value ''depends_on'')) (\<lambda>depends_on.
     and_then (text_items P (get_or (JArr []) value ''acceptance_criteria'')) (\<lambda>criteria.
     and_then (text_items P (get_or (JArr []) value ''verification'')) (\<lambda>verification.
     and_then (to_int P (get_or (JInt 0) value ''priority'')) (\<lambda>priority.
     and_then (to_int P (get_or (JInt 0) value ''attempts'')) (\<lambda>attempts.
     and_then (task_metadata P value) (\<lambda>metadata.
     domain (mk_task
       \<lparr>t_id = task_id, t_title = (case title of Some t \<Rightarrow> t | None \<Rightarrow> ''Untitled task''),
        t_description = (case get_truthy value ''description'' of Some v \<Rightarrow> str v
                         | None \<Rightarrow> (case title of Some t \<Rightarrow> t | None \<Rightarrow> [])),
        t_goal_id = gid, t_plan_revision = revision,
        t_parent_id = map_option (\<lambda>v. upper (strip (str v))) (get_truthy value ''parent_id''),
        t_status = status, t_depends_on = map (\<lambda>d. upper (strip d)) depends_on,
        t_acceptance_criteria = criteria, t_verification = verification, t_role = role,
        t_mode = str (get_or (JStr ''auto'') value ''mode''),
        t_risk = casefold (str (get_or (JStr ''medium'') value ''risk'')),
        t_priority = priority, t_attempts = attempts,
        t_origin = str (get_or (JStr origin) value ''origin''), t_metadata = metadata,
        t_created_at = now E, t_updated_at = now E\<rparr>)))))))))"

definition coerce_task :: "platform \<Rightarrow> env \<Rightarrow> nat \<Rightarrow> task_input \<Rightarrow> string \<Rightarrow> int \<Rightarrow> string \<Rightarrow> store_error + task" where
  "coerce_task P E k value gid revision origin =
     (case value of
        TaskMapping m \<Rightarrow> coerce_mapping P E k m gid revision origin
      | TaskObject t \<Rightarrow>
        let task_id = upper (strip (t_id t)) in
        if \<not> is_upper_id task_id then Inl (ValueError ''invalid task id'')
        else domain (mk_task (t\<lparr>t_id := task_id, t_goal_id := gid, t_plan_revision := revision,
               t_parent_id := (case t_parent_id t of None \<Rightarrow> None
                               | Some p \<Rightarrow> if p = [] then None else Some (upper (strip p))),
               t_depends_on := map (\<lambda>d. upper (strip d)) (t_depends_on t)\<rparr>)))"

text \<open>The tasks of a proposal, in order; the position of one is its draw of an identifier.\<close>

definition coerce_tasks :: "platform \<Rightarrow> env \<Rightarrow> string \<Rightarrow> int \<Rightarrow> string \<Rightarrow> task_input list \<Rightarrow> store_error + task list" where
  "coerce_tasks P E gid revision origin values =
     map_result (\<lambda>(k, value). coerce_task P E k value gid revision origin) (enumerate 0 values)"

definition digest_of :: "platform \<Rightarrow> json \<Rightarrow> string" where
  "digest_of P v = hash_json P (canonical v)"

definition task_spec :: "task \<Rightarrow> json" where
  "task_spec t = JObj
     [(''id'', JStr (t_id t)), (''title'', JStr (t_title t)),
      (''description'', JStr (t_description t)), (''parent_id'', opt_str (t_parent_id t)),
      (''depends_on'', jstrs (t_depends_on t)),
      (''acceptance_criteria'', jstrs (t_acceptance_criteria t)),
      (''verification'', jstrs (t_verification t)), (''role'', role_to_dict (t_role t)),
      (''mode'', JStr (t_mode t)), (''risk'', JStr (t_risk t)),
      (''priority'', JInt (t_priority t)), (''origin'', JStr (t_origin t))]"

definition plan_fingerprint :: "platform \<Rightarrow> string \<Rightarrow> task list \<Rightarrow> json_obj list \<Rightarrow> string \<Rightarrow>
    json_obj list \<Rightarrow> string" where
  "plan_fingerprint P summary tasks applicability strategy changes =
     digest_of P (JObj
       [(''summary'', JStr summary),
        (''applicability_evidence'', JArr (map JObj applicability)),
        (''execution_strategy'', JStr strategy),
        (''expected_changes'', JArr (map JObj changes)),
        (''tasks'', JArr (map task_spec tasks))])"

text \<open>
  One pass of \<open>_validate_plan_basis\<close> over evidence items (first field \<open>fact\<close>, second
  \<open>source\<close>) or expected changes (\<open>path\<close> and \<open>intent\<close>); it returns the tasks covered.
\<close>

fun basis_coverage :: "platform \<Rightarrow> string list \<Rightarrow> string \<Rightarrow> string \<Rightarrow> string \<Rightarrow> json_obj list \<Rightarrow>
    store_error + string list" where
  "basis_coverage P ids what key1 key2 [] = Inr []"
| "basis_coverage P ids what key1 key2 (item # items) =
     (let text1 = strip (py_str (repr_of P) (get_or (JStr []) item key1));
          text2 = strip (py_str (repr_of P) (get_or (JStr []) item key2))
      in and_then (stripped_items P (get_or (JArr []) item ''supports_tasks'')) (\<lambda>values.
         let supports = map upper values in
         if text1 = [] \<or> text2 = [] \<or> supports = []
         then Inl (ValueError (what @ '' requires fields and supported tasks''))
         else if \<not> set supports \<subseteq> set ids
         then Inl (ValueError (what @ '' references a task outside this plan''))
         else and_then (basis_coverage P ids what key1 key2 items) (\<lambda>rest. Inr (supports @ rest))))"

definition validate_plan_basis :: "platform \<Rightarrow> task list \<Rightarrow> json_obj list \<Rightarrow> string \<Rightarrow> json_obj list \<Rightarrow>
    store_error + unit" where
  "validate_plan_basis P tasks applicability strategy changes =
     (let ids = map t_id tasks in
      and_then (basis_coverage P ids ''applicability evidence'' ''fact'' ''source'' applicability) (\<lambda>covered.
      if set covered \<noteq> set ids
      then Inl (ValueError ''applicability evidence must cover every plan task'')
      else if 8000 < length strategy
      then Inl (ValueError ''execution strategy exceeds 8,000 characters'')
      else and_then (basis_coverage P ids ''expected changes'' ''path'' ''intent'' changes) (\<lambda>_. Inr ())))"

section \<open>Creation\<close>

record plan_request =
  pr_summary :: string
  pr_tasks :: "task_input list"
  pr_applicability :: "json_obj list"
  pr_strategy :: string
  pr_changes :: "json_obj list"
  pr_proposed_by :: string
  pr_submit :: bool
  pr_document :: "string option"
  pr_format_version :: int
  pr_edited_by :: string
  pr_expected_parent :: "int option"

definition revisions_of :: "string \<Rightarrow> store \<Rightarrow> int list" where
  "revisions_of gid s = map p_revision (filter (\<lambda>p. p_goal_id p = gid) (st_plans s))"

text \<open>\<open>SELECT MAX(revision)\<close>: \<open>None\<close> is SQL \<open>NULL\<close>.\<close>

definition latest_revision :: "string \<Rightarrow> store \<Rightarrow> int option" where
  "latest_revision gid s =
     (let rs = revisions_of gid s in if rs = [] then None else Some (Max (set rs)))"

definition create_plan :: "platform \<Rightarrow> env \<Rightarrow> string \<Rightarrow> plan_request \<Rightarrow> store \<Rightarrow>
    store_error + store \<times> plan" where
  "create_plan P E gid r s =
     (let summary = strip (pr_summary r); strategy = strip (pr_strategy r);
          applicability = pr_applicability r; changes = pr_changes r in
      if summary = [] then Inl (ValueError ''a plan requires a non-empty summary'')
      else if 20000 < length summary then Inl (ValueError ''plan summary exceeds 20,000 characters'')
      else if applicability = []
      then Inl (ValueError ''a plan requires inspected applicability evidence'')
      else if strategy = [] then Inl (ValueError ''a plan requires an executable strategy'')
      else if \<not> goal_exists gid s then Inl (NotFoundError ''goal'' gid)
      else let current_revision = (case latest_revision gid s of None \<Rightarrow> 0 | Some n \<Rightarrow> n) in
      if pr_expected_parent r \<noteq> None \<and> pr_expected_parent r \<noteq> Some current_revision
      then Inl (StalePlanError ''cannot create a revision from stale plan'')
      else let revision = current_revision + 1 in
      and_then (coerce_tasks P E gid revision (pr_proposed_by r) (pr_tasks r)) (\<lambda>normalized.
      if normalized = [] then Inl (ValueError ''a plan requires at least one task'')
      else
      and_then (domain (validate_task_dag normalized)) (\<lambda>_.
      and_then (validate_plan_basis P normalized applicability strategy changes) (\<lambda>_.
      and_then (domain (mk_plan
         \<lparr>p_id = fresh E ''plan'' 0, p_goal_id = gid, p_revision = revision, p_summary = summary,
          p_status = (if pr_submit r then PLAN_PENDING_APPROVAL else PLAN_DRAFT),
          p_applicability = applicability, p_strategy = strategy, p_changes = changes,
          p_proposed_by = pr_proposed_by r,
          p_fingerprint = plan_fingerprint P summary normalized applicability strategy changes,
          p_accepted_by = None, p_accepted_at = None, p_created_at = now E, p_updated_at = now E,
          p_tasks = normalized\<rparr>)) (\<lambda>plan.
      let s1 = s\<lparr>st_plans := update_where
                  (\<lambda>p. p_goal_id p = gid \<and> (p_status p = PLAN_DRAFT \<or> p_status p = PLAN_PENDING_APPROVAL))
                  (\<lambda>p. p\<lparr>p_status := PLAN_SUPERSEDED, p_updated_at := now E\<rparr>) (st_plans s)\<rparr>
      in
      and_then (insert_plan (plan_row.truncate plan) s1) (\<lambda>s2.
      and_then (fold_result (\<lambda>t. insert_task (task.extend t (task_row.fields (p_id plan)))) normalized s2) (\<lambda>s3.
      and_then (case pr_document r of None \<Rightarrow> Inr s3
         | Some document \<Rightarrow>
           insert_document
             \<lparr>pd_plan_id = p_id plan, pd_goal_id = gid, pd_revision = revision,
              pd_format_version = max 1 (pr_format_version r), pd_content = document,
              pd_content_hash = hash_text P document,
              pd_edited_by = (if pr_edited_by r = [] then pr_proposed_by r else pr_edited_by r),
              pd_created_at = now E\<rparr> s3) (\<lambda>s4.
      and_then (log_event E 0 (if pr_submit r then ''plan.submitted'' else ''plan.created'')
           (Some gid) (Some ''plan'') (Some (p_id plan))
           [(''revision'', JInt revision), (''fingerprint'', JStr (p_fingerprint plan)),
            (''proposed_by'', JStr (pr_proposed_by r))] s4) (\<lambda>s5.
      Inr (s5, plan))))))))))"

section \<open>Queries\<close>

definition task_rows :: "string \<Rightarrow> store \<Rightarrow> task_row list" where
  "task_rows pid s = filter (\<lambda>t. t_plan_id t = pid) (st_tasks s)"

definition plan_from_row :: "store \<Rightarrow> plan_row \<Rightarrow> store_error + plan" where
  "plan_from_row s row =
     and_then (domain (map_result (\<lambda>t. mk_task (task.truncate t))
                 (sort_key (\<lambda>t. - t_priority t) (task_rows (p_id row) s)))) (\<lambda>tasks.
     domain (mk_plan (plan_row.extend row (plan.fields tasks))))"

definition get_plan :: "string \<Rightarrow> int \<Rightarrow> store \<Rightarrow> store_error + plan" where
  "get_plan gid revision s =
     (case fetchone (\<lambda>p. p_goal_id p = gid \<and> p_revision p = revision) (st_plans s) of
        None \<Rightarrow> Inl (NotFoundError ''plan'' gid)
      | Some row \<Rightarrow> plan_from_row s row)"

definition list_plan_rows :: "string \<Rightarrow> store \<Rightarrow> plan_row list" where
  "list_plan_rows gid s = sort_key p_revision (filter (\<lambda>p. p_goal_id p = gid) (st_plans s))"

definition list_plan_revisions :: "string \<Rightarrow> store \<Rightarrow> store_error + plan list" where
  "list_plan_revisions gid s = map_result (plan_from_row s) (list_plan_rows gid s)"

definition get_latest_plan :: "string \<Rightarrow> store \<Rightarrow> store_error + plan option" where
  "get_latest_plan gid s =
     (case rev (list_plan_rows gid s) of
        [] \<Rightarrow> Inr None
      | row # _ \<Rightarrow> and_then (plan_from_row s row) (\<lambda>p. Inr (Some p)))"

definition get_accepted_plan :: "string \<Rightarrow> store \<Rightarrow> store_error + plan option" where
  "get_accepted_plan gid s =
     (case rev (filter (\<lambda>p. p_status p = PLAN_ACCEPTED) (list_plan_rows gid s)) of
        [] \<Rightarrow> Inr None
      | row # _ \<Rightarrow> and_then (plan_from_row s row) (\<lambda>p. Inr (Some p)))"

definition list_tasks :: "string \<Rightarrow> int option \<Rightarrow> store \<Rightarrow> store_error + task list" where
  "list_tasks gid revision s =
     (case revision of
        Some r \<Rightarrow> and_then (get_plan gid r s) (\<lambda>p. Inr (p_tasks p))
      | None \<Rightarrow> and_then (get_latest_plan gid s)
          (\<lambda>po. Inr (case po of Some p \<Rightarrow> p_tasks p | None \<Rightarrow> [])))"

definition get_plan_document :: "string \<Rightarrow> store \<Rightarrow> plan_document option" where
  "get_plan_document pid s = fetchone (\<lambda>d. pd_plan_id d = pid) (st_documents s)"

section \<open>Approval and rejection\<close>

text \<open>
  The plan is read back after the commit, so that read is part of the result and not of the
  transaction.
\<close>

definition approve_plan :: "env \<Rightarrow> string \<Rightarrow> int \<Rightarrow> string \<Rightarrow> string option \<Rightarrow> store \<Rightarrow>
    store_error + store \<times> ((store_error + plan) \<times> plan_approval)" where
  "approve_plan E gid revision approved_by expected s =
     (if latest_revision gid s \<noteq> Some revision then Inl (StalePlanError ''cannot approve stale plan'')
      else case fetchone (\<lambda>p. p_goal_id p = gid \<and> p_revision p = revision) (st_plans s) of
        None \<Rightarrow> Inl (NotFoundError ''plan'' gid)
      | Some row \<Rightarrow>
        if p_applicability row = [] \<or> strip (p_strategy row) = []
        then Inl (StalePlanError ''plan lacks fingerprinted applicability evidence'')
        else and_then (domain (ensure_plan_transition (p_status row) PLAN_ACCEPTED)) (\<lambda>_.
        if (case expected of None \<Rightarrow> False | Some f \<Rightarrow> f \<noteq> [] \<and> f \<noteq> p_fingerprint row)
        then Inl (StalePlanError ''plan content changed after it was displayed'')
        else case fetchone (\<lambda>g. g_id g = gid) (st_goals s) of
          None \<Rightarrow> Inl (PyTypeError ''goal row is None'')
        | Some goal \<Rightarrow>
          and_then (domain (ensure_goal_transition (g_status goal) GOAL_RUNNING)) (\<lambda>_.
          let s1 = s\<lparr>st_plans := update_where (\<lambda>p. p_goal_id p = gid \<and> p_status p = PLAN_ACCEPTED)
                      (\<lambda>p. p\<lparr>p_status := PLAN_SUPERSEDED, p_updated_at := now E\<rparr>) (st_plans s)\<rparr>;
              s2 = s1\<lparr>st_plans := update_where (\<lambda>p. p_id p = p_id row)
                      (\<lambda>p. p\<lparr>p_status := PLAN_ACCEPTED, p_accepted_by := Some approved_by,
                             p_accepted_at := Some (now E), p_updated_at := now E\<rparr>) (st_plans s1)\<rparr>;
              s3 = s2\<lparr>st_goals := update_where (\<lambda>g. g_id g = gid)
                      (\<lambda>g. g\<lparr>g_status := GOAL_RUNNING, g_active_plan_revision := Some revision,
                             g_updated_at := now E\<rparr>) (st_goals s2)\<rparr>;
              approval = \<lparr>ap_id = fresh E ''approval'' 0, ap_goal_id = gid, ap_plan_id = p_id row,
                          ap_revision = revision, ap_fingerprint = p_fingerprint row,
                          ap_approved_by = approved_by, ap_approved_at = now E\<rparr>
          in and_then (insert_approval approval s3) (\<lambda>s4.
             and_then (log_event E 0 ''plan.approved'' (Some gid) (Some ''plan'') (Some (p_id row))
                [(''revision'', JInt revision), (''fingerprint'', JStr (p_fingerprint row)),
                 (''approved_by'', JStr approved_by)] s4) (\<lambda>s5.
             Inr (s5, get_plan gid revision s5, approval))))))"

definition reject_plan :: "env \<Rightarrow> string \<Rightarrow> int \<Rightarrow> string \<Rightarrow> string \<Rightarrow> store \<Rightarrow>
    store_error + store \<times> (store_error + plan)" where
  "reject_plan E gid revision feedback rejected_by s =
     (case fetchone (\<lambda>p. p_goal_id p = gid \<and> p_revision p = revision) (st_plans s) of
        None \<Rightarrow> Inl (NotFoundError ''plan'' gid)
      | Some row \<Rightarrow>
        and_then (domain (ensure_plan_transition (p_status row) PLAN_REJECTED)) (\<lambda>_.
        case fetchone (\<lambda>g. g_id g = gid) (st_goals s) of
          None \<Rightarrow> Inl (PyTypeError ''goal row is None'')
        | Some goal \<Rightarrow>
          and_then (domain (ensure_goal_transition (g_status goal) GOAL_REVISING)) (\<lambda>_.
          let s1 = s\<lparr>st_plans := update_where (\<lambda>p. p_id p = p_id row)
                      (\<lambda>p. p\<lparr>p_status := PLAN_REJECTED, p_updated_at := now E\<rparr>) (st_plans s)\<rparr>;
              s2 = s1\<lparr>st_goals := update_where (\<lambda>g. g_id g = gid)
                      (\<lambda>g. g\<lparr>g_status := GOAL_REVISING, g_updated_at := now E\<rparr>) (st_goals s1)\<rparr>
          in and_then (log_event E 0 ''plan.rejected'' (Some gid) (Some ''plan'') (Some (p_id row))
                [(''revision'', JInt revision), (''feedback'', JStr feedback),
                 (''rejected_by'', JStr rejected_by)] s2) (\<lambda>s3.
             Inr (s3, get_plan gid revision s3)))))"

end
