(* ===== verification/Store_Work.thy ===== *)
theory Store_Work
  imports Store_Plans
begin

text \<open>
  The operations of \<open>StateStore\<close> on work in progress: task transitions with their dependency
  and evidence gates, evidence, delegations, and the action journal that brackets every tool
  call (begun before the effect, completed after it), its reconciliation after a crash and
  \<open>recover_inflight\<close>.
\<close>

section \<open>Tasks and evidence\<close>

definition unfinished_dependency :: "task_row list \<Rightarrow> task_row \<Rightarrow> string option" where
  "unfinished_dependency rows t =
     List.find (\<lambda>d. case fetchone (\<lambda>r. t_plan_id r = t_plan_id t \<and> t_id r = d) rows of
         None \<Rightarrow> True
       | Some dep \<Rightarrow> t_status dep \<notin> {TASK_COMPLETED, TASK_OBSOLETE}) (t_depends_on t)"

definition record_evidence :: "env \<Rightarrow> string \<Rightarrow> int \<Rightarrow> string \<Rightarrow> string \<Rightarrow> string list \<Rightarrow> store \<Rightarrow>
    store_error + store" where
  "record_evidence E gid revision task_id actor summaries s =
     fold_result (\<lambda>(k, summary) u.
       and_then (domain (mk_evidence
         \<lparr>e_goal_id = gid, e_summary = summary, e_id = fresh E ''evidence'' k,
          e_plan_revision = Some revision, e_task_id = Some task_id, e_kind = ''task'',
          e_artifact_uri = None, e_data = [], e_created_by = actor, e_verified = False,
          e_created_at = now E\<rparr>)) (\<lambda>item. insert_evidence item u)) (enumerate 0 summaries) s"

definition has_evidence :: "string \<Rightarrow> int \<Rightarrow> string \<Rightarrow> store \<Rightarrow> bool" where
  "has_evidence gid revision task_id s =
     exists_row (\<lambda>e. e_goal_id e = gid \<and> e_plan_revision e = Some revision \<and> e_task_id e = Some task_id)
       (st_evidence s)"

definition transition_task :: "env \<Rightarrow> string \<Rightarrow> int \<Rightarrow> string \<Rightarrow> task_status \<Rightarrow> string \<Rightarrow> string list \<Rightarrow>
    string \<Rightarrow> store \<Rightarrow> store_error + store \<times> task" where
  "transition_task E gid revision task_id target note evidence actor s =
     (case fetchone (\<lambda>t. t_goal_id t = gid \<and> t_plan_revision t = revision \<and> t_id t = task_id \<and>
                       exists_row (\<lambda>p. p_id p = t_plan_id t) (st_plans s)) (st_tasks s) of
        None \<Rightarrow> Inl (NotFoundError ''task'' task_id)
      | Some task \<Rightarrow>
        and_then (domain (ensure_task_transition (t_status task) target)) (\<lambda>_.
        if target \<in> {TASK_READY, TASK_IN_PROGRESS, TASK_VERIFYING, TASK_COMPLETED} \<and>
           unfinished_dependency (st_tasks s) task \<noteq> None
        then Inl (CompletionGateError ''unfinished dependency'')
        else and_then (record_evidence E gid revision task_id actor evidence s) (\<lambda>s1.
        if target = TASK_COMPLETED \<and> \<not> has_evidence gid revision task_id s1
        then Inl (CompletionGateError ''completed tasks require recorded evidence'')
        else if target = TASK_BLOCKED \<and> strip note = []
        then Inl (CompletionGateError ''blocked tasks require a concrete blocker note'')
        else
          let attempts = t_attempts task + (if target = TASK_IN_PROGRESS \<and> t_status task \<noteq> target then 1 else 0);
              metadata = (if note = [] then t_metadata task
                          else obj_set ''last_note'' (JStr note) (t_metadata task));
              change = (\<lambda>t. t\<lparr>t_status := target, t_attempts := attempts, t_metadata := metadata,
                              t_updated_at := now E\<rparr>);
              s2 = s1\<lparr>st_tasks := update_where (\<lambda>t. t_plan_id t = t_plan_id task \<and> t_id t = task_id)
                      change (st_tasks s1)\<rparr>
          in and_then (log_event E 0 ''task.status_changed'' (Some gid) (Some ''task'') (Some task_id)
                [(''revision'', JInt revision), (''from'', JStr (task_value (t_status task))),
                 (''to'', JStr (task_value target)), (''note'', JStr note), (''actor'', JStr actor)] s2) (\<lambda>s3.
             Inr (s3, task.truncate (change task))))))"

definition add_evidence :: "env \<Rightarrow> evidence \<Rightarrow> store \<Rightarrow> store_error + store \<times> evidence" where
  "add_evidence E evidence s =
     and_then (domain (mk_evidence evidence)) (\<lambda>item.
     and_then (insert_evidence item s) (\<lambda>s1.
     and_then (log_event E 0 ''evidence.added'' (Some (e_goal_id item)) (Some ''evidence'') (Some (e_id item))
         [(''task_id'', opt_str (e_task_id item)), (''kind'', JStr (e_kind item)),
          (''summary'', JStr (e_summary item))] s1) (\<lambda>s2.
     Inr (s2, item))))"

definition list_evidence :: "string \<Rightarrow> string option \<Rightarrow> string option \<Rightarrow> store \<Rightarrow> evidence list" where
  "list_evidence gid task kind s =
     sort_key (\<lambda>e. (e_created_at e, e_id e))
       (filter (\<lambda>e. e_goal_id e = gid \<and> (task = None \<or> e_task_id e = task) \<and>
                    (kind = None \<or> Some (e_kind e) = kind)) (st_evidence s))"

section \<open>Delegations\<close>

definition create_delegation :: "env \<Rightarrow> delegation \<Rightarrow> store \<Rightarrow> store_error + store \<times> delegation" where
  "create_delegation E delegation s =
     and_then (domain (mk_delegation delegation)) (\<lambda>item.
     if \<not> exists_row (\<lambda>t. t_goal_id t = d_goal_id item \<and> t_plan_revision t = d_plan_revision item \<and>
              t_id t = d_task_id item \<and>
              exists_row (\<lambda>p. p_id p = t_plan_id t \<and> p_status p = PLAN_ACCEPTED) (st_plans s)) (st_tasks s)
     then Inl (NotFoundError ''delegation task'' (d_task_id item))
     else if (case d_parent_id item of None \<Rightarrow> False
              | Some par \<Rightarrow> \<not> exists_row (\<lambda>d. d_id d = par \<and> d_goal_id d = d_goal_id item) (st_delegations s))
     then Inl (NotFoundError ''parent delegation'' (the (d_parent_id item)))
     else and_then (insert_delegation item s) (\<lambda>s1.
          and_then (log_event E 0 ''delegation.created'' (Some (d_goal_id item)) (Some ''delegation'')
              (Some (d_id item))
              [(''task_id'', JStr (d_task_id item)), (''role'', role_to_dict (d_role item))] s1) (\<lambda>s2.
          Inr (s2, item))))"

definition transition_delegation :: "env \<Rightarrow> string \<Rightarrow> delegation_status \<Rightarrow> string option \<Rightarrow>
    string option \<Rightarrow> store \<Rightarrow> store_error + store \<times> delegation" where
  "transition_delegation E did target result_summary error s =
     (case fetchone (\<lambda>d. d_id d = did) (st_delegations s) of
        None \<Rightarrow> Inl (NotFoundError ''delegation'' did)
      | Some item \<Rightarrow>
        and_then (domain (ensure_delegation_transition (d_status item) target)) (\<lambda>_.
        let attempt = d_attempt item + (if target = DELEG_IN_PROGRESS then 1 else 0);
            change = (\<lambda>d. d\<lparr>d_status := target, d_attempt := attempt, d_result_summary := result_summary,
                            d_error := error, d_updated_at := now E\<rparr>);
            s1 = s\<lparr>st_delegations := update_where (\<lambda>d. d_id d = did) change (st_delegations s)\<rparr>
        in and_then (log_event E 0 ''delegation.status_changed'' (Some (d_goal_id item))
              (Some ''delegation'') (Some (d_id item))
              [(''from'', JStr (delegation_value (d_status item))),
               (''to'', JStr (delegation_value target))] s1) (\<lambda>s2.
           Inr (s2, change item))))"

definition list_delegations :: "string \<Rightarrow> store \<Rightarrow> delegation list" where
  "list_delegations gid s =
     sort_key (\<lambda>d. (d_created_at d, d_id d)) (filter (\<lambda>d. d_goal_id d = gid) (st_delegations s))"

section \<open>The action journal\<close>

definition begin_action :: "platform \<Rightarrow> env \<Rightarrow> string \<Rightarrow> string \<Rightarrow> json_obj \<Rightarrow> string option \<Rightarrow> string \<Rightarrow>
    bool \<Rightarrow> store \<Rightarrow> store_error + store \<times> string" where
  "begin_action P E gid tool_name args task_id risk mutating s =
     (let action_id = fresh E ''action'' 0 in
      and_then (insert_action
         \<lparr>a_id = action_id, a_goal_id = gid, a_task_id = task_id, a_tool_name = tool_name,
          a_args_hash = digest_of P (JObj args), a_args = JObj args, a_risk = risk,
          a_mutating = mutating, a_status = ACT_RUNNING, a_result_summary = None,
          a_started_at = now E, a_completed_at = None\<rparr> s) (\<lambda>s1.
      and_then (log_event E 0 ''action.started'' (Some gid) (Some ''action'') (Some action_id)
         [(''tool'', JStr tool_name), (''task_id'', opt_str task_id), (''risk'', JStr risk),
          (''mutating'', JBool mutating)] s1) (\<lambda>s2.
      Inr (s2, action_id))))"

definition set_action :: "env \<Rightarrow> string \<Rightarrow> action_status \<Rightarrow> string \<Rightarrow> store \<Rightarrow> store" where
  "set_action E aid status result_summary s =
     s\<lparr>st_actions := update_where (\<lambda>a. a_id a = aid)
        (\<lambda>a. a\<lparr>a_status := status, a_result_summary := Some result_summary,
               a_completed_at := Some (now E)\<rparr>) (st_actions s)\<rparr>"

definition complete_action :: "env \<Rightarrow> string \<Rightarrow> string \<Rightarrow> action_status \<Rightarrow> store \<Rightarrow>
    store_error + store" where
  "complete_action E aid result_summary status s =
     (if status \<notin> {ACT_COMPLETED, ACT_DENIED, ACT_FAILED}
      then Inl (ValueError ''invalid action terminal status'')
      else case fetchone (\<lambda>a. a_id a = aid) (st_actions s) of
        None \<Rightarrow> Inl (NotFoundError ''action'' aid)
      | Some row \<Rightarrow>
        if a_status row \<noteq> ACT_RUNNING
        then Inl (StateStoreError (''action is already '' @ action_value (a_status row)))
        else log_event E 0 (''action.'' @ action_value status) (Some (a_goal_id row)) (Some ''action'')
               (Some aid) [(''tool'', JStr (a_tool_name row)), (''result'', JStr result_summary)]
               (set_action E aid status result_summary s))"

definition mark_action_uncertain :: "env \<Rightarrow> string \<Rightarrow> string \<Rightarrow> store \<Rightarrow> store_error + store" where
  "mark_action_uncertain E aid result_summary s =
     (case fetchone (\<lambda>a. a_id a = aid) (st_actions s) of
        None \<Rightarrow> Inl (NotFoundError ''action'' aid)
      | Some row \<Rightarrow>
        if a_status row \<notin> {ACT_RUNNING, ACT_COMPLETED}
        then Inl (StateStoreError (''action is already '' @ action_value (a_status row)))
        else log_event E 0 ''action.uncertain'' (Some (a_goal_id row)) (Some ''action'') (Some aid)
               [(''tool'', JStr (a_tool_name row)), (''result'', JStr result_summary)]
               (set_action E aid ACT_UNCERTAIN result_summary s))"

definition list_actions :: "string \<Rightarrow> action_status option \<Rightarrow> store \<Rightarrow> action_row list" where
  "list_actions gid status s =
     sort_key (\<lambda>a. (a_started_at a, a_id a))
       (filter (\<lambda>a. a_goal_id a = gid \<and> (status = None \<or> status = Some (a_status a))) (st_actions s))"

definition count_recent_identical_actions :: "platform \<Rightarrow> string \<Rightarrow> string \<Rightarrow> json_obj \<Rightarrow> int \<Rightarrow>
    store \<Rightarrow> nat" where
  "count_recent_identical_actions P gid tool_name args scan_limit s =
     (let expected_hash = digest_of P (JObj args);
          rows = take (nat (max 1 (min scan_limit 1000)))
                   (rev (sort_key (\<lambda>a. (a_started_at a, a_id a))
                      (filter (\<lambda>a. a_goal_id a = gid) (st_actions s))))
      in length (takeWhile (\<lambda>a. a_tool_name a = tool_name \<and> a_args_hash a = expected_hash) rows))"

section \<open>Reconciliation\<close>

definition normal_resolution :: "string \<Rightarrow> string" where
  "normal_resolution r = map (\<lambda>c. if c = CHR ''-'' then CHR ''_'' else c) (casefold r)"

text \<open>
  The uncertain tasks an inspected action or delegation belongs to, in an accepted or pending
  plan; reconciling puts them back in progress with a note, and logs one event for each.
\<close>

definition awaiting_resolution :: "string \<Rightarrow> string \<Rightarrow> store \<Rightarrow> task_row \<Rightarrow> bool" where
  "awaiting_resolution gid task_id s t \<longleftrightarrow>
     t_goal_id t = gid \<and> t_id t = task_id \<and> t_status t = TASK_UNCERTAIN \<and>
     exists_row (\<lambda>p. p_id p = t_plan_id t \<and> p_status p \<in> {PLAN_ACCEPTED, PLAN_PENDING_APPROVAL}) (st_plans s)"

definition resume_tasks :: "env \<Rightarrow> string \<Rightarrow> string \<Rightarrow> string \<Rightarrow> string \<Rightarrow> string \<Rightarrow> store \<Rightarrow>
    store_error + store \<times> nat" where
  "resume_tasks E gid task_id kind note actor s =
     (let rows = filter (awaiting_resolution gid task_id s) (st_tasks s);
          s1 = s\<lparr>st_tasks := update_where (awaiting_resolution gid task_id s)
                 (\<lambda>t. t\<lparr>t_status := TASK_IN_PROGRESS,
                   t_metadata := obj_set ''last_note''
                     (JStr (''uncertain '' @ kind @ '' reconciled by '' @ actor @ '': '' @ note)) (t_metadata t),
                   t_updated_at := now E\<rparr>) (st_tasks s)\<rparr>
      in and_then (fold_result (\<lambda>k. log_event E k ''task.status_changed'' (Some gid) (Some ''task'')
             (Some task_id) [(''from'', JStr ''uncertain''), (''to'', JStr ''in_progress''),
               (''actor'', JStr actor), (''note'', JStr note)]) [0..<length rows] s1) (\<lambda>s2.
         Inr (s2, length rows)))"

definition resolve_action :: "env \<Rightarrow> string \<Rightarrow> string \<Rightarrow> string \<Rightarrow> string \<Rightarrow> store \<Rightarrow>
    store_error + store \<times> action_row" where
  "resolve_action E aid resolution_arg note actor s =
     (let resolution = normal_resolution resolution_arg in
      if resolution \<notin> {''applied'', ''not_run''}
      then Inl (ValueError ''resolution must be applied or not-run'')
      else if strip note = [] then Inl (ValueError ''action resolution requires an inspection note'')
      else case fetchone (\<lambda>a. a_id a = aid) (st_actions s) of
        None \<Rightarrow> Inl (NotFoundError ''action'' aid)
      | Some row \<Rightarrow>
        if a_status row \<noteq> ACT_UNCERTAIN
        then Inl (StateStoreError (''action is not uncertain: '' @ action_value (a_status row)))
        else
          let status = (if resolution = ''applied'' then ACT_RESOLVED_APPLIED else ACT_RESOLVED_NOT_RUN);
              summary = resolution @ '': '' @ strip note;
              s1 = set_action E aid status summary s
          in and_then (case a_task_id row of
                 None \<Rightarrow> Inr (s1, 0)
               | Some tid \<Rightarrow> if tid = [] then Inr (s1, 0)
                   else resume_tasks E (a_goal_id row) tid ''action'' (strip note) actor s1) (\<lambda>(s2, k).
             and_then (log_event E k ''action.resolved'' (Some (a_goal_id row)) (Some ''action'') (Some aid)
                 [(''resolution'', JStr resolution), (''note'', JStr (strip note)),
                  (''actor'', JStr actor)] s2) (\<lambda>s3.
             Inr (s3, row\<lparr>a_status := status, a_result_summary := Some summary,
                          a_completed_at := Some (now E)\<rparr>))))"

definition resolve_delegation :: "env \<Rightarrow> string \<Rightarrow> string \<Rightarrow> string \<Rightarrow> string \<Rightarrow> store \<Rightarrow>
    store_error + store \<times> delegation" where
  "resolve_delegation E did resolution_arg note actor s =
     (let resolution = normal_resolution resolution_arg in
      if resolution \<notin> {''applied'', ''not_run''}
      then Inl (ValueError ''resolution must be applied or not-run'')
      else if strip note = [] then Inl (ValueError ''delegation resolution requires an inspection note'')
      else case fetchone (\<lambda>d. d_id d = did) (st_delegations s) of
        None \<Rightarrow> Inl (NotFoundError ''delegation'' did)
      | Some item \<Rightarrow>
        if d_status item \<noteq> DELEG_UNCERTAIN
        then Inl (StateStoreError (''delegation is not uncertain: '' @ delegation_value (d_status item)))
        else
          let target = (if resolution = ''applied'' then DELEG_COMPLETED else DELEG_FAILED) in
          and_then (domain (ensure_delegation_transition (d_status item) target)) (\<lambda>_.
          let change = (\<lambda>d. d\<lparr>d_status := target,
                 d_result_summary := (if target = DELEG_COMPLETED then Some (strip note) else None),
                 d_error := (if target = DELEG_FAILED then Some (strip note) else None),
                 d_updated_at := now E\<rparr>);
              s1 = s\<lparr>st_delegations := update_where (\<lambda>d. d_id d = did) change (st_delegations s)\<rparr>
          in and_then (resume_tasks E (d_goal_id item) (d_task_id item) ''delegation'' (strip note) actor s1)
               (\<lambda>(s2, k).
             and_then (log_event E k ''delegation.resolved'' (Some (d_goal_id item)) (Some ''delegation'')
                 (Some did) [(''resolution'', JStr resolution), (''note'', JStr (strip note)),
                  (''actor'', JStr actor)] s2) (\<lambda>s3.
             Inr (s3, change item)))))"

section \<open>Crash recovery\<close>

definition crash_window_task :: "store \<Rightarrow> task_row \<Rightarrow> bool" where
  "crash_window_task s t \<longleftrightarrow>
     t_status t \<in> in_flight_task_statuses \<and>
     exists_row (\<lambda>p. p_id p = t_plan_id t \<and> p_status p \<in> {PLAN_ACCEPTED, PLAN_PENDING_APPROVAL}) (st_plans s) \<and>
     (exists_row (\<lambda>a. a_goal_id a = t_goal_id t \<and> a_task_id a = Some (t_id t) \<and> a_status a = ACT_RUNNING)
        (st_actions s) \<or>
      exists_row (\<lambda>d. d_goal_id d = t_goal_id t \<and> d_task_id d = t_id t \<and>
                      d_plan_revision d = t_plan_revision t \<and> d_status d = DELEG_IN_PROGRESS)
        (st_delegations s))"

definition recover_inflight :: "env \<Rightarrow> store \<Rightarrow> store_error + store \<times> recovery_report" where
  "recover_inflight E s =
     (let task_hits = filter (crash_window_task s) (st_tasks s);
          delegation_hits = filter (\<lambda>d. d_status d = DELEG_IN_PROGRESS) (st_delegations s);
          action_hits = filter (\<lambda>a. a_status a = ACT_RUNNING) (st_actions s);
          affected = sorted_set (map t_goal_id task_hits @ map d_goal_id delegation_hits @
                                 map a_goal_id action_hits);
          can_recover = (\<lambda>g. ensure_goal_transition (g_status g) GOAL_RECOVERING = Inr ());
          recovered = filter (\<lambda>gid. case fetchone (\<lambda>g. g_id g = gid) (st_goals s) of
                                None \<Rightarrow> False | Some g \<Rightarrow> can_recover g) affected;
          s1 = s\<lparr>st_tasks := update_where (crash_window_task s)
                   (\<lambda>t. t\<lparr>t_status := TASK_UNCERTAIN, t_updated_at := now E\<rparr>) (st_tasks s),
                 st_delegations := update_where (\<lambda>d. d_status d = DELEG_IN_PROGRESS)
                   (\<lambda>d. d\<lparr>d_status := DELEG_UNCERTAIN, d_updated_at := now E\<rparr>) (st_delegations s),
                 st_actions := update_where (\<lambda>a. a_status a = ACT_RUNNING)
                   (\<lambda>a. a\<lparr>a_status := ACT_UNCERTAIN, a_completed_at := Some (now E)\<rparr>) (st_actions s),
                 st_goals := update_where (\<lambda>g. g_id g \<in> set recovered)
                   (\<lambda>g. g\<lparr>g_status := GOAL_RECOVERING, g_updated_at := now E\<rparr>) (st_goals s)\<rparr>;
          report = \<lparr>rr_task_ids = map t_id task_hits, rr_delegation_ids = map d_id delegation_hits,
                    rr_action_ids = map a_id action_hits, rr_goal_ids = recovered\<rparr>;
          payload = [(''tasks'', jstrs (rr_task_ids report)), (''delegations'', jstrs (rr_delegation_ids report)),
                     (''actions'', jstrs (rr_action_ids report)), (''goals'', jstrs recovered)]
      in if task_hits = [] \<and> delegation_hits = [] \<and> action_hits = [] then Inr (s1, report)
         else and_then (fold_result (\<lambda>(k, gid). log_event E k ''recovery.performed'' (Some gid) None None payload)
                 (enumerate 0 affected) s1) (\<lambda>s2. Inr (s2, report)))"

end
