(* ===== verification/Store_Sessions.thy ===== *)
theory Store_Sessions
  imports Store_Goals
begin

text \<open>
  The workflow sessions of \<open>StateStore\<close>, whose \<open>revision\<close> column implements optimistic
  concurrency, and the durable prompt queue: a bounded FIFO per session whose head blocks the
  items behind it, with an atomic reordering of its pending slots.
\<close>

section \<open>Workflow sessions\<close>

definition get_workflow_session :: "string \<Rightarrow> store \<Rightarrow> store_error + session_row" where
  "get_workflow_session sid s =
     (case fetchone (\<lambda>w. w_id w = sid) (st_sessions s) of
        None \<Rightarrow> Inl (NotFoundError ''workflow session'' sid) | Some w \<Rightarrow> Inr w)"

definition check_session_goal :: "string option \<Rightarrow> store \<Rightarrow> store_error + unit" where
  "check_session_goal gid s = (case gid of None \<Rightarrow> Inr () | Some g \<Rightarrow> require_goal g s)"

record session_update =
  su_goal_id :: "string option"
  su_session_mode :: string
  su_plan_state :: string
  su_run_state :: string
  su_ultra_profile :: string
  su_sleep_state :: "string option"
  su_state :: "json_obj option"
  su_expected_revision :: "int option"
  su_clear_goal_id :: bool

definition save_workflow_session :: "env \<Rightarrow> string \<Rightarrow> session_update \<Rightarrow> store \<Rightarrow>
    store_error + store \<times> int" where
  "save_workflow_session E sid u s =
     (let existing = fetchone (\<lambda>w. w_id w = sid) (st_sessions s);
          current_revision = (case existing of None \<Rightarrow> 0 | Some w \<Rightarrow> w_revision w) in
      if su_expected_revision u \<noteq> None \<and> su_expected_revision u \<noteq> Some current_revision
      then Inl (WorkflowSessionConflictError sid (the (su_expected_revision u)) current_revision)
      else
        let current_goal_id = (case existing of None \<Rightarrow> None
              | Some w \<Rightarrow> if w_goal_id w = Some [] then None else w_goal_id w);
            goal_id_value = (if su_goal_id u \<noteq> None \<or> su_clear_goal_id u \<or> current_goal_id = None
                             then su_goal_id u else current_goal_id);
            sleep_state_value = (case su_sleep_state u of
                Some v \<Rightarrow> v
              | None \<Rightarrow> (case existing of None \<Rightarrow> ''off''
                  | Some w \<Rightarrow> if w_sleep_state w = [] then ''off'' else w_sleep_state w));
            state_value = (case su_state u of Some v \<Rightarrow> v
              | None \<Rightarrow> (case existing of None \<Rightarrow> [] | Some w \<Rightarrow> w_state w));
            next_revision = current_revision + 1;
            row = \<lparr>w_id = sid, w_goal_id = goal_id_value, w_session_mode = su_session_mode u,
                   w_plan_state = su_plan_state u, w_run_state = su_run_state u,
                   w_ultra_profile = su_ultra_profile u, w_sleep_state = sleep_state_value,
                   w_state = state_value, w_revision = next_revision, w_updated_at = now E\<rparr>
        in and_then (check_session_goal goal_id_value s) (\<lambda>_.
           Inr (s\<lparr>st_sessions := (if existing = None then st_sessions s @ [row]
                     else update_where (\<lambda>w. w_id w = sid) (\<lambda>_. row) (st_sessions s))\<rparr>,
                next_revision)))"

text \<open>The reducer sees the row and returns the fields to write; blank fields get defaults.\<close>

definition or_default :: "string \<Rightarrow> string \<Rightarrow> string" where
  "or_default dflt v = (if v = [] then dflt else v)"

definition mutate_workflow_session :: "env \<Rightarrow> string \<Rightarrow> (session_row \<Rightarrow> store_error + session_row) \<Rightarrow>
    int option \<Rightarrow> store \<Rightarrow> store_error + store" where
  "mutate_workflow_session E sid reducer expected s =
     (case fetchone (\<lambda>w. w_id w = sid) (st_sessions s) of
        None \<Rightarrow> Inl (NotFoundError ''workflow session'' sid)
      | Some current \<Rightarrow>
        if expected \<noteq> None \<and> expected \<noteq> Some (w_revision current)
        then Inl (WorkflowSessionConflictError sid (the expected) (w_revision current))
        else and_then (reducer current) (\<lambda>candidate.
             and_then (check_session_goal (w_goal_id candidate) s) (\<lambda>_.
             Inr (s\<lparr>st_sessions := update_where (\<lambda>w. w_id w = sid) (\<lambda>w.
                w\<lparr>w_goal_id := w_goal_id candidate,
                  w_session_mode := or_default ''normal'' (w_session_mode candidate),
                  w_plan_state := or_default ''none'' (w_plan_state candidate),
                  w_run_state := or_default ''idle'' (w_run_state candidate),
                  w_ultra_profile := or_default ''standard'' (w_ultra_profile candidate),
                  w_sleep_state := or_default ''off'' (w_sleep_state candidate),
                  w_state := w_state candidate, w_revision := w_revision current + 1,
                  w_updated_at := now E\<rparr>) (st_sessions s)\<rparr>))))"

section \<open>The prompt queue\<close>

abbreviation live_prompt :: "queued_prompt \<Rightarrow> bool" where
  "live_prompt q \<equiv> q_status q \<in> {PROMPT_PENDING, PROMPT_RUNNING, PROMPT_BLOCKED}"

definition live_prompts :: "string \<Rightarrow> store \<Rightarrow> queued_prompt list" where
  "live_prompts sid s =
     sort_key q_sequence (filter (\<lambda>q. q_session_id q = sid \<and> live_prompt q) (st_prompts s))"

definition count_queued_prompts :: "string \<Rightarrow> store \<Rightarrow> nat" where
  "count_queued_prompts sid s = length (filter (\<lambda>q. q_session_id q = sid \<and> live_prompt q) (st_prompts s))"

definition list_queued_prompts :: "string \<Rightarrow> bool \<Rightarrow> int \<Rightarrow> store \<Rightarrow> queued_prompt list" where
  "list_queued_prompts sid include_terminal limit s =
     take (nat (max 1 (min limit 1000))) (sort_key q_sequence
       (filter (\<lambda>q. q_session_id q = sid \<and> (include_terminal \<or> live_prompt q)) (st_prompts s)))"

definition max_pending_prompts :: nat where
  "max_pending_prompts = 10"

definition next_sequence :: "string \<Rightarrow> store \<Rightarrow> int" where
  "next_sequence sid s =
     (let ns = map q_sequence (filter (\<lambda>q. q_session_id q = sid) (st_prompts s)) in
      (if ns = [] then 0 else Max (set ns)) + 1)"

definition enqueue_prompt :: "env \<Rightarrow> string \<Rightarrow> string \<Rightarrow> string \<Rightarrow> store \<Rightarrow>
    store_error + store \<times> queued_prompt" where
  "enqueue_prompt E sid text mode s =
     (let prompt_text = strip text; normalized_mode = casefold (strip mode) in
      if prompt_text = [] \<or> 20000 < length prompt_text \<or> CHR 0x00 \<in> set prompt_text
      then Inl (ValueError ''queued prompt text must be 1-20,000 characters'')
      else if normalized_mode \<notin> {''working'', ''plan'', ''normal'', ''ultra''}
      then Inl (ValueError ''queued prompt mode must be working or plan'')
      else if \<not> exists_row (\<lambda>w. w_id w = sid) (st_sessions s)
      then Inl (NotFoundError ''workflow session'' sid)
      else if max_pending_prompts \<le> count_queued_prompts sid s
      then Inl (StateStoreError ''prompt queue is full'')
      else and_then (domain (mk_prompt
             \<lparr>q_id = fresh E ''prompt'' 0, q_session_id = sid, q_sequence = next_sequence sid s,
              q_text = prompt_text, q_mode = normalized_mode, q_status = PROMPT_PENDING,
              q_goal_id = None, q_error = [], q_created_at = now E, q_started_at = None,
              q_completed_at = None\<rparr>)) (\<lambda>item.
           and_then (insert_prompt item s) (\<lambda>s1.
           and_then (log_event E 0 ''prompt.queued'' None (Some ''queued_prompt'') (Some (q_id item))
              [(''session_id'', JStr (q_session_id item)), (''mode'', JStr (q_mode item)),
               (''sequence'', JInt (q_sequence item))] s1) (\<lambda>s2.
           Inr (s2, item)))))"

text \<open>One \<open>UPDATE .. SET sequence=?\<close>, under the \<open>UNIQUE(session_id, sequence)\<close> constraint.\<close>

definition set_sequence :: "string \<Rightarrow> string \<times> int \<Rightarrow> queued_prompt list \<Rightarrow>
    store_error + queued_prompt list" where
  "set_sequence sid = (\<lambda>(pid, n) rows.
     (let hit = (\<lambda>q. q_id q = pid \<and> q_session_id q = sid \<and> q_status q = PROMPT_PENDING) in
      if exists_row hit rows \<and> exists_row (\<lambda>q. \<not> hit q \<and> q_session_id q = sid \<and> q_sequence q = n) rows
      then Inl (IntegrityError ''queued_prompts(session_id, sequence)'')
      else Inr (update_where hit (\<lambda>q. q\<lparr>q_sequence := n\<rparr>) rows)))"

definition reorder_pending_prompts :: "env \<Rightarrow> string \<Rightarrow> string list \<Rightarrow> store \<Rightarrow>
    store_error + store \<times> queued_prompt list" where
  "reorder_pending_prompts E sid ordered_ids s =
     (let requested = map strip ordered_ids in
      if requested = [] \<or> [] \<in> set requested
      then Inl (ValueError ''pending prompt order must contain at least one id'')
      else if \<not> distinct requested
      then Inl (ValueError ''pending prompt order contains duplicate ids'')
      else if \<not> exists_row (\<lambda>w. w_id w = sid) (st_sessions s)
      then Inl (NotFoundError ''workflow session'' sid)
      else
        let pending = filter (\<lambda>q. q_status q = PROMPT_PENDING) (live_prompts sid s) in
        if set requested \<noteq> set (map q_id pending) \<or> length requested \<noteq> length pending
        then Inl (StateStoreError ''prompt queue changed while it was being reordered; reload and try again'')
        else
          let slots = sort (map q_sequence pending) in
          and_then (fold_result (set_sequence sid) (map (\<lambda>q. (q_id q, - q_sequence q)) pending)
                      (st_prompts s)) (\<lambda>rows1.
          and_then (fold_result (set_sequence sid) (zip requested slots) rows1) (\<lambda>rows2.
          and_then (log_event E 0 ''prompt.queue_reordered'' None (Some ''workflow_session'') (Some sid)
              [(''ordered_ids'', jstrs requested)] (s\<lparr>st_prompts := rows2\<rparr>)) (\<lambda>s1.
          Inr (s1, live_prompts sid s1)))))"

definition claim_next_prompt :: "env \<Rightarrow> string \<Rightarrow> store \<Rightarrow> store_error + store \<times> queued_prompt option" where
  "claim_next_prompt E sid s =
     (case live_prompts sid s of
        [] \<Rightarrow> Inr (s, None)
      | row # _ \<Rightarrow>
        if q_status row \<noteq> PROMPT_PENDING then Inr (s, None)
        else
          let change = (\<lambda>q. q\<lparr>q_status := PROMPT_RUNNING, q_started_at := Some (now E)\<rparr>);
              s1 = s\<lparr>st_prompts := update_where (\<lambda>q. q_id q = q_id row \<and> q_status q = PROMPT_PENDING)
                       change (st_prompts s)\<rparr>
          in and_then (log_event E 0 ''prompt.started'' None (Some ''queued_prompt'') (Some (q_id row))
               [(''session_id'', JStr sid), (''sequence'', JInt (q_sequence row))] s1) (\<lambda>s2.
             Inr (s2, Some (change row))))"

definition bind_prompt_goal :: "env \<Rightarrow> string \<Rightarrow> string \<Rightarrow> store \<Rightarrow> store_error + store \<times> queued_prompt" where
  "bind_prompt_goal E pid gid s =
     (let hit = (\<lambda>q. q_id q = pid \<and> q_status q = PROMPT_RUNNING) in
      if exists_row hit (st_prompts s) \<and> \<not> goal_exists gid s
      then Inl (IntegrityError ''FOREIGN KEY goals(id)'')
      else
        let s1 = s\<lparr>st_prompts := update_where hit (\<lambda>q. q\<lparr>q_goal_id := Some gid\<rparr>) (st_prompts s)\<rparr> in
        case fetchone (\<lambda>q. q_id q = pid) (st_prompts s1) of
          None \<Rightarrow> Inl (NotFoundError ''queued prompt'' pid)
        | Some row \<Rightarrow>
          and_then (log_event E 0 ''prompt.goal_bound'' (Some gid) (Some ''queued_prompt'') (Some pid)
             [(''goal_id'', JStr gid)] s1) (\<lambda>s2. Inr (s2, row)))"

definition finish_queued_prompt :: "env \<Rightarrow> string \<Rightarrow> prompt_status \<Rightarrow> string \<Rightarrow> store \<Rightarrow>
    store_error + store \<times> queued_prompt" where
  "finish_queued_prompt E pid target error s =
     (if target \<notin> {PROMPT_COMPLETED, PROMPT_BLOCKED, PROMPT_CANCELLED}
      then Inl (ValueError ''queued prompt terminal status is invalid'')
      else
        let s1 = s\<lparr>st_prompts := update_where (\<lambda>q. q_id q = pid)
                (\<lambda>q. q\<lparr>q_status := target, q_error := take 2000 error,
                       q_completed_at := Some (now E)\<rparr>) (st_prompts s)\<rparr> in
        case fetchone (\<lambda>q. q_id q = pid) (st_prompts s1) of
          None \<Rightarrow> Inl (NotFoundError ''queued prompt'' pid)
        | Some row \<Rightarrow>
          and_then (log_event E 0 (''prompt.'' @ prompt_value target)
             (if q_goal_id row = Some [] then None else q_goal_id row)
             (Some ''queued_prompt'') (Some pid) [(''error'', JStr (take 500 error))] s1) (\<lambda>s2.
          Inr (s2, row)))"

end
