(* ===== verification/Store_System.thy ===== *)
theory Store_System
  imports Store_Work Store_Sessions
begin

text \<open>
  The journal as a system: one datatype of all mutating operations, their execution, and what
  every sequence of them keeps.  \<open>keys_ok\<close> are the key constraints; \<open>advance\<close> relates
  a store to a later one: no row is ever deleted, logs only grow, every status follows its
  graph and the identifying fields of a row never change.
\<close>

section \<open>Operations\<close>

datatype (plugins only: code) goal_op =
    CreateGoal string string "string list" "string list" json_obj
  | BindGoal string string "string list" "string list" json_obj bind_request
  | TransitionGoal string goal_status string json_obj
  | CancelGoal string string string
  | UpdateGoalMetadata string json_obj
  | LeaseClaims string "string option"
  | ReleaseClaims string "string option"

datatype (plugins only: code) plan_op =
    CreatePlan string plan_request
  | ApprovePlan string int string "string option"
  | RejectPlan string int string string

datatype (plugins only: code) work_op =
    TransitionTask string int string task_status string "string list" string
  | AddEvidence evidence
  | CreateDelegation delegation
  | TransitionDelegation string delegation_status "string option" "string option"
  | BeginAction string string json_obj "string option" string bool
  | CompleteAction string string action_status
  | MarkActionUncertain string string
  | ResolveAction string string string string
  | ResolveDelegation string string string string
  | RecoverInflight

datatype (plugins only: code) session_op =
    SaveSession string session_update
  | MutateSession string "session_row \<Rightarrow> store_error + session_row" "int option"
  | EnqueuePrompt string string string
  | ReorderPrompts string "string list"
  | ClaimPrompt string
  | BindPrompt string string
  | FinishPrompt string prompt_status string
  | AppendEvent string "string option" "string option" "string option" json_obj

datatype (plugins only: code) store_op =
  GoalOp goal_op | PlanOp plan_op | WorkOp work_op | SessionOp session_op

definition new_state :: "store_error + store \<times> 'a \<Rightarrow> store_error + store" where
  "new_state m = and_then m (\<lambda>(s, _). Inr s)"

lemma new_state_Inr [simp]: "new_state m = Inr t \<longleftrightarrow> (\<exists>r. m = Inr (t, r))"
  by (auto simp: new_state_def and_then_Inr)

primrec exec_goal :: "platform \<Rightarrow> env \<Rightarrow> goal_op \<Rightarrow> store \<Rightarrow> store_error + store" where
  "exec_goal P E (CreateGoal obj sid cr co m) s = new_state (create_goal E obj sid cr co m s)"
| "exec_goal P E (BindGoal obj sid cr co m b) s =
     new_state (create_goal_and_bind_workflow_session P E obj sid cr co m b s)"
| "exec_goal P E (TransitionGoal gid st reason m) s = new_state (transition_goal E gid st reason m s)"
| "exec_goal P E (CancelGoal gid sid reason) s = new_state (cancel_goal_and_session E gid sid reason s)"
| "exec_goal P E (UpdateGoalMetadata gid m) s = new_state (update_goal_metadata E gid m s)"
| "exec_goal P E (LeaseClaims gid t) s = new_state (lease_resource_claims P E gid t s)"
| "exec_goal P E (ReleaseClaims gid t) s = release_resource_claims P E gid t s"

primrec exec_plan :: "platform \<Rightarrow> env \<Rightarrow> plan_op \<Rightarrow> store \<Rightarrow> store_error + store" where
  "exec_plan P E (CreatePlan gid r) s = new_state (create_plan P E gid r s)"
| "exec_plan P E (ApprovePlan gid n b e) s = new_state (approve_plan E gid n b e s)"
| "exec_plan P E (RejectPlan gid n f b) s = new_state (reject_plan E gid n f b s)"

primrec exec_work :: "platform \<Rightarrow> env \<Rightarrow> work_op \<Rightarrow> store \<Rightarrow> store_error + store" where
  "exec_work P E (TransitionTask gid n tid st note evs actor) s =
     new_state (transition_task E gid n tid st note evs actor s)"
| "exec_work P E (AddEvidence e) s = new_state (add_evidence E e s)"
| "exec_work P E (CreateDelegation d) s = new_state (create_delegation E d s)"
| "exec_work P E (TransitionDelegation did st r e) s = new_state (transition_delegation E did st r e s)"
| "exec_work P E (BeginAction gid tool args tid risk m) s =
     new_state (begin_action P E gid tool args tid risk m s)"
| "exec_work P E (CompleteAction aid r st) s = complete_action E aid r st s"
| "exec_work P E (MarkActionUncertain aid r) s = mark_action_uncertain E aid r s"
| "exec_work P E (ResolveAction aid res note actor) s = new_state (resolve_action E aid res note actor s)"
| "exec_work P E (ResolveDelegation did res note actor) s =
     new_state (resolve_delegation E did res note actor s)"
| "exec_work P E RecoverInflight s = new_state (recover_inflight E s)"

primrec exec_session :: "env \<Rightarrow> session_op \<Rightarrow> store \<Rightarrow> store_error + store" where
  "exec_session E (SaveSession sid u) s = new_state (save_workflow_session E sid u s)"
| "exec_session E (MutateSession sid f e) s = mutate_workflow_session E sid f e s"
| "exec_session E (EnqueuePrompt sid text mode) s = new_state (enqueue_prompt E sid text mode s)"
| "exec_session E (ReorderPrompts sid ids) s = new_state (reorder_pending_prompts E sid ids s)"
| "exec_session E (ClaimPrompt sid) s = new_state (claim_next_prompt E sid s)"
| "exec_session E (BindPrompt pid gid) s = new_state (bind_prompt_goal E pid gid s)"
| "exec_session E (FinishPrompt pid st e) s = new_state (finish_queued_prompt E pid st e s)"
| "exec_session E (AppendEvent ety gid enty eid payload) s = append_event E ety gid enty eid payload s"

primrec exec_store :: "platform \<Rightarrow> env \<Rightarrow> store_op \<Rightarrow> store \<Rightarrow> store_error + store" where
  "exec_store P E (GoalOp p) s = exec_goal P E p s"
| "exec_store P E (PlanOp p) s = exec_plan P E p s"
| "exec_store P E (WorkOp p) s = exec_work P E p s"
| "exec_store P E (SessionOp p) s = exec_session E p s"

text \<open>An operation comes with the environment it reads; a rolled back one changes nothing.\<close>

definition exec :: "platform \<Rightarrow> env \<times> store_op \<Rightarrow> store \<Rightarrow> store_error + store" where
  "exec P = (\<lambda>(E, p). exec_store P E p)"

definition run_store :: "platform \<Rightarrow> (env \<times> store_op) list \<Rightarrow> store \<Rightarrow> store" where
  "run_store P ops s = run_ops (exec P) ops s"

section \<open>Keys\<close>

definition keys_ok :: "store \<Rightarrow> bool" where
  "keys_ok s \<longleftrightarrow>
     distinct (map g_id (st_goals s)) \<and>
     distinct (map p_id (st_plans s)) \<and>
     distinct (map (\<lambda>p. (p_goal_id p, p_revision p)) (st_plans s)) \<and>
     distinct (map (\<lambda>t. (t_plan_id t, t_id t)) (st_tasks s)) \<and>
     distinct (map e_id (st_evidence s)) \<and>
     distinct (map d_id (st_delegations s)) \<and>
     distinct (map ap_id (st_approvals s)) \<and>
     distinct (map a_id (st_actions s)) \<and>
     distinct (map ev_id (st_events s)) \<and>
     distinct (map w_id (st_sessions s)) \<and>
     distinct (map q_id (st_prompts s)) \<and>
     map ev_sequence (st_events s) = map (\<lambda>i. Some (int i + 1)) [0..<length (st_events s)]"

named_theorems keys_intros \<open>primitive steps that keep the key constraints\<close>

lemma keys_log_event [keys_intros]:
  "keys_ok s \<Longrightarrow> log_event E k ety gid enty eid pl s = Inr t \<Longrightarrow> keys_ok t"
  by (auto simp: keys_ok_def log_event_Inr)

lemma keys_insert_goal [keys_intros]: "keys_ok s \<Longrightarrow> insert_goal g s = Inr t \<Longrightarrow> keys_ok t"
  by (auto simp: keys_ok_def insert_goal_Inr)

lemma keys_insert_plan [keys_intros]: "keys_ok s \<Longrightarrow> insert_plan g s = Inr t \<Longrightarrow> keys_ok t"
  by (auto simp: keys_ok_def insert_plan_Inr)

lemma keys_insert_task [keys_intros]: "keys_ok s \<Longrightarrow> insert_task g s = Inr t \<Longrightarrow> keys_ok t"
  by (auto simp: keys_ok_def insert_task_Inr)

lemma keys_insert_evidence [keys_intros]: "keys_ok s \<Longrightarrow> insert_evidence g s = Inr t \<Longrightarrow> keys_ok t"
  by (auto simp: keys_ok_def insert_evidence_Inr)

lemma keys_insert_delegation [keys_intros]: "keys_ok s \<Longrightarrow> insert_delegation g s = Inr t \<Longrightarrow> keys_ok t"
  by (auto simp: keys_ok_def insert_delegation_Inr)

lemma keys_insert_approval [keys_intros]: "keys_ok s \<Longrightarrow> insert_approval g s = Inr t \<Longrightarrow> keys_ok t"
  by (auto simp: keys_ok_def insert_approval_Inr)

lemma keys_insert_action [keys_intros]: "keys_ok s \<Longrightarrow> insert_action g s = Inr t \<Longrightarrow> keys_ok t"
  by (auto simp: keys_ok_def insert_action_Inr)

lemma keys_insert_document [keys_intros]: "keys_ok s \<Longrightarrow> insert_document g s = Inr t \<Longrightarrow> keys_ok t"
  by (auto simp: keys_ok_def dest: insert_document_Inr)

lemma keys_insert_prompt [keys_intros]: "keys_ok s \<Longrightarrow> insert_prompt g s = Inr t \<Longrightarrow> keys_ok t"
  by (auto simp: keys_ok_def insert_prompt_Inr)

text \<open>Updates that leave the key columns alone.\<close>

lemma keys_updates:
  assumes "keys_ok s"
  shows "map g_id gs = map g_id (st_goals s) \<Longrightarrow> keys_ok (s\<lparr>st_goals := gs\<rparr>)"
    and "map p_id ps = map p_id (st_plans s) \<Longrightarrow>
         map (\<lambda>p. (p_goal_id p, p_revision p)) ps = map (\<lambda>p. (p_goal_id p, p_revision p)) (st_plans s) \<Longrightarrow>
         keys_ok (s\<lparr>st_plans := ps\<rparr>)"
    and "map (\<lambda>t. (t_plan_id t, t_id t)) ts = map (\<lambda>t. (t_plan_id t, t_id t)) (st_tasks s) \<Longrightarrow>
         keys_ok (s\<lparr>st_tasks := ts\<rparr>)"
    and "map d_id ds = map d_id (st_delegations s) \<Longrightarrow> keys_ok (s\<lparr>st_delegations := ds\<rparr>)"
    and "map a_id as = map a_id (st_actions s) \<Longrightarrow> keys_ok (s\<lparr>st_actions := as\<rparr>)"
    and "map w_id ws = map w_id (st_sessions s) \<Longrightarrow> keys_ok (s\<lparr>st_sessions := ws\<rparr>)"
    and "map q_id qs = map q_id (st_prompts s) \<Longrightarrow> keys_ok (s\<lparr>st_prompts := qs\<rparr>)"
  using assms by (simp_all add: keys_ok_def)

section \<open>Row histories\<close>

definition goal_step :: "goal_row \<Rightarrow> goal_row \<Rightarrow> bool" where
  "goal_step g h \<longleftrightarrow>
     g_id h = g_id g \<and> g_session_id h = g_session_id g \<and> g_objective h = g_objective g \<and>
     g_success_criteria h = g_success_criteria g \<and> g_constraints h = g_constraints g \<and>
     g_created_at h = g_created_at g \<and> (moves goal_transitions)\<^sup>*\<^sup>* (g_status g) (g_status h)"

definition plan_step :: "plan_row \<Rightarrow> plan_row \<Rightarrow> bool" where
  "plan_step p q \<longleftrightarrow>
     p_id q = p_id p \<and> p_goal_id q = p_goal_id p \<and> p_revision q = p_revision p \<and>
     p_summary q = p_summary p \<and> p_applicability q = p_applicability p \<and>
     p_strategy q = p_strategy p \<and> p_changes q = p_changes p \<and>
     p_fingerprint q = p_fingerprint p \<and> p_proposed_by q = p_proposed_by p \<and>
     p_created_at q = p_created_at p \<and> (moves plan_transitions)\<^sup>*\<^sup>* (p_status p) (p_status q)"

definition task_step :: "task_row \<Rightarrow> task_row \<Rightarrow> bool" where
  "task_step t u \<longleftrightarrow>
     t_plan_id u = t_plan_id t \<and> t_id u = t_id t \<and> t_goal_id u = t_goal_id t \<and>
     t_plan_revision u = t_plan_revision t \<and> t_title u = t_title t \<and>
     t_description u = t_description t \<and> t_parent_id u = t_parent_id t \<and>
     t_depends_on u = t_depends_on t \<and> t_acceptance_criteria u = t_acceptance_criteria t \<and>
     t_verification u = t_verification t \<and> t_role u = t_role t \<and> t_mode u = t_mode t \<and>
     t_risk u = t_risk t \<and> t_priority u = t_priority t \<and> t_origin u = t_origin t \<and>
     t_attempts t \<le> t_attempts u \<and> (moves task_transitions)\<^sup>*\<^sup>* (t_status t) (t_status u)"

definition delegation_step :: "delegation \<Rightarrow> delegation \<Rightarrow> bool" where
  "delegation_step d e \<longleftrightarrow>
     d_id e = d_id d \<and> d_goal_id e = d_goal_id d \<and> d_task_id e = d_task_id d \<and>
     d_plan_revision e = d_plan_revision d \<and> d_parent_id e = d_parent_id d \<and>
     d_brief e = d_brief d \<and> d_role e = d_role d \<and> d_attempt d \<le> d_attempt e \<and>
     (moves delegation_transitions)\<^sup>*\<^sup>* (d_status d) (d_status e)"

text \<open>The graph the guards of the action journal enforce.\<close>

primrec action_transitions :: "action_status \<Rightarrow> action_status set" where
  "action_transitions ACT_RUNNING = {ACT_COMPLETED, ACT_DENIED, ACT_FAILED, ACT_UNCERTAIN}"
| "action_transitions ACT_COMPLETED = {ACT_UNCERTAIN}"
| "action_transitions ACT_DENIED = {}"
| "action_transitions ACT_FAILED = {}"
| "action_transitions ACT_UNCERTAIN = {ACT_RESOLVED_APPLIED, ACT_RESOLVED_NOT_RUN}"
| "action_transitions ACT_RESOLVED_APPLIED = {}"
| "action_transitions ACT_RESOLVED_NOT_RUN = {}"

definition action_step :: "action_row \<Rightarrow> action_row \<Rightarrow> bool" where
  "action_step a b \<longleftrightarrow>
     a_id b = a_id a \<and> a_goal_id b = a_goal_id a \<and> a_task_id b = a_task_id a \<and>
     a_tool_name b = a_tool_name a \<and> a_args_hash b = a_args_hash a \<and> a_args b = a_args a \<and>
     a_risk b = a_risk a \<and> a_mutating b = a_mutating a \<and> a_started_at b = a_started_at a \<and>
     (moves action_transitions)\<^sup>*\<^sup>* (a_status a) (a_status b)"

text \<open>A changed session row has a larger revision: a stale writer is always detected.\<close>

definition session_step :: "session_row \<Rightarrow> session_row \<Rightarrow> bool" where
  "session_step v w \<longleftrightarrow> w_id w = w_id v \<and> (w = v \<or> w_revision v < w_revision w)"

definition prompt_step :: "queued_prompt \<Rightarrow> queued_prompt \<Rightarrow> bool" where
  "prompt_step q r \<longleftrightarrow>
     q_id r = q_id q \<and> q_session_id r = q_session_id q \<and> q_text r = q_text q \<and>
     q_mode r = q_mode q \<and> q_created_at r = q_created_at q"

lemmas row_step_defs = goal_step_def plan_step_def task_step_def delegation_step_def
  action_step_def session_step_def prompt_step_def

interpretation goal_history: row_history goal_step
  by unfold_locales (auto simp: goal_step_def)

interpretation plan_history: row_history plan_step
  by unfold_locales (auto simp: plan_step_def)

interpretation task_history: row_history task_step
  by unfold_locales (auto simp: task_step_def)

interpretation delegation_history: row_history delegation_step
  by unfold_locales (auto simp: delegation_step_def)

interpretation action_history: row_history action_step
  by unfold_locales (auto simp: action_step_def)

interpretation session_history: row_history session_step
  by unfold_locales (auto simp: session_step_def)

interpretation prompt_history: row_history prompt_step
  by unfold_locales (auto simp: prompt_step_def)

definition advance :: "store \<Rightarrow> store \<Rightarrow> bool" where
  "advance s t \<longleftrightarrow>
     rows_advance goal_step (st_goals s) (st_goals t) \<and>
     rows_advance plan_step (st_plans s) (st_plans t) \<and>
     rows_advance task_step (st_tasks s) (st_tasks t) \<and>
     rows_advance delegation_step (st_delegations s) (st_delegations t) \<and>
     rows_advance action_step (st_actions s) (st_actions t) \<and>
     rows_advance session_step (st_sessions s) (st_sessions t) \<and>
     rows_advance prompt_step (st_prompts s) (st_prompts t) \<and>
     rows_advance (=) (st_evidence s) (st_evidence t) \<and>
     rows_advance (=) (st_approvals s) (st_approvals t) \<and>
     rows_advance (=) (st_events s) (st_events t) \<and>
     rows_advance (=) (st_documents s) (st_documents t)"

lemma advance_refl [simp]: "advance s s"
  by (simp add: advance_def)

lemma advance_trans: "advance s t \<Longrightarrow> advance t u \<Longrightarrow> advance s u"
  unfolding advance_def
  by (blast intro: goal_history.adv_trans plan_history.adv_trans task_history.adv_trans
        delegation_history.adv_trans action_history.adv_trans session_history.adv_trans
        prompt_history.adv_trans log_history.adv_trans)

end
