(* ===== verification/Store_Safety.thy ===== *)
theory Store_Safety
  imports Store_System
begin

text \<open>
  Every operation keeps \<open>keys_ok\<close> and advances the store; the proofs go operation by
  operation, in the order of \<open>exec\<close>.
\<close>

lemma unique_goal: "keys_ok s \<Longrightarrow> fetchone (\<lambda>g. g_id g = i) (st_goals s) = Some c \<Longrightarrow>
    g \<in> set (st_goals s) \<Longrightarrow> g_id g = i \<Longrightarrow> g = c"
  using fetchone_Some [of "\<lambda>g. g_id g = i" "st_goals s" c]
  by (auto simp: keys_ok_def intro: key_unique [of g_id "st_goals s"])

lemma unique_delegation: "keys_ok s \<Longrightarrow> fetchone (\<lambda>d. d_id d = i) (st_delegations s) = Some c \<Longrightarrow>
    d \<in> set (st_delegations s) \<Longrightarrow> d_id d = i \<Longrightarrow> d = c"
  using fetchone_Some [of "\<lambda>d. d_id d = i" "st_delegations s" c]
  by (auto simp: keys_ok_def intro: key_unique [of d_id "st_delegations s"])

lemma unique_action: "keys_ok s \<Longrightarrow> fetchone (\<lambda>a. a_id a = i) (st_actions s) = Some c \<Longrightarrow>
    a \<in> set (st_actions s) \<Longrightarrow> a_id a = i \<Longrightarrow> a = c"
  using fetchone_Some [of "\<lambda>a. a_id a = i" "st_actions s" c]
  by (auto simp: keys_ok_def intro: key_unique [of a_id "st_actions s"])

lemma unique_session: "keys_ok s \<Longrightarrow> fetchone (\<lambda>w. w_id w = i) (st_sessions s) = Some c \<Longrightarrow>
    w \<in> set (st_sessions s) \<Longrightarrow> w_id w = i \<Longrightarrow> w = c"
  using fetchone_Some [of "\<lambda>w. w_id w = i" "st_sessions s" c]
  by (auto simp: keys_ok_def intro: key_unique [of w_id "st_sessions s"])

lemma unique_plan: "keys_ok s \<Longrightarrow> p \<in> set (st_plans s) \<Longrightarrow> q \<in> set (st_plans s) \<Longrightarrow>
    p_id p = p_id q \<Longrightarrow> p = q"
  by (auto simp: keys_ok_def intro: key_unique [of p_id "st_plans s"])

lemma unique_revision: "keys_ok s \<Longrightarrow> p \<in> set (st_plans s) \<Longrightarrow> q \<in> set (st_plans s) \<Longrightarrow>
    p_goal_id p = p_goal_id q \<Longrightarrow> p_revision p = p_revision q \<Longrightarrow> p = q"
  by (auto simp: keys_ok_def intro: key_unique [of "\<lambda>p. (p_goal_id p, p_revision p)" "st_plans s"])

lemma unique_task: "keys_ok s \<Longrightarrow> t \<in> set (st_tasks s) \<Longrightarrow> u \<in> set (st_tasks s) \<Longrightarrow>
    t_plan_id t = t_plan_id u \<Longrightarrow> t_id t = t_id u \<Longrightarrow> t = u"
  by (auto simp: keys_ok_def intro: key_unique [of "\<lambda>t. (t_plan_id t, t_id t)" "st_tasks s"])

section \<open>Goal operations\<close>

definition evolves :: "store \<Rightarrow> store \<Rightarrow> bool" where
  "evolves s t \<longleftrightarrow> keys_ok t \<and> advance s t"

lemma evolves_trans: "evolves s t \<Longrightarrow> evolves t u \<Longrightarrow> evolves s u"
  by (auto simp: evolves_def intro: advance_trans)

lemma evolves_refl: "keys_ok s \<Longrightarrow> evolves s s"
  by (simp add: evolves_def)

lemma evolves_log: "keys_ok s \<Longrightarrow> log_event E k ety gid enty eid pl s = Inr t \<Longrightarrow> evolves s t"
  unfolding evolves_def by (auto intro: keys_log_event) (auto simp: log_event_Inr advance_def)

lemma evolves_goals:
  assumes "keys_ok s" "\<And>g. g \<in> set (st_goals s) \<Longrightarrow> p g \<Longrightarrow> goal_step g (f g)"
  shows "evolves s (s\<lparr>st_goals := update_where p f (st_goals s)\<rparr>)"
proof -
  have "map g_id (update_where p f (st_goals s)) = map g_id (st_goals s)"
    using assms(2) by (auto simp: update_where_def goal_step_def)
  then show ?thesis using assms by (auto simp: evolves_def advance_def intro: keys_updates)
qed

lemma evolves_plans:
  assumes "keys_ok s" "\<And>g. g \<in> set (st_plans s) \<Longrightarrow> p g \<Longrightarrow> plan_step g (f g)"
  shows "evolves s (s\<lparr>st_plans := update_where p f (st_plans s)\<rparr>)"
proof -
  have "map p_id (update_where p f (st_plans s)) = map p_id (st_plans s)"
    "map (\<lambda>p. (p_goal_id p, p_revision p)) (update_where p f (st_plans s)) =
     map (\<lambda>p. (p_goal_id p, p_revision p)) (st_plans s)"
    using assms(2) by (auto simp: update_where_def plan_step_def)
  then show ?thesis using assms by (auto simp: evolves_def advance_def intro!: keys_updates(2))
qed

lemma evolves_tasks:
  assumes "keys_ok s" "\<And>g. g \<in> set (st_tasks s) \<Longrightarrow> p g \<Longrightarrow> task_step g (f g)"
  shows "evolves s (s\<lparr>st_tasks := update_where p f (st_tasks s)\<rparr>)"
proof -
  have "map (\<lambda>t. (t_plan_id t, t_id t)) (update_where p f (st_tasks s)) =
        map (\<lambda>t. (t_plan_id t, t_id t)) (st_tasks s)"
    using assms(2) by (auto simp: update_where_def task_step_def)
  then show ?thesis using assms by (auto simp: evolves_def advance_def intro!: keys_updates(3))
qed

lemma evolves_delegations:
  assumes "keys_ok s" "\<And>g. g \<in> set (st_delegations s) \<Longrightarrow> p g \<Longrightarrow> delegation_step g (f g)"
  shows "evolves s (s\<lparr>st_delegations := update_where p f (st_delegations s)\<rparr>)"
proof -
  have "map d_id (update_where p f (st_delegations s)) = map d_id (st_delegations s)"
    using assms(2) by (auto simp: update_where_def delegation_step_def)
  then show ?thesis using assms by (auto simp: evolves_def advance_def intro!: keys_updates(4))
qed

lemma evolves_actions:
  assumes "keys_ok s" "\<And>g. g \<in> set (st_actions s) \<Longrightarrow> p g \<Longrightarrow> action_step g (f g)"
  shows "evolves s (s\<lparr>st_actions := update_where p f (st_actions s)\<rparr>)"
proof -
  have "map a_id (update_where p f (st_actions s)) = map a_id (st_actions s)"
    using assms(2) by (auto simp: update_where_def action_step_def)
  then show ?thesis using assms by (auto simp: evolves_def advance_def intro!: keys_updates(5))
qed

lemma evolves_sessions:
  assumes "keys_ok s" "\<And>g. g \<in> set (st_sessions s) \<Longrightarrow> p g \<Longrightarrow> session_step g (f g)"
  shows "evolves s (s\<lparr>st_sessions := update_where p f (st_sessions s)\<rparr>)"
proof -
  have "map w_id (update_where p f (st_sessions s)) = map w_id (st_sessions s)"
    using assms(2) by (auto simp: update_where_def session_step_def)
  then show ?thesis using assms by (auto simp: evolves_def advance_def intro!: keys_updates(6))
qed

lemma evolves_prompts:
  assumes "keys_ok s" "\<And>g. g \<in> set (st_prompts s) \<Longrightarrow> p g \<Longrightarrow> prompt_step g (f g)"
  shows "evolves s (s\<lparr>st_prompts := update_where p f (st_prompts s)\<rparr>)"
proof -
  have "map q_id (update_where p f (st_prompts s)) = map q_id (st_prompts s)"
    using assms(2) by (auto simp: update_where_def prompt_step_def)
  then show ?thesis using assms by (auto simp: evolves_def advance_def intro!: keys_updates(7))
qed

lemma evolves_insert_goal: "keys_ok s \<Longrightarrow> insert_goal r s = Inr t \<Longrightarrow> evolves s t"
  unfolding evolves_def by (rule conjI, erule (1) keys_insert_goal) (simp add: insert_goal_Inr advance_def)

lemma evolves_insert_plan: "keys_ok s \<Longrightarrow> insert_plan r s = Inr t \<Longrightarrow> evolves s t"
  unfolding evolves_def by (rule conjI, erule (1) keys_insert_plan) (simp add: insert_plan_Inr advance_def)

lemma evolves_insert_task: "keys_ok s \<Longrightarrow> insert_task r s = Inr t \<Longrightarrow> evolves s t"
  unfolding evolves_def by (rule conjI, erule (1) keys_insert_task) (simp add: insert_task_Inr advance_def)

lemma evolves_insert_evidence: "keys_ok s \<Longrightarrow> insert_evidence r s = Inr t \<Longrightarrow> evolves s t"
  unfolding evolves_def by (rule conjI, erule (1) keys_insert_evidence) (simp add: insert_evidence_Inr advance_def)

lemma evolves_insert_delegation: "keys_ok s \<Longrightarrow> insert_delegation r s = Inr t \<Longrightarrow> evolves s t"
  unfolding evolves_def by (rule conjI, erule (1) keys_insert_delegation) (simp add: insert_delegation_Inr advance_def)

lemma evolves_insert_approval: "keys_ok s \<Longrightarrow> insert_approval r s = Inr t \<Longrightarrow> evolves s t"
  unfolding evolves_def by (rule conjI, erule (1) keys_insert_approval) (simp add: insert_approval_Inr advance_def)

lemma evolves_insert_action: "keys_ok s \<Longrightarrow> insert_action r s = Inr t \<Longrightarrow> evolves s t"
  unfolding evolves_def by (rule conjI, erule (1) keys_insert_action) (simp add: insert_action_Inr advance_def)

lemma evolves_insert_prompt: "keys_ok s \<Longrightarrow> insert_prompt r s = Inr t \<Longrightarrow> evolves s t"
  unfolding evolves_def by (rule conjI, erule (1) keys_insert_prompt) (simp add: insert_prompt_Inr advance_def)

lemma evolves_insert_document: "keys_ok s \<Longrightarrow> insert_document r s = Inr t \<Longrightarrow> evolves s t"
  unfolding evolves_def
  by (rule conjI, erule (1) keys_insert_document) (auto simp: advance_def dest: insert_document_Inr)

lemmas evolves_inserts = evolves_insert_goal evolves_insert_plan evolves_insert_task
  evolves_insert_evidence evolves_insert_delegation evolves_insert_approval evolves_insert_action
  evolves_insert_document evolves_insert_prompt

lemma evolves_keys: "evolves s t \<Longrightarrow> keys_ok t"
  by (simp add: evolves_def)

lemma goal_move_step:
  "g_status g = a \<Longrightarrow> moves goal_transitions a b \<Longrightarrow>
   goal_step g (g\<lparr>g_status := b, g_metadata := m, g_updated_at := n\<rparr>)"
  by (simp add: goal_step_def)

text \<open>Chaining the effects of the statements of one transaction.\<close>

lemma evolves_then: "evolves s t \<Longrightarrow> (keys_ok t \<Longrightarrow> evolves t u) \<Longrightarrow> evolves s u"
  by (blast intro: evolves_trans evolves_keys)

lemma evolves_then_log:
  "evolves s t \<Longrightarrow> log_event E k ety gid enty eid pl t = Inr u \<Longrightarrow> evolves s u"
  by (rule evolves_then) (auto intro: evolves_log)

lemma project_session_step: "session_step w (project_session st n w)"
  by (auto simp: project_session_def session_step_def split: prod.splits option.splits)

lemma transition_goal_evolves:
  assumes ok: "keys_ok s" and run: "transition_goal E gid target reason m s = Inr (t, r)"
  shows "evolves s t"
proof -
  obtain c where c: "fetchone (\<lambda>g. g_id g = gid) (st_goals s) = Some c"
    using run by (auto simp: transition_goal_def split: option.splits)
  let ?s1 = "s\<lparr>st_goals := update_where (\<lambda>g. g_id g = gid) (\<lambda>g. g\<lparr>g_status := target,
      g_metadata := obj_merge (g_metadata c) m, g_updated_at := now E\<rparr>) (st_goals s)\<rparr>"
  let ?s2 = "?s1\<lparr>st_sessions := update_where (\<lambda>w. w_goal_id w = Some gid)
      (project_session target (now E)) (st_sessions ?s1)\<rparr>"
  have mv: "moves goal_transitions (g_status c) target"
    using run c by (auto simp: transition_goal_def and_then_Inr ensure_iffs)
  have 1: "evolves s ?s1"
    using unique_goal [OF ok c] mv by (intro evolves_goals ok goal_move_step) auto
  have 2: "evolves s ?s2"
    by (rule evolves_then [OF 1], rule evolves_sessions) (auto simp: project_session_step)
  show ?thesis
    using run c by (auto simp: transition_goal_def Let_def and_then_Inr intro: evolves_then_log [OF 2, simplified])
qed

lemma create_goal_evolves:
  assumes ok: "keys_ok s" and run: "create_goal E obj sid cr co m s = Inr (t, r)"
  shows "evolves s t"
  using run ok
  by (auto simp: create_goal_def and_then_Inr split: option.splits
      intro: evolves_then_log [OF evolves_insert_goal])

lemma bind_goal_steps:
  assumes run: "create_goal_and_bind_workflow_session P E obj sid cr co m b s = Inr (t, r)"
  obtains row g s1 f s3 pl1 pl2 where "fetchone (\<lambda>w. w_id w = sid) (st_sessions s) = Some row"
    "insert_goal (goal.extend g (goal_row.fields sid)) s = Inr s1"
    "\<And>w. w_id (f w) = w_id w" "\<And>w. w_revision (f w) = w_revision row + 1"
    "log_event E 0 ''goal.created'' (Some (g_id g)) (Some ''goal'') (Some (g_id g)) pl1
        (s1\<lparr>st_sessions := update_where (\<lambda>w. w_id w = sid) f (st_sessions s1)\<rparr>) = Inr s3"
    "log_event E 1 ''workflow.goal_bound'' (Some (g_id g)) (Some ''workflow_session'') (Some sid) pl2 s3 = Inr t"
proof -
  obtain row where row: "fetchone (\<lambda>w. w_id w = sid) (st_sessions s) = Some row"
    using run by (auto simp: create_goal_and_bind_workflow_session_def and_then_Inr split: option.splits)
  let ?f = "\<lambda>g w. w\<lparr>w_goal_id := Some (g_id g), w_session_mode := b_session_mode b,
     w_plan_state := b_plan_state b, w_run_state := b_run_state b,
     w_ultra_profile := b_ultra_profile b, w_sleep_state := b_sleep_state b,
     w_state := complete_turn P (b_turn_id b) (case b_state b of Some st \<Rightarrow> st | None \<Rightarrow> w_state row),
     w_revision := w_revision row + 1, w_updated_at := now E\<rparr>"
  obtain g :: goal and s1 where ins: "insert_goal (goal.extend g (goal_row.fields sid)) s = Inr s1"
    and tail: "\<exists>s3 pl1 pl2. log_event E 0 ''goal.created'' (Some (g_id g)) (Some ''goal'') (Some (g_id g)) pl1
        (s1\<lparr>st_sessions := update_where (\<lambda>w. w_id w = sid) (?f g) (st_sessions s1)\<rparr>) = Inr s3 \<and>
      log_event E 1 ''workflow.goal_bound'' (Some (g_id g)) (Some ''workflow_session'') (Some sid) pl2 s3 = Inr t"
    using run row
    by (auto simp: create_goal_and_bind_workflow_session_def Let_def and_then_Inr split: option.splits if_splits)
  from tail obtain s3 pl1 pl2 where "log_event E 0 ''goal.created'' (Some (g_id g)) (Some ''goal'') (Some (g_id g)) pl1
        (s1\<lparr>st_sessions := update_where (\<lambda>w. w_id w = sid) (?f g) (st_sessions s1)\<rparr>) = Inr s3"
      "log_event E 1 ''workflow.goal_bound'' (Some (g_id g)) (Some ''workflow_session'') (Some sid) pl2 s3 = Inr t"
    by blast
  with row ins show thesis by (intro that [of row g s1 "?f g" pl1 s3 pl2]) simp_all
qed

lemma bind_goal_evolves:
  assumes ok: "keys_ok s"
    and run: "create_goal_and_bind_workflow_session P E obj sid cr co m b s = Inr (t, r)"
  shows "evolves s t"
  using run
proof (rule bind_goal_steps)
  fix row g s1 f s3 pl1 pl2
  assume row: "fetchone (\<lambda>w. w_id w = sid) (st_sessions s) = Some row"
    and ins: "insert_goal (goal.extend g (goal_row.fields sid)) s = Inr s1"
    and f: "\<And>w. w_id (f w) = w_id w" "\<And>w. w_revision (f w) = w_revision row + 1"
    and logs: "log_event E 0 ''goal.created'' (Some (g_id g)) (Some ''goal'') (Some (g_id g)) pl1
        (s1\<lparr>st_sessions := update_where (\<lambda>w. w_id w = sid) f (st_sessions s1)\<rparr>) = Inr s3"
    "log_event E 1 ''workflow.goal_bound'' (Some (g_id g)) (Some ''workflow_session'') (Some sid) pl2 s3 = Inr t"
  have sess: "st_sessions s1 = st_sessions s" using ins by (simp add: insert_goal_Inr)
  have "evolves s (s1\<lparr>st_sessions := update_where (\<lambda>w. w_id w = sid) f (st_sessions s1)\<rparr>)"
    by (rule evolves_then [OF evolves_insert_goal [OF ok ins]], rule evolves_sessions)
       (auto simp: sess session_step_def f dest: unique_session [OF ok row])
  with logs show ?thesis by (blast intro: evolves_then_log)
qed

lemma cancel_goal_evolves:
  assumes ok: "keys_ok s" and run: "cancel_goal_and_session E gid sid reason s = Inr (t, r)"
  shows "evolves s t"
proof -
  obtain c where c: "fetchone (\<lambda>g. g_id g = gid) (st_goals s) = Some c"
    using run by (auto simp: cancel_goal_and_session_def split: option.splits)
  define state where "state = obj_merge (case fetchone (\<lambda>w. w_id w = sid) (st_sessions s) of
       Some w \<Rightarrow> w_state w | None \<Rightarrow> [])
     [(''terminal_goal_id'', JStr gid), (''terminal_goal_status'', JStr (goal_value GOAL_CANCELLED)),
      (''terminal_reason'', JStr reason)]"
  let ?s1 = "s\<lparr>st_goals := update_where (\<lambda>g. g_id g = gid)
      (\<lambda>g. g\<lparr>g_status := GOAL_CANCELLED, g_updated_at := now E\<rparr>) (st_goals s)\<rparr>"
  let ?s2 = "?s1\<lparr>st_sessions := update_where (\<lambda>w. w_id w = sid)
      (\<lambda>w. w\<lparr>w_goal_id := None, w_plan_state := ''none'', w_run_state := ''cancelled'',
        w_state := state, w_revision := w_revision w + 1, w_updated_at := now E\<rparr>) (st_sessions ?s1)\<rparr>"
  let ?s3 = "?s2\<lparr>st_prompts := update_where
      (\<lambda>q. q_session_id q = sid \<and> q_goal_id q = Some gid \<and>
           (q_status q = PROMPT_PENDING \<or> q_status q = PROMPT_RUNNING))
      (\<lambda>q. q\<lparr>q_status := PROMPT_CANCELLED, q_completed_at := Some (now E)\<rparr>) (st_prompts ?s2)\<rparr>"
  have mv: "moves goal_transitions (g_status c) GOAL_CANCELLED"
    using run c by (auto simp: cancel_goal_and_session_def and_then_Inr ensure_iffs)
  have 1: "evolves s ?s1"
    using unique_goal [OF ok c] mv by (intro evolves_goals ok) (auto simp: goal_step_def)
  have 2: "evolves s ?s2"
    by (rule evolves_then [OF 1], rule evolves_sessions) (auto simp: session_step_def)
  have 3: "evolves s ?s3"
    by (rule evolves_then [OF 2], rule evolves_prompts) (auto simp: prompt_step_def)
  show ?thesis
    using run c unfolding cancel_goal_and_session_def Let_def state_def [symmetric]
    by (auto simp: and_then_Inr intro: evolves_then_log [OF 3, simplified])
qed

lemma update_goal_metadata_evolves:
  assumes ok: "keys_ok s" and run: "update_goal_metadata E gid m s = Inr (t, r)"
  shows "evolves s t"
proof -
  have 1: "evolves s (s\<lparr>st_goals := update_where (\<lambda>g. g_id g = gid)
      (\<lambda>g. g\<lparr>g_metadata := x, g_updated_at := now E\<rparr>) (st_goals s)\<rparr>)" for x
    by (rule evolves_goals [OF ok]) (auto simp: goal_step_def)
  show ?thesis
    using run by (auto simp: update_goal_metadata_def Let_def and_then_Inr intro: evolves_then_log [OF 1])
qed

lemma claims_evolves:
  assumes ok: "keys_ok s"
  shows "lease_resource_claims P E gid task s = Inr (t, r) \<Longrightarrow> evolves s t"
    and "release_resource_claims P E gid task s = Inr t \<Longrightarrow> evolves s t"
proof -
  have 1: "evolves s (s\<lparr>st_goals := update_where (\<lambda>g. g_id g = gid)
      (\<lambda>g. g\<lparr>g_metadata := x, g_updated_at := now E\<rparr>) (st_goals s)\<rparr>)" for x
    by (rule evolves_goals [OF ok]) (auto simp: goal_step_def)
  show "lease_resource_claims P E gid task s = Inr (t, r) \<Longrightarrow> evolves s t"
    by (auto simp: lease_resource_claims_def and_then_Inr 1 split: option.splits)
  show "release_resource_claims P E gid task s = Inr t \<Longrightarrow> evolves s t"
    by (auto simp: release_resource_claims_def and_then_Inr 1 split: option.splits)
qed

lemma exec_goal_evolves: "keys_ok s \<Longrightarrow> exec_goal P E p s = Inr t \<Longrightarrow> evolves s t"
  by (cases p) (auto intro: create_goal_evolves bind_goal_evolves transition_goal_evolves
      cancel_goal_evolves update_goal_metadata_evolves claims_evolves)

section \<open>Plan operations\<close>

lemma evolves_fold:
  assumes "keys_ok s" "fold_result f xs s = Inr t"
    and "\<And>x u v. x \<in> set xs \<Longrightarrow> keys_ok u \<Longrightarrow> f x u = Inr v \<Longrightarrow> evolves u v"
  shows "evolves s t"
  using assms(2) by (rule fold_result_inv [where I = "evolves s"])
    (auto intro: evolves_refl assms(1) evolves_then assms(3))

text \<open>What a successful \<open>create_plan\<close> has done, step by step.\<close>

definition supersede_open :: "env \<Rightarrow> string \<Rightarrow> store \<Rightarrow> store" where
  "supersede_open E gid s = s\<lparr>st_plans := update_where
      (\<lambda>p. p_goal_id p = gid \<and> (p_status p = PLAN_DRAFT \<or> p_status p = PLAN_PENDING_APPROVAL))
      (\<lambda>p. p\<lparr>p_status := PLAN_SUPERSEDED, p_updated_at := now E\<rparr>) (st_plans s)\<rparr>"

lemma create_plan_steps:
  assumes "create_plan P E gid r s = Inr (t, plan)"
  defines "n \<equiv> (case latest_revision gid s of None \<Rightarrow> 0 | Some n \<Rightarrow> n) + 1"
  obtains tasks s2 s3 s4 ety pl where
    "goal_exists gid s" "coerce_tasks P E gid n (pr_proposed_by r) (pr_tasks r) = Inr tasks"
    "mk_plan plan = Inr plan"
    "validate_plan_basis P tasks (pr_applicability r) (strip (pr_strategy r)) (pr_changes r) = Inr ()"
    "plan = \<lparr>p_id = fresh E ''plan'' 0, p_goal_id = gid, p_revision = n, p_summary = strip (pr_summary r),
          p_status = (if pr_submit r then PLAN_PENDING_APPROVAL else PLAN_DRAFT),
          p_applicability = pr_applicability r, p_strategy = strip (pr_strategy r), p_changes = pr_changes r,
          p_proposed_by = pr_proposed_by r,
          p_fingerprint = plan_fingerprint P (strip (pr_summary r)) tasks (pr_applicability r)
            (strip (pr_strategy r)) (pr_changes r),
          p_accepted_by = None, p_accepted_at = None, p_created_at = now E, p_updated_at = now E,
          p_tasks = tasks\<rparr>"
    "insert_plan (plan_row.truncate plan) (supersede_open E gid s) = Inr s2"
    "fold_result (\<lambda>u. insert_task (task.extend u (task_row.fields (p_id plan)))) tasks s2 = Inr s3"
    "s4 = s3 \<or> (\<exists>d. insert_document d s3 = Inr s4)"
    "log_event E 0 ety (Some gid) (Some ''plan'') (Some (p_id plan)) pl s4 = Inr t"
proof -
  obtain s4 ety pl tasks s2 s3 where
    "goal_exists gid s" "coerce_tasks P E gid n (pr_proposed_by r) (pr_tasks r) = Inr tasks"
    and mk: "mk_plan \<lparr>p_id = fresh E ''plan'' 0, p_goal_id = gid, p_revision = n, p_summary = strip (pr_summary r),
          p_status = (if pr_submit r then PLAN_PENDING_APPROVAL else PLAN_DRAFT),
          p_applicability = pr_applicability r, p_strategy = strip (pr_strategy r), p_changes = pr_changes r,
          p_proposed_by = pr_proposed_by r,
          p_fingerprint = plan_fingerprint P (strip (pr_summary r)) tasks (pr_applicability r)
            (strip (pr_strategy r)) (pr_changes r),
          p_accepted_by = None, p_accepted_at = None, p_created_at = now E, p_updated_at = now E,
          p_tasks = tasks\<rparr> = Inr plan"
    and "validate_plan_basis P tasks (pr_applicability r) (strip (pr_strategy r)) (pr_changes r) = Inr ()"
    "insert_plan (plan_row.truncate plan) (supersede_open E gid s) = Inr s2"
    "fold_result (\<lambda>u. insert_task (task.extend u (task_row.fields (p_id plan)))) tasks s2 = Inr s3"
    "s4 = s3 \<or> (\<exists>d. insert_document d s3 = Inr s4)"
    "log_event E 0 ety (Some gid) (Some ''plan'') (Some (p_id plan)) pl s4 = Inr t"
    using assms(1) unfolding create_plan_def Let_def n_def [symmetric] supersede_open_def [symmetric]
    by (clarsimp simp: and_then_Inr split: if_splits option.splits) metis+
  moreover from mk have "plan = \<lparr>p_id = fresh E ''plan'' 0, p_goal_id = gid, p_revision = n, p_summary = strip (pr_summary r),
          p_status = (if pr_submit r then PLAN_PENDING_APPROVAL else PLAN_DRAFT),
          p_applicability = pr_applicability r, p_strategy = strip (pr_strategy r), p_changes = pr_changes r,
          p_proposed_by = pr_proposed_by r,
          p_fingerprint = plan_fingerprint P (strip (pr_summary r)) tasks (pr_applicability r)
            (strip (pr_strategy r)) (pr_changes r),
          p_accepted_by = None, p_accepted_at = None, p_created_at = now E, p_updated_at = now E,
          p_tasks = tasks\<rparr>" "mk_plan plan = Inr plan" by (auto simp: mk_plan_Inr)
  ultimately show thesis by (intro that)
qed

lemma supersede_open_evolves: "keys_ok s \<Longrightarrow> evolves s (supersede_open E gid s)"
  unfolding supersede_open_def by (rule evolves_plans) (auto simp: plan_step_def moves_def)

lemma create_plan_evolves:
  assumes ok: "keys_ok s" and run: "create_plan P E gid r s = Inr (t, plan)"
  shows "evolves s t"
  using run
proof (rule create_plan_steps)
  fix tasks s2 s3 s4 ety pl
  assume 2: "insert_plan (plan_row.truncate plan) (supersede_open E gid s) = Inr s2"
    and 3: "fold_result (\<lambda>u. insert_task (task.extend u (task_row.fields (p_id plan)))) tasks s2 = Inr s3"
    and 4: "s4 = s3 \<or> (\<exists>d. insert_document d s3 = Inr s4)"
    and 5: "log_event E 0 ety (Some gid) (Some ''plan'') (Some (p_id plan)) pl s4 = Inr t"
  have "evolves s s2" using 2 by (blast intro: evolves_then supersede_open_evolves [OF ok] evolves_inserts)
  then have "evolves s s3" by (rule evolves_then) (rule evolves_fold [OF _ 3], auto intro: evolves_inserts)
  then have "evolves s s4" using 4 by (auto intro: evolves_then evolves_inserts)
  then show ?thesis using 5 by (rule evolves_then_log)
qed

text \<open>The update part of an approval.\<close>

definition accept_row :: "env \<Rightarrow> string \<Rightarrow> int \<Rightarrow> string \<Rightarrow> plan_row \<Rightarrow> store \<Rightarrow> store" where
  "accept_row E gid n approved_by row s =
     s\<lparr>st_plans := update_where (\<lambda>p. p_id p = p_id row)
          (\<lambda>p. p\<lparr>p_status := PLAN_ACCEPTED, p_accepted_by := Some approved_by,
                 p_accepted_at := Some (now E), p_updated_at := now E\<rparr>)
          (update_where (\<lambda>p. p_goal_id p = gid \<and> p_status p = PLAN_ACCEPTED)
             (\<lambda>p. p\<lparr>p_status := PLAN_SUPERSEDED, p_updated_at := now E\<rparr>) (st_plans s)),
       st_goals := update_where (\<lambda>g. g_id g = gid)
          (\<lambda>g. g\<lparr>g_status := GOAL_RUNNING, g_active_plan_revision := Some n, g_updated_at := now E\<rparr>)
          (st_goals s)\<rparr>"

lemma approve_plan_steps:
  assumes "approve_plan E gid n approved_by expected s = Inr (t, res, approval)"
  obtains row goal s4 pl where
    "latest_revision gid s = Some n"
    "fetchone (\<lambda>p. p_goal_id p = gid \<and> p_revision p = n) (st_plans s) = Some row"
    "p_applicability row \<noteq> []" "strip (p_strategy row) \<noteq> []"
    "moves plan_transitions (p_status row) PLAN_ACCEPTED"
    "\<And>f. expected = Some f \<Longrightarrow> f \<noteq> [] \<Longrightarrow> p_fingerprint row = f"
    "fetchone (\<lambda>g. g_id g = gid) (st_goals s) = Some goal"
    "moves goal_transitions (g_status goal) GOAL_RUNNING"
    "approval = \<lparr>ap_id = fresh E ''approval'' 0, ap_goal_id = gid, ap_plan_id = p_id row,
        ap_revision = n, ap_fingerprint = p_fingerprint row, ap_approved_by = approved_by,
        ap_approved_at = now E\<rparr>"
    "insert_approval approval (accept_row E gid n approved_by row s) = Inr s4"
    "log_event E 0 ''plan.approved'' (Some gid) (Some ''plan'') (Some (p_id row)) pl s4 = Inr t"
    "res = get_plan gid n t"
  using assms unfolding approve_plan_def accept_row_def
  by (auto simp: Let_def and_then_Inr ensure_iffs split: if_splits option.splits)

lemma update_where_fuse:
  "update_where p' f' (update_where p f t) =
   update_where (\<lambda>r. True) (\<lambda>r. let q = (if p r then f r else r) in if p' q then f' q else q) t"
  by (simp add: update_where_def Let_def)

lemma accept_row_evolves:
  assumes ok: "keys_ok s" and row: "row \<in> set (st_plans s)" "p_goal_id row = gid"
    and mv: "moves plan_transitions (p_status row) PLAN_ACCEPTED"
    and goal: "fetchone (\<lambda>g. g_id g = gid) (st_goals s) = Some goal"
      "moves goal_transitions (g_status goal) GOAL_RUNNING"
  shows "evolves s (accept_row E gid n who row s)"
proof -
  let ?s1 = "s\<lparr>st_plans := update_where (\<lambda>p. p_id p = p_id row)
          (\<lambda>p. p\<lparr>p_status := PLAN_ACCEPTED, p_accepted_by := Some who,
                 p_accepted_at := Some (now E), p_updated_at := now E\<rparr>)
          (update_where (\<lambda>p. p_goal_id p = gid \<and> p_status p = PLAN_ACCEPTED)
             (\<lambda>p. p\<lparr>p_status := PLAN_SUPERSEDED, p_updated_at := now E\<rparr>) (st_plans s))\<rparr>"
  have 1: "evolves s ?s1"
    unfolding update_where_fuse
  proof (rule evolves_plans [OF ok])
    fix p assume p: "p \<in> set (st_plans s)"
    have "(moves plan_transitions)\<^sup>*\<^sup>* (p_status p) PLAN_ACCEPTED" if "p_id p = p_id row"
      using that unique_plan [OF ok p row(1)] mv by auto
    then show "plan_step p (let q = (if p_goal_id p = gid \<and> p_status p = PLAN_ACCEPTED
         then p\<lparr>p_status := PLAN_SUPERSEDED, p_updated_at := now E\<rparr> else p) in
       if p_id q = p_id row
       then q\<lparr>p_status := PLAN_ACCEPTED, p_accepted_by := Some who, p_accepted_at := Some (now E),
              p_updated_at := now E\<rparr> else q)"
      by (auto simp: plan_step_def moves_def Let_def)
  qed
  have goal': "fetchone (\<lambda>g. g_id g = gid) (st_goals ?s1) = Some goal" using goal by simp
  have "evolves s (?s1\<lparr>st_goals := update_where (\<lambda>g. g_id g = gid)
          (\<lambda>g. g\<lparr>g_status := GOAL_RUNNING, g_active_plan_revision := Some n, g_updated_at := now E\<rparr>)
          (st_goals ?s1)\<rparr>)"
  proof (rule evolves_then [OF 1], rule evolves_goals)
    fix g assume k: "keys_ok ?s1" "g \<in> set (st_goals ?s1)" "g_id g = gid"
    then have "g = goal" using unique_goal [OF _ goal'] by blast
    then show "goal_step g (g\<lparr>g_status := GOAL_RUNNING, g_active_plan_revision := Some n, g_updated_at := now E\<rparr>)"
      using goal(2) by (auto simp: goal_step_def)
  qed
  then show ?thesis by (simp add: accept_row_def)
qed

lemma approve_plan_evolves:
  assumes ok: "keys_ok s" and run: "approve_plan E gid n who expected s = Inr (t, res, approval)"
  shows "evolves s t"
  using run
proof (rule approve_plan_steps)
  fix row goal s4 pl
  assume row: "fetchone (\<lambda>p. p_goal_id p = gid \<and> p_revision p = n) (st_plans s) = Some row"
    and mv: "moves plan_transitions (p_status row) PLAN_ACCEPTED"
    and goal: "fetchone (\<lambda>g. g_id g = gid) (st_goals s) = Some goal"
      "moves goal_transitions (g_status goal) GOAL_RUNNING"
    and ins: "insert_approval approval (accept_row E gid n who row s) = Inr s4"
    and log: "log_event E 0 ''plan.approved'' (Some gid) (Some ''plan'') (Some (p_id row)) pl s4 = Inr t"
  have "evolves s (accept_row E gid n who row s)"
    using fetchone_Some [OF row] by (intro accept_row_evolves [OF ok _ _ mv goal]) auto
  then have "evolves s s4" using ins by (blast intro: evolves_then evolves_inserts)
  then show ?thesis using log by (rule evolves_then_log)
qed

lemma reject_plan_evolves:
  assumes ok: "keys_ok s" and run: "reject_plan E gid n fb who s = Inr (t, res)"
  shows "evolves s t"
proof -
  obtain row goal where row: "fetchone (\<lambda>p. p_goal_id p = gid \<and> p_revision p = n) (st_plans s) = Some row"
    and goal: "fetchone (\<lambda>g. g_id g = gid) (st_goals s) = Some goal"
    and mv: "moves plan_transitions (p_status row) PLAN_REJECTED"
      "moves goal_transitions (g_status goal) GOAL_REVISING"
    using run by (auto simp: reject_plan_def and_then_Inr ensure_iffs split: option.splits)
  let ?s1 = "s\<lparr>st_plans := update_where (\<lambda>p. p_id p = p_id row)
      (\<lambda>p. p\<lparr>p_status := PLAN_REJECTED, p_updated_at := now E\<rparr>) (st_plans s)\<rparr>"
  let ?s2 = "?s1\<lparr>st_goals := update_where (\<lambda>g. g_id g = gid)
      (\<lambda>g. g\<lparr>g_status := GOAL_REVISING, g_updated_at := now E\<rparr>) (st_goals ?s1)\<rparr>"
  have "p = row" if "p \<in> set (st_plans s)" "p_id p = p_id row" for p
    using that unique_plan [OF ok, of p row] fetchone_Some [OF row] by blast
  then have 1: "evolves s ?s1" using mv by (intro evolves_plans ok) (auto simp: plan_step_def)
  have 2: "evolves s ?s2"
    by (rule evolves_then [OF 1], rule evolves_goals)
       (use unique_goal [OF ok goal] mv in \<open>auto simp: goal_step_def\<close>)
  show ?thesis
    using run row goal by (auto simp: reject_plan_def Let_def and_then_Inr intro: evolves_then_log [OF 2, simplified])
qed

lemma exec_plan_evolves: "keys_ok s \<Longrightarrow> exec_plan P E p s = Inr t \<Longrightarrow> evolves s t"
  by (cases p) (auto intro: create_plan_evolves approve_plan_evolves reject_plan_evolves)

section \<open>Work operations\<close>

lemma record_evidence_evolves:
  "keys_ok s \<Longrightarrow> record_evidence E gid n tid actor evs s = Inr t \<Longrightarrow> evolves s t"
  unfolding record_evidence_def
  by (erule evolves_fold) (auto simp: and_then_Inr intro: evolves_inserts)

lemma record_evidence_frame:
  assumes "record_evidence E gid n tid actor evs s = Inr t"
  shows "st_tasks t = st_tasks s \<and> st_plans t = st_plans s \<and> st_goals t = st_goals s"
  using assms unfolding record_evidence_def
  by (rule fold_result_inv [where I = "\<lambda>u. st_tasks u = st_tasks s \<and> st_plans u = st_plans s \<and> st_goals u = st_goals s"])
     (auto simp: and_then_Inr insert_evidence_Inr)

lemma transition_task_steps:
  assumes run: "transition_task E gid n tid target nt evs actor s = Inr (t, r)"
  obtains k s1 md pl where
    "fetchone (\<lambda>t. t_goal_id t = gid \<and> t_plan_revision t = n \<and> t_id t = tid \<and>
      exists_row (\<lambda>p. p_id p = t_plan_id t) (st_plans s)) (st_tasks s) = Some k"
    "moves task_transitions (t_status k) target"
    "target \<in> {TASK_READY, TASK_IN_PROGRESS, TASK_VERIFYING, TASK_COMPLETED} \<Longrightarrow>
       unfinished_dependency (st_tasks s) k = None"
    "record_evidence E gid n tid actor evs s = Inr s1"
    "target = TASK_COMPLETED \<Longrightarrow> has_evidence gid n tid s1"
    "target = TASK_BLOCKED \<Longrightarrow> strip nt \<noteq> []"
    "log_event E 0 ''task.status_changed'' (Some gid) (Some ''task'') (Some tid) pl
      (s1\<lparr>st_tasks := update_where (\<lambda>t. t_plan_id t = t_plan_id k \<and> t_id t = tid)
        (\<lambda>t. t\<lparr>t_status := target,
          t_attempts := t_attempts k + (if target = TASK_IN_PROGRESS \<and> t_status k \<noteq> target then 1 else 0),
          t_metadata := md, t_updated_at := now E\<rparr>) (st_tasks s1)\<rparr>) = Inr t"
proof -
  obtain k where k: "fetchone (\<lambda>t. t_goal_id t = gid \<and> t_plan_revision t = n \<and> t_id t = tid \<and>
      exists_row (\<lambda>p. p_id p = t_plan_id t) (st_plans s)) (st_tasks s) = Some k"
    using run unfolding transition_task_def by (auto split: option.splits)
  define gated where "gated = {TASK_READY, TASK_IN_PROGRESS, TASK_VERIFYING, TASK_COMPLETED}"
  note U = run [unfolded transition_task_def k option.case Let_def gated_def [symmetric]]
  obtain s1 where mv: "moves task_transitions (t_status k) target"
    and gate: "\<not> (target \<in> gated \<and> unfinished_dependency (st_tasks s) k \<noteq> None)"
    and s1: "record_evidence E gid n tid actor evs s = Inr s1"
    using U by (auto simp: and_then_Inr ensure_iffs split: if_splits)
  have ev: "\<not> (target = TASK_COMPLETED \<and> \<not> has_evidence gid n tid s1)"
    and nt: "\<not> (target = TASK_BLOCKED \<and> strip nt = [])"
    using U s1 gate by (auto simp: and_then_Inr split: if_splits)
  note V = U [unfolded s1 if_not_P [OF gate] and_then_simps if_not_P [OF ev] if_not_P [OF nt]]
  define md where "md = (if nt = [] then t_metadata k else obj_set ''last_note'' (JStr nt) (t_metadata k))"
  obtain pl where "log_event E 0 ''task.status_changed'' (Some gid) (Some ''task'') (Some tid) pl
      (s1\<lparr>st_tasks := update_where (\<lambda>t. t_plan_id t = t_plan_id k \<and> t_id t = tid)
        (\<lambda>t. t\<lparr>t_status := target,
          t_attempts := t_attempts k + (if target = TASK_IN_PROGRESS \<and> t_status k \<noteq> target then 1 else 0),
          t_metadata := md, t_updated_at := now E\<rparr>) (st_tasks s1)\<rparr>) = Inr t"
    using V by (auto simp only: and_then_Inr md_def [symmetric] prod.inject sum.inject)
  with k mv gate s1 ev nt show thesis by (intro that) (auto simp: gated_def)
qed

lemma transition_task_evolves:
  assumes ok: "keys_ok s" and run: "transition_task E gid n tid target nt evs actor s = Inr (t, r)"
  shows "evolves s t"
  using run
proof (rule transition_task_steps)
  fix k :: task_row and s1 :: store and md pl
  let ?f = "\<lambda>t. t\<lparr>t_status := target,
      t_attempts := t_attempts k + (if target = TASK_IN_PROGRESS \<and> t_status k \<noteq> target then 1 else 0),
      t_metadata := md, t_updated_at := now E\<rparr>"
  let ?s2 = "s1\<lparr>st_tasks := update_where (\<lambda>t. t_plan_id t = t_plan_id k \<and> t_id t = tid) ?f (st_tasks s1)\<rparr>"
  assume k: "fetchone (\<lambda>t. t_goal_id t = gid \<and> t_plan_revision t = n \<and> t_id t = tid \<and>
      exists_row (\<lambda>p. p_id p = t_plan_id t) (st_plans s)) (st_tasks s) = Some k"
    and mv: "moves task_transitions (t_status k) target"
    and s1: "record_evidence E gid n tid actor evs s = Inr s1"
    and log: "log_event E 0 ''task.status_changed'' (Some gid) (Some ''task'') (Some tid) pl ?s2 = Inr t"
  have kin: "k \<in> set (st_tasks s)" "t_id k = tid" using fetchone_Some [OF k] by auto
  have "evolves s ?s2"
  proof (rule evolves_then [OF record_evidence_evolves [OF ok s1]], rule evolves_tasks)
    fix u assume "u \<in> set (st_tasks s1)" "t_plan_id u = t_plan_id k \<and> t_id u = tid"
    then have "u = k"
      using unique_task [OF ok _ kin(1)] kin(2) record_evidence_frame [OF s1] by simp
    then show "task_step u (?f u)" using mv by (auto simp: task_step_def)
  qed
  then show ?thesis using log by (rule evolves_then_log)
qed

lemma transition_delegation_evolves:
  assumes ok: "keys_ok s" and run: "transition_delegation E did target rs er s = Inr (t, r)"
  shows "evolves s t"
proof -
  obtain c where c: "fetchone (\<lambda>d. d_id d = did) (st_delegations s) = Some c"
    using run by (auto simp: transition_delegation_def split: option.splits)
  let ?s1 = "s\<lparr>st_delegations := update_where (\<lambda>d. d_id d = did)
      (\<lambda>d. d\<lparr>d_status := target, d_attempt := d_attempt c + (if target = DELEG_IN_PROGRESS then 1 else 0),
             d_result_summary := rs, d_error := er, d_updated_at := now E\<rparr>) (st_delegations s)\<rparr>"
  have mv: "moves delegation_transitions (d_status c) target"
    using run c by (auto simp: transition_delegation_def and_then_Inr ensure_iffs)
  have "evolves s ?s1"
    using unique_delegation [OF ok c] mv by (intro evolves_delegations ok) (auto simp: delegation_step_def)
  then show ?thesis
    using run c by (auto simp: transition_delegation_def Let_def and_then_Inr intro: evolves_then_log)
qed

lemma set_action_evolves:
  assumes ok: "keys_ok s" and c: "fetchone (\<lambda>a. a_id a = aid) (st_actions s) = Some c"
    and mv: "moves action_transitions (a_status c) st"
  shows "evolves s (set_action E aid st r s)"
  unfolding set_action_def using unique_action [OF ok c] mv
  by (intro evolves_actions ok) (auto simp: action_step_def)

lemma resume_tasks_evolves:
  assumes ok: "keys_ok s" and run: "resume_tasks E gid tid kind note actor s = Inr (t, k)"
  shows "evolves s t"
proof -
  let ?s1 = "s\<lparr>st_tasks := update_where (awaiting_resolution gid tid s)
     (\<lambda>t. t\<lparr>t_status := TASK_IN_PROGRESS, t_metadata := obj_set ''last_note''
        (JStr (''uncertain '' @ kind @ '' reconciled by '' @ actor @ '': '' @ note)) (t_metadata t),
        t_updated_at := now E\<rparr>) (st_tasks s)\<rparr>"
  have 1: "evolves s ?s1"
    by (rule evolves_tasks [OF ok]) (auto simp: task_step_def awaiting_resolution_def moves_def)
  obtain pl xs where "fold_result (\<lambda>k. log_event E k ''task.status_changed'' (Some gid) (Some ''task'')
      (Some tid) pl) xs ?s1 = Inr t"
    using run by (auto simp: resume_tasks_def Let_def and_then_Inr)
  then show ?thesis
    by (intro evolves_then [OF 1]) (erule evolves_fold [rotated], auto intro: evolves_log)
qed

lemma resolve_action_evolves:
  assumes ok: "keys_ok s" and run: "resolve_action E aid res note actor s = Inr (t, r)"
  shows "evolves s t"
proof -
  obtain row where row: "fetchone (\<lambda>a. a_id a = aid) (st_actions s) = Some row"
    and u: "a_status row = ACT_UNCERTAIN"
    using run unfolding resolve_action_def Let_def by (auto split: if_splits option.splits)
  have S: "evolves s (set_action E aid st sm s)" if "st \<in> action_transitions ACT_UNCERTAIN" for st sm
    using u that by (intro set_action_evolves [OF ok row]) (auto simp: moves_def)
  have R: "evolves s u" if "resume_tasks E gid tid kind n actor (set_action E aid st sm s) = Inr (v, k)"
      "log_event E k ety g enty eid pl v = Inr u" "st \<in> action_transitions ACT_UNCERTAIN"
    for gid tid kind n st sm v k ety g enty eid pl u
    using that by (blast intro: evolves_then_log evolves_then [OF S] resume_tasks_evolves)
  define st where "st = (if normal_resolution res = ''applied'' then ACT_RESOLVED_APPLIED else ACT_RESOLVED_NOT_RUN)"
  define sm where "sm = normal_resolution res @ '': '' @ strip note"
  have st: "st \<in> action_transitions ACT_UNCERTAIN" by (simp add: st_def)
  show ?thesis
    using run row u
    unfolding resolve_action_def Let_def st_def [symmetric] sm_def [symmetric]
    by (auto simp: and_then_Inr split: if_splits option.splits intro: evolves_then_log [OF S [OF st]] R [OF _ _ st])
qed

lemma resolve_delegation_evolves:
  assumes ok: "keys_ok s" and run: "resolve_delegation E did res note actor s = Inr (t, r)"
  shows "evolves s t"
proof -
  obtain row where row: "fetchone (\<lambda>d. d_id d = did) (st_delegations s) = Some row"
    using run unfolding resolve_delegation_def Let_def by (auto split: if_splits option.splits)
  obtain st rs er s2 k pl kind n tid where
    mv: "moves delegation_transitions (d_status row) st"
    and mid: "resume_tasks E (d_goal_id row) tid kind n actor (s\<lparr>st_delegations := update_where (\<lambda>d. d_id d = did)
        (\<lambda>d. d\<lparr>d_status := st, d_result_summary := rs, d_error := er, d_updated_at := now E\<rparr>)
        (st_delegations s)\<rparr>) = Inr (s2, k)"
    and log: "log_event E k ''delegation.resolved'' (Some (d_goal_id row)) (Some ''delegation'') (Some did) pl s2 = Inr t"
    using run row unfolding resolve_delegation_def Let_def
    by (auto simp: and_then_Inr ensure_iffs split: if_splits)
  have "evolves s (s\<lparr>st_delegations := update_where (\<lambda>d. d_id d = did)
        (\<lambda>d. d\<lparr>d_status := st, d_result_summary := rs, d_error := er, d_updated_at := now E\<rparr>)
        (st_delegations s)\<rparr>)"
    using mv unique_delegation [OF ok row] by (intro evolves_delegations ok) (auto simp: delegation_step_def)
  then have "evolves s s2" using mid by (auto intro: evolves_then resume_tasks_evolves)
  then show ?thesis using log by (rule evolves_then_log)
qed

text \<open>Recovery: the four updates and the log.\<close>

definition recovered_goals :: "store \<Rightarrow> string list" where
  "recovered_goals s = filter (\<lambda>gid. case fetchone (\<lambda>g. g_id g = gid) (st_goals s) of
        None \<Rightarrow> False | Some g \<Rightarrow> ensure_goal_transition (g_status g) GOAL_RECOVERING = Inr ())
      (sorted_set (map t_goal_id (filter (crash_window_task s) (st_tasks s)) @
         map d_goal_id (filter (\<lambda>d. d_status d = DELEG_IN_PROGRESS) (st_delegations s)) @
         map a_goal_id (filter (\<lambda>a. a_status a = ACT_RUNNING) (st_actions s))))"

definition recovered_store :: "env \<Rightarrow> store \<Rightarrow> store" where
  "recovered_store E s =
     s\<lparr>st_tasks := update_where (crash_window_task s)
         (\<lambda>t. t\<lparr>t_status := TASK_UNCERTAIN, t_updated_at := now E\<rparr>) (st_tasks s),
       st_delegations := update_where (\<lambda>d. d_status d = DELEG_IN_PROGRESS)
         (\<lambda>d. d\<lparr>d_status := DELEG_UNCERTAIN, d_updated_at := now E\<rparr>) (st_delegations s),
       st_actions := update_where (\<lambda>a. a_status a = ACT_RUNNING)
         (\<lambda>a. a\<lparr>a_status := ACT_UNCERTAIN, a_completed_at := Some (now E)\<rparr>) (st_actions s),
       st_goals := update_where (\<lambda>g. g_id g \<in> set (recovered_goals s))
         (\<lambda>g. g\<lparr>g_status := GOAL_RECOVERING, g_updated_at := now E\<rparr>) (st_goals s)\<rparr>"

lemma recover_inflight_steps:
  assumes "recover_inflight E s = Inr (t, r)"
  obtains f xs where "fold_result (\<lambda>(k, gid). log_event E k ''recovery.performed'' (Some gid) None None f) xs
      (recovered_store E s) = Inr t"
    "r = \<lparr>rr_task_ids = map t_id (filter (crash_window_task s) (st_tasks s)),
          rr_delegation_ids = map d_id (filter (\<lambda>d. d_status d = DELEG_IN_PROGRESS) (st_delegations s)),
          rr_action_ids = map a_id (filter (\<lambda>a. a_status a = ACT_RUNNING) (st_actions s)),
          rr_goal_ids = recovered_goals s\<rparr>"
proof -
  note D = recover_inflight_def [of E s, unfolded Let_def, folded recovered_goals_def, folded recovered_store_def]
  show thesis
  proof (cases "filter (crash_window_task s) (st_tasks s) = [] \<and>
      filter (\<lambda>d. d_status d = DELEG_IN_PROGRESS) (st_delegations s) = [] \<and>
      filter (\<lambda>a. a_status a = ACT_RUNNING) (st_actions s) = []")
    case True
    show thesis
      using assms unfolding D if_P [OF True]
      by (intro that [of _ "[]"]) auto
  next
    case False
    show thesis
      using assms unfolding D if_not_P [OF False]
      by (auto simp: and_then_Inr intro: that)
  qed
qed

lemma recovered_store_evolves:
  assumes ok: "keys_ok s"
  shows "evolves s (recovered_store E s)"
proof -
  let ?s1 = "s\<lparr>st_tasks := update_where (crash_window_task s)
         (\<lambda>t. t\<lparr>t_status := TASK_UNCERTAIN, t_updated_at := now E\<rparr>) (st_tasks s)\<rparr>"
  let ?s2 = "?s1\<lparr>st_delegations := update_where (\<lambda>d. d_status d = DELEG_IN_PROGRESS)
         (\<lambda>d. d\<lparr>d_status := DELEG_UNCERTAIN, d_updated_at := now E\<rparr>) (st_delegations ?s1)\<rparr>"
  let ?s3 = "?s2\<lparr>st_actions := update_where (\<lambda>a. a_status a = ACT_RUNNING)
         (\<lambda>a. a\<lparr>a_status := ACT_UNCERTAIN, a_completed_at := Some (now E)\<rparr>) (st_actions ?s2)\<rparr>"
  have 1: "evolves s ?s1"
    by (rule evolves_tasks [OF ok])
       (auto simp: task_step_def crash_window_task_def in_flight_task_statuses_def moves_def)
  have 2: "evolves s ?s2"
    by (rule evolves_then [OF 1], rule evolves_delegations) (auto simp: delegation_step_def moves_def)
  have 3: "evolves s ?s3"
    by (rule evolves_then [OF 2], rule evolves_actions) (auto simp: action_step_def moves_def)
  have "evolves s (?s3\<lparr>st_goals := update_where (\<lambda>g. g_id g \<in> set (recovered_goals s))
         (\<lambda>g. g\<lparr>g_status := GOAL_RECOVERING, g_updated_at := now E\<rparr>) (st_goals ?s3)\<rparr>)"
  proof (rule evolves_then [OF 3], rule evolves_goals)
    fix g assume g: "g \<in> set (st_goals ?s3)" "g_id g \<in> set (recovered_goals s)"
    then obtain c where c: "fetchone (\<lambda>h. g_id h = g_id g) (st_goals s) = Some c"
      "moves goal_transitions (g_status c) GOAL_RECOVERING"
      by (auto simp: recovered_goals_def ensure_iffs split: option.splits)
    have "g = c" using unique_goal [OF ok c(1)] g(1) by simp
    then show "goal_step g (g\<lparr>g_status := GOAL_RECOVERING, g_updated_at := now E\<rparr>)"
      using c(2) by (auto simp: goal_step_def)
  qed
  then show ?thesis by (simp add: recovered_store_def)
qed

lemma recover_inflight_evolves:
  assumes ok: "keys_ok s" and run: "recover_inflight E s = Inr (t, r)"
  shows "evolves s t"
  using run
proof (rule recover_inflight_steps)
  fix f xs
  assume "fold_result (\<lambda>(k, gid). log_event E k ''recovery.performed'' (Some gid) None None f) xs
      (recovered_store E s) = Inr t"
  then show ?thesis
    by (intro evolves_then [OF recovered_store_evolves [OF ok]])
       (erule evolves_fold [rotated], auto intro: evolves_log)
qed

lemma exec_work_evolves:
  assumes ok: "keys_ok s" and run: "exec_work P E p s = Inr t"
  shows "evolves s t"
proof (cases p)
  case (AddEvidence e)
  with run ok show ?thesis
    by (auto simp: add_evidence_def and_then_Inr intro: evolves_then_log evolves_inserts)
next
  case (CreateDelegation d)
  with run ok show ?thesis
    by (auto simp: create_delegation_def and_then_Inr split: if_splits intro: evolves_then_log evolves_inserts)
next
  case (BeginAction gid tool args tid risk m)
  with run ok show ?thesis
    by (auto simp: begin_action_def Let_def and_then_Inr intro: evolves_then_log evolves_inserts)
next
  case (CompleteAction aid r st)
  with run obtain c where "fetchone (\<lambda>a. a_id a = aid) (st_actions s) = Some c"
    "moves action_transitions (a_status c) st"
    by (auto simp: complete_action_def moves_def split: if_splits option.splits)
  from evolves_then_log [OF set_action_evolves [OF ok this]] show ?thesis
    using run CompleteAction by (auto simp: complete_action_def split: if_splits option.splits)
next
  case (MarkActionUncertain aid r)
  with run obtain c where "fetchone (\<lambda>a. a_id a = aid) (st_actions s) = Some c"
    "moves action_transitions (a_status c) ACT_UNCERTAIN"
    by (auto simp: mark_action_uncertain_def moves_def split: if_splits option.splits)
  from evolves_then_log [OF set_action_evolves [OF ok this]] show ?thesis
    using run MarkActionUncertain by (auto simp: mark_action_uncertain_def split: if_splits option.splits)
qed (use run in \<open>auto intro: transition_task_evolves transition_delegation_evolves
  resolve_action_evolves resolve_delegation_evolves recover_inflight_evolves ok\<close>)

section \<open>Session and queue operations\<close>

lemma save_session_evolves:
  assumes ok: "keys_ok s" and run: "save_workflow_session E sid u s = Inr (t, r)"
  shows "evolves s t"
proof (cases "fetchone (\<lambda>w. w_id w = sid) (st_sessions s)")
  case None
  then have "evolves s (s\<lparr>st_sessions := st_sessions s @ [row]\<rparr>)" if "w_id row = sid" for row
    using ok that by (auto simp: evolves_def keys_ok_def advance_def)
  with None run show ?thesis
    by (auto simp: save_workflow_session_def Let_def and_then_Inr split: if_splits)
next
  case (Some w)
  have "evolves s (s\<lparr>st_sessions := update_where (\<lambda>w. w_id w = sid) (\<lambda>_. row) (st_sessions s)\<rparr>)"
    if "w_id row = sid" "w_revision row = w_revision w + 1" for row
    using that unique_session [OF ok Some]
    by (intro evolves_sessions ok) (auto simp: session_step_def)
  with Some run show ?thesis
    by (auto simp: save_workflow_session_def Let_def and_then_Inr split: if_splits)
qed

lemma mutate_session_evolves:
  assumes ok: "keys_ok s" and run: "mutate_workflow_session E sid f ex s = Inr t"
  shows "evolves s t"
proof -
  obtain c where c: "fetchone (\<lambda>w. w_id w = sid) (st_sessions s) = Some c"
    using run by (auto simp: mutate_workflow_session_def split: option.splits)
  show ?thesis
    using run c unique_session [OF ok c]
    by (auto simp: mutate_workflow_session_def and_then_Inr session_step_def split: if_splits
        intro!: evolves_sessions [OF ok])
qed

lemma enqueue_prompt_evolves:
  assumes ok: "keys_ok s" and run: "enqueue_prompt E sid text mode s = Inr (t, r)"
  shows "evolves s t"
  using run unfolding enqueue_prompt_def Let_def
  by (auto simp only: and_then_Inr prod.inject sum.inject split: if_splits
      intro: evolves_then_log [OF evolves_insert_prompt [OF ok]])

lemma set_sequence_Inr:
  "set_sequence sid pn rows = Inr rows' \<Longrightarrow>
   \<exists>p f. rows' = update_where p f rows \<and> (\<forall>q. prompt_step q (f q))"
  by (auto simp: set_sequence_def Let_def prompt_step_def split: prod.splits if_splits) fastforce+

lemma set_sequences_evolves:
  assumes ok: "keys_ok s" and run: "fold_result (set_sequence sid) xs (st_prompts s) = Inr rows"
  shows "evolves s (s\<lparr>st_prompts := rows\<rparr>)"
  using run
proof (rule fold_result_inv [where I = "\<lambda>rows. evolves s (s\<lparr>st_prompts := rows\<rparr>)"])
  show "evolves s (s\<lparr>st_prompts := st_prompts s\<rparr>)" using ok by (simp add: evolves_refl)
next
  fix x rows rows'
  assume 1: "evolves s (s\<lparr>st_prompts := rows\<rparr>)" and "set_sequence sid x rows = Inr rows'"
  then obtain p f where pf: "rows' = update_where p f rows" "\<And>q. prompt_step q (f q)"
    using set_sequence_Inr by blast
  have "evolves (s\<lparr>st_prompts := rows\<rparr>) (s\<lparr>st_prompts := rows\<rparr>\<lparr>st_prompts :=
      update_where p f (st_prompts (s\<lparr>st_prompts := rows\<rparr>))\<rparr>)"
    using evolves_keys [OF 1] pf(2) by (rule evolves_prompts)
  with 1 show "evolves s (s\<lparr>st_prompts := rows'\<rparr>)" using pf(1) by (auto intro: evolves_trans)
qed

lemma reorder_evolves:
  assumes ok: "keys_ok s" and run: "reorder_pending_prompts E sid ids s = Inr (t, r)"
  shows "evolves s t"
proof -
  obtain xs ys rows1 rows2 pl where 1: "fold_result (set_sequence sid) xs (st_prompts s) = Inr rows1"
    and 2: "fold_result (set_sequence sid) ys rows1 = Inr rows2"
    and log: "log_event E 0 ''prompt.queue_reordered'' None (Some ''workflow_session'') (Some sid) pl
      (s\<lparr>st_prompts := rows2\<rparr>) = Inr t"
    using run unfolding reorder_pending_prompts_def Let_def
    by (auto simp: and_then_Inr split: if_splits)
  have e1: "evolves s (s\<lparr>st_prompts := rows1\<rparr>)" using ok 1 by (rule set_sequences_evolves)
  have "evolves (s\<lparr>st_prompts := rows1\<rparr>) (s\<lparr>st_prompts := rows1\<rparr>\<lparr>st_prompts := rows2\<rparr>)"
    using evolves_keys [OF e1] 2 by (intro set_sequences_evolves) simp_all
  with e1 have "evolves s (s\<lparr>st_prompts := rows2\<rparr>)" by (auto intro: evolves_trans)
  then show ?thesis using log by (rule evolves_then_log)
qed

lemma prompt_update_evolves:
  assumes "keys_ok s" "\<And>q. prompt_step q (f q)"
  shows "evolves s (s\<lparr>st_prompts := update_where p f (st_prompts s)\<rparr>)"
  using assms by (intro evolves_prompts)

lemma claim_evolves:
  assumes ok: "keys_ok s" and run: "claim_next_prompt E sid s = Inr (t, r)"
  shows "evolves s t"
  using run ok unfolding claim_next_prompt_def Let_def
  by (auto simp: and_then_Inr split: list.splits if_splits
      intro!: evolves_refl elim!: evolves_then_log [OF prompt_update_evolves [OF ok], rotated])
     (auto simp: prompt_step_def)

lemma bind_prompt_evolves:
  assumes ok: "keys_ok s" and run: "bind_prompt_goal E pid gid s = Inr (t, r)"
  shows "evolves s t"
  using run unfolding bind_prompt_goal_def Let_def
  by (auto simp: and_then_Inr split: option.splits if_splits
      elim!: evolves_then_log [OF prompt_update_evolves [OF ok], rotated])
     (auto simp: prompt_step_def)

lemma finish_prompt_evolves:
  assumes ok: "keys_ok s" and run: "finish_queued_prompt E pid st er s = Inr (t, r)"
  shows "evolves s t"
proof -
  have 1: "evolves s (s\<lparr>st_prompts := update_where p (\<lambda>q. q\<lparr>q_status := a, q_error := b, q_completed_at := c\<rparr>)
      (st_prompts s)\<rparr>)" for p a b c
    by (rule prompt_update_evolves [OF ok]) (simp add: prompt_step_def)
  show ?thesis
    using run unfolding finish_queued_prompt_def Let_def
    by (auto simp only: and_then_Inr prod.inject sum.inject split: option.splits if_splits
        intro: evolves_then_log [OF 1])
qed

lemma exec_session_evolves: "keys_ok s \<Longrightarrow> exec_session E p s = Inr t \<Longrightarrow> evolves s t"
  by (cases p) (auto simp: append_event_def intro: save_session_evolves mutate_session_evolves
      enqueue_prompt_evolves reorder_evolves claim_evolves bind_prompt_evolves finish_prompt_evolves evolves_log)

section \<open>The system\<close>

lemma exec_evolves: "keys_ok s \<Longrightarrow> exec P p s = Inr t \<Longrightarrow> evolves s t"
  by (cases "snd p")
     (auto simp: exec_def split: prod.splits
       intro: exec_goal_evolves exec_plan_evolves exec_work_evolves exec_session_evolves)

interpretation store_history: op_relation "exec P" keys_ok advance
proof unfold_locales
  fix s p t assume "keys_ok s" "exec P p s = Inr t"
  then have "evolves s t" by (rule exec_evolves)
  then show "keys_ok t" "advance s t" by (simp_all add: evolves_def)
qed (auto intro: advance_trans)

lemma keys_ok_empty [simp]: "keys_ok empty_store"
  by (simp add: keys_ok_def empty_store_def)

text \<open>The stores the program can reach.\<close>

definition reachable :: "platform \<Rightarrow> store \<Rightarrow> bool" where
  "reachable P s \<longleftrightarrow> (\<exists>ops. s = run_store P ops empty_store)"

lemma reachable_keys: "reachable P s \<Longrightarrow> keys_ok s"
  unfolding reachable_def run_store_def by (auto intro: store_history.run_inv)

lemma reachable_run: "reachable P s \<Longrightarrow> reachable P (run_store P ops s)"
proof -
  assume "reachable P s"
  then obtain ps where s: "s = run_store P ps empty_store" by (auto simp: reachable_def)
  have "run_store P ops s = run_store P (ps @ ops) empty_store" unfolding s run_store_def by (simp add: run_ops_append)
  then show ?thesis unfolding reachable_def by blast
qed

lemma reachable_step: "reachable P s \<Longrightarrow> exec P p s = Inr t \<Longrightarrow> reachable P t"
  using reachable_run [of P s "[p]"] by (simp add: run_store_def step_or_stay_def)

lemma reachable_advance: "reachable P s \<Longrightarrow> advance s (run_store P ops s)"
  unfolding run_store_def by (rule store_history.run_rel) (rule reachable_keys)

end
