(* ===== verification/Store_Integrity.thy ===== *)
theory Store_Integrity
  imports Store_Safety
begin

text \<open>
  What every reachable journal satisfies beyond its keys: the content of each stored plan (a
  valid task graph, the coverage its creation checked, the fingerprint over what is stored),
  the approval discipline (at most one accepted plan per goal, open plans only at the latest
  revision, an approval with the same fingerprint for each accepted plan), and at most one
  unfinished goal per session.
\<close>

section \<open>Which tables an operation touches\<close>

lemma fold_log_frame:
  assumes "fold_result (\<lambda>x. log_event E (k x) (ety x) (gid x) (enty x) (eid x) (pl x)) xs s = Inr t"
  shows "\<exists>evs. t = s\<lparr>st_events := evs\<rparr>"
  using assms
  by (rule fold_result_inv [where I = "\<lambda>t. \<exists>evs. t = s\<lparr>st_events := evs\<rparr>"])
     (auto simp: log_event_Inr intro: exI [of _ "st_events s"])

lemma resume_tasks_frame:
  assumes "resume_tasks E gid tid kind note actor s = Inr (t, k)"
  shows "st_plans t = st_plans s \<and> st_approvals t = st_approvals s \<and> st_goals t = st_goals s \<and>
    length (st_tasks t) = length (st_tasks s)"
  using assms by (auto simp: resume_tasks_def Let_def and_then_Inr dest!: fold_log_frame)

lemma recover_frame:
  assumes "recover_inflight E s = Inr (t, r)"
  shows "st_plans t = st_plans s \<and> st_approvals t = st_approvals s \<and>
    length (st_goals t) = length (st_goals s) \<and> length (st_tasks t) = length (st_tasks s)"
  using assms
proof (rule recover_inflight_steps)
  fix f xs
  assume "fold_result (\<lambda>(k, gid). log_event E k ''recovery.performed'' (Some gid) None None f) xs
      (recovered_store E s) = Inr t"
  then have "\<exists>evs. t = (recovered_store E s)\<lparr>st_events := evs\<rparr>"
    by (intro fold_log_frame [where k = fst and gid = "\<lambda>x. Some (snd x)" and E = E and xs = xs and
          ety = "\<lambda>_. ''recovery.performed''" and enty = "\<lambda>_. None" and eid = "\<lambda>_. None" and pl = "\<lambda>_. f"])
       (simp add: case_prod_unfold)
  then show ?thesis by (auto simp: recovered_store_def)
qed

lemma record_evidence_approvals:
  "record_evidence E gid n tid actor evs s = Inr t \<Longrightarrow> st_approvals t = st_approvals s"
  unfolding record_evidence_def
  by (erule fold_result_inv) (auto simp: and_then_Inr insert_evidence_Inr)

lemma exec_work_frame:
  assumes "exec_work P E p s = Inr t"
  shows "st_plans t = st_plans s \<and> st_approvals t = st_approvals s \<and>
    length (st_goals t) = length (st_goals s) \<and> length (st_tasks t) = length (st_tasks s)"
proof (cases p)
  case (TransitionTask gid n tid st nt evs actor)
  with assms obtain r where "transition_task E gid n tid st nt evs actor s = Inr (t, r)" by auto
  then show ?thesis
  proof (rule transition_task_steps)
    fix k s1 md pl p f
    assume "record_evidence E gid n tid actor evs s = Inr s1"
    note F = record_evidence_frame [OF this] record_evidence_approvals [OF this]
    assume "log_event E 0 ''task.status_changed'' (Some gid) (Some ''task'') (Some tid) pl
        (s1\<lparr>st_tasks := update_where (\<lambda>t. t_plan_id t = t_plan_id k \<and> t_id t = tid)
        (\<lambda>t. t\<lparr>t_status := st,
          t_attempts := t_attempts k + (if st = TASK_IN_PROGRESS \<and> t_status k \<noteq> st then 1 else 0),
          t_metadata := md, t_updated_at := now E\<rparr>) (st_tasks s1)\<rparr>) = Inr t"
    with F show ?thesis by (auto simp: log_event_Inr)
  qed
next
  case (AddEvidence e)
  with assms show ?thesis
    by (auto simp: add_evidence_def and_then_Inr log_event_Inr insert_evidence_Inr)
next
  case (CreateDelegation d)
  with assms show ?thesis
    by (auto simp: create_delegation_def and_then_Inr log_event_Inr insert_delegation_Inr split: if_splits)
next
  case (TransitionDelegation did st r e)
  with assms show ?thesis
    by (auto simp: transition_delegation_def Let_def and_then_Inr log_event_Inr split: option.splits)
next
  case (BeginAction gid tool args tid risk m)
  with assms show ?thesis
    by (auto simp: begin_action_def Let_def and_then_Inr log_event_Inr insert_action_Inr)
next
  case (CompleteAction aid r st)
  with assms show ?thesis
    by (auto simp: complete_action_def set_action_def log_event_Inr split: option.splits if_splits)
next
  case (MarkActionUncertain aid r)
  with assms show ?thesis
    by (auto simp: mark_action_uncertain_def set_action_def log_event_Inr split: option.splits if_splits)
next
  case (ResolveAction aid res nt actor)
  with assms show ?thesis
    by (auto simp: resolve_action_def set_action_def Let_def and_then_Inr log_event_Inr
        split: option.splits if_splits dest!: resume_tasks_frame)
next
  case (ResolveDelegation did res nt actor)
  with assms show ?thesis
    by (auto simp: resolve_delegation_def Let_def and_then_Inr log_event_Inr
        split: option.splits if_splits dest!: resume_tasks_frame)
next
  case RecoverInflight
  with assms show ?thesis using recover_frame by auto
qed

lemma exec_session_frame:
  assumes "exec_session E p s = Inr t"
  shows "st_plans t = st_plans s \<and> st_approvals t = st_approvals s \<and> st_goals t = st_goals s \<and>
    st_tasks t = st_tasks s"
proof (cases p)
  case (EnqueuePrompt sid tx mode)
  with assms obtain r where "enqueue_prompt E sid tx mode s = Inr (t, r)" by auto
  then show ?thesis unfolding enqueue_prompt_def Let_def
    by (auto simp only: and_then_Inr prod.inject sum.inject log_event_Inr insert_prompt_Inr split: if_splits) simp_all
next
  case (ReorderPrompts sid ids)
  with assms show ?thesis
    by (auto simp: reorder_pending_prompts_def Let_def and_then_Inr log_event_Inr split: if_splits)
next
  case (FinishPrompt pid st er)
  with assms obtain r where "finish_queued_prompt E pid st er s = Inr (t, r)" by auto
  then show ?thesis unfolding finish_queued_prompt_def Let_def
    by (auto simp only: and_then_Inr prod.inject sum.inject log_event_Inr split: if_splits option.splits) simp_all
next
  case (SaveSession sid u)
  with assms show ?thesis
    by (auto simp only: exec_session.simps new_state_Inr save_workflow_session_def Let_def and_then_Inr
        prod.inject sum.inject split: if_splits) simp_all
next
  case (MutateSession sid f e)
  with assms show ?thesis
    by (auto simp only: exec_session.simps mutate_workflow_session_def Let_def and_then_Inr
        sum.inject split: if_splits option.splits) simp_all
next
  case (ClaimPrompt sid)
  with assms show ?thesis
    by (auto simp only: exec_session.simps new_state_Inr claim_next_prompt_def Let_def and_then_Inr
        prod.inject sum.inject log_event_Inr split: if_splits list.splits) simp_all
next
  case (BindPrompt pid gid)
  with assms show ?thesis
    by (auto simp only: exec_session.simps new_state_Inr bind_prompt_goal_def Let_def and_then_Inr
        prod.inject sum.inject log_event_Inr split: if_splits option.splits) simp_all
next
  case (AppendEvent a b c d e)
  with assms show ?thesis by (auto simp: append_event_def log_event_Inr)
qed

lemma exec_goal_frame:
  assumes "exec_goal P E p s = Inr t"
  shows "st_plans t = st_plans s \<and> st_approvals t = st_approvals s \<and> st_tasks t = st_tasks s \<and>
    (length (st_goals t) = length (st_goals s) \<or>
     (\<exists>g s1. insert_goal g s = Inr s1 \<and> st_goals t = st_goals s1))"
proof (cases p)
  case (CreateGoal obj sid cr co m)
  with assms show ?thesis
    by (auto simp: create_goal_def and_then_Inr log_event_Inr split: option.splits)
       (auto simp: insert_goal_Inr)
next
  case (BindGoal obj sid cr co m b)
  with assms obtain r where "create_goal_and_bind_workflow_session P E obj sid cr co m b s = Inr (t, r)" by auto
  then show ?thesis
    by (rule bind_goal_steps) (auto simp: log_event_Inr insert_goal_Inr)
qed (use assms in \<open>auto simp: transition_goal_def cancel_goal_and_session_def update_goal_metadata_def
    lease_resource_claims_def release_resource_claims_def Let_def and_then_Inr log_event_Inr
    split: option.splits\<close>)

section \<open>The content of stored plans\<close>

definition stored_tasks :: "store \<Rightarrow> string \<Rightarrow> task list" where
  "stored_tasks s pid = map task.truncate (task_rows pid s)"

definition content_ok :: "platform \<Rightarrow> store \<Rightarrow> bool" where
  "content_ok P s \<longleftrightarrow>
     (\<forall>t \<in> set (st_tasks s). mk_task (task.truncate t) = Inr (task.truncate t) \<and>
        (\<exists>p \<in> set (st_plans s). p_id p = t_plan_id t \<and> p_goal_id p = t_goal_id t \<and>
           p_revision p = t_plan_revision t)) \<and>
     (\<forall>p \<in> set (st_plans s). goal_exists (p_goal_id p) s \<and>
        (\<exists>q. mk_plan (plan_row.extend p (plan.fields (stored_tasks s (p_id p)))) = Inr q) \<and>
        p_fingerprint p = plan_fingerprint P (p_summary p) (stored_tasks s (p_id p))
          (p_applicability p) (p_strategy p) (p_changes p))"

lemma list_all2_filter:
  "list_all2 R xs ys \<Longrightarrow> (\<And>x y. R x y \<Longrightarrow> P x = Q y) \<Longrightarrow> list_all2 R (filter P xs) (filter Q ys)"
  by (induction rule: list_all2_induct) auto

lemma list_all2_map_eq: "list_all2 R xs ys \<Longrightarrow> (\<And>x y. R x y \<Longrightarrow> f x = g y) \<Longrightarrow> map f xs = map g ys"
  by (induction rule: list_all2_induct) auto

lemma rows_advance_full: "rows_advance R t u \<Longrightarrow> length u = length t \<Longrightarrow> list_all2 R t u"
  by (clarsimp simp: rows_advance_def, frule list_all2_lengthD, simp)

lemma list_all2_source: "list_all2 R xs ys \<Longrightarrow> y \<in> set ys \<Longrightarrow> \<exists>x \<in> set xs. R x y"
  by (induction rule: list_all2_induct) auto

lemma list_all2_target: "list_all2 R xs ys \<Longrightarrow> x \<in> set xs \<Longrightarrow> \<exists>y \<in> set ys. R x y"
  by (induction rule: list_all2_induct) auto

lemma task_step_spec: "task_step t u \<Longrightarrow> task_spec (task.truncate t) = task_spec (task.truncate u)"
  unfolding task_step_def task_spec_def task.defs by simp

lemma task_step_mk:
  "task_step t u \<Longrightarrow> mk_task (task.truncate t) = Inr (task.truncate t) \<Longrightarrow>
   mk_task (task.truncate u) = Inr (task.truncate u)"
  unfolding mk_task_iff task_ok_def task_step_def task.defs by simp

lemma task_rows_step:
  "list_all2 task_step (st_tasks s) (st_tasks t) \<Longrightarrow> list_all2 task_step (task_rows pid s) (task_rows pid t)"
  unfolding task_rows_def by (erule list_all2_filter) (simp add: task_step_def)

lemma fingerprint_step:
  assumes "list_all2 task_step (st_tasks s) (st_tasks t)"
  shows "plan_fingerprint P a (stored_tasks t pid) b c d = plan_fingerprint P a (stored_tasks s pid) b c d"
  using list_all2_map_eq [OF task_rows_step [OF assms, of pid] task_step_spec]
  by (simp add: plan_fingerprint_def stored_tasks_def comp_def)

lemma valid_step:
  assumes step: "list_all2 task_step (st_tasks s) (st_tasks t)"
    and valid: "\<exists>order. validate_task_dag (stored_tasks s pid) = Inr order"
  shows "\<exists>order. validate_task_dag (stored_tasks t pid) = Inr order"
  using valid
proof (rule valid_transfer)
  let ?R = "\<lambda>a b. same_links (task.truncate a) (task.truncate b)"
  have R: "list_all2 ?R (task_rows pid s) (task_rows pid t)"
    using task_rows_step [OF step]
    by (rule list_all2_mono) (simp add: same_links_def task_step_def task.defs)
  show "length (stored_tasks t pid) = length (stored_tasks s pid)"
    using list_all2_lengthD [OF R] by (simp add: stored_tasks_def)
  have "map t_id (stored_tasks s pid) = map t_id (stored_tasks t pid)"
    unfolding stored_tasks_def map_map
    by (rule list_all2_map_eq [OF R]) (simp add: same_links_def)
  then show "t_id ` set (stored_tasks t pid) = t_id ` set (stored_tasks s pid)"
    by (metis set_map)
  show "\<exists>a \<in> set (stored_tasks s pid). same_links a b" if "b \<in> set (stored_tasks t pid)" for b
    using that list_all2_source [OF R] unfolding stored_tasks_def by auto
qed

lemma plan_extend_fields: "plan_row.extend p (plan.fields ts) =
   \<lparr>p_id = p_id p, p_goal_id = p_goal_id p, p_revision = p_revision p, p_summary = p_summary p,
    p_status = p_status p, p_applicability = p_applicability p, p_strategy = p_strategy p,
    p_changes = p_changes p, p_proposed_by = p_proposed_by p, p_fingerprint = p_fingerprint p,
    p_accepted_by = p_accepted_by p, p_accepted_at = p_accepted_at p, p_created_at = p_created_at p,
    p_updated_at = p_updated_at p, p_tasks = ts\<rparr>"
  by (simp add: plan_row.defs plan.defs)

lemma content_step:
  assumes adv: "advance s t" and len: "length (st_plans t) = length (st_plans s)"
      "length (st_tasks t) = length (st_tasks s)"
    and ok: "content_ok P s"
  shows "content_ok P t"
proof -
  have plans: "list_all2 plan_step (st_plans s) (st_plans t)"
    and tasks: "list_all2 task_step (st_tasks s) (st_tasks t)"
    using adv len by (auto simp: advance_def intro: rows_advance_full)
  have goals: "goal_exists i t" if "goal_exists i s" for i
  proof -
    from that obtain g where g: "g \<in> set (st_goals s)" "g_id g = i" by auto
    have "rows_advance goal_step (st_goals s) (st_goals t)" using adv by (simp add: advance_def)
    then obtain h where "h \<in> set (st_goals t)" "goal_step g h" using g(1) by (rule rows_advance_mem)
    with g(2) show ?thesis by (auto simp: goal_step_def)
  qed
  note source = list_all2_source [OF tasks] list_all2_source [OF plans]
  note fwd = list_all2_target [OF plans]
  show ?thesis
    unfolding content_ok_def
  proof (intro conjI ballI)
    fix v assume "v \<in> set (st_tasks t)"
    then obtain u where u: "u \<in> set (st_tasks s)" "task_step u v" using source(1) by blast
    with ok have mk: "mk_task (task.truncate u) = Inr (task.truncate u)" by (simp add: content_ok_def)
    show "mk_task (task.truncate v) = Inr (task.truncate v)" using u(2) mk by (rule task_step_mk)
    obtain p where "p \<in> set (st_plans s)" "p_id p = t_plan_id u" "p_goal_id p = t_goal_id u"
        "p_revision p = t_plan_revision u" using ok u(1) by (auto simp: content_ok_def)
    moreover then obtain q where "q \<in> set (st_plans t)" "plan_step p q" using fwd by blast
    ultimately show "\<exists>q \<in> set (st_plans t). p_id q = t_plan_id v \<and> p_goal_id q = t_goal_id v \<and>
         p_revision q = t_plan_revision v"
      using u(2) by (auto simp: plan_step_def task_step_def)
  next
    fix q assume "q \<in> set (st_plans t)"
    then obtain p where p: "p \<in> set (st_plans s)" "plan_step p q" using source(2) by blast
    have st: "p_id q = p_id p" "p_goal_id q = p_goal_id p" "p_revision q = p_revision p"
      "p_summary q = p_summary p" "p_applicability q = p_applicability p" "p_strategy q = p_strategy p"
      "p_changes q = p_changes p" "p_fingerprint q = p_fingerprint p"
      using p(2) by (simp_all add: plan_step_def)
    have old: "goal_exists (p_goal_id p) s"
      "\<exists>r. mk_plan (plan_row.extend p (plan.fields (stored_tasks s (p_id p)))) = Inr r"
      "p_fingerprint p = plan_fingerprint P (p_summary p) (stored_tasks s (p_id p))
          (p_applicability p) (p_strategy p) (p_changes p)"
      using ok p(1) by (simp_all add: content_ok_def)
    show "goal_exists (p_goal_id q) t" unfolding st(2) by (rule goals) (rule old(1))
    have len: "length (stored_tasks t (p_id p)) = length (stored_tasks s (p_id p))"
      using list_all2_lengthD [OF task_rows_step [OF tasks, of "p_id p"]] by (simp add: stored_tasks_def)
    then have ne: "stored_tasks t (p_id p) = [] \<longleftrightarrow> stored_tasks s (p_id p) = []"
      by (metis length_0_conv)
    show "\<exists>r. mk_plan (plan_row.extend q (plan.fields (stored_tasks t (p_id q)))) = Inr r"
      using old(2) len ne valid_step [OF tasks, of "p_id p"]
      unfolding plan_extend_fields mk_plan_Inr st by simp
    show "p_fingerprint q = plan_fingerprint P (p_summary q) (stored_tasks t (p_id q))
          (p_applicability q) (p_strategy q) (p_changes q)"
      unfolding st fingerprint_step [OF tasks] by (rule old(3))
  qed
qed

lemma content_cong:
  assumes "st_plans t = st_plans s" "st_tasks t = st_tasks s"
    and "\<And>i. goal_exists i s \<Longrightarrow> goal_exists i t" "content_ok P s"
  shows "content_ok P t"
  using assms(3,4) unfolding content_ok_def stored_tasks_def task_rows_def assms(1,2) by blast

lemma insert_tasks_Inr:
  "fold_result (\<lambda>u. insert_task (task.extend u (task_row.fields pid))) ts s = Inr t \<Longrightarrow>
   t = s\<lparr>st_tasks := st_tasks s @ map (\<lambda>u. task.extend u (task_row.fields pid)) ts\<rparr>"
proof (induction ts arbitrary: s)
  case Nil
  then show ?case by simp
next
  case (Cons u ts)
  then obtain s1 where "insert_task (task.extend u (task_row.fields pid)) s = Inr s1"
    "fold_result (\<lambda>u. insert_task (task.extend u (task_row.fields pid))) ts s1 = Inr t"
    by (auto simp: and_then_Inr)
  then show ?case using Cons.IH [of s1] by (simp add: insert_task_Inr)
qed

lemma coerce_mapping_Inr:
  "coerce_mapping P E k m gid n origin = Inr v \<Longrightarrow> t_goal_id v = gid \<and> t_plan_revision v = n \<and> mk_task v = Inr v"
  unfolding coerce_mapping_def Let_def
  by (clarsimp simp: and_then_Inr mk_task_iff split: if_splits)

lemma coerce_task_Inr:
  "coerce_task P E k u gid n origin = Inr v \<Longrightarrow> t_goal_id v = gid \<and> t_plan_revision v = n \<and> mk_task v = Inr v"
  by (cases u) (auto simp: coerce_task_def Let_def mk_task_iff coerce_mapping_Inr split: if_splits)

lemma coerce_tasks_Inr:
  "coerce_tasks P E gid n origin us = Inr vs \<Longrightarrow> v \<in> set vs \<Longrightarrow> t_goal_id v = gid \<and> t_plan_revision v = n \<and> mk_task v = Inr v"
  unfolding coerce_tasks_def map_result_Inr by (auto dest!: list_all2_source coerce_task_Inr)

lemma truncate_extend [simp]: "task.truncate (task.extend u (task_row.fields pid)) = (u :: task)"
  by (simp add: task.defs task_row.defs)

lemma extend_fields [simp]:
  "t_plan_id (task.extend u (task_row.fields pid)) = pid"
  "t_id (task.extend u (task_row.fields pid)) = t_id u"
  "t_goal_id (task.extend u (task_row.fields pid)) = t_goal_id u"
  "t_plan_revision (task.extend u (task_row.fields pid)) = t_plan_revision u"
  by (simp_all add: task.defs task_row.defs)

lemma content_insert:
  assumes ok: "content_ok P s" and new: "p_id row \<notin> p_id ` set (st_plans s)"
    and goal: "goal_exists (p_goal_id row) s"
    and mk: "mk_plan (plan_row.extend row (plan.fields ts)) = Inr q"
    and fp: "p_fingerprint row = plan_fingerprint P (p_summary row) ts (p_applicability row)
               (p_strategy row) (p_changes row)"
    and ts: "\<And>u. u \<in> set ts \<Longrightarrow> t_goal_id u = p_goal_id row \<and> t_plan_revision u = p_revision row \<and>
               mk_task u = Inr u"
  shows "content_ok P (s\<lparr>st_plans := st_plans s @ [row],
      st_tasks := st_tasks s @ map (\<lambda>u. task.extend u (task_row.fields (p_id row))) ts\<rparr>)" (is "content_ok P ?t")
proof -
  have no: "task_rows (p_id row) s = []"
    using ok new unfolding content_ok_def task_rows_def by (auto simp: filter_empty_conv image_iff) metis
  have new_tasks: "stored_tasks ?t (p_id row) = ts"
    using no by (simp add: stored_tasks_def task_rows_def filter_map comp_def)
  have old_tasks: "stored_tasks ?t (p_id p) = stored_tasks s (p_id p)" if "p \<in> set (st_plans s)" for p
  proof -
    have "p_id row \<noteq> p_id p" using new that by auto
    then show ?thesis by (simp add: stored_tasks_def task_rows_def filter_map comp_def)
  qed
  show ?thesis
    unfolding content_ok_def
  proof (intro conjI ballI)
    fix v assume "v \<in> set (st_tasks ?t)"
    then consider "v \<in> set (st_tasks s)"
      | u where "u \<in> set ts" "v = task.extend u (task_row.fields (p_id row))" by auto
    then show "mk_task (task.truncate v) = Inr (task.truncate v)"
      and "\<exists>p \<in> set (st_plans ?t). p_id p = t_plan_id v \<and> p_goal_id p = t_goal_id v \<and> p_revision p = t_plan_revision v"
      using ok ts by (cases; fastforce simp: content_ok_def)+
  next
    fix p assume "p \<in> set (st_plans ?t)"
    then consider "p \<in> set (st_plans s)" | "p = row" by auto
    then show "goal_exists (p_goal_id p) ?t"
      and "\<exists>q. mk_plan (plan_row.extend p (plan.fields (stored_tasks ?t (p_id p)))) = Inr q"
      and "p_fingerprint p = plan_fingerprint P (p_summary p) (stored_tasks ?t (p_id p))
             (p_applicability p) (p_strategy p) (p_changes p)"
      using ok goal mk fp new_tasks old_tasks by (cases; simp add: content_ok_def)+
  qed
qed

lemma plan_truncate_fields:
  "p_id (plan_row.truncate q) = p_id q" "p_goal_id (plan_row.truncate q) = p_goal_id q"
  "p_revision (plan_row.truncate q) = p_revision q" "p_summary (plan_row.truncate q) = p_summary q"
  "p_status (plan_row.truncate q) = p_status q" "p_applicability (plan_row.truncate q) = p_applicability q"
  "p_strategy (plan_row.truncate q) = p_strategy q" "p_changes (plan_row.truncate q) = p_changes q"
  "p_fingerprint (plan_row.truncate q) = p_fingerprint q"
  "plan_row.extend (plan_row.truncate q) (plan.fields ts) = (q :: plan)\<lparr>p_tasks := ts\<rparr>"
  by (simp_all add: plan_row.defs plan.defs)

text \<open>The store after a plan has been created.\<close>

lemma create_plan_tables:
  assumes "create_plan P E gid r s = Inr (t, plan)"
  shows "st_plans t = st_plans (supersede_open E gid s) @ [plan_row.truncate plan]"
    and "st_tasks t = st_tasks s @ map (\<lambda>u. task.extend u (task_row.fields (p_id plan))) (p_tasks plan)"
    and "st_goals t = st_goals s" and "st_approvals t = st_approvals s"
    and "p_id plan \<notin> p_id ` set (st_plans s)" and "goal_exists gid s"
    and "p_goal_id plan = gid" and "mk_plan plan = Inr plan"
    and "p_revision plan = (case latest_revision gid s of None \<Rightarrow> 0 | Some n \<Rightarrow> n) + 1"
    and "p_status plan = (if pr_submit r then PLAN_PENDING_APPROVAL else PLAN_DRAFT)"
    and "p_fingerprint plan = plan_fingerprint P (p_summary plan) (p_tasks plan) (p_applicability plan)
               (p_strategy plan) (p_changes plan)"
    and "\<And>u. u \<in> set (p_tasks plan) \<Longrightarrow> t_goal_id u = gid \<and> t_plan_revision u = p_revision plan \<and> mk_task u = Inr u"
    and "validate_plan_basis P (p_tasks plan) (p_applicability plan) (p_strategy plan) (p_changes plan) = Inr ()"
    and "p_strategy plan \<noteq> [] \<and> p_applicability plan \<noteq> []"
proof -
  define n where "n = (case latest_revision gid s of None \<Rightarrow> 0 | Some n \<Rightarrow> n) + 1"
  obtain tasks s2 s3 s4 ety pl where g: "goal_exists gid s"
    and m: "coerce_tasks P E gid n (pr_proposed_by r) (pr_tasks r) = Inr tasks"
    and mk: "mk_plan plan = Inr plan"
    and basis: "validate_plan_basis P tasks (pr_applicability r) (strip (pr_strategy r)) (pr_changes r) = Inr ()"
    and plan: "plan = \<lparr>p_id = fresh E ''plan'' 0, p_goal_id = gid, p_revision = n, p_summary = strip (pr_summary r),
          p_status = (if pr_submit r then PLAN_PENDING_APPROVAL else PLAN_DRAFT),
          p_applicability = pr_applicability r, p_strategy = strip (pr_strategy r), p_changes = pr_changes r,
          p_proposed_by = pr_proposed_by r,
          p_fingerprint = plan_fingerprint P (strip (pr_summary r)) tasks (pr_applicability r)
            (strip (pr_strategy r)) (pr_changes r),
          p_accepted_by = None, p_accepted_at = None, p_created_at = now E, p_updated_at = now E,
          p_tasks = tasks\<rparr>"
    and 2: "insert_plan (plan_row.truncate plan) (supersede_open E gid s) = Inr s2"
    and 3: "fold_result (\<lambda>u. insert_task (task.extend u (task_row.fields (p_id plan)))) tasks s2 = Inr s3"
    and 4: "s4 = s3 \<or> (\<exists>d. insert_document d s3 = Inr s4)"
    and 5: "log_event E 0 ety (Some gid) (Some ''plan'') (Some (p_id plan)) pl s4 = Inr t"
    using create_plan_steps [OF assms] unfolding n_def by metis
  have s2: "st_plans s2 = st_plans (supersede_open E gid s) @ [plan_row.truncate plan]" "st_tasks s2 = st_tasks s"
    "st_goals s2 = st_goals s" "st_approvals s2 = st_approvals s"
    and fresh: "p_id plan \<notin> p_id ` set (st_plans (supersede_open E gid s))"
    using 2 by (auto simp: insert_plan_Inr supersede_open_def plan_truncate_fields)
  have s4: "st_plans s4 = st_plans s3" "st_tasks s4 = st_tasks s3" "st_goals s4 = st_goals s3"
    "st_approvals s4 = st_approvals s3"
    using 4 by (auto dest: insert_document_Inr)
  note s3 = insert_tasks_Inr [OF 3]
  have tasks: "p_tasks plan = tasks" "p_revision plan = n" using plan by simp_all
  have "map p_id (st_plans (supersede_open E gid s)) = map p_id (st_plans s)"
    by (simp add: supersede_open_def map_update_where)
  then have "p_id ` set (st_plans (supersede_open E gid s)) = p_id ` set (st_plans s)"
    by (metis set_map)
  with fresh show "p_id plan \<notin> p_id ` set (st_plans s)" by simp
  show "st_plans t = st_plans (supersede_open E gid s) @ [plan_row.truncate plan]"
    "st_tasks t = st_tasks s @ map (\<lambda>u. task.extend u (task_row.fields (p_id plan))) (p_tasks plan)"
    "st_goals t = st_goals s" "st_approvals t = st_approvals s"
    using s2 s3 s4 5 tasks by (auto simp: log_event_Inr)
  show "\<And>u. u \<in> set (p_tasks plan) \<Longrightarrow> t_goal_id u = gid \<and> t_plan_revision u = p_revision plan \<and> mk_task u = Inr u"
    using m unfolding tasks by (blast dest: coerce_tasks_Inr)
  show "validate_plan_basis P (p_tasks plan) (p_applicability plan) (p_strategy plan) (p_changes plan) = Inr ()"
    using basis plan by simp
  show "p_strategy plan \<noteq> [] \<and> p_applicability plan \<noteq> []"
    using assms plan by (auto simp: create_plan_def Let_def split: if_splits)
  show "goal_exists gid s" "mk_plan plan = Inr plan" by (fact g mk)+
  show "p_goal_id plan = gid" "p_status plan = (if pr_submit r then PLAN_PENDING_APPROVAL else PLAN_DRAFT)"
    "p_revision plan = (case latest_revision gid s of None \<Rightarrow> 0 | Some n \<Rightarrow> n) + 1"
    "p_fingerprint plan = plan_fingerprint P (p_summary plan) (p_tasks plan) (p_applicability plan)
               (p_strategy plan) (p_changes plan)"
    using plan by (simp_all add: n_def)
qed

lemma content_create:
  assumes keys: "keys_ok s" and ok: "content_ok P s" and run: "create_plan P E gid r s = Inr (t, plan)"
  shows "content_ok P t"
proof -
  note T = create_plan_tables [OF run]
  have adv: "advance s (supersede_open E gid s)"
    using supersede_open_evolves [OF keys] by (simp add: evolves_def)
  have "content_ok P (supersede_open E gid s)"
    by (rule content_step [OF adv _ _ ok]) (simp_all add: supersede_open_def)
  then have "content_ok P ((supersede_open E gid s)\<lparr>st_plans := st_plans (supersede_open E gid s) @ [plan_row.truncate plan],
      st_tasks := st_tasks (supersede_open E gid s) @
        map (\<lambda>u. task.extend u (task_row.fields (p_id (plan_row.truncate plan)))) (p_tasks plan)\<rparr>)"
  proof (rule content_insert [where q = plan])
    have "map p_id (st_plans (supersede_open E gid s)) = map p_id (st_plans s)"
      by (simp add: supersede_open_def map_update_where)
    then show "p_id (plan_row.truncate plan) \<notin> p_id ` set (st_plans (supersede_open E gid s))"
      using T(5) by (metis plan_truncate_fields(1) set_map)
    show "goal_exists (p_goal_id (plan_row.truncate plan)) (supersede_open E gid s)"
      using T(6,7) by (simp add: supersede_open_def plan_truncate_fields)
    show "mk_plan (plan_row.extend (plan_row.truncate plan) (plan.fields (p_tasks plan))) = Inr plan"
      using T(8) by (simp add: plan_truncate_fields)
    show "p_fingerprint (plan_row.truncate plan) = plan_fingerprint P (p_summary (plan_row.truncate plan))
       (p_tasks plan) (p_applicability (plan_row.truncate plan)) (p_strategy (plan_row.truncate plan))
       (p_changes (plan_row.truncate plan))"
      using T(11) by (simp add: plan_truncate_fields)
    show "t_goal_id u = p_goal_id (plan_row.truncate plan) \<and>
       t_plan_revision u = p_revision (plan_row.truncate plan) \<and> mk_task u = Inr u"
      if "u \<in> set (p_tasks plan)" for u
      using T(12) [OF that] T(7) by (simp add: plan_truncate_fields)
  qed
  then show ?thesis
    by (rule content_cong [rotated -1])
       (use T(1-3) in \<open>simp_all add: supersede_open_def plan_truncate_fields\<close>)
qed

text \<open>Every operation keeps the content invariant.\<close>

definition integrity :: "platform \<Rightarrow> store \<Rightarrow> bool" where
  "integrity P s \<longleftrightarrow> keys_ok s \<and> content_ok P s"

lemma content_same_lengths:
  assumes "keys_ok s" "content_ok P s" "evolves s t" "length (st_plans t) = length (st_plans s)"
    "length (st_tasks t) = length (st_tasks s)"
  shows "content_ok P t"
  using assms by (auto simp: evolves_def intro: content_step)

lemma approve_plan_lengths:
  "approve_plan E gid n who ex s = Inr (t, r, a) \<Longrightarrow>
   length (st_plans t) = length (st_plans s) \<and> st_tasks t = st_tasks s \<and> length (st_goals t) = length (st_goals s)"
  by (erule approve_plan_steps) (auto simp: log_event_Inr insert_approval_Inr accept_row_def)

lemma reject_plan_lengths:
  "reject_plan E gid n fb who s = Inr (t, r) \<Longrightarrow>
   length (st_plans t) = length (st_plans s) \<and> st_tasks t = st_tasks s \<and> length (st_goals t) = length (st_goals s) \<and>
   st_approvals t = st_approvals s"
  by (auto simp: reject_plan_def Let_def and_then_Inr log_event_Inr split: option.splits)

lemma exec_content:
  assumes keys: "keys_ok s" and ok: "content_ok P s" and run: "exec P p s = Inr t"
  shows "content_ok P t"
proof -
  obtain E q where p: "p = (E, q)" by (cases p)
  have ev: "evolves s t" using keys run by (rule exec_evolves)
  show ?thesis
  proof (cases q)
    case (GoalOp x)
    with run p exec_goal_frame [of P E x s t] show ?thesis
      by (intro content_same_lengths [OF keys ok ev]) (auto simp: exec_def)
  next
    case (PlanOp x)
    with run p have x: "exec_plan P E x s = Inr t" by (simp add: exec_def)
    show ?thesis
    proof (cases x)
      case (CreatePlan gid r)
      with x show ?thesis using content_create [OF keys ok] by auto
    next
      case (ApprovePlan gid n who ex)
      with x show ?thesis
        using approve_plan_lengths by (intro content_same_lengths [OF keys ok ev]) fastforce+
    next
      case (RejectPlan gid n fb who)
      with x show ?thesis
        using reject_plan_lengths by (intro content_same_lengths [OF keys ok ev]) fastforce+
    qed
  next
    case (WorkOp x)
    with run p exec_work_frame [of P E x s t] show ?thesis
      by (intro content_same_lengths [OF keys ok ev]) (auto simp: exec_def)
  next
    case (SessionOp x)
    with run p exec_session_frame [of E x s t] show ?thesis
      by (intro content_same_lengths [OF keys ok ev]) (auto simp: exec_def)
  qed
qed

interpretation store_content: op_invariant "exec P" "integrity P"
  by unfold_locales (auto simp: integrity_def evolves_def dest: exec_evolves intro: exec_content)

lemma reachable_content: "reachable P s \<Longrightarrow> content_ok P s"
proof -
  assume "reachable P s"
  then obtain ops where "s = run_ops (exec P) ops empty_store" by (auto simp: reachable_def run_store_def)
  moreover have "integrity P empty_store" by (simp add: integrity_def content_ok_def empty_store_def keys_ok_def)
  ultimately show ?thesis using store_content.run_inv [of P empty_store ops] by (simp add: integrity_def)
qed

end
