(* ===== verification/Store_Approval.thy ===== *)
theory Store_Approval
  imports Store_Integrity
begin

text \<open>
  The approval discipline and the single active goal, as invariants of the journal, and what
  each gate guarantees at the moment it lets an operation through.
\<close>

section \<open>Approvals\<close>

abbreviation open_plan :: "plan_row \<Rightarrow> bool" where
  "open_plan p \<equiv> p_status p = PLAN_DRAFT \<or> p_status p = PLAN_PENDING_APPROVAL"

definition one_accepted :: "store \<Rightarrow> bool" where
  "one_accepted s \<longleftrightarrow> (\<forall>p \<in> set (st_plans s). \<forall>q \<in> set (st_plans s).
     p_status p = PLAN_ACCEPTED \<and> p_status q = PLAN_ACCEPTED \<and> p_goal_id p = p_goal_id q \<longrightarrow> p = q)"

definition open_latest :: "store \<Rightarrow> bool" where
  "open_latest s \<longleftrightarrow> (\<forall>p \<in> set (st_plans s). \<forall>q \<in> set (st_plans s).
     open_plan p \<and> p_goal_id q = p_goal_id p \<longrightarrow> p_revision q \<le> p_revision p)"

definition approvals_match :: "store \<Rightarrow> bool" where
  "approvals_match s \<longleftrightarrow>
     (\<forall>a \<in> set (st_approvals s). \<exists>p \<in> set (st_plans s).
        p_id p = ap_plan_id a \<and> p_goal_id p = ap_goal_id a \<and> p_revision p = ap_revision a \<and>
        p_fingerprint p = ap_fingerprint a \<and> p_status p \<in> {PLAN_ACCEPTED, PLAN_SUPERSEDED}) \<and>
     (\<forall>p \<in> set (st_plans s). p_status p = PLAN_ACCEPTED \<longrightarrow>
        (\<exists>a \<in> set (st_approvals s). ap_plan_id a = p_id p))"

definition approvals_ok :: "store \<Rightarrow> bool" where
  "approvals_ok s \<longleftrightarrow> one_accepted s \<and> open_latest s \<and> approvals_match s"

lemma approvals_cong:
  "st_plans t = st_plans s \<Longrightarrow> st_approvals t = st_approvals s \<Longrightarrow> approvals_ok s \<Longrightarrow> approvals_ok t"
  by (simp add: approvals_ok_def one_accepted_def open_latest_def approvals_match_def)

lemma latest_revision_bound:
  assumes "p \<in> set (st_plans s)" "p_goal_id p = gid"
  obtains n where "latest_revision gid s = Some n" "p_revision p \<le> n"
proof -
  have m: "p_revision p \<in> set (revisions_of gid s)" using assms by (auto simp: revisions_of_def)
  then have "revisions_of gid s \<noteq> []" by auto
  then have l: "latest_revision gid s = Some (Max (set (revisions_of gid s)))"
    by (simp add: latest_revision_def)
  have "p_revision p \<le> Max (set (revisions_of gid s))" using m by (intro Max_ge) simp_all
  then show thesis using l by (intro that)
qed

text \<open>The rows after \<open>create_plan\<close> superseded the open ones.\<close>

lemma in_supersede_open:
  assumes "q \<in> set (st_plans (supersede_open E gid s))"
  obtains p where "p \<in> set (st_plans s)" "plan_step p q"
    "q = p \<and> \<not> (open_plan p \<and> p_goal_id p = gid) \<or> open_plan p \<and> p_goal_id p = gid \<and> p_status q = PLAN_SUPERSEDED"
proof -
  obtain p where p: "p \<in> set (st_plans s)" and q: "q = (if p_goal_id p = gid \<and> open_plan p
      then p\<lparr>p_status := PLAN_SUPERSEDED, p_updated_at := now E\<rparr> else p)"
    using assms by (auto simp: supersede_open_def set_update_where)
  show thesis
  proof (cases "p_goal_id p = gid \<and> open_plan p")
    case True
    with p q show thesis by (intro that [of p]) (auto simp: plan_step_def moves_def)
  next
    case False
    with p q show thesis by (intro that [of p]) (auto simp: plan_history.step_refl)
  qed
qed

lemma create_plan_approvals:
  assumes ok: "approvals_ok s" and run: "create_plan P E gid r s = Inr (t, plan)"
  shows "approvals_ok t"
proof -
  note T = create_plan_tables [OF run]
  let ?row = "plan_row.truncate plan"
  have row: "open_plan ?row" "p_goal_id ?row = gid" "p_status ?row \<noteq> PLAN_ACCEPTED"
    using T(7,10) by (simp_all add: plan_truncate_fields)
  have fresh: "p_revision p < p_revision ?row" if m: "p \<in> set (st_plans s)" "p_goal_id p = gid" for p
  proof -
    obtain n where "latest_revision gid s = Some n" "p_revision p \<le> n"
      using latest_revision_bound [OF m] by blast
    then show ?thesis using T(9) by (simp add: plan_truncate_fields(3))
  qed
  have mem: "q \<in> set (st_plans t) \<longleftrightarrow> q \<in> set (st_plans (supersede_open E gid s)) \<or> q = ?row" for q
    unfolding T(1) by auto
  have keep: "p \<in> set (st_plans (supersede_open E gid s))" if "p \<in> set (st_plans s)" "\<not> open_plan p" for p
    using that by (auto simp: supersede_open_def set_update_where image_iff)
  have old: "q \<in> set (st_plans s)" if "q \<in> set (st_plans t)" "p_status q = PLAN_ACCEPTED" for q
    using that row(3) unfolding mem by (auto elim!: in_supersede_open)
  have "one_accepted t"
    using ok old unfolding approvals_ok_def one_accepted_def by blast
  moreover have "open_latest t"
    unfolding open_latest_def
  proof (intro ballI impI)
    fix p q assume p: "p \<in> set (st_plans t)" and q: "q \<in> set (st_plans t)"
      and o: "open_plan p \<and> p_goal_id q = p_goal_id p"
    obtain q' where q': "q = ?row \<or> q' \<in> set (st_plans s) \<and> plan_step q' q"
      using q unfolding mem by (auto elim: in_supersede_open)
    show "p_revision q \<le> p_revision p"
    proof (cases "p = ?row")
      case True
      with q' o row(2) fresh [of q'] show ?thesis by (auto simp: plan_step_def)
    next
      case False
      then have ps: "p \<in> set (st_plans s)" "p_goal_id p \<noteq> gid"
        using p o unfolding mem by (auto elim!: in_supersede_open)
      then have "q \<noteq> ?row" using o row(2) by auto
      with q' have "q' \<in> set (st_plans s)" "p_revision q = p_revision q'" "p_goal_id q = p_goal_id q'"
        by (auto simp: plan_step_def)
      with ok ps(1) o show ?thesis by (auto simp: approvals_ok_def open_latest_def)
    qed
  qed
  moreover have "approvals_match t"
    unfolding approvals_match_def T(4)
  proof (intro conjI ballI impI)
    fix a assume "a \<in> set (st_approvals s)"
    then obtain p where p: "p \<in> set (st_plans s)" "p_id p = ap_plan_id a" "p_goal_id p = ap_goal_id a"
      "p_revision p = ap_revision a" "p_fingerprint p = ap_fingerprint a"
      "p_status p \<in> {PLAN_ACCEPTED, PLAN_SUPERSEDED}"
      using ok by (fastforce simp: approvals_ok_def approvals_match_def)
    then have "p \<in> set (st_plans t)" unfolding mem using keep [of p] by auto
    with p show "\<exists>p \<in> set (st_plans t). p_id p = ap_plan_id a \<and> p_goal_id p = ap_goal_id a \<and>
        p_revision p = ap_revision a \<and> p_fingerprint p = ap_fingerprint a \<and>
        p_status p \<in> {PLAN_ACCEPTED, PLAN_SUPERSEDED}" by blast
  next
    fix p assume "p \<in> set (st_plans t)" "p_status p = PLAN_ACCEPTED"
    then show "\<exists>a \<in> set (st_approvals s). ap_plan_id a = p_id p"
      using ok old by (auto simp: approvals_ok_def approvals_match_def)
  qed
  ultimately show ?thesis by (simp add: approvals_ok_def)
qed

lemma in_accept_row:
  assumes keys: "keys_ok s" and row: "row \<in> set (st_plans s)" "p_goal_id row = gid"
    and q: "q \<in> set (st_plans (accept_row E gid n who row s))"
  obtains p where "p \<in> set (st_plans s)" "p_id q = p_id p" "p_goal_id q = p_goal_id p"
    "p_revision q = p_revision p" "p_fingerprint q = p_fingerprint p"
    "p = row \<and> p_status q = PLAN_ACCEPTED \<or>
     p \<noteq> row \<and> p_goal_id p = gid \<and> p_status p = PLAN_ACCEPTED \<and> p_status q = PLAN_SUPERSEDED \<or>
     p \<noteq> row \<and> \<not> (p_goal_id p = gid \<and> p_status p = PLAN_ACCEPTED) \<and> q = p"
proof -
  have uniq: "p = row" if "p \<in> set (st_plans s)" "p_id p = p_id row" for p
    using unique_plan [OF keys that(1) row(1) that(2)] .
  let ?f = "\<lambda>p. if p_goal_id p = gid \<and> p_status p = PLAN_ACCEPTED
      then p\<lparr>p_status := PLAN_SUPERSEDED, p_updated_at := now E\<rparr> else p"
  let ?g = "\<lambda>p. if p_id p = p_id row then p\<lparr>p_status := PLAN_ACCEPTED, p_accepted_by := Some who,
      p_accepted_at := Some (now E), p_updated_at := now E\<rparr> else p"
  obtain p where p: "p \<in> set (st_plans s)" "q = ?g (?f p)"
    using q unfolding accept_row_def by (auto simp: set_update_where)
  show thesis
  proof (cases "p = row")
    case True
    with p show thesis by (intro that [of p]) auto
  next
    case False
    then have "p_id p \<noteq> p_id row" using uniq p(1) by blast
    with p False show thesis by (intro that [of p]) auto
  qed
qed

lemma accept_row_forward:
  assumes keys: "keys_ok s" and row: "row \<in> set (st_plans s)" and p: "p \<in> set (st_plans s)"
  shows "\<exists>q \<in> set (st_plans (accept_row E gid n who row s)). p_id q = p_id p \<and> p_goal_id q = p_goal_id p \<and>
    p_revision q = p_revision p \<and> p_fingerprint q = p_fingerprint p \<and>
    (p_status p \<in> {PLAN_ACCEPTED, PLAN_SUPERSEDED} \<or> p = row \<longrightarrow> p_status q \<in> {PLAN_ACCEPTED, PLAN_SUPERSEDED})"
proof -
  let ?f = "\<lambda>p. if p_goal_id p = gid \<and> p_status p = PLAN_ACCEPTED
      then p\<lparr>p_status := PLAN_SUPERSEDED, p_updated_at := now E\<rparr> else p"
  let ?g = "\<lambda>p. if p_id p = p_id row then p\<lparr>p_status := PLAN_ACCEPTED, p_accepted_by := Some who,
      p_accepted_at := Some (now E), p_updated_at := now E\<rparr> else p"
  have "?g (?f p) \<in> set (st_plans (accept_row E gid n who row s))"
    unfolding accept_row_def using p by (simp add: set_update_where)
  then show ?thesis by (rule bexI [rotated]) auto
qed

lemma approve_plan_approvals:
  assumes keys: "keys_ok s" and ok: "approvals_ok s"
    and run: "approve_plan E gid n who expected s = Inr (t, res, approval)"
  shows "approvals_ok t"
  using run
proof (rule approve_plan_steps)
  fix row goal s4 pl
  assume fr: "fetchone (\<lambda>p. p_goal_id p = gid \<and> p_revision p = n) (st_plans s) = Some row"
    and mv: "moves plan_transitions (p_status row) PLAN_ACCEPTED"
    and ap: "approval = \<lparr>ap_id = fresh E ''approval'' 0, ap_goal_id = gid, ap_plan_id = p_id row,
        ap_revision = n, ap_fingerprint = p_fingerprint row, ap_approved_by = who,
        ap_approved_at = now E\<rparr>"
    and ins: "insert_approval approval (accept_row E gid n who row s) = Inr s4"
    and log: "log_event E 0 ''plan.approved'' (Some gid) (Some ''plan'') (Some (p_id row)) pl s4 = Inr t"
  have row: "row \<in> set (st_plans s)" "p_goal_id row = gid" "p_revision row = n"
    using fetchone_Some [OF fr] by auto
  have plans: "st_plans t = st_plans (accept_row E gid n who row s)"
    and aps: "st_approvals t = st_approvals s @ [approval]"
    using ins log by (auto simp: insert_approval_Inr log_event_Inr accept_row_def)
  note from_row = in_accept_row [OF keys row(1,2), of _ E n who, folded plans]
  have "one_accepted t"
    unfolding one_accepted_def
  proof (intro ballI impI)
    fix p q assume p: "p \<in> set (st_plans t)" and q: "q \<in> set (st_plans t)"
      and acc: "p_status p = PLAN_ACCEPTED \<and> p_status q = PLAN_ACCEPTED \<and> p_goal_id p = p_goal_id q"
    have tk: "keys_ok t" using approve_plan_evolves [OF keys run] by (simp add: evolves_def)
    have src: "\<exists>p' \<in> set (st_plans s). p_id p = p_id p' \<and> p_goal_id p = p_goal_id p' \<and>
      (p' = row \<or> p_goal_id p' \<noteq> gid \<and> p = p')" if "p \<in> set (st_plans t)" "p_status p = PLAN_ACCEPTED" for p
      using that(1)
    proof (rule from_row)
      fix p' assume "p' \<in> set (st_plans s)" "p_id p = p_id p'" "p_goal_id p = p_goal_id p'"
        "p' = row \<and> p_status p = PLAN_ACCEPTED \<or>
         p' \<noteq> row \<and> p_goal_id p' = gid \<and> p_status p' = PLAN_ACCEPTED \<and> p_status p = PLAN_SUPERSEDED \<or>
         p' \<noteq> row \<and> \<not> (p_goal_id p' = gid \<and> p_status p' = PLAN_ACCEPTED) \<and> p = p'"
      then show ?thesis using that(2) by (intro bexI [of _ p']) auto
    qed
    obtain p' q' where p': "p' \<in> set (st_plans s)" "p_id p = p_id p'" "p_goal_id p = p_goal_id p'"
      "p' = row \<or> p_goal_id p' \<noteq> gid \<and> p = p'"
      and q': "q' \<in> set (st_plans s)" "p_id q = p_id q'" "p_goal_id q = p_goal_id q'"
      "q' = row \<or> p_goal_id q' \<noteq> gid \<and> q = q'"
      using src [OF p] src [OF q] acc by blast
    have "p_id p = p_id q"
      using p' q' acc row ok by (auto simp: approvals_ok_def one_accepted_def)
    then show "p = q" using unique_plan [OF tk p q] by blast
  qed
  moreover have "open_latest t"
    unfolding open_latest_def
  proof (intro ballI impI)
    fix p q assume p: "p \<in> set (st_plans t)" and q: "q \<in> set (st_plans t)"
      and o: "open_plan p \<and> p_goal_id q = p_goal_id p"
    have ps: "p \<in> set (st_plans s)" using p by (rule from_row) (use o in auto)
    obtain q' where "q' \<in> set (st_plans s)" "p_goal_id q = p_goal_id q'" "p_revision q = p_revision q'"
      using q by (rule from_row) blast
    with ps o ok show "p_revision q \<le> p_revision p" by (auto simp: approvals_ok_def open_latest_def)
  qed
  moreover have "approvals_match t"
    unfolding approvals_match_def aps
  proof (intro conjI ballI impI)
    fix a assume "a \<in> set (st_approvals s @ [approval])"
    then consider "a \<in> set (st_approvals s)" | "a = approval" by auto
    then obtain p where p: "p \<in> set (st_plans s)" "p_id p = ap_plan_id a" "p_goal_id p = ap_goal_id a"
      "p_revision p = ap_revision a" "p_fingerprint p = ap_fingerprint a"
      "p_status p \<in> {PLAN_ACCEPTED, PLAN_SUPERSEDED} \<or> p = row"
    proof cases
      case 1
      then obtain p where "p \<in> set (st_plans s)" "p_id p = ap_plan_id a" "p_goal_id p = ap_goal_id a"
        "p_revision p = ap_revision a" "p_fingerprint p = ap_fingerprint a"
        "p_status p \<in> {PLAN_ACCEPTED, PLAN_SUPERSEDED}"
        using ok unfolding approvals_ok_def approvals_match_def by blast
      then show thesis using that by blast
    next
      case 2
      have "p_id row = ap_plan_id approval" "p_goal_id row = ap_goal_id approval"
        "p_revision row = ap_revision approval" "p_fingerprint row = ap_fingerprint approval"
        unfolding ap using row by simp_all
      then show thesis using 2 row(1) by (intro that [of row]) simp_all
    qed
    obtain q where "q \<in> set (st_plans t)" "p_id q = p_id p" "p_goal_id q = p_goal_id p"
        "p_revision q = p_revision p" "p_fingerprint q = p_fingerprint p"
        "p_status q \<in> {PLAN_ACCEPTED, PLAN_SUPERSEDED}"
      using accept_row_forward [OF keys row(1) p(1), of E gid n who, folded plans] p(6) by blast
    with p(2-5) show "\<exists>p \<in> set (st_plans t). p_id p = ap_plan_id a \<and> p_goal_id p = ap_goal_id a \<and>
        p_revision p = ap_revision a \<and> p_fingerprint p = ap_fingerprint a \<and>
        p_status p \<in> {PLAN_ACCEPTED, PLAN_SUPERSEDED}"
      by (intro bexI [of _ q]) simp_all
  next
    fix p assume p: "p \<in> set (st_plans t)" "p_status p = PLAN_ACCEPTED"
    show "\<exists>a \<in> set (st_approvals s @ [approval]). ap_plan_id a = p_id p"
    proof (cases "p_id p = p_id row")
      case True
      with ap show ?thesis by simp
    next
      case False
      have "p \<in> set (st_plans s)" using p(1) by (rule from_row) (use p(2) False in auto)
      with ok p(2) show ?thesis by (auto simp: approvals_ok_def approvals_match_def)
    qed
  qed
  ultimately show ?thesis by (simp add: approvals_ok_def)
qed

lemma reject_plan_steps:
  assumes run: "reject_plan E gid n fb who s = Inr (t, res)"
  obtains row goal where "row \<in> set (st_plans s)" "p_goal_id row = gid" "p_revision row = n"
    "moves plan_transitions (p_status row) PLAN_REJECTED"
    "st_plans t = update_where (\<lambda>p. p_id p = p_id row)
       (\<lambda>p. p\<lparr>p_status := PLAN_REJECTED, p_updated_at := now E\<rparr>) (st_plans s)"
    "st_approvals t = st_approvals s"
    "fetchone (\<lambda>g. g_id g = gid) (st_goals s) = Some goal"
    "moves goal_transitions (g_status goal) GOAL_REVISING"
proof -
  obtain row goal where row: "fetchone (\<lambda>p. p_goal_id p = gid \<and> p_revision p = n) (st_plans s) = Some row"
    and goal: "fetchone (\<lambda>g. g_id g = gid) (st_goals s) = Some goal"
    and mv: "moves plan_transitions (p_status row) PLAN_REJECTED"
      "moves goal_transitions (g_status goal) GOAL_REVISING"
    using run by (auto simp: reject_plan_def and_then_Inr ensure_iffs split: option.splits)
  have "st_plans t = update_where (\<lambda>p. p_id p = p_id row)
       (\<lambda>p. p\<lparr>p_status := PLAN_REJECTED, p_updated_at := now E\<rparr>) (st_plans s)"
    "st_approvals t = st_approvals s"
    using run row goal by (auto simp: reject_plan_def Let_def and_then_Inr log_event_Inr)
  then show thesis using fetchone_Some [OF row] goal mv by (intro that [of row goal]) auto
qed

lemma reject_plan_approvals:
  assumes keys: "keys_ok s" and ok: "approvals_ok s"
    and run: "reject_plan E gid n fb who s = Inr (t, res)"
  shows "approvals_ok t"
  using run
proof (rule reject_plan_steps)
  fix row goal
  assume row: "row \<in> set (st_plans s)" and mv: "moves plan_transitions (p_status row) PLAN_REJECTED"
    and plans: "st_plans t = update_where (\<lambda>p. p_id p = p_id row)
       (\<lambda>p. p\<lparr>p_status := PLAN_REJECTED, p_updated_at := now E\<rparr>) (st_plans s)"
    and aps: "st_approvals t = st_approvals s"
  have nacc: "p_status row \<notin> {PLAN_ACCEPTED, PLAN_SUPERSEDED}"
    using mv by (cases "p_status row") (auto simp: moves_def)
  have src: "\<exists>p \<in> set (st_plans s). p_goal_id q = p_goal_id p \<and> p_revision q = p_revision p \<and>
      (q = p \<or> p_status q = PLAN_REJECTED)" if "q \<in> set (st_plans t)" for q
    using that unfolding plans by (auto simp: set_update_where)
  have keep: "p \<in> set (st_plans t)" if m: "p \<in> set (st_plans s)" "p_status p \<in> {PLAN_ACCEPTED, PLAN_SUPERSEDED}" for p
  proof -
    have "p_id p \<noteq> p_id row" using unique_plan [OF keys m(1) row] nacc m(2) by auto
    then show ?thesis using m(1) unfolding plans by (auto simp: set_update_where)
  qed
  have old: "q \<in> set (st_plans s)" if m: "q \<in> set (st_plans t)" "p_status q \<noteq> PLAN_REJECTED" for q
    using src [OF m(1)] m(2) by auto
  have "one_accepted t"
    unfolding one_accepted_def
  proof (intro ballI impI)
    fix p q assume "p \<in> set (st_plans t)" "q \<in> set (st_plans t)"
      "p_status p = PLAN_ACCEPTED \<and> p_status q = PLAN_ACCEPTED \<and> p_goal_id p = p_goal_id q"
    then show "p = q" using ok old [of p] old [of q] by (simp add: approvals_ok_def one_accepted_def)
  qed
  moreover have "open_latest t"
    unfolding open_latest_def
  proof (intro ballI impI)
    fix p q assume p: "p \<in> set (st_plans t)" and q: "q \<in> set (st_plans t)"
      and o: "open_plan p \<and> p_goal_id q = p_goal_id p"
    have "p \<in> set (st_plans s)" using old [OF p] o by auto
    moreover obtain q' where "q' \<in> set (st_plans s)" "p_goal_id q = p_goal_id q'" "p_revision q = p_revision q'"
      using src [OF q] by blast
    ultimately show "p_revision q \<le> p_revision p"
      using o ok by (auto simp: approvals_ok_def open_latest_def)
  qed
  moreover have "approvals_match t"
    unfolding approvals_match_def aps
  proof (intro conjI ballI impI)
    fix a assume "a \<in> set (st_approvals s)"
    then obtain p where p: "p \<in> set (st_plans s)" "p_id p = ap_plan_id a" "p_goal_id p = ap_goal_id a"
      "p_revision p = ap_revision a" "p_fingerprint p = ap_fingerprint a"
      "p_status p \<in> {PLAN_ACCEPTED, PLAN_SUPERSEDED}"
      using ok unfolding approvals_ok_def approvals_match_def by blast
    with keep [OF p(1,6)] show "\<exists>p \<in> set (st_plans t). p_id p = ap_plan_id a \<and> p_goal_id p = ap_goal_id a \<and>
        p_revision p = ap_revision a \<and> p_fingerprint p = ap_fingerprint a \<and>
        p_status p \<in> {PLAN_ACCEPTED, PLAN_SUPERSEDED}" by blast
  next
    fix p assume p: "p \<in> set (st_plans t)" "p_status p = PLAN_ACCEPTED"
    then have "p \<in> set (st_plans s)" using old by simp
    with p(2) ok show "\<exists>a \<in> set (st_approvals s). ap_plan_id a = p_id p"
      by (simp add: approvals_ok_def approvals_match_def)
  qed
  ultimately show ?thesis by (simp add: approvals_ok_def)
qed

lemma exec_approvals:
  assumes keys: "keys_ok s" and ok: "approvals_ok s" and run: "exec P p s = Inr t"
  shows "approvals_ok t"
proof -
  obtain E q where p: "p = (E, q)" by (cases p)
  show ?thesis
  proof (cases q)
    case (GoalOp x)
    with run p exec_goal_frame [of P E x s t] ok show ?thesis
      by (auto simp: exec_def intro: approvals_cong)
  next
    case (PlanOp x)
    with run p ok keys show ?thesis
      by (cases x) (auto simp: exec_def intro: create_plan_approvals approve_plan_approvals reject_plan_approvals)
  next
    case (WorkOp x)
    with run p exec_work_frame [of P E x s t] ok show ?thesis
      by (auto simp: exec_def intro: approvals_cong)
  next
    case (SessionOp x)
    with run p exec_session_frame [of E x s t] ok show ?thesis
      by (auto simp: exec_def intro: approvals_cong)
  qed
qed

section \<open>One unfinished goal per session\<close>

definition one_active :: "store \<Rightarrow> bool" where
  "one_active s \<longleftrightarrow> (\<forall>g \<in> set (st_goals s). \<forall>h \<in> set (st_goals s).
     unfinished g \<and> unfinished h \<and> g_session_id g = g_session_id h \<longrightarrow> g = h)"

lemma goal_step_unfinished: "goal_step g h \<Longrightarrow> unfinished h \<Longrightarrow> unfinished g"
  by (auto simp: goal_step_def dest: goal_graph.rtranclp_terminal)

lemma one_active_step:
  assumes adv: "evolves s t" and len: "length (st_goals t) = length (st_goals s)" and ok: "one_active s"
  shows "one_active t"
  unfolding one_active_def
proof (intro ballI impI)
  fix g h assume gh: "g \<in> set (st_goals t)" "h \<in> set (st_goals t)"
    and u: "unfinished g \<and> unfinished h \<and> g_session_id g = g_session_id h"
  have steps: "list_all2 goal_step (st_goals s) (st_goals t)"
    using adv len by (auto simp: evolves_def advance_def intro: rows_advance_full)
  obtain g' h' where 1: "g' \<in> set (st_goals s)" "goal_step g' g" "h' \<in> set (st_goals s)" "goal_step h' h"
    using list_all2_source [OF steps] gh by meson
  have "g' = h'"
    using ok 1 u goal_step_unfinished [OF 1(2)] goal_step_unfinished [OF 1(4)]
    by (auto simp: one_active_def goal_step_def)
  then have "g_id g = g_id h" using 1 by (auto simp: goal_step_def)
  then show "g = h"
    using adv gh by (auto simp: evolves_def keys_ok_def intro: key_unique [of g_id "st_goals t"])
qed

lemma exec_one_active:
  assumes keys: "keys_ok s" and ok: "one_active s" and run: "exec P p s = Inr t"
  shows "one_active t"
proof -
  obtain E q where p: "p = (E, q)" by (cases p)
  have ev: "evolves s t" using keys run by (rule exec_evolves)
  show ?thesis
  proof (cases q)
    case (GoalOp x)
    with run p exec_goal_frame [of P E x s t]
    consider "length (st_goals t) = length (st_goals s)"
      | g s1 where "insert_goal g s = Inr s1" "st_goals t = st_goals s1" by (auto simp: exec_def)
    then show ?thesis
    proof cases
      case 1
      then show ?thesis by (rule one_active_step [OF ev _ ok])
    next
      case 2
      then have "st_goals t = st_goals s @ [g]"
        "unfinished g \<Longrightarrow> h \<in> set (st_goals s) \<Longrightarrow> g_session_id h = g_session_id g \<Longrightarrow> \<not> unfinished h" for h
        by (auto simp: insert_goal_Inr)
      then show ?thesis using ok by (auto simp: one_active_def)
    qed
  next
    case (PlanOp x)
    then have "length (st_goals t) = length (st_goals s)"
      using run p
      by (cases x) (auto simp: exec_def dest: create_plan_tables(3) approve_plan_lengths reject_plan_lengths)
    then show ?thesis by (rule one_active_step [OF ev _ ok])
  next
    case (WorkOp x)
    with run p exec_work_frame [of P E x s t] show ?thesis
      by (intro one_active_step [OF ev _ ok]) (auto simp: exec_def)
  next
    case (SessionOp x)
    with run p exec_session_frame [of E x s t] show ?thesis
      by (intro one_active_step [OF ev _ ok]) (auto simp: exec_def)
  qed
qed

definition governance :: "store \<Rightarrow> bool" where
  "governance s \<longleftrightarrow> keys_ok s \<and> approvals_ok s \<and> one_active s"

interpretation store_governance: op_invariant "exec P" governance
  by unfold_locales
     (auto simp: governance_def evolves_def dest: exec_evolves intro: exec_approvals exec_one_active)

lemma reachable_governance: "reachable P s \<Longrightarrow> governance s"
proof -
  assume "reachable P s"
  then obtain ops where "s = run_ops (exec P) ops empty_store" by (auto simp: reachable_def run_store_def)
  moreover have "governance empty_store"
    by (simp add: governance_def empty_store_def keys_ok_def approvals_ok_def one_accepted_def
        open_latest_def approvals_match_def one_active_def)
  ultimately show ?thesis using store_governance.run_inv by blast
qed

end
