(* ===== verification/Store_Gates.thy ===== *)
theory Store_Gates
  imports Store_Approval
begin

text \<open>
  What the individual gates guarantee: reading a plan back, the approval and completion gates,
  action reconciliation, recovery, and the prompt queue.
\<close>

section \<open>Reading plans back\<close>

lemma map_result_fixed: "(\<And>x. x \<in> set xs \<Longrightarrow> f x = Inr (g x)) \<Longrightarrow> map_result f xs = Inr (map g xs)"
  by (induction xs) auto

lemma sorted_valid:
  assumes "\<exists>order. validate_task_dag ts = Inr order"
  shows "\<exists>order. validate_task_dag (sort_key k ts) = Inr order"
  using assms by (rule valid_transfer) (auto simp: same_links_def)

lemma insort_key_map: "insort_key k (f x) (map f xs) = map f (insort_key (\<lambda>x. k (f x)) x xs)"
  by (induction xs) auto

lemma sort_key_map: "sort_key k (map f xs) = map f (sort_key (\<lambda>x. k (f x)) xs)"
  by (induction xs) (auto simp: sort_key_def insort_key_map)

lemma truncate_priority [simp]: "t_priority (task.truncate t) = t_priority t"
  by (simp add: task.defs)

lemma plan_from_row_ok:
  assumes ok: "content_ok P s" and p: "p \<in> set (st_plans s)"
  shows "plan_from_row s p =
    Inr (plan_row.extend p (plan.fields (sort_key (\<lambda>t. - t_priority t) (stored_tasks s (p_id p)))))"
proof -
  let ?rows = "sort_key (\<lambda>t. - t_priority t) (task_rows (p_id p) s)"
  have "map_result (\<lambda>t. mk_task (task.truncate t)) ?rows = Inr (map task.truncate ?rows)"
    using ok by (intro map_result_fixed) (auto simp: content_ok_def task_rows_def)
  moreover have "map task.truncate ?rows = sort_key (\<lambda>t. - t_priority t) (stored_tasks s (p_id p))"
    unfolding stored_tasks_def by (simp add: sort_key_map)
  moreover have "mk_plan (plan_row.extend p (plan.fields (sort_key k (stored_tasks s (p_id p))))) =
      Inr (plan_row.extend p (plan.fields (sort_key k (stored_tasks s (p_id p)))))" for k :: "task \<Rightarrow> int"
  proof -
    obtain q where "mk_plan (plan_row.extend p (plan.fields (stored_tasks s (p_id p)))) = Inr q"
      using ok p by (auto simp: content_ok_def)
    moreover have "sort_key k ts = [] \<longleftrightarrow> ts = []" for ts :: "task list"
      by (metis length_0_conv length_sort)
    ultimately show ?thesis
      using sorted_valid [of "stored_tasks s (p_id p)" k] unfolding plan_extend_fields mk_plan_Inr
      by simp
  qed
  ultimately show ?thesis by (simp add: plan_from_row_def)
qed

lemma get_plan_ok:
  assumes keys: "keys_ok s" and ok: "content_ok P s" and p: "p \<in> set (st_plans s)"
  shows "get_plan (p_goal_id p) (p_revision p) s =
    Inr (plan_row.extend p (plan.fields (sort_key (\<lambda>t. - t_priority t) (stored_tasks s (p_id p)))))"
proof -
  let ?P = "\<lambda>q. p_goal_id q = p_goal_id p \<and> p_revision q = p_revision p"
  have "fetchone ?P (st_plans s) = Some p"
  proof (cases "fetchone ?P (st_plans s)")
    case None
    with p show ?thesis by auto
  next
    case (Some q)
    with fetchone_Some [OF Some] unique_revision [OF keys _ p] show ?thesis by auto
  qed
  then show ?thesis by (simp add: get_plan_def plan_from_row_ok [OF ok p])
qed

lemma created_plan_reads_back:
  assumes keys: "keys_ok s" and ok: "content_ok P s" and run: "create_plan P E gid r s = Inr (t, plan)"
  shows "get_plan gid (p_revision plan) t =
    Inr (plan\<lparr>p_tasks := sort_key (\<lambda>t. - t_priority t) (p_tasks plan)\<rparr>)"
proof -
  note T = create_plan_tables [OF run]
  have kt: "keys_ok t" using create_plan_evolves [OF keys run] by (simp add: evolves_def)
  have ct: "content_ok P t" by (rule content_create [OF keys ok run])
  have row: "plan_row.truncate plan \<in> set (st_plans t)" unfolding T(1) by simp
  have no: "task_rows (p_id plan) s = []"
    using ok T(5) unfolding content_ok_def task_rows_def by (auto simp: filter_empty_conv image_iff) metis
  have "stored_tasks t (p_id plan) = p_tasks plan"
    using no unfolding stored_tasks_def task_rows_def T(2) by (simp add: filter_map comp_def)
  then show ?thesis
    using get_plan_ok [OF kt ct row] T(7) by (simp add: plan_truncate_fields)
qed

section \<open>The completion gate\<close>

lemma unfinished_dependency_None:
  "unfinished_dependency rows t = None \<Longrightarrow> d \<in> set (t_depends_on t) \<Longrightarrow>
   \<exists>dep \<in> set rows. t_plan_id dep = t_plan_id t \<and> t_id dep = d \<and> t_status dep \<in> {TASK_COMPLETED, TASK_OBSOLETE}"
  unfolding unfinished_dependency_def find_None_iff
  by (fastforce split: option.splits dest: fetchone_Some)

lemma has_evidence_append: "has_evidence gid n tid s \<longleftrightarrow>
    (\<exists>e \<in> set (st_evidence s). e_goal_id e = gid \<and> e_plan_revision e = Some n \<and> e_task_id e = Some tid)"
  by (simp add: has_evidence_def)

lemma transition_task_gate:
  assumes keys: "keys_ok s" and run: "transition_task E gid n tid target nt evs actor s = Inr (t, r)"
  obtains k where "k \<in> set (st_tasks s)" "t_goal_id k = gid" "t_plan_revision k = n" "t_id k = tid"
    "moves task_transitions (t_status k) target"
    "target \<in> {TASK_READY, TASK_IN_PROGRESS, TASK_VERIFYING, TASK_COMPLETED} \<Longrightarrow>
       \<forall>d \<in> set (t_depends_on k). \<exists>dep \<in> set (st_tasks s). t_plan_id dep = t_plan_id k \<and> t_id dep = d \<and>
          t_status dep \<in> {TASK_COMPLETED, TASK_OBSOLETE}"
    "target = TASK_COMPLETED \<Longrightarrow> has_evidence gid n tid t"
    "target = TASK_BLOCKED \<Longrightarrow> strip nt \<noteq> []"
    "\<And>u. u \<in> set (st_tasks t) \<Longrightarrow> t_plan_id u = t_plan_id k \<and> t_id u = tid \<Longrightarrow> t_status u = target"
    "filter (\<lambda>u. \<not> (t_plan_id u = t_plan_id k \<and> t_id u = tid)) (st_tasks t) =
     filter (\<lambda>u. \<not> (t_plan_id u = t_plan_id k \<and> t_id u = tid)) (st_tasks s)"
  using run
proof (rule transition_task_steps)
  fix k :: task_row and s1 :: store and md pl
  let ?hit = "\<lambda>t. t_plan_id t = t_plan_id k \<and> t_id t = tid"
  let ?f = "\<lambda>t. t\<lparr>t_status := target,
      t_attempts := t_attempts k + (if target = TASK_IN_PROGRESS \<and> t_status k \<noteq> target then 1 else 0),
      t_metadata := md, t_updated_at := now E\<rparr>"
  assume k: "fetchone (\<lambda>t. t_goal_id t = gid \<and> t_plan_revision t = n \<and> t_id t = tid \<and>
      exists_row (\<lambda>p. p_id p = t_plan_id t) (st_plans s)) (st_tasks s) = Some k"
    and mv: "moves task_transitions (t_status k) target"
    and gate: "target \<in> {TASK_READY, TASK_IN_PROGRESS, TASK_VERIFYING, TASK_COMPLETED} \<Longrightarrow>
       unfinished_dependency (st_tasks s) k = None"
    and s1: "record_evidence E gid n tid actor evs s = Inr s1"
    and ev: "target = TASK_COMPLETED \<Longrightarrow> has_evidence gid n tid s1"
    and nt: "target = TASK_BLOCKED \<Longrightarrow> strip nt \<noteq> []"
    and log: "log_event E 0 ''task.status_changed'' (Some gid) (Some ''task'') (Some tid) pl
      (s1\<lparr>st_tasks := update_where ?hit ?f (st_tasks s1)\<rparr>) = Inr t"
  have kin: "k \<in> set (st_tasks s)" "t_goal_id k = gid" "t_plan_revision k = n" "t_id k = tid"
    using fetchone_Some [OF k] by auto
  have tasks: "st_tasks t = update_where ?hit ?f (st_tasks s)" "st_evidence t = st_evidence s1"
    using log record_evidence_frame [OF s1] by (auto simp: log_event_Inr)
  have same: "filter (\<lambda>u. \<not> ?hit u) (st_tasks t) = filter (\<lambda>u. \<not> ?hit u) (st_tasks s)"
  proof -
    have "filter (\<lambda>u. \<not> ?hit u) (update_where ?hit ?f xs) = filter (\<lambda>u. \<not> ?hit u) xs" for xs
      by (induction xs) (auto simp: update_where_def)
    then show ?thesis unfolding tasks(1) .
  qed
  have deps: "\<forall>d \<in> set (t_depends_on k). \<exists>dep \<in> set (st_tasks s). t_plan_id dep = t_plan_id k \<and> t_id dep = d \<and>
          t_status dep \<in> {TASK_COMPLETED, TASK_OBSOLETE}"
    if "target \<in> {TASK_READY, TASK_IN_PROGRESS, TASK_VERIFYING, TASK_COMPLETED}"
    using unfinished_dependency_None [OF gate [OF that]] by blast
  have status: "t_status u = target" if u: "u \<in> set (st_tasks t)" "?hit u" for u
  proof -
    obtain v where "u = (if ?hit v then ?f v else v)" using u(1) unfolding tasks(1) set_update_where by blast
    with u(2) show ?thesis by (cases "?hit v") simp_all
  qed
  have ev': "target = TASK_COMPLETED \<Longrightarrow> has_evidence gid n tid t"
    using ev tasks(2) by (simp add: has_evidence_append)
  show thesis by (rule that [OF kin mv deps ev' nt status same])
qed

section \<open>Recovery\<close>

lemma recover_inflight_result:
  assumes "recover_inflight E s = Inr (t, r)"
  shows "\<forall>a \<in> set (st_actions t). a_status a \<noteq> ACT_RUNNING"
    and "\<forall>d \<in> set (st_delegations t). d_status d \<noteq> DELEG_IN_PROGRESS"
    and "\<forall>u \<in> set (st_tasks t). \<not> crash_window_task t u"
    and "map a_id (st_actions t) = map a_id (st_actions s)"
    and "set (rr_task_ids r) = t_id ` {u \<in> set (st_tasks s). crash_window_task s u}"
    and "rr_action_ids r = map a_id (filter (\<lambda>a. a_status a = ACT_RUNNING) (st_actions s))"
    and "rr_delegation_ids r = map d_id (filter (\<lambda>d. d_status d = DELEG_IN_PROGRESS) (st_delegations s))"
proof -
  have "\<exists>evs. t = (recovered_store E s)\<lparr>st_events := evs\<rparr> \<and>
      r = \<lparr>rr_task_ids = map t_id (filter (crash_window_task s) (st_tasks s)),
          rr_delegation_ids = map d_id (filter (\<lambda>d. d_status d = DELEG_IN_PROGRESS) (st_delegations s)),
          rr_action_ids = map a_id (filter (\<lambda>a. a_status a = ACT_RUNNING) (st_actions s)),
          rr_goal_ids = recovered_goals s\<rparr>"
    using assms
  proof (rule recover_inflight_steps)
    fix f xs
    assume run: "fold_result (\<lambda>(k, gid). log_event E k ''recovery.performed'' (Some gid) None None f) xs
        (recovered_store E s) = Inr t"
      and r: "r = \<lparr>rr_task_ids = map t_id (filter (crash_window_task s) (st_tasks s)),
          rr_delegation_ids = map d_id (filter (\<lambda>d. d_status d = DELEG_IN_PROGRESS) (st_delegations s)),
          rr_action_ids = map a_id (filter (\<lambda>a. a_status a = ACT_RUNNING) (st_actions s)),
          rr_goal_ids = recovered_goals s\<rparr>"
    from run have "\<exists>evs. t = (recovered_store E s)\<lparr>st_events := evs\<rparr>"
      by (intro fold_log_frame [where k = fst and gid = "\<lambda>x. Some (snd x)" and E = E and xs = xs and
            ety = "\<lambda>_. ''recovery.performed''" and enty = "\<lambda>_. None" and eid = "\<lambda>_. None" and pl = "\<lambda>_. f"])
         (simp add: case_prod_unfold)
    with r show ?thesis by blast
  qed
  then obtain evs where t: "t = (recovered_store E s)\<lparr>st_events := evs\<rparr>"
    and r: "r = \<lparr>rr_task_ids = map t_id (filter (crash_window_task s) (st_tasks s)),
          rr_delegation_ids = map d_id (filter (\<lambda>d. d_status d = DELEG_IN_PROGRESS) (st_delegations s)),
          rr_action_ids = map a_id (filter (\<lambda>a. a_status a = ACT_RUNNING) (st_actions s)),
          rr_goal_ids = recovered_goals s\<rparr>" by blast
  have acts: "st_actions t = update_where (\<lambda>a. a_status a = ACT_RUNNING)
         (\<lambda>a. a\<lparr>a_status := ACT_UNCERTAIN, a_completed_at := Some (now E)\<rparr>) (st_actions s)"
    and dels: "st_delegations t = update_where (\<lambda>d. d_status d = DELEG_IN_PROGRESS)
         (\<lambda>d. d\<lparr>d_status := DELEG_UNCERTAIN, d_updated_at := now E\<rparr>) (st_delegations s)"
    unfolding t recovered_store_def by simp_all
  show 1: "\<forall>a \<in> set (st_actions t). a_status a \<noteq> ACT_RUNNING"
    unfolding acts by (auto simp: set_update_where)
  show 2: "\<forall>d \<in> set (st_delegations t). d_status d \<noteq> DELEG_IN_PROGRESS"
    unfolding dels by (auto simp: set_update_where)
  show "\<forall>u \<in> set (st_tasks t). \<not> crash_window_task t u"
    using 1 2 by (auto simp: crash_window_task_def)
  show "map a_id (st_actions t) = map a_id (st_actions s)"
    unfolding acts by (simp add: map_update_where)
  show "set (rr_task_ids r) = t_id ` {u \<in> set (st_tasks s). crash_window_task s u}"
    "rr_action_ids r = map a_id (filter (\<lambda>a. a_status a = ACT_RUNNING) (st_actions s))"
    "rr_delegation_ids r = map d_id (filter (\<lambda>d. d_status d = DELEG_IN_PROGRESS) (st_delegations s))"
    unfolding r by auto
qed

section \<open>The queue\<close>

lemma working_mode_rejected:
  assumes "enqueue_prompt E sid tx ''working'' s = Inr r"
  shows False
proof -
  have "casefold (strip ''working'') = ''working''" "strip ''working'' = ''working''" by code_simp+
  moreover have "''working'' \<notin> {''plan'', ''normal'', ''ultra''}" by code_simp
  ultimately have bad: "mk_prompt q \<noteq> Inr p" if "q_mode q = ''working''" for q p
    unfolding mk_prompt_Inr Let_def that by simp
  show ?thesis
    using assms unfolding enqueue_prompt_def Let_def
    by (auto simp only: and_then_Inr prod.inject sum.inject map_error_Inr
        \<open>casefold (strip ''working'') = ''working''\<close> bad queued_prompt.simps split: if_splits)
qed

text \<open>What an approval that goes through guarantees.\<close>

lemma approve_plan_gate:
  assumes "reachable P s" and "approve_plan E gid n who expected s = Inr (t, res, a)"
  shows "latest_revision gid s = Some n \<and>
    (\<forall>f. expected = Some f \<longrightarrow> f \<noteq> [] \<longrightarrow> ap_fingerprint a = f) \<and>
    (\<exists>p \<in> set (st_plans t). p_goal_id p = gid \<and> p_revision p = n \<and> p_status p = PLAN_ACCEPTED \<and>
       ap_plan_id a = p_id p \<and>
       ap_fingerprint a = plan_fingerprint P (p_summary p) (stored_tasks t (p_id p))
         (p_applicability p) (p_strategy p) (p_changes p)) \<and>
    (\<exists>g \<in> set (st_goals t). g_id g = gid \<and> g_status g = GOAL_RUNNING \<and> g_active_plan_revision g = Some n) \<and>
    a \<in> set (st_approvals t)"
proof -
  have keys: "keys_ok s" using assms(1) by (rule reachable_keys)
  have ct: "content_ok P t"
    using reachable_content [OF reachable_step [OF assms(1), of "(E, PlanOp (ApprovePlan gid n who expected))"]]
      assms(2) by (auto simp: exec_def)
  from assms(2) show ?thesis
  proof (rule approve_plan_steps)
    fix row goal s4 pl
    assume l: "latest_revision gid s = Some n"
      and row: "fetchone (\<lambda>p. p_goal_id p = gid \<and> p_revision p = n) (st_plans s) = Some row"
      and f: "\<And>f. expected = Some f \<Longrightarrow> f \<noteq> [] \<Longrightarrow> p_fingerprint row = f"
      and goal: "fetchone (\<lambda>g. g_id g = gid) (st_goals s) = Some goal"
      and a: "a = \<lparr>ap_id = fresh E ''approval'' 0, ap_goal_id = gid, ap_plan_id = p_id row,
        ap_revision = n, ap_fingerprint = p_fingerprint row, ap_approved_by = who, ap_approved_at = now E\<rparr>"
      and ins: "insert_approval a (accept_row E gid n who row s) = Inr s4"
      and log: "log_event E 0 ''plan.approved'' (Some gid) (Some ''plan'') (Some (p_id row)) pl s4 = Inr t"
    let ?f = "\<lambda>p. if p_goal_id p = gid \<and> p_status p = PLAN_ACCEPTED
      then p\<lparr>p_status := PLAN_SUPERSEDED, p_updated_at := now E\<rparr> else p"
    let ?r = "(?f row)\<lparr>p_status := PLAN_ACCEPTED, p_accepted_by := Some who,
      p_accepted_at := Some (now E), p_updated_at := now E\<rparr>"
    have rin: "row \<in> set (st_plans s)" "p_goal_id row = gid" "p_revision row = n"
      using fetchone_Some [OF row] by auto
    have tabs: "st_plans t = st_plans (accept_row E gid n who row s)"
      "st_goals t = st_goals (accept_row E gid n who row s)" "a \<in> set (st_approvals t)"
      using ins log by (auto simp: insert_approval_Inr log_event_Inr)
    have r: "?r \<in> set (st_plans t)"
      unfolding tabs(1) accept_row_def using rin(1)
      by (auto simp: set_update_where intro!: rev_image_eqI [of "?f row"])
    have rf: "p_goal_id ?r = gid" "p_revision ?r = n" "p_status ?r = PLAN_ACCEPTED" "p_id ?r = p_id row"
      "p_fingerprint ?r = p_fingerprint row"
      using rin by auto
    have "p_fingerprint ?r = plan_fingerprint P (p_summary ?r) (stored_tasks t (p_id ?r))
         (p_applicability ?r) (p_strategy ?r) (p_changes ?r)"
      using ct r unfolding content_ok_def by blast
    moreover have "\<exists>g \<in> set (st_goals t). g_id g = gid \<and> g_status g = GOAL_RUNNING \<and>
        g_active_plan_revision g = Some n"
    proof -
      define g where "g = goal\<lparr>g_status := GOAL_RUNNING, g_active_plan_revision := Some n, g_updated_at := now E\<rparr>"
      have "g \<in> set (st_goals t)" "g_id g = gid" "g_status g = GOAL_RUNNING" "g_active_plan_revision g = Some n"
        unfolding tabs(2) accept_row_def g_def using fetchone_Some [OF goal] by (auto simp: set_update_where)
      then show ?thesis by blast
    qed
    ultimately show ?thesis using l f r rf tabs(3) a
      by (intro conjI allI impI bexI [OF _ r]) auto
  qed
qed

end
