(* ===== verification/Scenario.thy ===== *)
theory Scenario
  imports Store_Gates
begin

text \<open>
  One concrete run of the journal, used to show that the hypotheses of the properties can
  hold: a goal is created, moved to approval, planned, approved, and its first task started
  with a running action.
\<close>

definition demo_env :: "nat \<Rightarrow> env" where
  "demo_env i = \<lparr>now = int i, fresh = (\<lambda>p k. p @ ''_'' @ nat_str i @ ''_'' @ nat_str k)\<rparr>"

definition demo_platform :: platform where
  "demo_platform = \<lparr>hash_json = (\<lambda>v. case v of JObj kvs \<Rightarrow> concat (map fst kvs) | _ \<Rightarrow> ''x''),
     hash_text = (\<lambda>v. v), repr_of = (\<lambda>v. ''r''),
     int_of = (\<lambda>v. Inl (ValueError ''int'')), dict_of = (\<lambda>v. Inl (ValueError ''dict''))\<rparr>"

definition demo_task :: "string \<Rightarrow> string list \<Rightarrow> task" where
  "demo_task i deps =
     \<lparr>t_id = i, t_title = ''Title'', t_description = ''text'', t_goal_id = [], t_plan_revision = 0,
      t_parent_id = None, t_status = TASK_PENDING, t_depends_on = deps,
      t_acceptance_criteria = [''done''], t_verification = [''test''], t_role = default_role,
      t_mode = ''auto'', t_risk = ''low'', t_priority = 0, t_attempts = 0, t_origin = ''agent'',
      t_metadata = [], t_created_at = 0, t_updated_at = 0\<rparr>"

definition demo_request :: plan_request where
  "demo_request =
     \<lparr>pr_summary = ''summary'', pr_tasks = [TaskObject (demo_task ''a'' []), TaskObject (demo_task ''b'' ['' a ''])],
      pr_applicability = [[(''fact'', JStr ''f''), (''source'', JStr ''x''),
                           (''supports_tasks'', jstrs [''A'', ''b''])]],
      pr_strategy = ''go'', pr_changes = [], pr_proposed_by = ''agent'', pr_submit = True,
      pr_document = None, pr_format_version = 1, pr_edited_by = [], pr_expected_parent = None\<rparr>"

definition demo_goal_id :: string where
  "demo_goal_id = fresh (demo_env 0) ''goal'' 0"

definition demo_created :: store where
  "demo_created = run_store demo_platform
     [(demo_env 0, GoalOp (CreateGoal ''build it'' ''s'' [] [] [])),
      (demo_env 1, GoalOp (TransitionGoal demo_goal_id GOAL_AWAITING_PLAN_APPROVAL [] []))] empty_store"

definition demo_planned :: store where
  "demo_planned = run_store demo_platform
     [(demo_env 2, PlanOp (CreatePlan demo_goal_id demo_request))] demo_created"

definition demo_working :: store where
  "demo_working = run_store demo_platform
     [(demo_env 3, PlanOp (ApprovePlan demo_goal_id 1 ''user'' None)),
      (demo_env 4, WorkOp (TransitionTask demo_goal_id 1 ''A'' TASK_IN_PROGRESS [] [] ''agent'')),
      (demo_env 5, WorkOp (BeginAction demo_goal_id ''write'' [] (Some ''A'') ''low'' True))] demo_planned"

lemma demo_created_reachable: "reachable demo_platform demo_created"
  unfolding demo_created_def reachable_def by blast

lemma demo_planned_reachable: "reachable demo_platform demo_planned"
  unfolding demo_planned_def by (rule reachable_run) (rule demo_created_reachable)

lemma demo_working_reachable: "reachable demo_platform demo_working"
  unfolding demo_working_def by (rule reachable_run) (rule demo_planned_reachable)

text \<open>Executing an operation on a concrete store, and what it returned.\<close>

definition succeeds :: "'e + 'a \<Rightarrow> bool" where
  "succeeds m = (case m of Inl _ \<Rightarrow> False | Inr _ \<Rightarrow> True)"

lemma succeedsE:
  assumes "succeeds m"
  obtains r where "m = Inr r"
  using assms by (cases m) (auto simp: succeeds_def)

lemma demo_plan_succeeds: "succeeds (create_plan demo_platform (demo_env 2) demo_goal_id demo_request demo_created)"
  by code_simp

lemma demo_approve_succeeds: "succeeds (approve_plan (demo_env 3) demo_goal_id 1 ''user'' None demo_planned)"
  by code_simp

lemma demo_task_succeeds:
  "succeeds (transition_task (demo_env 6) demo_goal_id 1 ''A'' TASK_COMPLETED [] [''tests pass''] ''agent'' demo_working)"
  by code_simp

lemma demo_recover_succeeds: "succeeds (recover_inflight (demo_env 7) demo_working)"
  by code_simp

end
