(* ===== verification/Scopes.thy ===== *)
theory Scopes
  imports Json
begin

text \<open>
  \<open>agent/scheduler.py\<close>, first part: resource scopes, their overlap test and the in-process
  lease manager.  \<open>nt\<close> is \<open>os.name == "nt"\<close>.  \<open>PurePosixPath\<close> and \<open>fnmatch.fnmatchcase\<close>
  are modelled for the strings of the model; clock readings are rationals.
\<close>

section \<open>Paths\<close>

definition starts_with :: "string \<Rightarrow> string \<Rightarrow> bool" where
  "starts_with p s = (take (length p) s = p)"

fun split_on :: "char \<Rightarrow> string \<Rightarrow> string list" where
  "split_on c [] = [[]]"
| "split_on c (x # xs) =
     (if x = c then [] # split_on c xs
      else case split_on c xs of [] \<Rightarrow> [[x]] | p # ps \<Rightarrow> (x # p) # ps)"

fun join_with :: "string \<Rightarrow> string list \<Rightarrow> string" where
  "join_with sep [] = []"
| "join_with sep [p] = p"
| "join_with sep (p # q # ps) = p @ sep @ join_with sep (q # ps)"

lemma split_on_free: "c \<notin> set p \<Longrightarrow> split_on c (p @ c # s) = p # split_on c s"
  by (induction p) auto

lemma split_on_one: "c \<notin> set p \<Longrightarrow> split_on c p = [p]"
  by (induction p) auto

text \<open>\<open>str(PurePosixPath(text))\<close>: empty and \<open>.\<close> components go, exactly two leading slashes stay.\<close>

definition posix_root :: "string \<Rightarrow> string" where
  "posix_root s =
     (if starts_with ''//'' s \<and> \<not> starts_with ''///'' s then ''//''
      else if starts_with ''/'' s then ''/'' else [])"

definition posix_path :: "string \<Rightarrow> string" where
  "posix_path s =
     (let parts = filter (\<lambda>p. p \<noteq> [] \<and> p \<noteq> ''.'') (split_on CHR ''/'' s);
          text = posix_root s @ join_with ''/'' parts
      in if text = [] then ''.'' else text)"

definition rstrip_slash :: "string \<Rightarrow> string" where
  "rstrip_slash s = rev (dropWhile (\<lambda>c. c = CHR ''/'') (rev s))"

fun drop_dot_slash :: "string \<Rightarrow> string" where
  "drop_dot_slash (a # b # s) = (if a = CHR ''.'' \<and> b = CHR ''/'' then drop_dot_slash s else a # b # s)"
| "drop_dot_slash s = s"

definition forward_slashes :: "string \<Rightarrow> string" where
  "forward_slashes s = map (\<lambda>c. if c = CHR 0x5C then CHR ''/'' else c) s"

definition scope :: "bool \<Rightarrow> string \<Rightarrow> string" where
  "scope nt value =
     (let text = drop_dot_slash (forward_slashes (strip value));
          path = posix_path (if text = [] then ''.'' else text);
          folded = (if nt then casefold path else path);
          trimmed = rstrip_slash folded
      in if trimmed = [] then ''.'' else trimmed)"

section \<open>Globs\<close>

text \<open>The items of a bracket expression: ranges and single characters.\<close>

fun in_class :: "string \<Rightarrow> char \<Rightarrow> bool" where
  "in_class (a # d # b # cs) x =
     (if d = CHR ''-'' then (a \<le> x \<and> x \<le> b) \<or> in_class cs x
      else x = a \<or> in_class (d # b # cs) x)"
| "in_class (a # cs) x = (x = a \<or> in_class cs x)"
| "in_class [] x = False"

text \<open>
  The text of a bracket expression after its \<open>[\<close> and what follows its closing \<open>]\<close>; a \<open>]\<close> in
  the first place (or after \<open>!\<close>) does not close it.
\<close>

definition split_class :: "string \<Rightarrow> (string \<times> string) option" where
  "split_class s =
     (let neg = (if starts_with ''!'' s then 1 else 0);
          skip = neg + (if starts_with '']'' (drop neg s) then 1 else 0);
          body = takeWhile (\<lambda>c. c \<noteq> CHR '']'') (drop skip s);
          rest = drop (skip + length body) s
      in if rest = [] then None else Some (take (skip + length body) s, tl rest))"

lemma split_class_shorter: "split_class s = Some (body, rest) \<Longrightarrow> length rest < Suc (length s)"
  by (auto simp: split_class_def Let_def split: if_splits)

definition class_matches :: "string \<Rightarrow> char \<Rightarrow> bool" where
  "class_matches body x =
     (case body of c # cs \<Rightarrow> if c = CHR ''!'' then \<not> in_class cs x else in_class body x | [] \<Rightarrow> False)"

function fnmatchcase :: "string \<Rightarrow> string \<Rightarrow> bool" where
  "fnmatchcase s [] = (s = [])"
| "fnmatchcase s (c # ps) =
     (if c = CHR ''*''
      then fnmatchcase s ps \<or> (case s of [] \<Rightarrow> False | _ # xs \<Rightarrow> fnmatchcase xs (c # ps))
      else if c = CHR ''?'' then (case s of [] \<Rightarrow> False | _ # xs \<Rightarrow> fnmatchcase xs ps)
      else if c = CHR ''['' then
        (case split_class ps of
           None \<Rightarrow> (case s of [] \<Rightarrow> False | x # xs \<Rightarrow> x = c \<and> fnmatchcase xs ps)
         | Some (body, rest) \<Rightarrow> (case s of [] \<Rightarrow> False | x # xs \<Rightarrow> class_matches body x \<and> fnmatchcase xs rest))
      else (case s of [] \<Rightarrow> False | x # xs \<Rightarrow> x = c \<and> fnmatchcase xs ps))"
  by pat_completeness auto
termination
  by (relation "measure (\<lambda>(s, p). length s + length p)") (auto dest: split_class_shorter)

section \<open>Overlap\<close>

definition everything :: "string \<Rightarrow> bool" where
  "everything a \<longleftrightarrow> a = ''.'' \<or> a = ''*'' \<or> a = ''**'' \<or> a = ''**/*''"

definition is_glob :: "string \<Rightarrow> bool" where
  "is_glob a \<longleftrightarrow> (\<exists>c \<in> set a. c = CHR ''*'' \<or> c = CHR ''?'' \<or> c = CHR ''['')"

definition literal_prefix :: "string \<Rightarrow> string" where
  "literal_prefix a = rstrip_slash (takeWhile (\<lambda>c. c \<noteq> CHR ''*'' \<and> c \<noteq> CHR ''?'') a)"

definition under :: "string \<Rightarrow> string \<Rightarrow> bool" where
  "under a b = starts_with (b @ ''/'') a"

definition pair_overlap :: "string \<Rightarrow> string \<Rightarrow> bool" where
  "pair_overlap a b \<longleftrightarrow>
     everything a \<or> everything b \<or> a = b \<or> under a b \<or> under b a \<or>
     (is_glob a \<and> fnmatchcase b a) \<or> (is_glob b \<and> fnmatchcase a b) \<or>
     (is_glob a \<and> is_glob b \<and>
       (literal_prefix a = [] \<or> literal_prefix b = [] \<or>
        starts_with (literal_prefix b) (literal_prefix a) \<or>
        starts_with (literal_prefix a) (literal_prefix b)))"

definition scopes_of :: "bool \<Rightarrow> string list \<Rightarrow> string list" where
  "scopes_of nt vs = map (scope nt) (filter (\<lambda>v. strip v \<noteq> []) vs)"

definition scopes_overlap :: "bool \<Rightarrow> string list \<Rightarrow> string list \<Rightarrow> bool" where
  "scopes_overlap nt left right =
     list_ex (\<lambda>a. list_ex (pair_overlap a) (scopes_of nt right)) (scopes_of nt left)"

lemma pair_overlap_sym: "pair_overlap a b = pair_overlap b a"
  by (auto simp: pair_overlap_def)

lemma pair_overlap_refl [simp]: "pair_overlap a a"
  by (simp add: pair_overlap_def)

lemma scopes_overlap_iff:
  "scopes_overlap nt left right \<longleftrightarrow>
     (\<exists>a \<in> set (scopes_of nt left). \<exists>b \<in> set (scopes_of nt right). pair_overlap a b)"
  by (simp add: scopes_overlap_def list_ex_iff)

lemma scopes_overlap_sym: "scopes_overlap nt left right = scopes_overlap nt right left"
  unfolding scopes_overlap_iff by (meson pair_overlap_sym)

lemma scopes_overlap_append:
  "scopes_overlap nt (xs @ ys) zs \<longleftrightarrow> scopes_overlap nt xs zs \<or> scopes_overlap nt ys zs"
  by (auto simp: scopes_overlap_iff scopes_of_def)

lemma scopes_overlap_Nil [simp]: "\<not> scopes_overlap nt [] zs"
  by (simp add: scopes_overlap_def scopes_of_def)

lemma scopes_overlap_common:
  "p \<in> set xs \<Longrightarrow> p \<in> set ys \<Longrightarrow> strip p \<noteq> [] \<Longrightarrow> scopes_overlap nt xs ys"
  unfolding scopes_overlap_iff scopes_of_def
  by (rule bexI [of _ "scope nt p"], rule bexI [of _ "scope nt p"]) simp_all

section \<open>Leases\<close>

record lease =
  ls_owner :: string
  ls_paths :: "string list"
  ls_acquired_at :: rat
  ls_expires_at :: "rat option"

datatype lease_error = LeaseConflictError string string | StaleWriteError string | HookError string

text \<open>
  \<open>_leases\<close> is a dictionary in insertion order.  \<open>hash_reader\<close> reads the current hash of a
  path; \<open>hook\<close> is \<open>on_acquire\<close>, returning the exception it raises.
\<close>

type_synonym leases = "(string \<times> lease) list"

definition expired :: "rat \<Rightarrow> lease \<Rightarrow> bool" where
  "expired t l = (case ls_expires_at l of None \<Rightarrow> False | Some e \<Rightarrow> e \<le> t)"

definition purge_expired :: "rat \<Rightarrow> leases \<Rightarrow> leases" where
  "purge_expired t ls = filter (\<lambda>(owner, l). \<not> expired t l) ls"

definition stale_path :: "bool \<Rightarrow> (string \<Rightarrow> string option) \<Rightarrow> string list \<Rightarrow>
    (string \<times> string option) list \<Rightarrow> string option" where
  "stale_path nt reader normalized expected =
     map_option fst (List.find (\<lambda>(raw, want). scope nt raw \<in> set normalized \<and> reader raw \<noteq> want) expected)"

definition acquire :: "bool \<Rightarrow> (string \<Rightarrow> string option) option \<Rightarrow> (lease \<Rightarrow> string option) option \<Rightarrow>
    rat \<Rightarrow> rat \<Rightarrow> string \<Rightarrow> string list \<Rightarrow> (string \<times> string option) list \<Rightarrow> rat option \<Rightarrow> leases \<Rightarrow>
    leases \<times> (lease_error + lease)" where
  "acquire nt reader hook t1 t2 owner paths expected ttl ls0 =
     (let normalized = sorted_set (scopes_of nt paths);
          ls = purge_expired t1 ls0
      in case List.find (\<lambda>(other, l). other \<noteq> owner \<and> scopes_overlap nt normalized (ls_paths l)) ls of
           Some (other, l) \<Rightarrow> (ls, Inl (LeaseConflictError owner other))
         | None \<Rightarrow>
           (case (case reader of None \<Rightarrow> None | Some r \<Rightarrow> stale_path nt r normalized expected) of
              Some raw \<Rightarrow> (ls, Inl (StaleWriteError raw))
            | None \<Rightarrow>
              (let l = \<lparr>ls_owner = owner, ls_paths = normalized, ls_acquired_at = t2,
                        ls_expires_at = map_option (\<lambda>d. t2 + d) ttl\<rparr>;
                   ls1 = AList.update owner l ls
               in case (case hook of None \<Rightarrow> None | Some h \<Rightarrow> h l) of
                    None \<Rightarrow> (ls1, Inr l)
                  | Some e \<Rightarrow> (AList.delete owner ls1, Inl (HookError e)))))"

definition release_lease :: "string \<Rightarrow> leases \<Rightarrow> leases" where
  "release_lease owner ls = AList.delete owner ls"

definition active_leases :: "rat \<Rightarrow> leases \<Rightarrow> leases \<times> lease list" where
  "active_leases t ls = (let ls1 = purge_expired t ls in (ls1, sort_key ls_owner (map snd ls1)))"

text \<open>Exclusion: leases of different owners are disjoint, and a lease is filed under its owner.\<close>

definition leases_ok :: "bool \<Rightarrow> leases \<Rightarrow> bool" where
  "leases_ok nt ls \<longleftrightarrow>
     distinct (map fst ls) \<and>
     (\<forall>(o1, l1) \<in> set ls. ls_owner l1 = o1 \<and>
        (\<forall>(o2, l2) \<in> set ls. o1 \<noteq> o2 \<longrightarrow> \<not> scopes_overlap nt (ls_paths l1) (ls_paths l2)))"

datatype lease_op =
    Acquire "(string \<Rightarrow> string option) option" "(lease \<Rightarrow> string option) option" rat rat string
      "string list" "(string \<times> string option) list" "rat option"
  | Release string
  | Active rat

primrec exec_lease :: "bool \<Rightarrow> lease_op \<Rightarrow> leases \<Rightarrow> lease_error + leases" where
  "exec_lease nt (Acquire r h t1 t2 owner paths expected ttl) ls =
     Inr (fst (acquire nt r h t1 t2 owner paths expected ttl ls))"
| "exec_lease nt (Release owner) ls = Inr (release_lease owner ls)"
| "exec_lease nt (Active t) ls = Inr (fst (active_leases t ls))"

lemma leases_ok_subset:
  "leases_ok nt ls \<Longrightarrow> set ks \<subseteq> set ls \<Longrightarrow> distinct (map fst ks) \<Longrightarrow> leases_ok nt ks"
  unfolding leases_ok_def by blast

lemma distinct_map_fst_filter: "distinct (map fst xs) \<Longrightarrow> distinct (map fst (filter P xs))"
  by (rule distinct_map_filter)

lemma purge_ok: "leases_ok nt ls \<Longrightarrow> leases_ok nt (purge_expired t ls)"
proof (rule leases_ok_subset)
  assume "leases_ok nt ls"
  then show "leases_ok nt ls" "distinct (map fst (purge_expired t ls))"
    unfolding purge_expired_def leases_ok_def by (auto intro: distinct_map_fst_filter)
qed (auto simp: purge_expired_def)

lemma release_ok: "leases_ok nt ls \<Longrightarrow> leases_ok nt (AList.delete owner ls)"
proof (rule leases_ok_subset)
  assume "leases_ok nt ls"
  then show "leases_ok nt ls" "distinct (map fst (AList.delete owner ls))"
    by (simp_all add: leases_ok_def distinct_delete)
qed (auto simp: AList.delete_eq)

lemma acquire_ok:
  assumes ok: "leases_ok nt ls" and run: "acquire nt r h t1 t2 owner paths expected ttl ls = (ls', res)"
  shows "leases_ok nt ls'"
proof -
  let ?ls = "purge_expired t1 ls"
  let ?norm = "sorted_set (scopes_of nt paths)"
  have p: "leases_ok nt ?ls" using ok by (rule purge_ok)
  show ?thesis
  proof (cases "List.find (\<lambda>(other, l). other \<noteq> owner \<and> scopes_overlap nt ?norm (ls_paths l)) ?ls")
    case (Some x)
    with run p show ?thesis by (auto simp: acquire_def Let_def split: prod.splits)
  next
    case None
    let ?l = "\<lparr>ls_owner = owner, ls_paths = ?norm, ls_acquired_at = t2, ls_expires_at = map_option (\<lambda>d. t2 + d) ttl\<rparr>"
    have free: "\<not> scopes_overlap nt ?norm (ls_paths l)" if "(other, l) \<in> set ?ls" "other \<noteq> owner" for other l
      using None that by (auto simp: find_None_iff)
    have "leases_ok nt (AList.update owner ?l ?ls)"
      unfolding leases_ok_def
    proof (intro conjI ballI)
      show "distinct (map fst (AList.update owner ?l ?ls))"
        using p by (simp add: leases_ok_def distinct_update)
      fix x assume "x \<in> set (AList.update owner ?l ?ls)"
      moreover have mem: "y = (owner, ?l) \<or> fst y \<noteq> owner \<and> y \<in> set ?ls" if "y \<in> set (AList.update owner ?l ?ls)" for y
      proof -
        have "map_of (AList.update owner ?l ?ls) (fst y) = Some (snd y)"
          using that p by (intro map_of_is_SomeI) (simp_all add: leases_ok_def distinct_update)
        then show ?thesis by (cases y) (auto simp: update_conv' split: if_splits dest: map_of_SomeD)
      qed
      ultimately have x: "x = (owner, ?l) \<or> fst x \<noteq> owner \<and> x \<in> set ?ls" by blast
      have "ls_owner (snd x) = fst x" using x p by (auto simp: leases_ok_def)
      moreover have "\<not> scopes_overlap nt (ls_paths (snd x)) (ls_paths (snd y))"
        if m: "y \<in> set (AList.update owner ?l ?ls)" "fst x \<noteq> fst y" for y
      proof -
        note y = mem [OF m(1)]
        consider "x = (owner, ?l)" "fst y \<noteq> owner" "y \<in> set ?ls" | "y = (owner, ?l)" "fst x \<noteq> owner" "x \<in> set ?ls"
          | "x \<in> set ?ls" "y \<in> set ?ls" using x y m(2) by auto
        then show ?thesis
        proof cases
          case 1
          then show ?thesis using free [of "fst y" "snd y"] by simp
        next
          case 2
          then show ?thesis using free [of "fst x" "snd x"] scopes_overlap_sym [of nt ?norm] by simp
        next
          case 3
          then show ?thesis using p m(2) unfolding leases_ok_def case_prod_unfold by blast
        qed
      qed
      ultimately show "case x of (o1, l1) \<Rightarrow> ls_owner l1 = o1 \<and>
          (\<forall>(o2, l2) \<in> set (AList.update owner ?l ?ls). o1 \<noteq> o2 \<longrightarrow> \<not> scopes_overlap nt (ls_paths l1) (ls_paths l2))"
        unfolding case_prod_unfold by blast
    qed
    with None run p release_ok [OF this, of owner] show ?thesis
      by (auto simp: acquire_def Let_def split: option.splits)
  qed
qed

interpretation lease_manager: op_invariant "exec_lease nt" "leases_ok nt"
proof
  fix s p t assume "leases_ok nt s" "exec_lease nt p s = Inr t"
  then show "leases_ok nt t"
    by (cases p) (auto simp: release_lease_def active_leases_def Let_def
        intro: acquire_ok release_ok purge_ok prod.collapse [symmetric])
qed

lemma leases_exclusive: "leases_ok nt (run_ops (exec_lease nt) ops [])"
  by (rule lease_manager.run_inv) (simp add: leases_ok_def)

lemma acquire_conflict:
  assumes "(other, l) \<in> set (purge_expired t1 ls)" "other \<noteq> owner"
    and "scopes_overlap nt (sorted_set (scopes_of nt paths)) (ls_paths l)"
  shows "\<exists>o'. snd (acquire nt r h t1 t2 owner paths expected ttl ls) = Inl (LeaseConflictError owner o')"
proof -
  have "List.find (\<lambda>(other, l). other \<noteq> owner \<and> scopes_overlap nt (sorted_set (scopes_of nt paths)) (ls_paths l))
      (purge_expired t1 ls) \<noteq> None"
    using assms by (auto simp: find_None_iff)
  then show ?thesis by (auto simp: acquire_def Let_def split: option.splits)
qed

end
