(* ===== verification/Plan_Document.thy ===== *)
theory Plan_Document
  imports Store_Plans Scopes
begin

text \<open>
  \<open>agent/plan_document.py\<close>: the Markdown text of a plan, which a user may edit, and the parser
  that reads it back.  A line number counts from one; \<open>PlanDocumentError\<close> carries the problem and
  its line.  The closures \<open>section\<close>, \<open>visit\<close> and \<open>pipe_items\<close> of the parser are functions of their
  own, which take what they read of the enclosing scope as arguments.
\<close>

section \<open>Rendering\<close>

definition rstrip :: "string \<Rightarrow> string" where
  "rstrip s = rev (lstrip (rev s))"

definition newline :: string where
  "newline = [CHR 0x0A]"

definition or_dash :: "string \<Rightarrow> string" where
  "or_dash s = (if s = [] then ''-'' else s)"

definition task_lines :: "task \<Rightarrow> string list" where
  "task_lines t =
     [''## Task '' @ t_id t, ''Title: '' @ t_title t,
      ''Risk: '' @ (if t_risk t = [] then ''medium'' else t_risk t),
      ''Depends on: '' @ or_dash (join_with '', '' (t_depends_on t)),
      [], ''### Description'', strip (t_description t),
      [], ''### Acceptance''] @ map (\<lambda>item. ''- '' @ item) (t_acceptance_criteria t) @
     [[], ''### Verification''] @ map (\<lambda>item. ''- '' @ item) (t_verification t) @ [[]]"

text \<open>One entry of the last two sections; \<open>None\<close> when \<open>supports_tasks\<close> cannot be iterated.\<close>

definition pipe_line :: "(json \<Rightarrow> string) \<Rightarrow> string \<Rightarrow> string \<Rightarrow> string \<Rightarrow> json_obj \<Rightarrow> string option" where
  "pipe_line repr key dflt text_key item =
     map_option (\<lambda>ids.
        ''- '' @ py_str repr (get_or (JStr dflt) item key) @ '' | '' @
        py_str repr (get_or (JStr []) item text_key) @ '' | tasks='' @
        or_dash (join_with '','' (map (py_str repr) ids)))
       (py_iter (get_or (JArr []) item ''supports_tasks''))"

definition change_lines :: "(json \<Rightarrow> string) \<Rightarrow> json_obj list \<Rightarrow> string list option" where
  "change_lines repr items = those (map (pipe_line repr ''path'' ''<resolved during execution>'' ''intent'') items)"

definition evidence_lines :: "(json \<Rightarrow> string) \<Rightarrow> json_obj list \<Rightarrow> string list option" where
  "evidence_lines repr items = those (map (pipe_line repr ''source'' ''workspace inspection'' ''fact'') items)"

definition plan_lines :: "plan \<Rightarrow> string list \<Rightarrow> string list \<Rightarrow> string list" where
  "plan_lines p changes evidence =
     [''# Project Plan'', [], ''## Summary'', strip (p_summary p), []] @
     concat (map task_lines (p_tasks p)) @
     [''## Execution strategy'', strip (p_strategy p), []] @
     [''## Expected changes''] @ changes @ [[], ''## Applicability evidence''] @ evidence"

definition render_plan_document :: "(json \<Rightarrow> string) \<Rightarrow> plan \<Rightarrow> string option" where
  "render_plan_document repr p =
     (case (change_lines repr (p_changes p), evidence_lines repr (p_applicability p)) of
        (Some changes, Some evidence) \<Rightarrow> Some (rstrip (join_with newline (plan_lines p changes evidence)) @ newline)
      | _ \<Rightarrow> None)"

section \<open>Lines and headings\<close>

text \<open>\<open>text.replace("\r\n", "\n")\<close>; \<open>str.splitlines\<close> takes such a pair as one break again.\<close>

fun join_crlf :: "string \<Rightarrow> string" where
  "join_crlf (a # b # s) =
     (if a = CHR 0x0D \<and> b = CHR 0x0A then CHR 0x0A # join_crlf s else a # join_crlf (b # s))"
| "join_crlf s = s"

definition is_line_break :: "char \<Rightarrow> bool" where
  "is_line_break c = (let n = (of_char c :: nat) in (10 \<le> n \<and> n \<le> 13) \<or> (28 \<le> n \<and> n \<le> 30) \<or> n = 133)"

fun break_lines :: "string \<Rightarrow> string list" where
  "break_lines [] = []"
| "break_lines (c # s) =
     (if is_line_break c then [] # break_lines s
      else case break_lines s of [] \<Rightarrow> [[c]] | l # ls \<Rightarrow> (c # l) # ls)"

definition splitlines :: "string \<Rightarrow> string list" where
  "splitlines s = break_lines (join_crlf s)"

definition document_lines :: "string \<Rightarrow> string list" where
  "document_lines text = splitlines (join_crlf text)"

definition headings_from :: "nat \<Rightarrow> string list \<Rightarrow> (nat \<times> string) list" where
  "headings_from k lines =
     map (\<lambda>(i, l). (i, strip l)) (filter (\<lambda>(i, l). starts_with ''## '' l) (enumerate k lines))"

definition is_task_title :: "string \<Rightarrow> bool" where
  "is_task_title title = starts_with ''## Task '' title"

text \<open>\<open>special[title]\<close>: of equal headings the last one counts.\<close>

definition special :: "(nat \<times> string) list \<Rightarrow> string \<Rightarrow> nat option" where
  "special headings title =
     map_of (rev (map (\<lambda>(i, t). (t, i)) (filter (\<lambda>(_, t). \<not> is_task_title t) headings))) title"

text \<open>\<open>lines[start + 1 : end]\<close>.\<close>

definition slice :: "string list \<Rightarrow> nat \<Rightarrow> nat \<Rightarrow> string list" where
  "slice lines start end = drop (start + 1) (take end lines)"

definition section_text :: "string list \<Rightarrow> nat \<Rightarrow> nat \<Rightarrow> string" where
  "section_text lines start end = strip (join_with newline (slice lines start end))"

section \<open>Errors\<close>

datatype document_problem =
    SummaryNotFirst
  | MissingSection string
  | EmptySummary
  | BadTaskIdText
  | DuplicateTaskId string
  | BadRiskText
  | IncompleteTask string
  | NoTasks
  | UnknownTasks string "string list"
  | DependencyCycleTrail "string list"
  | EmptyStrategy
  | EntryWithoutDash
  | MalformedEntry
  | UnknownEntryTask
  | EmptySection
  | DocumentKeyError string

datatype document_error = PlanDocumentError document_problem nat

definition raise_at :: "document_problem \<Rightarrow> nat \<Rightarrow> document_error + 'a" where
  "raise_at problem line = Inl (PlanDocumentError problem (max 1 line))"

section \<open>Tasks\<close>

text \<open>
  \<open>re.match(r"^(Title|Risk|Depends on):\s*(.*)$", line, re.I)\<close>: the field, in lower case, and its
  value.
\<close>

definition match_field :: "string \<Rightarrow> (string \<times> string) option" where
  "match_field s =
     map_option (\<lambda>name. (name, strip (drop (length name + 1) s)))
       (List.find (\<lambda>name. starts_with (name @ '':'') (casefold s)) [''title'', ''risk'', ''depends on''])"

definition subsection_titles :: "string list" where
  "subsection_titles = [''### Description'', ''### Acceptance'', ''### Verification'']"

record block_state =
  bs_fields :: "(string \<times> string) list"
  bs_subsections :: "(string \<times> string list) list"
  bs_active :: string

definition empty_block :: block_state where
  "empty_block =
     \<lparr>bs_fields = [], bs_subsections = [(''description'', []), (''acceptance'', []), (''verification'', [])],
      bs_active = []\<rparr>"

definition bullet_text :: "string \<Rightarrow> string" where
  "bullet_text s = (if starts_with ''- '' s then strip (drop 2 s) else s)"

definition read_line :: "string \<Rightarrow> block_state \<Rightarrow> block_state" where
  "read_line line b =
     (let stripped = strip line in
      if stripped \<in> set subsection_titles then b\<lparr>bs_active := casefold (drop 4 stripped)\<rparr>
      else case (if bs_active b = [] then match_field stripped else None) of
        Some (name, value) \<Rightarrow> b\<lparr>bs_fields := AList.update name value (bs_fields b)\<rparr>
      | None \<Rightarrow>
        if bs_active b \<noteq> [] \<and> stripped \<noteq> []
        then b\<lparr>bs_subsections := AList.map_entry (bs_active b) (\<lambda>vs. vs @ [bullet_text stripped]) (bs_subsections b)\<rparr>
        else b)"

definition subsection_of :: "block_state \<Rightarrow> string \<Rightarrow> string list" where
  "subsection_of b key = (case map_of (bs_subsections b) key of Some vs \<Rightarrow> vs | None \<Rightarrow> [])"

definition field_of :: "block_state \<Rightarrow> string \<Rightarrow> string \<Rightarrow> string" where
  "field_of b key dflt = (case map_of (bs_fields b) key of Some v \<Rightarrow> v | None \<Rightarrow> dflt)"

text \<open>The identifiers of a comma-separated list; blank items and a dash stand for none.\<close>

definition id_list :: "string \<Rightarrow> string list" where
  "id_list text =
     map (\<lambda>item. upper (strip item))
       (filter (\<lambda>item. strip item \<noteq> [] \<and> strip item \<noteq> ''-'') (split_on CHR '','' text))"

record parsed_task =
  pt_id :: string
  pt_title :: string
  pt_description :: string
  pt_risk :: string
  pt_depends_on :: "string list"
  pt_acceptance_criteria :: "string list"
  pt_verification :: "string list"

definition block_end :: "(nat \<times> string) list \<Rightarrow> nat \<Rightarrow> nat \<Rightarrow> nat" where
  "block_end headings strategy start =
     (let candidates = map fst (filter (\<lambda>(v, name). start < v \<and> (v = strategy \<or> is_task_title name)) headings)
      in if candidates = [] then strategy else Min (set candidates))"

definition parse_task :: "string list \<Rightarrow> (nat \<times> string) list \<Rightarrow> nat \<Rightarrow> string list \<Rightarrow> nat \<times> string \<Rightarrow>
    document_error + parsed_task" where
  "parse_task lines headings strategy known = (\<lambda>(start, title).
     (let task_id = upper (strip (drop (length ''## Task '') title)) in
      if \<not> is_upper_id task_id then raise_at BadTaskIdText (start + 1)
      else if task_id \<in> set known then raise_at (DuplicateTaskId task_id) (start + 1)
      else
        let b = fold read_line (slice lines start (block_end headings strategy start)) empty_block;
            risk = casefold (field_of b ''risk'' ''medium'');
            title_value = strip (field_of b ''title'' []);
            description = strip (join_with newline (subsection_of b ''description''));
            acceptance = subsection_of b ''acceptance'';
            verification = subsection_of b ''verification''
        in if risk \<notin> {''low'', ''medium'', ''high'', ''critical''} then raise_at BadRiskText (start + 1)
           else if title_value = [] \<or> description = [] \<or> acceptance = [] \<or> verification = []
           then raise_at (IncompleteTask task_id) (start + 1)
           else Inr \<lparr>pt_id = task_id, pt_title = title_value, pt_description = description, pt_risk = risk,
                     pt_depends_on = id_list (field_of b ''depends on'' ''-''),
                     pt_acceptance_criteria = acceptance, pt_verification = verification\<rparr>))"

text \<open>The tasks in order, each with the line of its heading (\<open>task_lines\<close>).\<close>

fun parse_tasks :: "string list \<Rightarrow> (nat \<times> string) list \<Rightarrow> nat \<Rightarrow> string list \<Rightarrow> (nat \<times> string) list \<Rightarrow>
    document_error + (parsed_task \<times> nat) list" where
  "parse_tasks lines headings strategy known [] = Inr []"
| "parse_tasks lines headings strategy known (h # hs) =
     and_then (parse_task lines headings strategy known h) (\<lambda>t.
     and_then (parse_tasks lines headings strategy (pt_id t # known) hs) (\<lambda>ts. Inr ((t, fst h + 1) # ts)))"

section \<open>Dependencies\<close>

fun check_known :: "string list \<Rightarrow> (parsed_task \<times> nat) list \<Rightarrow> document_error + unit" where
  "check_known known [] = Inr ()"
| "check_known known ((t, line) # ts) =
     (let unknown = filter (\<lambda>d. d \<notin> set known) (pt_depends_on t) in
      if unknown \<noteq> [] then raise_at (UnknownTasks (pt_id t) unknown) line else check_known known ts)"

lemma unvisited_decreases:
  assumes "map_of deps x = Some ds" "x \<notin> set trail"
  shows "card (fst ` set deps - insert x (set trail)) < card (fst ` set deps - set trail)"
proof -
  have "x \<in> fst ` set deps" using assms(1) by (force dest: map_of_SomeD)
  then show ?thesis using assms(2) by (intro psubset_card_mono) auto
qed

text \<open>
  \<open>visit\<close>: the set \<open>visiting\<close> holds the tasks of \<open>trail\<close> at every call (a task enters both
  before its dependencies are visited and leaves both after them), so one argument stands for both.
  The set \<open>visited\<close> is the list of the tasks in the order they are finished.
\<close>

function visit :: "(string \<times> string list) list \<Rightarrow> (string \<Rightarrow> nat) \<Rightarrow> string list \<Rightarrow> string \<Rightarrow> string list \<Rightarrow>
      document_error + string list"
  and visit_all :: "(string \<times> string list) list \<Rightarrow> (string \<Rightarrow> nat) \<Rightarrow> string list \<Rightarrow> string list \<Rightarrow> string list \<Rightarrow>
      document_error + string list" where
  "visit deps line_of trail x visited =
     (if x \<in> set trail
      then raise_at (DependencyCycleTrail (dropWhile (\<lambda>y. y \<noteq> x) trail @ [x])) (line_of x)
      else if x \<in> set visited then Inr visited
      else case map_of deps x of
        None \<Rightarrow> raise_at (DocumentKeyError x) 1
      | Some ds \<Rightarrow> and_then (visit_all deps line_of (trail @ [x]) ds visited) (\<lambda>v. Inr (v @ [x])))"
| "visit_all deps line_of trail [] visited = Inr visited"
| "visit_all deps line_of trail (d # ds) visited =
     and_then (visit deps line_of trail d visited) (\<lambda>v. visit_all deps line_of trail ds v)"
  by pat_completeness auto
termination
  by (relation "inv_image (less_than <*lex*> less_than) (\<lambda>c. case c of
        Inl (deps, _, trail, x, _) \<Rightarrow> (card (fst ` set deps - set trail), 0)
      | Inr (deps, _, trail, ds, _) \<Rightarrow> (card (fst ` set deps - set trail), Suc (length ds)))")
     (auto dest: unvisited_decreases)

declare visit.simps [simp del]

section \<open>Lists of entries\<close>

definition entry_dict :: "bool \<Rightarrow> string \<Rightarrow> string \<Rightarrow> string list \<Rightarrow> json_obj" where
  "entry_dict evidence left text supports =
     (if evidence then [(''source'', JStr left), (''fact'', JStr text), (''supports_tasks'', jstrs supports)]
      else [(''path'', JStr left), (''intent'', JStr text), (''supports_tasks'', jstrs supports)])"

fun entry_parts :: "string list \<Rightarrow> (string \<times> string \<times> string) option" where
  "entry_parts [l, t, s] = Some (l, t, s)"
| "entry_parts _ = None"

definition parse_entry :: "bool \<Rightarrow> string list \<Rightarrow> nat \<Rightarrow> string \<Rightarrow> document_error + json_obj" where
  "parse_entry evidence known index stripped =
     (if \<not> starts_with ''- '' stripped then raise_at EntryWithoutDash index
      else case entry_parts (map strip (split_on CHR ''|'' (drop 2 stripped))) of
        None \<Rightarrow> raise_at MalformedEntry index
      | Some (left, text, tasks) \<Rightarrow>
        if \<not> starts_with ''tasks='' (casefold tasks) then raise_at MalformedEntry index
        else let supports = id_list (tl (dropWhile (\<lambda>c. c \<noteq> CHR ''='') tasks)) in
          if \<not> set supports \<subseteq> set known then raise_at UnknownEntryTask index
          else Inr (entry_dict evidence left text supports))"

fun parse_entries :: "bool \<Rightarrow> string list \<Rightarrow> nat \<Rightarrow> string list \<Rightarrow> document_error + json_obj list" where
  "parse_entries evidence known index [] = Inr []"
| "parse_entries evidence known index (line # lines) =
     (let stripped = strip line in
      if stripped = [] then parse_entries evidence known (Suc index) lines
      else and_then (parse_entry evidence known index stripped) (\<lambda>e.
           and_then (parse_entries evidence known (Suc index) lines) (\<lambda>es. Inr (e # es))))"

definition pipe_items :: "string list \<Rightarrow> string list \<Rightarrow> nat \<Rightarrow> nat \<Rightarrow> bool \<Rightarrow> document_error + json_obj list" where
  "pipe_items lines known start end evidence =
     and_then (parse_entries evidence known (start + 2) (slice lines start end)) (\<lambda>es.
     if es = [] then raise_at EmptySection (start + 1) else Inr es)"

section \<open>The document\<close>

record parsed_document =
  dc_summary :: string
  dc_tasks :: "parsed_task list"
  dc_strategy :: string
  dc_changes :: "json_obj list"
  dc_evidence :: "json_obj list"

definition required_sections :: "string list" where
  "required_sections =
     [''## Summary'', ''## Execution strategy'', ''## Expected changes'', ''## Applicability evidence'']"

text \<open>After the sections have been found: \<open>summary_at\<close> and so on are their lines.\<close>

definition parse_sections :: "string list \<Rightarrow> (nat \<times> string) list \<Rightarrow> nat \<Rightarrow> nat \<Rightarrow> nat \<Rightarrow> nat \<Rightarrow>
    document_error + parsed_document" where
  "parse_sections lines headings summary_at strategy_at changes_at evidence_at =
     (let task_starts = filter (\<lambda>(_, t). is_task_title t) headings;
          summary_end = (case task_starts of [] \<Rightarrow> strategy_at | h # _ \<Rightarrow> fst h);
          summary = section_text lines summary_at summary_end
      in if summary = [] then raise_at EmptySummary (summary_at + 1)
      else and_then (parse_tasks lines headings strategy_at [] task_starts) (\<lambda>tasks.
      if tasks = [] then raise_at NoTasks (summary_end + 1)
      else let known = map (pt_id \<circ> fst) tasks;
               deps = map (\<lambda>(t, _). (pt_id t, pt_depends_on t)) tasks;
               line_of = (\<lambda>x. case map_of (map (\<lambda>(t, n). (pt_id t, n)) tasks) x of Some n \<Rightarrow> n | None \<Rightarrow> 1)
      in
      and_then (check_known known tasks) (\<lambda>_.
      and_then (visit_all deps line_of [] known []) (\<lambda>_.
      let strategy = section_text lines strategy_at changes_at in
      if strategy = [] then raise_at EmptyStrategy (strategy_at + 1)
      else
      and_then (pipe_items lines known changes_at evidence_at False) (\<lambda>changes.
      and_then (pipe_items lines known evidence_at (length lines) True) (\<lambda>evidence.
      Inr \<lparr>dc_summary = summary, dc_tasks = map fst tasks, dc_strategy = strategy,
           dc_changes = changes, dc_evidence = evidence\<rparr>))))))"

definition parse_plan_document :: "string \<Rightarrow> document_error + parsed_document" where
  "parse_plan_document text =
     (let lines = document_lines text; headings = headings_from 0 lines in
      if headings = [] \<or> snd (hd headings) \<noteq> ''## Summary'' then raise_at SummaryNotFirst 1
      else case List.find (\<lambda>t. special headings t = None) required_sections of
        Some title \<Rightarrow> raise_at (MissingSection title) (length lines)
      | None \<Rightarrow>
        parse_sections lines headings (the (special headings ''## Summary''))
          (the (special headings ''## Execution strategy'')) (the (special headings ''## Expected changes''))
          (the (special headings ''## Applicability evidence'')))"

end
