(* ===== verification/Plan_Text.thy ===== *)
theory Plan_Text
  imports Plan_Document
begin

text \<open>
  The text of a plan document: what its lines, its identifier lists and its entries read back as.
  These are the pieces of the round trip of \<open>Plan_Roundtrip\<close>.
\<close>

section \<open>Stripped text\<close>

lemma strip_ends: "strip s = s \<Longrightarrow> s \<noteq> [] \<Longrightarrow> \<not> is_py_space (hd s) \<and> \<not> is_py_space (last s)"
  using hd_strip [of s] last_strip [of s] by simp

lemma lstrip_space [simp]: "is_py_space c \<Longrightarrow> lstrip (c # s) = lstrip s"
  by (simp add: lstrip_def)

lemma rstrip_spaces: "list_all is_py_space w \<Longrightarrow> lstrip (rev (s @ w)) = lstrip (rev s)"
  unfolding lstrip_def rev_append by (rule dropWhile_append2) (auto simp: list_all_iff)

lemma strip_space_left [simp]: "is_py_space c \<Longrightarrow> strip (c # s) = strip s"
  by (simp add: strip_def)

lemma strip_spaces_right:
  assumes "list_all is_py_space w"
  shows "strip (s @ w) = strip s"
proof (cases "list_all is_py_space s")
  case True
  then have "blank s" "blank (s @ w)" using assms by (simp_all add: blank_def)
  then show ?thesis by (metis strip_empty_iff)
next
  case False
  then have "lstrip (s @ w) = lstrip s @ w"
    unfolding lstrip_def list_all_iff by (metis dropWhile_append1)
  then show ?thesis using rstrip_spaces [OF assms, of "lstrip s"] by (simp add: strip_def)
qed

lemma is_space_simps [simp]: "is_py_space CHR '' ''" "is_py_space CHR 0x0A"
  by (simp_all add: is_py_space_def)

lemma strip_between:
  "\<not> is_py_space c \<Longrightarrow> strip s = s \<Longrightarrow> s \<noteq> [] \<Longrightarrow> strip (c # p @ s) = c # p @ s"
  using strip_ends [of s] by (intro strip_fixed) auto

lemma rstrip_id: "s \<noteq> [] \<Longrightarrow> \<not> is_py_space (last s) \<Longrightarrow> rstrip s = s"
  by (simp add: rstrip_def lstrip_def dropWhile_id hd_rev)

section \<open>Lines\<close>

definition one_line :: "string \<Rightarrow> bool" where
  "one_line s \<longleftrightarrow> list_all (\<lambda>c. \<not> is_line_break c) s"

lemma one_line_simps [simp]:
  "one_line []" "one_line (c # s) \<longleftrightarrow> \<not> is_line_break c \<and> one_line s"
  "one_line (s @ t) \<longleftrightarrow> one_line s \<and> one_line t"
  by (simp_all add: one_line_def)

lemma line_break_newline [simp]: "is_line_break CHR 0x0A" "is_line_break CHR 0x0D"
  by (simp_all add: is_line_break_def)

lemma join_crlf_id: "CHR 0x0D \<notin> set s \<Longrightarrow> join_crlf s = s"
  by (induction s rule: join_crlf.induct) auto

lemma break_lines_append: "one_line s \<Longrightarrow> break_lines (s @ newline @ t) = s # break_lines t"
  by (induction s) (auto simp: newline_def)

lemma break_lines_join:
  "list_all one_line ls \<Longrightarrow> ls \<noteq> [] \<Longrightarrow> break_lines (join_with newline ls @ newline) = ls"
proof (induction newline ls rule: join_with.induct)
  case (2 l)
  then show ?case using break_lines_append [of l "[]"] by simp
next
  case (3 l m ls)
  then show ?case using break_lines_append [of l "join_with newline (m # ls) @ newline"] by simp
qed simp

lemma in_join: "c \<in> set (join_with sep ls) \<Longrightarrow> c \<in> set sep \<or> (\<exists>l \<in> set ls. c \<in> set l)"
  by (induction sep ls rule: join_with.induct) auto

lemma document_lines_join:
  assumes "list_all one_line ls" "ls \<noteq> []"
  shows "document_lines (join_with newline ls @ newline) = ls"
proof -
  have "CHR 0x0D \<notin> set l" if "one_line l" for l
    using that by (auto simp: one_line_def list_all_iff)
  then have "CHR 0x0D \<notin> set (join_with newline ls @ newline)"
    using assms(1) by (auto simp: list_all_iff newline_def dest!: in_join)
  then show ?thesis
    using break_lines_join [OF assms] by (simp add: document_lines_def splitlines_def join_crlf_id)
qed

lemma join_append:
  "xs \<noteq> [] \<Longrightarrow> ys \<noteq> [] \<Longrightarrow> join_with sep (xs @ ys) = join_with sep xs @ sep @ join_with sep ys"
proof (induction sep xs rule: join_with.induct)
  case (2 sep p)
  then show ?case by (cases ys) auto
qed auto

lemma join_last:
  assumes "xs \<noteq> []" "last xs \<noteq> []"
  shows "join_with sep xs \<noteq> [] \<and> last (join_with sep xs) = last (last xs)"
proof (cases "butlast xs = []")
  case True
  then have "xs = [last xs]" using assms(1) by (metis append_butlast_last_id append_Nil)
  then have "join_with sep xs = last xs" by (metis join_with.simps(2))
  then show ?thesis using assms by simp
next
  case False
  then have "join_with sep xs = join_with sep (butlast xs) @ sep @ last xs"
    using join_append [OF False, of "[last xs]"] assms(1) by simp
  then show ?thesis using assms by simp
qed

lemma split_on_not_Nil [simp]: "split_on c s \<noteq> []"
  by (cases s) (auto split: list.splits)

lemma join_split: "join_with [c] (split_on c s) = s"
proof (induction s)
  case (Cons x s)
  obtain p ps where "split_on c s = p # ps" by (cases "split_on c s") auto
  with Cons show ?case by (cases ps) auto
qed simp

lemma join_expand:
  "join_with newline (xs @ [s] @ ys) = join_with newline (xs @ split_on CHR 0x0A s @ ys)"
proof -
  have s: "join_with newline (split_on CHR 0x0A s) = s" by (simp add: newline_def join_split)
  have r: "join_with newline ([s] @ ys) = join_with newline (split_on CHR 0x0A s @ ys)"
    using s by (cases ys) (simp_all add: join_append)
  show ?thesis using r by (cases "xs = []") (simp_all add: join_append)
qed

text \<open>The text of a section is what was written there.\<close>

lemma section_text_written:
  assumes "slice lines a b = split_on CHR 0x0A s @ [[]]" "strip s = s"
  shows "section_text lines a b = s"
proof -
  have "join_with newline (split_on CHR 0x0A s @ [[]]) = s @ newline"
    by (simp add: join_append newline_def join_split)
  then show ?thesis using assms strip_spaces_right [of newline s]
    by (simp add: section_text_def newline_def)
qed

section \<open>Identifiers\<close>

definition id_char :: "char \<Rightarrow> bool" where
  "id_char c \<longleftrightarrow> is_upper_letter c \<or> is_digit c \<or> c \<in> set ''_.-''"

lemma id_char_facts:
  "id_char c \<Longrightarrow> \<not> is_py_space c" "id_char c \<Longrightarrow> \<not> is_line_break c" "id_char c \<Longrightarrow> char_upper c = c"
  "id_char c \<Longrightarrow> c \<noteq> CHR '',''" "id_char c \<Longrightarrow> c \<noteq> CHR ''|''"
  unfolding id_char_def is_upper_letter_def is_digit_def is_py_space_def is_line_break_def char_upper_def Let_def
  by (auto simp del: of_char_eq_iff)

lemma upper_id_chars: "is_upper_id s \<Longrightarrow> list_all id_char s \<and> s \<noteq> [] \<and> s \<noteq> ''-''"
  by (auto simp: is_upper_id_def id_char_def list_all_iff is_upper_letter_def is_digit_def split: list.splits)

lemma upper_id_facts:
  assumes "is_upper_id s"
  shows "strip s = s" "upper s = s" "one_line s" "s \<noteq> []" "s \<noteq> ''-''" "CHR '','' \<notin> set s" "CHR ''|'' \<notin> set s"
proof -
  have c: "\<And>c. c \<in> set s \<Longrightarrow> id_char c" and ne: "s \<noteq> []" "s \<noteq> ''-''"
    using upper_id_chars [OF assms] by (auto simp: list_all_iff)
  then show "strip s = s" using id_char_facts(1) by (intro strip_fixed) auto
  show "upper s = s" using c id_char_facts(3) by (simp add: upper_def map_idI)
  show "one_line s" using c id_char_facts(2) by (auto simp: one_line_def list_all_iff)
  show "CHR '','' \<notin> set s" "CHR ''|'' \<notin> set s" using c id_char_facts(4,5) by blast+
  show "s \<noteq> []" "s \<noteq> ''-''" by (fact ne)+
qed

lemma id_list_Cons:
  assumes "is_upper_id i"
  shows "id_list (i @ CHR '','' # s) = i # id_list s" "id_list i = [i]"
  using upper_id_facts [OF assms] by (simp_all add: id_list_def split_on_free split_on_one)

lemma id_list_space: "id_list (CHR '' '' # s) = id_list s"
proof -
  obtain p ps where "split_on CHR '','' s = p # ps" by (cases "split_on CHR '','' s") auto
  then show ?thesis by (simp add: id_list_def)
qed

lemma id_list_join:
  "list_all is_upper_id ids \<Longrightarrow> id_list (or_dash (join_with '','' ids)) = ids"
  "list_all is_upper_id ids \<Longrightarrow> id_list (or_dash (join_with '', '' ids)) = ids"
proof -
  have dash: "id_list ''-'' = []" by code_simp
  have ne: "join_with sep (x # xs) \<noteq> []" if "is_upper_id x" for sep x xs
    using upper_id_facts(4) [OF that] by (cases xs) auto
  show "list_all is_upper_id ids \<Longrightarrow> id_list (or_dash (join_with '','' ids)) = ids"
    by (induction "'',''" ids rule: join_with.induct) (auto simp: dash or_dash_def ne id_list_Cons upper_id_facts)
  show "list_all is_upper_id ids \<Longrightarrow> id_list (or_dash (join_with '', '' ids)) = ids"
    by (induction "'', ''" ids rule: join_with.induct)
      (auto simp: dash or_dash_def ne id_list_Cons id_list_space upper_id_facts)
qed

lemma join_ends:
  "list_all (\<lambda>x. x \<noteq> []) xs \<Longrightarrow> xs \<noteq> [] \<Longrightarrow>
     join_with sep xs \<noteq> [] \<and> hd (join_with sep xs) = hd (hd xs) \<and> last (join_with sep xs) = last (last xs)"
  by (induction sep xs rule: join_with.induct) auto

lemma or_dash_join:
  assumes ids: "list_all is_upper_id ids" and sep: "sep \<in> {'','', '', ''}"
  shows "strip (or_dash (join_with sep ids)) = or_dash (join_with sep ids)"
    "or_dash (join_with sep ids) \<noteq> []" "one_line (or_dash (join_with sep ids))"
    "CHR ''|'' \<notin> set (or_dash (join_with sep ids))"
proof -
  show "or_dash (join_with sep ids) \<noteq> []" by (simp add: or_dash_def)
  have s: "one_line sep" "CHR ''|'' \<notin> set sep" using sep by (auto simp: is_line_break_def)
  have dash: "one_line ''-''" "strip ''-'' = ''-''" by (code_simp, code_simp)
  show "one_line (or_dash (join_with sep ids))"
    using ids s dash upper_id_facts(3)
    by (auto simp: or_dash_def one_line_def list_all_iff dest!: in_join)
  show "CHR ''|'' \<notin> set (or_dash (join_with sep ids))"
    using ids s upper_id_facts(7) by (auto simp: or_dash_def list_all_iff dest!: in_join)
  show "strip (or_dash (join_with sep ids)) = or_dash (join_with sep ids)"
  proof (cases "ids = []")
    case True
    then show ?thesis by (simp add: or_dash_def dash)
  next
    case False
    have i: "\<not> is_py_space (hd i) \<and> \<not> is_py_space (last i)" if "i \<in> set ids" for i
      using ids that upper_id_facts(1,4) by (metis list_all_iff strip_ends)
    have "list_all (\<lambda>x. x \<noteq> []) ids" using ids upper_id_facts(4) by (auto simp: list_all_iff)
    from join_ends [OF this False, of sep] i False show ?thesis
      by (simp add: or_dash_def strip_fixed)
  qed
qed

end
