(* ===== verification/Plan_Walk.thy ===== *)
theory Plan_Walk
  imports Plan_Document
begin

text \<open>
  The depth-first walk over the dependencies of a plan document: when it succeeds it has listed every
  task after its dependencies, so there is no cycle; when it reports a cycle, the tasks it names form
  one.
\<close>

definition depends :: "(string \<times> string list) list \<Rightarrow> (string \<times> string) set" where
  "depends deps = {(x, d). \<exists>ds. map_of deps x = Some ds \<and> d \<in> set ds}"

text \<open>Every listed task has an entry and stands after its dependencies.\<close>

definition finished :: "(string \<times> string list) list \<Rightarrow> string list \<Rightarrow> bool" where
  "finished deps vs \<longleftrightarrow>
     distinct vs \<and> (\<forall>xs x ys. vs = xs @ x # ys \<longrightarrow> (\<exists>ds. map_of deps x = Some ds \<and> set ds \<subseteq> set xs))"

lemma finished_Nil [simp]: "finished deps []"
  by (simp add: finished_def)

lemma finished_snoc:
  "finished deps vs \<Longrightarrow> x \<notin> set vs \<Longrightarrow> map_of deps x = Some ds \<Longrightarrow> set ds \<subseteq> set vs \<Longrightarrow> finished deps (vs @ [x])"
  unfolding finished_def
  by (auto simp: append_eq_append_conv2 Cons_eq_append_conv append_eq_Cons_conv) blast

lemma visit_finished:
  "visit deps line_of trail x visited = Inr v \<Longrightarrow> finished deps visited \<Longrightarrow> set visited \<inter> set trail = {} \<Longrightarrow>
     finished deps v \<and> set v \<inter> set trail = {} \<and> insert x (set visited) \<subseteq> set v"
  "visit_all deps line_of trail ds visited = Inr v \<Longrightarrow> finished deps visited \<Longrightarrow> set visited \<inter> set trail = {} \<Longrightarrow>
     finished deps v \<and> set v \<inter> set trail = {} \<and> set ds \<union> set visited \<subseteq> set v"
proof (induction deps line_of trail x visited and deps line_of trail ds visited arbitrary: v and v
    rule: visit_visit_all.induct)
  case (1 deps line_of trail x visited)
  have out: "x \<notin> set trail"
    using 1(2) by (auto simp: visit.simps raise_at_def)
  show ?case
  proof (cases "x \<in> set visited")
    case True
    then show ?thesis using 1(2-4) out by (simp add: visit.simps insert_absorb)
  next
    case False
    obtain ds w where ds: "map_of deps x = Some ds" and w: "visit_all deps line_of (trail @ [x]) ds visited = Inr w"
      and v: "v = w @ [x]"
      using 1(2) out False by (auto simp: visit.simps raise_at_def and_then_Inr split: option.splits)
    have "finished deps w \<and> set w \<inter> set (trail @ [x]) = {} \<and> set ds \<union> set visited \<subseteq> set w"
      using 1(1) [OF out False ds w] 1(3,4) False by simp
    then show ?thesis using finished_snoc [of deps w x ds] ds out unfolding v by auto
  qed
next
  case (2 deps line_of trail visited)
  then show ?case by simp
next
  case (3 deps line_of trail d ds visited)
  from 3(3) obtain w where w: "visit deps line_of trail d visited = Inr w"
    "visit_all deps line_of trail ds w = Inr v"
    by (auto simp: and_then_Inr)
  from 3(1) [OF w(1) 3(4,5)] 3(2) [OF w(2)] show ?case by auto
qed

lemma split_at_first:
  "x \<notin> set as \<Longrightarrow> takeWhile (\<lambda>y. y \<noteq> x) (as @ x # bs) = as"
  "x \<notin> set as \<Longrightarrow> dropWhile (\<lambda>y. y \<noteq> x) (as @ x # bs) = x # bs"
  by (induction as) auto

text \<open>A finished list orders its tasks, so the dependencies among them have no cycle.\<close>

lemma finished_acyclic:
  assumes fin: "finished deps vs" and all: "Domain (depends deps) \<subseteq> set vs"
  shows "acyclic (depends deps)"
proof -
  have "(d, x) \<in> measure (\<lambda>x. length (takeWhile (\<lambda>y. y \<noteq> x) vs))" if e: "(x, d) \<in> depends deps" for x d
  proof -
    have "x \<in> set vs" using all e by blast
    then obtain xs ys where vs: "vs = xs @ x # ys" "x \<notin> set xs" by (metis split_list_first)
    then have "d \<in> set xs" using fin e by (fastforce simp: finished_def depends_def)
    then obtain as bs where xs: "xs = as @ d # bs" "d \<notin> set as" by (metis split_list_first)
    have "takeWhile (\<lambda>y. y \<noteq> x) vs = xs" using vs by (simp add: split_at_first)
    moreover have "takeWhile (\<lambda>y. y \<noteq> d) vs = as" using vs(1) xs by (simp add: split_at_first)
    ultimately show ?thesis using xs by simp
  qed
  then have "(depends deps)\<inverse> \<subseteq> measure (\<lambda>x. length (takeWhile (\<lambda>y. y \<noteq> x) vs))" by auto
  then have "acyclic ((depends deps)\<inverse>)" by (rule acyclic_subset [OF wf_acyclic [OF wf_measure]])
  then show ?thesis by simp
qed

lemma walk_acyclic:
  assumes "visit_all deps line_of [] (map fst deps) [] = Inr v"
  shows "acyclic (depends deps)"
proof -
  have v: "finished deps v" "set (map fst deps) \<subseteq> set v"
    using visit_finished(2) [OF assms] by simp_all
  have "Domain (depends deps) \<subseteq> set (map fst deps)"
    by (auto simp: depends_def dest!: map_of_SomeD intro: rev_image_eqI)
  then show ?thesis using v finished_acyclic by blast
qed

section \<open>The cycle that is reported\<close>

text \<open>Each task of a chain depends on the next one.\<close>

fun chain :: "(string \<times> string list) list \<Rightarrow> string list \<Rightarrow> bool" where
  "chain deps (x # y # zs) = ((x, y) \<in> depends deps \<and> chain deps (y # zs))"
| "chain deps zs = True"

lemma chain_append: "chain deps (xs @ [x]) \<Longrightarrow> (x, y) \<in> depends deps \<Longrightarrow> chain deps (xs @ [x, y])"
  by (induction xs rule: induct_list012) auto

lemma chain_suffix: "chain deps (xs @ ys) \<Longrightarrow> chain deps ys"
  by (induction deps xs rule: chain.induct) (auto elim: chain.elims)

definition is_cycle :: "(string \<times> string list) list \<Rightarrow> string list \<Rightarrow> bool" where
  "is_cycle deps c \<longleftrightarrow> 2 \<le> length c \<and> hd c = last c \<and> chain deps c"

lemma chain_trancl: "chain deps (x # zs) \<Longrightarrow> zs \<noteq> [] \<Longrightarrow> (x, last zs) \<in> (depends deps)\<^sup>+"
proof (induction zs arbitrary: x)
  case (Cons y zs)
  then show ?case by (cases zs) (auto intro: trancl_into_trancl2)
qed simp

lemma cycle_not_acyclic: "is_cycle deps c \<Longrightarrow> \<not> acyclic (depends deps)"
proof
  assume c: "is_cycle deps c" and ac: "acyclic (depends deps)"
  obtain x y zs where xs: "c = x # y # zs" using c by (cases c; cases "tl c") (auto simp: is_cycle_def)
  then have "last (y # zs) = x" "chain deps (x # y # zs)" using c by (auto simp: is_cycle_def)
  then have "(x, x) \<in> (depends deps)\<^sup>+" using chain_trancl [of deps x "y # zs"] by simp
  then show False using ac by (simp add: acyclic_def)
qed

lemma reported_trail:
  assumes "chain deps (trail @ [x])" "x \<in> set trail"
  shows "is_cycle deps (dropWhile (\<lambda>y. y \<noteq> x) trail @ [x])"
proof -
  obtain as bs where t: "trail = as @ x # bs" "x \<notin> set as" using assms(2) by (metis split_list_first)
  then have "dropWhile (\<lambda>y. y \<noteq> x) trail = x # bs" by (simp add: split_at_first)
  moreover have "chain deps (x # bs @ [x])" using assms(1) t chain_suffix [of deps as "x # bs @ [x]"] by simp
  ultimately show ?thesis by (simp add: is_cycle_def)
qed

lemma visit_cycle:
  "visit deps line_of trail x visited = Inl (PlanDocumentError (DependencyCycleTrail c) n) \<Longrightarrow>
     chain deps (trail @ [x]) \<Longrightarrow> is_cycle deps c"
  "visit_all deps line_of trail ds visited = Inl (PlanDocumentError (DependencyCycleTrail c) n) \<Longrightarrow>
     (\<And>d. d \<in> set ds \<Longrightarrow> chain deps (trail @ [d])) \<Longrightarrow> is_cycle deps c"
proof (induction deps line_of trail x visited and deps line_of trail ds visited
    rule: visit_visit_all.induct)
  case (1 deps line_of trail x visited)
  show ?case
  proof (cases "x \<in> set trail")
    case True
    then show ?thesis using 1(2,3) reported_trail by (auto simp: visit.simps raise_at_def)
  next
    case False
    then obtain ds where new: "x \<notin> set visited" and ds: "map_of deps x = Some ds"
      and all: "visit_all deps line_of (trail @ [x]) ds visited = Inl (PlanDocumentError (DependencyCycleTrail c) n)"
      using 1(2) by (auto simp: visit.simps raise_at_def and_then_def split: if_splits option.splits sum.splits)
    have "chain deps ((trail @ [x]) @ [d])" if "d \<in> set ds" for d
      using chain_append [OF 1(3), of d] that ds by (auto simp: depends_def)
    then show ?thesis by (rule 1(1) [OF False new ds all])
  qed
next
  case (3 deps line_of trail d ds visited)
  show ?case
  proof (cases "visit deps line_of trail d visited")
    case (Inl e)
    then show ?thesis using 3 by simp
  next
    case (Inr w)
    then show ?thesis using 3 by simp
  qed
qed simp

section \<open>When the walk succeeds\<close>

definition closed_table :: "(string \<times> string list) list \<Rightarrow> bool" where
  "closed_table deps \<longleftrightarrow> (\<forall>(x, ds) \<in> set deps. set ds \<subseteq> fst ` set deps)"

lemma visit_error:
  assumes "closed_table deps"
  shows "visit deps line_of trail x visited = Inl e \<Longrightarrow> x \<in> fst ` set deps \<Longrightarrow>
      \<exists>c n. e = PlanDocumentError (DependencyCycleTrail c) n"
    "visit_all deps line_of trail ds visited = Inl e \<Longrightarrow> set ds \<subseteq> fst ` set deps \<Longrightarrow>
      \<exists>c n. e = PlanDocumentError (DependencyCycleTrail c) n"
  using assms
proof (induction deps line_of trail x visited and deps line_of trail ds visited
    rule: visit_visit_all.induct)
  case (1 deps line_of trail x visited)
  show ?case
  proof (cases "x \<in> set trail \<or> x \<in> set visited")
    case True
    then show ?thesis using 1(2) by (auto simp: visit.simps raise_at_def split: if_splits)
  next
    case False
    obtain ds where ds: "map_of deps x = Some ds"
      using 1(3) by (metis map_of_eq_None_iff option.exhaust)
    have err: "visit_all deps line_of (trail @ [x]) ds visited = Inl e"
      using 1(2) False ds by (auto simp: visit.simps and_then_def split: sum.splits)
    have "set ds \<subseteq> fst ` set deps" using 1(4) map_of_SomeD [OF ds] by (auto simp: closed_table_def)
    then show ?thesis using 1(1) False ds err 1(4) by blast
  qed
next
  case (3 deps line_of trail d ds visited)
  then show ?case by (cases "visit deps line_of trail d visited") auto
qed simp

lemma walk_succeeds:
  assumes "closed_table deps" "acyclic (depends deps)"
  shows "\<exists>v. visit_all deps line_of [] (map fst deps) [] = Inr v"
proof (cases "visit_all deps line_of [] (map fst deps) []")
  case (Inl e)
  then obtain c n where "e = PlanDocumentError (DependencyCycleTrail c) n"
    using visit_error(2) [OF assms(1) Inl] by auto
  then have "is_cycle deps c" using visit_cycle(2) [of deps line_of "[]" "map fst deps" "[]" c n] Inl by simp
  then show ?thesis using assms(2) cycle_not_acyclic by blast
qed simp

text \<open>The walk over a list of tasks decides whether their dependencies are acyclic.\<close>

lemma walk_iff:
  assumes "closed_table deps"
  shows "(\<exists>v. visit_all deps line_of [] (map fst deps) [] = Inr v) \<longleftrightarrow> acyclic (depends deps)"
  using walk_succeeds [OF assms] walk_acyclic by blast

end
