(* ===== verification/Plan_Roundtrip.thy ===== *)
theory Plan_Roundtrip
  imports Plan_Text Plan_Walk
begin

text \<open>
  The parser reads back what the renderer wrote, for plans whose texts survive the Markdown: the
  fields of a task on one line and not looking like markup, the summary and the strategy free of
  second-level headings, the entries of the last two sections without a bar.
\<close>

section \<open>Plans that survive\<close>

definition clean_line :: "string \<Rightarrow> bool" where
  "clean_line s \<longleftrightarrow> one_line s \<and> strip s = s \<and> s \<noteq> []"

definition clean_text :: "string \<Rightarrow> bool" where
  "clean_text s \<longleftrightarrow>
     strip s = s \<and> s \<noteq> [] \<and> list_all (\<lambda>l. one_line l \<and> \<not> starts_with ''## '' l) (split_on CHR 0x0A s)"

definition clean_task :: "task \<Rightarrow> bool" where
  "clean_task t \<longleftrightarrow>
     is_upper_id (t_id t) \<and> clean_line (t_title t) \<and>
     clean_line (t_description t) \<and> \<not> starts_with ''## '' (t_description t) \<and>
     \<not> starts_with ''- '' (t_description t) \<and> t_description t \<notin> set subsection_titles \<and>
     t_risk t \<in> {''low'', ''medium'', ''high'', ''critical''} \<and> list_all is_upper_id (t_depends_on t) \<and>
     t_acceptance_criteria t \<noteq> [] \<and> list_all clean_line (t_acceptance_criteria t) \<and>
     t_verification t \<noteq> [] \<and> list_all clean_line (t_verification t)"

definition parsed_of :: "task \<Rightarrow> parsed_task" where
  "parsed_of t =
     \<lparr>pt_id = t_id t, pt_title = t_title t, pt_description = t_description t, pt_risk = t_risk t,
      pt_depends_on = t_depends_on t, pt_acceptance_criteria = t_acceptance_criteria t,
      pt_verification = t_verification t\<rparr>"

text \<open>The texts and the supported tasks of an entry, when they are strings.\<close>

definition entry_fields :: "string \<Rightarrow> string \<Rightarrow> json_obj \<Rightarrow> (string \<times> string \<times> string list) option" where
  "entry_fields key text_key item =
     (case (obj_get item key, obj_get item text_key, obj_get item ''supports_tasks'') of
        (Some (JStr l), Some (JStr t), Some (JArr ids)) \<Rightarrow>
          if list_all (\<lambda>v. case v of JStr _ \<Rightarrow> True | _ \<Rightarrow> False) ids
          then Some (l, t, map (\<lambda>v. case v of JStr i \<Rightarrow> i | _ \<Rightarrow> []) ids) else None
      | _ \<Rightarrow> None)"

definition clean_cell :: "string \<Rightarrow> bool" where
  "clean_cell s \<longleftrightarrow> one_line s \<and> strip s = s \<and> CHR ''|'' \<notin> set s"

definition clean_entry :: "string list \<Rightarrow> string \<Rightarrow> string \<Rightarrow> json_obj \<Rightarrow> bool" where
  "clean_entry known key text_key item \<longleftrightarrow>
     (case entry_fields key text_key item of
        Some (l, t, ids) \<Rightarrow> clean_cell l \<and> clean_cell t \<and> list_all is_upper_id ids \<and> set ids \<subseteq> set known
      | None \<Rightarrow> False)"

definition entry_of :: "bool \<Rightarrow> json_obj \<Rightarrow> json_obj" where
  "entry_of evidence item =
     (case (if evidence then entry_fields ''source'' ''fact'' item else entry_fields ''path'' ''intent'' item) of
        Some (l, t, ids) \<Rightarrow> entry_dict evidence l t ids | None \<Rightarrow> [])"

definition clean_plan :: "plan \<Rightarrow> bool" where
  "clean_plan p \<longleftrightarrow>
     (let ids = map t_id (p_tasks p) in
      clean_text (p_summary p) \<and> clean_text (p_strategy p) \<and> p_tasks p \<noteq> [] \<and>
      list_all clean_task (p_tasks p) \<and>
      p_changes p \<noteq> [] \<and> list_all (clean_entry ids ''path'' ''intent'') (p_changes p) \<and>
      p_applicability p \<noteq> [] \<and> list_all (clean_entry ids ''source'' ''fact'') (p_applicability p))"

definition document_of :: "plan \<Rightarrow> parsed_document" where
  "document_of p =
     \<lparr>dc_summary = p_summary p, dc_tasks = map parsed_of (p_tasks p), dc_strategy = p_strategy p,
      dc_changes = map (entry_of False) (p_changes p), dc_evidence = map (entry_of True) (p_applicability p)\<rparr>"

lemma parsed_of_simps [simp]: "pt_id (parsed_of t) = t_id t" "pt_depends_on (parsed_of t) = t_depends_on t"
  by (simp_all add: parsed_of_def)

section \<open>The block of a task\<close>

lemma map_entry_twice: "AList.map_entry k f (AList.map_entry k g al) = AList.map_entry k (\<lambda>v. f (g v)) al"
  by (induction al) auto

lemma map_entry_id: "AList.map_entry k (\<lambda>v. v) al = al"
  by (induction al) auto

lemma starts_with_simps [simp]:
  "starts_with [] s" "starts_with (c # p) (d # s) \<longleftrightarrow> c = d \<and> starts_with p s" "\<not> starts_with (c # p) []"
  by (auto simp: starts_with_def)

lemma starts_with_append [simp]: "starts_with p (p @ s)"
  by (simp add: starts_with_def)

lemma casefold_simps [simp]: "casefold [] = []" "casefold (c # s) = char_lower c # casefold s"
  by (simp_all add: casefold_def)

lemma read_field:
  assumes "bs_active b = []" "strip v = v" "v \<noteq> []"
  shows "read_line (''Title: '' @ v) b = b\<lparr>bs_fields := AList.update ''title'' v (bs_fields b)\<rparr>"
    "read_line (''Risk: '' @ v) b = b\<lparr>bs_fields := AList.update ''risk'' v (bs_fields b)\<rparr>"
    "read_line (''Depends on: '' @ v) b = b\<lparr>bs_fields := AList.update ''depends on'' v (bs_fields b)\<rparr>"
proof -
  have "\<not> is_py_space CHR ''T''" "\<not> is_py_space CHR ''R''" "\<not> is_py_space CHR ''D''"
    by (simp_all add: is_py_space_def)
  then have s: "strip (''Title: '' @ v) = ''Title: '' @ v" "strip (''Risk: '' @ v) = ''Risk: '' @ v"
    "strip (''Depends on: '' @ v) = ''Depends on: '' @ v"
    using strip_between [OF _ assms(2,3), of _ "''itle: ''"] strip_between [OF _ assms(2,3), of _ "''isk: ''"]
      strip_between [OF _ assms(2,3), of _ "''epends on: ''"] by auto
  have fold: "casefold (''Title: '' @ v) = ''title: '' @ casefold v" "casefold (''Risk: '' @ v) = ''risk: '' @ casefold v"
    "casefold (''Depends on: '' @ v) = ''depends on: '' @ casefold v"
    unfolding casefold_def map_append by (code_simp, code_simp, code_simp)
  have m: "match_field (''Title: '' @ v) = Some (''title'', v)"
    "match_field (''Risk: '' @ v) = Some (''risk'', v)"
    "match_field (''Depends on: '' @ v) = Some (''depends on'', v)"
    unfolding match_field_def fold using assms(2) by simp_all
  show "read_line (''Title: '' @ v) b = b\<lparr>bs_fields := AList.update ''title'' v (bs_fields b)\<rparr>"
    "read_line (''Risk: '' @ v) b = b\<lparr>bs_fields := AList.update ''risk'' v (bs_fields b)\<rparr>"
    "read_line (''Depends on: '' @ v) b = b\<lparr>bs_fields := AList.update ''depends on'' v (bs_fields b)\<rparr>"
    unfolding read_line_def s Let_def m using assms(1) by (simp_all add: subsection_titles_def)
qed

lemma read_blank: "read_line [] b = b"
  by (simp add: read_line_def match_field_def subsection_titles_def)

lemma read_title:
  "read_line ''### Description'' b = b\<lparr>bs_active := ''description''\<rparr>"
  "read_line ''### Acceptance'' b = b\<lparr>bs_active := ''acceptance''\<rparr>"
  "read_line ''### Verification'' b = b\<lparr>bs_active := ''verification''\<rparr>"
proof -
  have s: "strip ''### Description'' = ''### Description''" "strip ''### Acceptance'' = ''### Acceptance''"
    "strip ''### Verification'' = ''### Verification''"
    "casefold (drop 4 ''### Description'') = ''description''" "casefold (drop 4 ''### Acceptance'') = ''acceptance''"
    "casefold (drop 4 ''### Verification'') = ''verification''"
    by code_simp+
  show "read_line ''### Description'' b = b\<lparr>bs_active := ''description''\<rparr>"
    "read_line ''### Acceptance'' b = b\<lparr>bs_active := ''acceptance''\<rparr>"
    "read_line ''### Verification'' b = b\<lparr>bs_active := ''verification''\<rparr>"
    unfolding read_line_def Let_def s by (simp_all add: subsection_titles_def)
qed

lemma strip_bullet: "clean_line i \<Longrightarrow> strip (''- '' @ i) = ''- '' @ i"
  using strip_between [of "CHR ''-''" i "'' ''"] by (simp add: clean_line_def is_py_space_def)

lemma read_text:
  assumes "bs_active b \<noteq> []" "clean_line i"
  shows "i \<notin> set subsection_titles \<Longrightarrow> \<not> starts_with ''- '' i \<Longrightarrow>
      read_line i b = b\<lparr>bs_subsections := AList.map_entry (bs_active b) (\<lambda>vs. vs @ [i]) (bs_subsections b)\<rparr>"
    "read_line (''- '' @ i) b = b\<lparr>bs_subsections := AList.map_entry (bs_active b) (\<lambda>vs. vs @ [i]) (bs_subsections b)\<rparr>"
proof -
  have i: "strip i = i" "i \<noteq> []" using assms(2) by (auto simp: clean_line_def)
  show "i \<notin> set subsection_titles \<Longrightarrow> \<not> starts_with ''- '' i \<Longrightarrow>
      read_line i b = b\<lparr>bs_subsections := AList.map_entry (bs_active b) (\<lambda>vs. vs @ [i]) (bs_subsections b)\<rparr>"
    using assms(1) i by (simp add: read_line_def Let_def bullet_text_def)
  have n: "''- '' @ i \<notin> set subsection_titles" by (simp add: subsection_titles_def)
  show "read_line (''- '' @ i) b = b\<lparr>bs_subsections := AList.map_entry (bs_active b) (\<lambda>vs. vs @ [i]) (bs_subsections b)\<rparr>"
    unfolding read_line_def Let_def strip_bullet [OF assms(2)] using assms(1) n i
    by (simp add: bullet_text_def)
qed

lemma read_bullets:
  "bs_active b \<noteq> [] \<Longrightarrow> list_all clean_line items \<Longrightarrow> fold read_line (map (\<lambda>item. ''- '' @ item) items) b =
     b\<lparr>bs_subsections := AList.map_entry (bs_active b) (\<lambda>vs. vs @ items) (bs_subsections b)\<rparr>"
proof (induction items arbitrary: b)
  case Nil
  then show ?case by (simp add: map_entry_id)
next
  case (Cons i items)
  then show ?case using read_text(2) [of b i] by (simp add: map_entry_twice)
qed

lemma block_read:
  assumes "clean_task t"
  shows "fold read_line (tl (task_lines t)) empty_block =
     \<lparr>bs_fields = [(''title'', t_title t), (''risk'', t_risk t), (''depends on'', or_dash (join_with '', '' (t_depends_on t)))],
      bs_subsections = [(''description'', [t_description t]), (''acceptance'', t_acceptance_criteria t),
                        (''verification'', t_verification t)],
      bs_active = ''verification''\<rparr>"
proof -
  have t: "strip (t_title t) = t_title t" "t_title t \<noteq> []" "clean_line (t_description t)" "t_risk t \<noteq> []"
    "t_description t \<notin> set subsection_titles" "\<not> starts_with ''- '' (t_description t)"
    "list_all clean_line (t_acceptance_criteria t)" "list_all clean_line (t_verification t)"
    "list_all is_upper_id (t_depends_on t)" "strip (t_description t) = t_description t"
    using assms by (auto simp: clean_task_def clean_line_def)
  have r: "strip (t_risk t) = t_risk t"
  proof -
    have "strip ''low'' = ''low''" "strip ''medium'' = ''medium''" "strip ''high'' = ''high''"
      "strip ''critical'' = ''critical''" by code_simp+
    then show ?thesis using assms by (auto simp: clean_task_def)
  qed
  note d = or_dash_join [OF t(9), of "'', ''"]
  show ?thesis
    unfolding task_lines_def t(10)
    using t r d by (simp add: empty_block_def read_field read_blank read_title read_text(1) read_bullets
        del: append.simps)
qed

section \<open>Headings\<close>

lemma headings_append: "headings_from k (xs @ ys) = headings_from k xs @ headings_from (k + length xs) ys"
  by (simp add: headings_from_def enumerate_append_eq)

lemma headings_none: "list_all (\<lambda>l. \<not> starts_with ''## '' l) xs \<Longrightarrow> headings_from k xs = []"
  by (auto simp: headings_from_def list_all_iff filter_empty_conv in_set_enumerate_eq)

lemma headings_Cons:
  "headings_from k (x # xs) = (if starts_with ''## '' x then [(k, strip x)] else []) @ headings_from (Suc k) xs"
  by (simp add: headings_from_def)

lemma headings_range: "(v, name) \<in> set (headings_from k xs) \<Longrightarrow> k \<le> v \<and> v < k + length xs"
  by (auto simp: headings_from_def in_set_enumerate_eq)

lemma task_title_strip: "is_upper_id i \<Longrightarrow> strip (''## Task '' @ i) = ''## Task '' @ i"
  using strip_between [of "CHR ''#''" i "''# Task ''"] upper_id_facts [of i] by (simp add: is_py_space_def)

lemma task_headings:
  assumes "clean_task t"
  shows "headings_from k (task_lines t) = [(k, ''## Task '' @ t_id t)]"
proof -
  have t: "is_upper_id (t_id t)" "\<not> starts_with ''## '' (t_description t)" "strip (t_description t) = t_description t"
    using assms by (auto simp: clean_task_def clean_line_def)
  have b: "list_all (\<lambda>l. \<not> starts_with ''## '' l) (map (\<lambda>item. ''- '' @ item) items)" for items :: "string list"
    by (simp add: list_all_iff)
  show ?thesis
    using t(2) task_title_strip [OF t(1)]
    by (simp add: task_lines_def t(3) headings_append headings_Cons headings_none [OF b, simplified] headings_none)
qed

fun task_offsets :: "nat \<Rightarrow> task list \<Rightarrow> (nat \<times> string) list" where
  "task_offsets k [] = []"
| "task_offsets k (t # ts) = (k, ''## Task '' @ t_id t) # task_offsets (k + length (task_lines t)) ts"

lemma tasks_headings:
  "list_all clean_task ts \<Longrightarrow> headings_from k (concat (map task_lines ts)) = task_offsets k ts"
  by (induction ts arbitrary: k) (simp_all add: headings_append task_headings headings_none)

lemma task_offsets_range:
  "(v, name) \<in> set (task_offsets k ts) \<Longrightarrow> k \<le> v \<and> v < k + length (concat (map task_lines ts)) \<and> is_task_title name"
  by (induction ts arbitrary: k) (auto simp: is_task_title_def task_lines_def, fastforce+)

section \<open>One task\<close>

lemma block_end_next:
  assumes next_in: "(n, name) \<in> set headings" "start < n" "n = strategy \<or> is_task_title name"
    and least: "\<And>v name'. (v, name') \<in> set headings \<Longrightarrow> v = strategy \<or> is_task_title name' \<Longrightarrow> v \<le> start \<or> n \<le> v"
  shows "block_end headings strategy start = n"
proof -
  define cs where "cs = map fst (filter (\<lambda>(v, name). start < v \<and> (v = strategy \<or> is_task_title name)) headings)"
  have n: "n \<in> set cs" using next_in by (force simp: cs_def)
  have "n \<le> v" if "v \<in> set cs" for v using that least by (fastforce simp: cs_def)
  then have "Min (set cs) = n" using n by (intro Min_eqI) auto
  then show ?thesis using n by (auto simp: block_end_def Let_def cs_def [symmetric])
qed

lemma slice_block:
  assumes "lines = pre @ (h # body) @ post" "length pre = start" "end = start + length (h # body)"
  shows "slice lines start end = body"
  using assms by (simp add: slice_def)

lemma parse_task_written:
  assumes t: "clean_task t" and new: "t_id t \<notin> set known"
    and block: "slice lines start (block_end headings strategy start) = tl (task_lines t)"
  shows "parse_task lines headings strategy known (start, ''## Task '' @ t_id t) = Inr (parsed_of t)"
proof -
  have id: "is_upper_id (t_id t)" using t by (simp add: clean_task_def)
  note i = upper_id_facts [OF id]
  have l: "length ''## Task '' = 8" by simp
  have title: "upper (strip (drop (length ''## Task '') (''## Task '' @ t_id t))) = t_id t"
    by (simp only: append_eq_conv_conj [THEN iffD1, OF refl, THEN conjunct2] drop_append) (simp add: i)
  have risk: "casefold (t_risk t) = t_risk t" "t_risk t \<in> {''low'', ''medium'', ''high'', ''critical''}"
  proof -
    have "casefold ''low'' = ''low''" "casefold ''medium'' = ''medium''" "casefold ''high'' = ''high''"
      "casefold ''critical'' = ''critical''" by code_simp+
    then show "casefold (t_risk t) = t_risk t" using t by (auto simp: clean_task_def)
    show "t_risk t \<in> {''low'', ''medium'', ''high'', ''critical''}" using t by (simp add: clean_task_def)
  qed
  have deps: "id_list (or_dash (join_with '', '' (t_depends_on t))) = t_depends_on t"
    using t by (intro id_list_join(2)) (simp add: clean_task_def)
  have rest: "strip (t_title t) = t_title t" "t_title t \<noteq> []" "strip (t_description t) = t_description t"
    "t_description t \<noteq> []" "t_acceptance_criteria t \<noteq> []" "t_verification t \<noteq> []"
    using t by (auto simp: clean_task_def clean_line_def)
  show ?thesis
    unfolding parse_task_def prod.case title Let_def block block_read [OF t]
    using id new risk deps rest
    by (simp add: field_of_def subsection_of_def parsed_of_def del: insert_iff)
qed

lemma parse_tasks_written:
  assumes "lines = pre @ concat (map task_lines ts) @ post" "length pre = k"
    and "strategy = k + length (concat (map task_lines ts))" "(strategy, ''## Execution strategy'') \<in> set headings"
    and "set (task_offsets k ts) \<subseteq> set headings"
    and "\<And>v name. (v, name) \<in> set headings \<Longrightarrow> is_task_title name \<Longrightarrow> v < k \<or> (v, name) \<in> set (task_offsets k ts)"
    and "list_all clean_task ts" "distinct (map t_id ts)" "set known \<inter> t_id ` set ts = {}"
  shows "parse_tasks lines headings strategy known (task_offsets k ts) =
    Inr (zip (map parsed_of ts) (map (\<lambda>h. fst h + 1) (task_offsets k ts)))"
  using assms
proof (induction ts arbitrary: pre k known)
  case Nil
  then show ?case by simp
next
  case (Cons t ts)
  define n where "n = k + length (task_lines t)"
  have pos: "k < n" by (simp add: n_def task_lines_def)
  have n_in: "\<exists>name. (n, name) \<in> set headings \<and> (n = strategy \<or> is_task_title name)"
  proof (cases ts)
    case Nil
    then show ?thesis using Cons.prems(3,4) by (auto simp: n_def)
  next
    case (Cons u us)
    then have "(n, ''## Task '' @ t_id u) \<in> set headings" using Cons.prems(5) by (simp add: n_def)
    then show ?thesis by (auto simp: is_task_title_def intro!: exI)
  qed
  have le: "n \<le> v \<or> v \<le> k" if "(v, name) \<in> set headings" "v = strategy \<or> is_task_title name" for v name
    using that Cons.prems(3,6) task_offsets_range [of v name n ts] by (fastforce simp: n_def)
  from n_in obtain name where "(n, name) \<in> set headings" "n = strategy \<or> is_task_title name" by blast
  then have e: "block_end headings strategy k = n"
    using pos le by (intro block_end_next) blast+
  obtain h body where hb: "task_lines t = h # body" by (cases "task_lines t") (auto simp: task_lines_def)
  have block: "slice lines k (block_end headings strategy k) = tl (task_lines t)"
    unfolding e using slice_block [of lines pre h body "concat (map task_lines ts) @ post" k n] Cons.prems(1,2) hb
    by (simp add: n_def)
  have first: "parse_task lines headings strategy known (k, ''## Task '' @ t_id t) = Inr (parsed_of t)"
    using Cons.prems(7,9) by (intro parse_task_written block) auto
  have "parse_tasks lines headings strategy (t_id t # known) (task_offsets n ts) =
      Inr (zip (map parsed_of ts) (map (\<lambda>h. fst h + 1) (task_offsets n ts)))"
  proof (rule Cons.IH [where pre = "pre @ task_lines t"])
    show "lines = (pre @ task_lines t) @ concat (map task_lines ts) @ post" using Cons.prems(1) by simp
    show "v < n \<or> (v, name) \<in> set (task_offsets n ts)" if "(v, name) \<in> set headings" "is_task_title name" for v name
      using Cons.prems(6) [OF that] pos by (auto simp: n_def)
  qed (use Cons.prems in \<open>auto simp: n_def\<close>)
  then show ?case using first by (simp add: n_def [symmetric])
qed

section \<open>Entries\<close>

lemma strip_tail: "strip s = s \<Longrightarrow> strip (s @ '' '') = s" "strip s = s \<Longrightarrow> strip (CHR '' '' # s @ '' '') = s"
  using strip_spaces_right [of "'' ''" s] by simp_all

lemma parse_entry_written:
  assumes "clean_cell l" "clean_cell t" "list_all is_upper_id ids" "set ids \<subseteq> set known"
  defines "line \<equiv> ''- '' @ l @ '' | '' @ t @ '' | tasks='' @ or_dash (join_with '','' ids)"
  shows "strip line = line" "line \<noteq> []" "parse_entry evidence known index line = Inr (entry_dict evidence l t ids)"
proof -
  note d = or_dash_join [OF assms(3), of "'',''"]
  show "strip line = line"
    using strip_between [of "CHR ''-''" "or_dash (join_with '','' ids)" "'' '' @ l @ '' | '' @ t @ '' | tasks=''"] d
    by (simp add: line_def is_py_space_def)
  show "line \<noteq> []" by (simp add: line_def)
  have c: "CHR ''|'' \<notin> set (l @ '' '')" "CHR ''|'' \<notin> set (CHR '' '' # t @ '' '')"
    "CHR ''|'' \<notin> set ('' tasks='' @ or_dash (join_with '','' ids))"
    using assms(1,2) d(4) by (auto simp: clean_cell_def)
  have "split_on CHR ''|'' (drop 2 line) =
      [l @ '' '', CHR '' '' # t @ '' '', '' tasks='' @ or_dash (join_with '','' ids)]"
    using split_on_free [OF c(1), of "CHR '' '' # t @ '' '' @ CHR ''|'' # '' tasks='' @ or_dash (join_with '','' ids)"]
      split_on_free [OF c(2), of "'' tasks='' @ or_dash (join_with '','' ids)"] split_on_one [OF c(3)]
    by (simp add: line_def)
  moreover have "strip (''tasks='' @ or_dash (join_with '','' ids)) = ''tasks='' @ or_dash (join_with '','' ids)"
    using strip_between [of "CHR ''t''" "or_dash (join_with '','' ids)" "''asks=''"] d by (simp add: is_py_space_def)
  ultimately have parts: "map strip (split_on CHR ''|'' (drop 2 line)) = [l, t, ''tasks='' @ or_dash (join_with '','' ids)]"
    using assms(1,2) strip_tail by (simp add: clean_cell_def)
  have fold: "casefold (''tasks='' @ w) = ''tasks='' @ casefold w" for w
    unfolding casefold_def map_append by code_simp
  have "starts_with ''- '' line" by (simp add: line_def)
  then show "parse_entry evidence known index line = Inr (entry_dict evidence l t ids)"
    unfolding parse_entry_def parts entry_parts.simps option.case prod.case fold
    using id_list_join(1) [OF assms(3)] assms(4) by simp
qed

lemma entry_fields_get:
  assumes "entry_fields key text_key item = Some (l, t, ids)"
  shows "obj_get item key = Some (JStr l)" "obj_get item text_key = Some (JStr t)"
    "obj_get item ''supports_tasks'' = Some (jstrs ids)"
proof -
  obtain vs where v: "obj_get item ''supports_tasks'' = Some (JArr vs)"
    "list_all (\<lambda>v. case v of JStr _ \<Rightarrow> True | _ \<Rightarrow> False) vs"
    "ids = map (\<lambda>v. case v of JStr i \<Rightarrow> i | _ \<Rightarrow> []) vs"
    and "obj_get item key = Some (JStr l)" "obj_get item text_key = Some (JStr t)"
    using assms by (auto simp: entry_fields_def split: option.splits json.splits if_splits)
  moreover have "map JStr ids = vs"
    using v(2) unfolding v(3) by (induction vs) (auto split: json.splits)
  ultimately show "obj_get item key = Some (JStr l)" "obj_get item text_key = Some (JStr t)"
    "obj_get item ''supports_tasks'' = Some (jstrs ids)" by (simp_all add: jstrs_def)
qed

lemma pipe_line_written:
  assumes "entry_fields key text_key item = Some (l, t, ids)"
  shows "pipe_line repr key dflt text_key item =
    Some (''- '' @ l @ '' | '' @ t @ '' | tasks='' @ or_dash (join_with '','' ids))"
  using entry_fields_get [OF assms]
  by (simp add: pipe_line_def get_or_def jstrs_def py_iter_def comp_def)

text \<open>What one entry is written as, and the facts about a list of them.\<close>

definition entry_line :: "string \<Rightarrow> string \<Rightarrow> json_obj \<Rightarrow> string" where
  "entry_line key text_key item =
     (case entry_fields key text_key item of
        Some (l, t, ids) \<Rightarrow> ''- '' @ l @ '' | '' @ t @ '' | tasks='' @ or_dash (join_with '','' ids)
      | None \<Rightarrow> [])"

lemma pipe_lines_written:
  "list_all (clean_entry known key text_key) items \<Longrightarrow>
     those (map (pipe_line repr key dflt text_key) items) = Some (map (entry_line key text_key) items)"
  by (induction items)
    (auto simp: clean_entry_def entry_line_def pipe_line_written split: option.splits)

lemma entry_line_facts:
  assumes "clean_entry known key text_key item"
  shows "one_line (entry_line key text_key item)" "\<not> starts_with ''## '' (entry_line key text_key item)"
    "entry_line key text_key item \<noteq> []" "\<not> is_py_space (last (entry_line key text_key item))"
proof -
  obtain l t ids where i: "entry_fields key text_key item = Some (l, t, ids)" "clean_cell l" "clean_cell t"
    "list_all is_upper_id ids" "set ids \<subseteq> set known"
    using assms by (auto simp: clean_entry_def split: option.splits)
  note d = or_dash_join [OF i(4), of "'',''"] and e = parse_entry_written(1,2) [OF i(2-5)]
  show "one_line (entry_line key text_key item)"
    using i d by (simp add: entry_line_def clean_cell_def is_line_break_def)
  show "\<not> starts_with ''## '' (entry_line key text_key item)" "entry_line key text_key item \<noteq> []"
    using i by (simp_all add: entry_line_def)
  show "\<not> is_py_space (last (entry_line key text_key item))"
    using strip_ends [OF e] i by (simp add: entry_line_def)
qed

lemma parse_entries_written:
  assumes "list_all (clean_entry known (if evidence then ''source'' else ''path'') (if evidence then ''fact'' else ''intent'')) items"
  shows "parse_entries evidence known index
      (map (entry_line (if evidence then ''source'' else ''path'') (if evidence then ''fact'' else ''intent'')) items @ tail) =
    and_then (parse_entries evidence known (index + length items) tail) (\<lambda>es. Inr (map (entry_of evidence) items @ es))"
  using assms
proof (induction items arbitrary: index)
  case Nil
  then show ?case by (cases "parse_entries evidence known index tail") simp_all
next
  case (Cons item items)
  define key where "key = (if evidence then ''source'' else ''path'')"
  define text_key where "text_key = (if evidence then ''fact'' else ''intent'')"
  obtain l t ids where i: "entry_fields key text_key item = Some (l, t, ids)" "clean_cell l" "clean_cell t"
    "list_all is_upper_id ids" "set ids \<subseteq> set known"
    using Cons.prems by (auto simp: clean_entry_def key_def text_key_def split: option.splits)
  define w where "w = entry_line key text_key item"
  have "w = ''- '' @ l @ '' | '' @ t @ '' | tasks='' @ or_dash (join_with '','' ids)"
    using i(1) by (simp add: w_def entry_line_def)
  then have w: "strip w = w" "w \<noteq> []" "parse_entry evidence known index w = Inr (entry_dict evidence l t ids)"
    using parse_entry_written [OF i(2-5)] by simp_all
  have "entry_of evidence item = entry_dict evidence l t ids"
    using i(1) by (simp add: entry_of_def key_def text_key_def split: if_splits)
  then show ?case
    using w Cons unfolding key_def [symmetric] text_key_def [symmetric] list.map w_def [symmetric]
    by (cases "parse_entries evidence known (Suc (index + length items)) tail") (simp_all add: Let_def)
qed

section \<open>The whole document\<close>

definition written_lines :: "plan \<Rightarrow> string list" where
  "written_lines p =
     [''# Project Plan'', [], ''## Summary''] @ (split_on CHR 0x0A (p_summary p) @ [[]]) @
     concat (map task_lines (p_tasks p)) @
     [''## Execution strategy''] @ (split_on CHR 0x0A (p_strategy p) @ [[]]) @
     [''## Expected changes''] @ (map (entry_line ''path'' ''intent'') (p_changes p) @ [[]]) @
     [''## Applicability evidence''] @ map (entry_line ''source'' ''fact'') (p_applicability p)"

lemma clean_one_lines:
  assumes "clean_plan p"
  shows "list_all one_line (written_lines p)"
proof -
  have c: "one_line ''# Project Plan''" "one_line ''## Summary''" "one_line ''## Execution strategy''"
    "one_line ''## Expected changes''" "one_line ''## Applicability evidence''" "one_line ''## Task ''"
    "one_line ''Title: ''" "one_line ''Risk: ''" "one_line ''Depends on: ''" "one_line ''### Description''"
    "one_line ''### Acceptance''" "one_line ''### Verification''" "one_line ''- ''"
    "one_line ''low''" "one_line ''medium''" "one_line ''high''" "one_line ''critical''"
    by code_simp+
  have b: "list_all one_line (map (\<lambda>item. ''- '' @ item) items)" if "list_all clean_line items" for items
    using that by (auto simp: list_all_iff clean_line_def c(13) simp del: append.simps one_line_simps(2))
  have "list_all one_line (task_lines t)" if t: "clean_task t" for t
  proof -
    have "one_line (t_risk t)" using t c by (auto simp: clean_task_def)
    moreover have "one_line (or_dash (join_with '', '' (t_depends_on t)))"
      using t by (intro or_dash_join(3)) (auto simp: clean_task_def)
    moreover have "one_line (t_id t)" using t by (auto simp: clean_task_def intro: upper_id_facts(3))
    ultimately show ?thesis
      using t b by (simp add: task_lines_def clean_task_def clean_line_def c del: append.simps(2) one_line_simps(2))
  qed
  moreover have "list_all one_line (map (entry_line k t) items)" if "list_all (clean_entry known k t) items"
    for known k t items
    using that entry_line_facts(1) by (auto simp: list_all_iff)
  ultimately show ?thesis
    using assms unfolding written_lines_def clean_plan_def Let_def clean_text_def
    by (auto simp: list_all_iff c simp del: one_line_simps(2))
qed

lemma rendered_text:
  assumes "clean_plan p"
  shows "render_plan_document repr p = Some (join_with newline (written_lines p) @ newline)"
proof -
  have s: "strip (p_summary p) = p_summary p" "strip (p_strategy p) = p_strategy p" "p_applicability p \<noteq> []"
    and e: "change_lines repr (p_changes p) = Some (map (entry_line ''path'' ''intent'') (p_changes p))"
      "evidence_lines repr (p_applicability p) = Some (map (entry_line ''source'' ''fact'') (p_applicability p))"
    and ne: "list_all (\<lambda>item. entry_line ''source'' ''fact'' item \<noteq> [] \<and>
        \<not> is_py_space (last (entry_line ''source'' ''fact'' item))) (p_applicability p)"
    using assms entry_line_facts(3,4)
    by (auto simp: clean_plan_def Let_def clean_text_def change_lines_def evidence_lines_def pipe_lines_written list_all_iff)
  define ch where "ch = map (entry_line ''path'' ''intent'') (p_changes p)"
  define ev where "ev = map (entry_line ''source'' ''fact'') (p_applicability p)"
  define T where "T = concat (map task_lines (p_tasks p))"
  have join: "join_with newline (plan_lines p ch ev) = join_with newline (written_lines p)"
    using join_expand [of "[''# Project Plan'', [], ''## Summary'']" "p_summary p"
        "[[]] @ T @ [''## Execution strategy'', p_strategy p, [], ''## Expected changes''] @ ch @ [[], ''## Applicability evidence''] @ ev"]
      join_expand [of "[''# Project Plan'', [], ''## Summary''] @ split_on CHR 0x0A (p_summary p) @ [[]] @ T @ [''## Execution strategy'']"
        "p_strategy p" "[[], ''## Expected changes''] @ ch @ [[], ''## Applicability evidence''] @ ev"]
    by (simp add: plan_lines_def written_lines_def s ch_def ev_def T_def)
  have last: "last (written_lines p) = last ev" using s(3) by (simp add: written_lines_def ev_def)
  have "last ev \<in> set ev" using s(3) by (intro last_in_set) (simp add: ev_def)
  then have l: "last ev \<noteq> []" "\<not> is_py_space (last (last ev))" using ne by (auto simp: ev_def list_all_iff)
  have "rstrip (join_with newline (written_lines p)) = join_with newline (written_lines p)"
    using join_last [of "written_lines p" newline] l by (intro rstrip_id) (simp_all add: last, auto simp: written_lines_def)
  then show ?thesis using e join by (simp add: render_plan_document_def ch_def [symmetric] ev_def [symmetric])
qed

text \<open>The lines of the sections, and with them the headings.\<close>

lemma written_headings:
  fixes p :: plan
  assumes "clean_plan p"
  defines "k \<equiv> 3 + length (split_on CHR 0x0A (p_summary p)) + 1"
  defines "strategy \<equiv> k + length (concat (map task_lines (p_tasks p)))"
  defines "changes \<equiv> strategy + length (split_on CHR 0x0A (p_strategy p)) + 2"
  defines "evidence \<equiv> changes + length (p_changes p) + 2"
  shows "headings_from 0 (written_lines p) =
      (2, ''## Summary'') # task_offsets k (p_tasks p) @
      [(strategy, ''## Execution strategy''), (changes, ''## Expected changes''), (evidence, ''## Applicability evidence'')]"
proof -
  have st: "strip ''## Summary'' = ''## Summary''" "strip ''## Execution strategy'' = ''## Execution strategy''"
    "strip ''## Expected changes'' = ''## Expected changes''"
    "strip ''## Applicability evidence'' = ''## Applicability evidence''"
    by code_simp+
  have t: "list_all (\<lambda>l. \<not> starts_with ''## '' l) (split_on CHR 0x0A (p_summary p))"
    "list_all (\<lambda>l. \<not> starts_with ''## '' l) (split_on CHR 0x0A (p_strategy p))"
    "list_all clean_task (p_tasks p)"
    using assms(1) by (auto simp: clean_plan_def Let_def clean_text_def list_all_iff)
  have e: "list_all (\<lambda>l. \<not> starts_with ''## '' l) (map (entry_line ''path'' ''intent'') (p_changes p))"
    "list_all (\<lambda>l. \<not> starts_with ''## '' l) (map (entry_line ''source'' ''fact'') (p_applicability p))"
    using assms(1) entry_line_facts(2) by (auto simp: clean_plan_def Let_def list_all_iff)
  show ?thesis
    unfolding written_lines_def headings_append tasks_headings [OF t(3)] headings_none [OF t(1)] headings_none [OF t(2)]
      headings_none [OF e(1)] headings_none [OF e(2)]
    by (simp add: headings_Cons headings_none st k_def strategy_def changes_def evidence_def eval_nat_numeral)
qed

lemma task_titles_only: "filter (\<lambda>(_, t). is_task_title t) (task_offsets k ts) = task_offsets k ts"
  "filter (\<lambda>(_, t). \<not> is_task_title t) (task_offsets k ts) = []"
  by (induction ts arbitrary: k) (simp_all add: is_task_title_def)

lemma special_written:
  fixes k ts a b c
  defines "headings \<equiv> (2, ''## Summary'') # task_offsets k ts @
      [(a, ''## Execution strategy''), (b, ''## Expected changes''), (c, ''## Applicability evidence'')]"
  shows "special headings ''## Summary'' = Some 2" "special headings ''## Execution strategy'' = Some a"
    "special headings ''## Expected changes'' = Some b" "special headings ''## Applicability evidence'' = Some c"
    "filter (\<lambda>(_, t). is_task_title t) headings = task_offsets k ts"
  unfolding special_def headings_def by (simp_all add: task_titles_only) (simp_all add: is_task_title_def)

lemma slice_between:
  assumes "lines = pre @ [h] @ body @ post" "length pre = start" "end = start + 1 + length body"
  shows "slice lines start end = body"
  using assms by (simp add: slice_def)

lemma check_known_ok: "(\<forall>t \<in> set (map fst ts). set (pt_depends_on t) \<subseteq> set known) \<Longrightarrow> check_known known ts = Inr ()"
proof (induction known ts rule: check_known.induct)
  case (2 known t line ts)
  then have "filter (\<lambda>d. d \<notin> set known) (pt_depends_on t) = []" by (auto simp: filter_empty_conv)
  then show ?case using 2 by simp
qed simp

definition task_table :: "task list \<Rightarrow> (string \<times> string list) list" where
  "task_table ts = map (\<lambda>t. (t_id t, t_depends_on t)) ts"

lemma task_table_ok:
  assumes "links_ok ts" "acyclic (dep_edges ts)"
  shows "\<exists>v. visit_all (task_table ts) line_of [] (map t_id ts) [] = Inr v"
proof -
  have keys: "map fst (task_table ts) = map t_id ts" "fst ` set (task_table ts) = t_id ` set ts"
    by (simp_all add: task_table_def comp_def image_image)
  have "closed_table (task_table ts)"
    using assms(1) unfolding closed_table_def keys by (auto simp: task_table_def links_ok_def)
  moreover have "depends (task_table ts) \<subseteq> (dep_edges ts)\<inverse>"
    by (auto simp: depends_def dep_edges_def task_table_def dest!: map_of_SomeD)
  then have "acyclic (depends (task_table ts))" using assms(2) acyclic_subset acyclic_converse by metis
  ultimately show ?thesis using walk_succeeds keys(1) by metis
qed

lemma render_then_parse:
  assumes valid: "mk_plan p = Inr q" and clean: "clean_plan p"
  obtains doc where "render_plan_document repr p = Some doc" "parse_plan_document doc = Inr (document_of p)"
proof -
  define sl where "sl = split_on CHR 0x0A (p_summary p) @ [[]]"
  define tl where "tl = split_on CHR 0x0A (p_strategy p) @ [[]]"
  define T where "T = concat (map task_lines (p_tasks p))"
  define ch where "ch = map (entry_line ''path'' ''intent'') (p_changes p)"
  define ev where "ev = map (entry_line ''source'' ''fact'') (p_applicability p)"
  define L where "L = written_lines p"
  define k where "k = 3 + length (split_on CHR 0x0A (p_summary p)) + 1"
  define a where "a = k + length T"
  define b where "b = a + length (split_on CHR 0x0A (p_strategy p)) + 2"
  define c where "c = b + length (p_changes p) + 2"
  define H where "H = (2, ''## Summary'') # task_offsets k (p_tasks p) @
      [(a, ''## Execution strategy''), (b, ''## Expected changes''), (c, ''## Applicability evidence'')]"
  define ids where "ids = map t_id (p_tasks p)"
  have L: "L = [''# Project Plan'', [], ''## Summary''] @ sl @ T @ [''## Execution strategy''] @ tl @
      [''## Expected changes''] @ (ch @ [[]]) @ [''## Applicability evidence''] @ ev"
    by (simp add: L_def written_lines_def sl_def tl_def T_def ch_def ev_def)
  have len: "length sl = length (split_on CHR 0x0A (p_summary p)) + 1"
    "length tl = length (split_on CHR 0x0A (p_strategy p)) + 1" "length ch = length (p_changes p)"
    by (simp_all add: sl_def tl_def ch_def)
  have H: "headings_from 0 L = H"
    unfolding H_def L_def a_def b_def c_def k_def T_def by (rule written_headings [OF clean])
  have lines: "document_lines (join_with newline L @ newline) = L"
    using clean_one_lines [OF clean] by (intro document_lines_join) (simp_all add: L_def, simp add: written_lines_def)
  have slices: "slice L 2 k = sl" "slice L a b = tl" "slice L b c = ch @ [[]]" "slice L c (length L) = ev"
    using slice_between [of L "[''# Project Plan'', []]" "''## Summary''" sl _ 2 k]
      slice_between [of L "[''# Project Plan'', [], ''## Summary''] @ sl @ T" "''## Execution strategy''" tl _ a b]
      slice_between [of L "[''# Project Plan'', [], ''## Summary''] @ sl @ T @ [''## Execution strategy''] @ tl"
        "''## Expected changes''" "ch @ [[]]" _ b c]
      slice_between [of L "[''# Project Plan'', [], ''## Summary''] @ sl @ T @ [''## Execution strategy''] @ tl @
        [''## Expected changes''] @ ch @ [[]]" "''## Applicability evidence''" ev "[]" c "length L"]
    by (simp_all add: L len k_def a_def b_def c_def)
  have cl: "clean_text (p_summary p)" "clean_text (p_strategy p)" "p_tasks p \<noteq> []" "list_all clean_task (p_tasks p)"
    "p_changes p \<noteq> []" "list_all (clean_entry ids ''path'' ''intent'') (p_changes p)"
    "p_applicability p \<noteq> []" "list_all (clean_entry ids ''source'' ''fact'') (p_applicability p)"
    using clean by (simp_all add: clean_plan_def Let_def ids_def)
  have summary: "section_text L 2 k = p_summary p" "p_summary p \<noteq> []"
    and strategy: "section_text L a b = p_strategy p" "p_strategy p \<noteq> []"
    using cl(1,2) slices by (auto simp: sl_def tl_def clean_text_def intro: section_text_written)
  have ok: "links_ok (p_tasks p)" "acyclic (dep_edges (p_tasks p))"
    using valid validate_iff [of "p_tasks p"] by (auto simp: mk_plan_Inr)
  then have dist: "distinct (map t_id (p_tasks p))" by (simp add: links_ok_def)
  define lns where "lns = map (\<lambda>h. fst h + 1) (task_offsets k (p_tasks p))"
  have lens: "length lns = length (p_tasks p)"
  proof -
    have "length (task_offsets k ts) = length ts" for k ts by (induction ts arbitrary: k) simp_all
    then show ?thesis by (simp add: lns_def)
  qed
  define parsed where "parsed = zip (map parsed_of (p_tasks p)) lns"
  have tasks: "parse_tasks L H a [] (task_offsets k (p_tasks p)) = Inr parsed"
    unfolding parsed_def lns_def
  proof (rule parse_tasks_written [where pre = "[''# Project Plan'', [], ''## Summary''] @ sl"])
    show "L = ([''# Project Plan'', [], ''## Summary''] @ sl) @ concat (map task_lines (p_tasks p)) @
        ([''## Execution strategy''] @ tl @ [''## Expected changes''] @ (ch @ [[]]) @ [''## Applicability evidence''] @ ev)"
      by (simp add: L T_def)
    show "v < k \<or> (v, name) \<in> set (task_offsets k (p_tasks p))" if "(v, name) \<in> set H" "is_task_title name" for v name
      using that by (auto simp: H_def is_task_title_def)
  qed (use cl(4) dist in \<open>auto simp: len k_def a_def T_def H_def\<close>)
  have fsts: "map fst parsed = map parsed_of (p_tasks p)" using lens by (simp add: parsed_def)
  have over: "map (\<lambda>x. f (fst x)) parsed = map (\<lambda>t. f (parsed_of t)) (p_tasks p)" for f :: "parsed_task \<Rightarrow> 'x"
    using arg_cong [OF fsts, of "map f"] by (simp add: comp_def)
  have known: "map (pt_id \<circ> fst) parsed = ids"
    using over [of pt_id] by (simp add: ids_def comp_def)
  have table: "map (\<lambda>(t, _). (pt_id t, pt_depends_on t)) parsed = task_table (p_tasks p)"
    using over [of "\<lambda>t. (pt_id t, pt_depends_on t)"] by (simp add: task_table_def case_prod_beta')
  have "check_known ids parsed = Inr ()"
    using ok(1) unfolding ids_def by (intro check_known_ok) (auto simp: fsts links_ok_def)
  moreover obtain v where "visit_all (task_table (p_tasks p)) (\<lambda>x. case map_of (map (\<lambda>(t, n). (pt_id t, n)) parsed) x of
      Some n \<Rightarrow> n | None \<Rightarrow> 1) [] ids [] = Inr v"
    using task_table_ok [OF ok] unfolding ids_def by blast
  moreover have "pipe_items L ids b c False = Inr (map (entry_of False) (p_changes p))"
    using parse_entries_written [of ids False "p_changes p" "b + 2" "[[]]"] cl(5,6)
    by (simp add: pipe_items_def slices ch_def)
  moreover have "pipe_items L ids c (length L) True = Inr (map (entry_of True) (p_applicability p))"
    using parse_entries_written [of ids True "p_applicability p" "c + 2" "[]"] cl(7,8)
    by (simp add: pipe_items_def slices ev_def)
  moreover have "parsed \<noteq> []" using fsts cl(3) by auto
  moreover have "task_offsets k (p_tasks p) \<noteq> []" "fst (hd (task_offsets k (p_tasks p))) = k"
    using cl(3) by (cases "p_tasks p"; simp)+
  ultimately have "parse_sections L H 2 a b c = Inr (document_of p)"
    using summary strategy tasks fsts
    unfolding parse_sections_def special_written(5) [of k "p_tasks p" a b c, folded H_def] Let_def
    by (cases "task_offsets k (p_tasks p)") (simp_all add: known table document_of_def)
  moreover have "H \<noteq> []" "snd (hd H) = ''## Summary''" by (simp_all add: H_def)
  ultimately have "parse_plan_document (join_with newline L @ newline) = Inr (document_of p)"
    using special_written(1-4) [of k "p_tasks p" a b c, folded H_def]
    unfolding parse_plan_document_def lines Let_def H by (simp add: required_sections_def)
  then show thesis using rendered_text [OF clean, of repr] that by (simp add: L_def)
qed

end
