(* ===== verification/Coordinator.thy ===== *)
theory Coordinator
  imports Plan_Document Store_System
begin

text \<open>
  The user's commands of \<open>agent/runtime.py\<close> that change a plan or its tasks, pause, cancel or
  checkpoint the goal.  A command calls the store several times; every call is a transaction of
  its own, so a command returns the state it leaves also when it raises.  \<open>E k\<close> is what its k-th
  transaction reads from the environment.  The runtime has no ULTRA session running, and what it
  publishes to its listeners changes nothing here.
\<close>

section \<open>Commands\<close>

datatype (plugins only: code) runtime_error =
    RuntimeStateError string
  | StoreFailure store_error
  | DocumentFailure document_error

type_synonym 'a command = "store \<Rightarrow> store \<times> (runtime_error + 'a)"

definition return_value :: "'a \<Rightarrow> 'a command" where
  "return_value x s = (s, Inr x)"

definition stop :: "runtime_error \<Rightarrow> 'a command" where
  "stop e s = (s, Inl e)"

definition ensue :: "'a command \<Rightarrow> ('a \<Rightarrow> 'b command) \<Rightarrow> 'b command" where
  "ensue m f s = (case m s of (t, Inl e) \<Rightarrow> (t, Inl e) | (t, Inr x) \<Rightarrow> f x t)"

text \<open>\<open>try: m .. except Exception\<close>, with what follows on either side.\<close>

definition rescue :: "'a command \<Rightarrow> ('a \<Rightarrow> 'b command) \<Rightarrow> (runtime_error \<Rightarrow> 'b command) \<Rightarrow> 'b command" where
  "rescue m f h s = (case m s of (t, Inl e) \<Rightarrow> h e t | (t, Inr x) \<Rightarrow> f x t)"

text \<open>A transaction of the store, and a read of it.\<close>

definition transaction :: "(store \<Rightarrow> store_error + store \<times> 'a) \<Rightarrow> 'a command" where
  "transaction m s = (case m s of Inl e \<Rightarrow> (s, Inl (StoreFailure e)) | Inr (t, x) \<Rightarrow> (t, Inr x))"

definition reading :: "(store \<Rightarrow> store_error + 'a) \<Rightarrow> 'a command" where
  "reading m s = (s, map_error StoreFailure (m s))"

definition active_goal :: "string \<Rightarrow> goal option command" where
  "active_goal sid = reading (load_active_goal sid)"

definition latest_plan :: "string \<Rightarrow> plan option command" where
  "latest_plan sid =
     ensue (active_goal sid) (\<lambda>g. case g of
         None \<Rightarrow> return_value None | Some goal \<Rightarrow> reading (get_latest_plan (g_id goal)))"

text \<open>\<open>redact_text\<close> of \<open>agent/safety.py\<close>: \<open>hide\<close> substitutes the secrets it finds.\<close>

definition redact_text :: "(string \<Rightarrow> string) \<Rightarrow> nat \<Rightarrow> string \<Rightarrow> string" where
  "redact_text hide limit value =
     (let t = hide value in
      if limit < length t
      then take limit t @ newline @ ''... [truncated '' @ nat_str (length t - limit) @ '' chars]'' else t)"

section \<open>The document of a plan\<close>

definition revisable :: "goal_status set" where
  "revisable = {GOAL_AWAITING_PLAN_APPROVAL, GOAL_RUNNING, GOAL_PAUSED, GOAL_REVISING, GOAL_VERIFYING, GOAL_REVIEWING}"

definition revision_context :: "string \<Rightarrow> (goal \<times> plan) command" where
  "revision_context sid =
     ensue (active_goal sid) (\<lambda>g.
     ensue (latest_plan sid) (\<lambda>p. case (g, p) of
         (Some goal, Some plan) \<Rightarrow>
           if g_status goal \<notin> revisable then stop (RuntimeStateError ''cannot revise a plan in this status'')
           else return_value (goal, plan)
       | _ \<Rightarrow> stop (RuntimeStateError ''an existing plan is required'')))"

definition plan_document_text :: "platform \<Rightarrow> string \<Rightarrow> string command" where
  "plan_document_text P sid =
     ensue (latest_plan sid) (\<lambda>p. case p of
         None \<Rightarrow> stop (RuntimeStateError ''there is no plan to review'')
       | Some plan \<Rightarrow> (\<lambda>s. case get_plan_document (p_id plan) s of
             Some saved \<Rightarrow> (s, Inr (pd_content saved))
           | None \<Rightarrow> (case render_plan_document (repr_of P) plan of
                 Some doc \<Rightarrow> (s, Inr doc)
               | None \<Rightarrow> (s, Inl (StoreFailure (PyTypeError ''supports_tasks''))))))"

text \<open>
  A parsed task keeps the role, the mode, the priority and the metadata of the task of that name in
  the plan it replaces (\<open>prior_by_id\<close>).
\<close>

definition prior_task :: "task list \<Rightarrow> string \<Rightarrow> task option" where
  "prior_task old i = map_of (rev (map (\<lambda>t. (t_id t, t)) old)) (upper i)"

definition edited_task :: "task list \<Rightarrow> nat \<Rightarrow> parsed_task \<Rightarrow> json_obj" where
  "edited_task old index t =
     (let prior = prior_task old (pt_id t) in
      [(''id'', JStr (pt_id t)), (''title'', JStr (pt_title t)), (''description'', JStr (pt_description t)),
       (''risk'', JStr (pt_risk t)), (''depends_on'', jstrs (pt_depends_on t)),
       (''acceptance_criteria'', jstrs (pt_acceptance_criteria t)), (''verification'', jstrs (pt_verification t)),
       (''status'', JStr (task_value TASK_PENDING)),
       (''role'', role_to_dict (case prior of Some u \<Rightarrow> t_role u | None \<Rightarrow> default_role)),
       (''mode'', JStr (case prior of Some u \<Rightarrow> t_mode u | None \<Rightarrow> ''auto'')),
       (''priority'', JInt (case prior of Some u \<Rightarrow> t_priority u | None \<Rightarrow> int index)),
       (''origin'', JStr ''user-editor''),
       (''metadata'', JObj (case prior of Some u \<Rightarrow> t_metadata u | None \<Rightarrow> []))])"

definition edited_tasks :: "task list \<Rightarrow> parsed_task list \<Rightarrow> task_input list" where
  "edited_tasks old ts = map (\<lambda>(index, t). TaskMapping (edited_task old index t)) (enumerate 0 ts)"

definition edit_request :: "parsed_document \<Rightarrow> task list \<Rightarrow> string \<Rightarrow> string \<Rightarrow> plan_request" where
  "edit_request parsed old document edited_by =
     \<lparr>pr_summary = dc_summary parsed, pr_tasks = edited_tasks old (dc_tasks parsed),
      pr_applicability = dc_evidence parsed, pr_strategy = dc_strategy parsed, pr_changes = dc_changes parsed,
      pr_proposed_by = ''user-editor'', pr_submit = True, pr_document = Some document, pr_format_version = 1,
      pr_edited_by = edited_by, pr_expected_parent = None\<rparr>"

text \<open>The reducer that records the revision in the workflow session.\<close>

definition edited_session :: "string \<Rightarrow> plan \<Rightarrow> session_row \<Rightarrow> session_row" where
  "edited_session gid plan w =
     w\<lparr>w_state := obj_merge (w_state w)
         [(''plan_revision'', JInt (p_revision plan)), (''plan_fingerprint'', JStr (p_fingerprint plan))],
       w_goal_id := (case w_goal_id w of Some g \<Rightarrow> if g = [] then Some gid else Some g | None \<Rightarrow> Some gid),
       w_plan_state := ''awaiting_approval'', w_run_state := ''planning''\<rparr>"

definition move_goal :: "env \<Rightarrow> string \<Rightarrow> goal_status \<Rightarrow> string \<Rightarrow> goal command" where
  "move_goal E gid target reason = transaction (transition_goal E gid target reason [])"

definition record_revision :: "(nat \<Rightarrow> env) \<Rightarrow> string \<Rightarrow> string \<Rightarrow> plan \<Rightarrow> plan command" where
  "record_revision E sid gid plan =
     ensue (move_goal (E 2) gid GOAL_AWAITING_PLAN_APPROVAL
              (''manual plan document saved as r'' @ int_str (p_revision plan))) (\<lambda>_.
     ensue (reading (get_workflow_session sid)) (\<lambda>session.
     ensue (transaction (\<lambda>s. and_then (mutate_workflow_session (E 3) sid (\<lambda>w. Inr (edited_session gid plan w))
              (Some (w_revision session)) s) (\<lambda>t. Inr (t, ())))) (\<lambda>_.
     return_value plan)))"

definition replace_plan_document :: "platform \<Rightarrow> (nat \<Rightarrow> env) \<Rightarrow> string \<Rightarrow> string \<Rightarrow> string \<Rightarrow> string \<Rightarrow> plan command" where
  "replace_plan_document P E sid document reason edited_by =
     (case parse_plan_document document of
        Inl e \<Rightarrow> stop (DocumentFailure e)
      | Inr parsed \<Rightarrow>
        ensue (revision_context sid) (\<lambda>(goal, old_plan).
        let gid = g_id goal; original = g_status goal in
        ensue (if original = GOAL_REVISING then return_value goal
               else move_goal (E 0) gid GOAL_REVISING reason) (\<lambda>_.
        rescue (transaction (create_plan P (E 1) gid (edit_request parsed (p_tasks old_plan) document edited_by)))
          (record_revision E sid gid)
          (\<lambda>e. ensue (if original = GOAL_REVISING then return_value goal
                  else move_goal (E 2) gid original ''invalid manual plan edit rolled back'') (\<lambda>_. stop e)))))"

section \<open>Tasks\<close>

text \<open>One pass over the plan adds every task with an invalidated dependency.\<close>

fun invalidate_pass :: "task list \<Rightarrow> string list \<Rightarrow> string list" where
  "invalidate_pass [] bad = bad"
| "invalidate_pass (t # ts) bad =
     (if t_id t \<notin> set bad \<and> list_ex (\<lambda>d. d \<in> set bad) (t_depends_on t)
      then invalidate_pass ts (t_id t # bad) else invalidate_pass ts bad)"

lemma invalidate_pass_grows: "\<exists>new. invalidate_pass ts bad = new @ bad \<and> set new \<subseteq> t_id ` set ts - set bad"
proof (induction ts bad rule: invalidate_pass.induct)
  case (2 t ts bad)
  show ?case
  proof (cases "t_id t \<notin> set bad \<and> list_ex (\<lambda>d. d \<in> set bad) (t_depends_on t)")
    case True
    with 2(1) obtain new where "invalidate_pass ts (t_id t # bad) = new @ t_id t # bad"
      "set new \<subseteq> t_id ` set ts - set (t_id t # bad)" by blast
    then show ?thesis using True by (intro exI [of _ "new @ [t_id t]"]) auto
  next
    case False
    then show ?thesis using 2(2) by auto
  qed
qed simp

text \<open>\<open>while changed\<close>: until a pass adds nothing.\<close>

function invalidated :: "task list \<Rightarrow> string list \<Rightarrow> string list" where
  "invalidated ts bad =
     (let next_bad = invalidate_pass ts bad in
      if next_bad = bad then bad else invalidated ts next_bad)"
  by pat_completeness auto
termination
proof (relation "measure (\<lambda>(ts, bad). card (t_id ` set ts - set bad))")
  fix ts bad next_bad
  assume n: "next_bad = invalidate_pass ts bad" "next_bad \<noteq> bad"
  then obtain new where new: "next_bad = new @ bad" "set new \<subseteq> t_id ` set ts - set bad" "new \<noteq> []"
    using invalidate_pass_grows [of ts bad] by auto
  then have "t_id ` set ts - set next_bad \<subset> t_id ` set ts - set bad" by (cases new) auto
  then show "((ts, next_bad), ts, bad) \<in> measure (\<lambda>(ts, bad). card (t_id ` set ts - set bad))"
    by (simp add: psubset_card_mono)
qed simp

declare invalidated.simps [simp del]

definition reset_note :: "string \<Rightarrow> string \<Rightarrow> string" where
  "reset_note task_id actor = ''invalidated because prerequisite '' @ task_id @ '' was reopened by '' @ actor"

fun reset_tasks :: "(nat \<Rightarrow> env) \<Rightarrow> string \<Rightarrow> int \<Rightarrow> string \<Rightarrow> string \<Rightarrow> string list \<Rightarrow> unit command" where
  "reset_tasks E gid revision note actor [] = return_value ()"
| "reset_tasks E gid revision note actor (i # is) =
     ensue (transaction (transition_task (E 0) gid revision i TASK_PENDING note [] actor)) (\<lambda>_.
     reset_tasks (\<lambda>k. E (Suc k)) gid revision note actor is)"

definition dependants_to_reset :: "plan \<Rightarrow> string \<Rightarrow> string list" where
  "dependants_to_reset plan task_id =
     (let bad = invalidated (p_tasks plan) [task_id] in
      filter (\<lambda>i. i \<in> set bad \<and> i \<noteq> task_id) (rev (map t_id (p_tasks plan))))"

definition reset_dependants :: "(nat \<Rightarrow> env) \<Rightarrow> goal \<Rightarrow> plan \<Rightarrow> string \<Rightarrow> string \<Rightarrow> unit command" where
  "reset_dependants E goal plan task_id0 actor =
     (let task_id = upper task_id0 in
      if task_id \<notin> set (map t_id (p_tasks plan)) then stop (StoreFailure (NotFoundError ''task'' task_id))
      else reset_tasks E (g_id goal) (p_revision plan) (reset_note task_id actor) actor
             (dependants_to_reset plan task_id))"

definition user_target :: "string \<Rightarrow> task_status option" where
  "user_target status =
     map_of [(''done'', TASK_COMPLETED), (''pending'', TASK_PENDING), (''blocked'', TASK_BLOCKED),
             (''skipped'', TASK_OBSOLETE)] status"

definition update_task_from_user ::
    "(string \<Rightarrow> string) \<Rightarrow> (nat \<Rightarrow> env) \<Rightarrow> string \<Rightarrow> string \<Rightarrow> string \<Rightarrow> string \<Rightarrow> task command" where
  "update_task_from_user hide E sid task_id status note0 =
     ensue (active_goal sid) (\<lambda>g.
     ensue (latest_plan sid) (\<lambda>p. case (g, p) of
        (Some goal, Some plan) \<Rightarrow>
          if p_status plan \<noteq> PLAN_ACCEPTED
          then stop (RuntimeStateError ''task status can change only on an accepted plan'')
          else (case user_target status of
            None \<Rightarrow> stop (StoreFailure (DomainFailure (DictKeyError status)))
          | Some target \<Rightarrow>
            let note = redact_text hide 2000 note0;
                evidence = (if target = TASK_COMPLETED then [''User evidence: '' @ note] else []);
                n = length (dependants_to_reset plan (upper task_id))
            in if target \<in> {TASK_COMPLETED, TASK_BLOCKED, TASK_OBSOLETE} \<and> strip note = []
               then stop (RuntimeStateError ''an evidence or reason note is required'')
               else ensue (if target = TASK_PENDING then reset_dependants E goal plan task_id ''user''
                           else return_value ()) (\<lambda>_.
                    transaction (transition_task (E n) (g_id goal) (p_revision plan) task_id target note evidence ''user'')))
      | _ \<Rightarrow> stop (RuntimeStateError ''task status can change only on an accepted plan'')))"

section \<open>Pausing, cancelling, checkpoints\<close>

definition pause :: "(nat \<Rightarrow> env) \<Rightarrow> string \<Rightarrow> string \<Rightarrow> goal command" where
  "pause E sid reason =
     ensue (active_goal sid) (\<lambda>g. case g of
        None \<Rightarrow> stop (RuntimeStateError ''no active goal'')
      | Some goal \<Rightarrow>
        if g_status goal = GOAL_PAUSED then return_value goal
        else ensue (transaction (update_goal_metadata (E 0) (g_id goal)
               [(''resume_status'', JStr (goal_value (g_status goal))), (''auto_retryable'', JBool False),
                (''retry_after_ms'', JInt 0)])) (\<lambda>_.
             move_goal (E 1) (g_id goal) GOAL_PAUSED reason))"

definition cancel_goal :: "platform \<Rightarrow> (nat \<Rightarrow> env) \<Rightarrow> string \<Rightarrow> string \<Rightarrow> goal option command" where
  "cancel_goal P E sid confirmation =
     (if upper (strip confirmation) \<noteq> ''CANCEL''
      then stop (RuntimeStateError ''cancelling an unfinished goal requires confirmation'')
      else ensue (active_goal sid) (\<lambda>g. case g of
        Some goal \<Rightarrow>
          ensue (transaction (cancel_goal_and_session (E 0) (g_id goal) sid ''explicitly cancelled by user''))
            (\<lambda>result. return_value (Some result))
      | None \<Rightarrow>
        ensue (reading (get_workflow_session sid)) (\<lambda>session.
        case obj_get (w_state session) ''pending_semantic_turn'' of
          Some (JObj pending) \<Rightarrow>
            let cancelled = obj_merge pending [(''status'', JStr ''cancelled''), (''result_status'', JStr ''cancelled'')];
                state = AList.delete ''pending_semantic_turn''
                          (obj_set ''last_semantic_turn'' (JObj cancelled) (w_state session))
            in ensue (transaction (\<lambda>s. and_then (mutate_workflow_session (E 0) sid
                   (\<lambda>w. Inr (w\<lparr>w_state := state, w_run_state := ''idle''\<rparr>)) (Some (w_revision session)) s)
                   (\<lambda>t. Inr (t, ())))) (\<lambda>_.
               ensue (transaction (\<lambda>s. and_then (append_event (E 1) ''semantic_turn.cancelled'' None
                   (Some ''semantic_turn'')
                   (Some (case get_truthy cancelled ''turn_id'' of
                       Some v \<Rightarrow> py_str (repr_of P) v | None \<Rightarrow> []))
                   [(''reason'', JStr ''explicitly cancelled by user'')] s) (\<lambda>t. Inr (t, ())))) (\<lambda>_.
               return_value None))
        | _ \<Rightarrow> stop (RuntimeStateError ''no active goal''))))"

definition interrupted_message :: string where
  "interrupted_message =
     ''Work was interrupted during an action. Inspect uncertain state before /resume; the harness did not replay it.''"

definition checkpoint_interrupt :: "(nat \<Rightarrow> env) \<Rightarrow> string \<Rightarrow> goal option command" where
  "checkpoint_interrupt E sid =
     ensue (transaction (recover_inflight (E 0))) (\<lambda>_.
     ensue (active_goal sid) (\<lambda>g. case g of
        None \<Rightarrow> return_value None
      | Some goal \<Rightarrow>
        if g_status goal = GOAL_RECOVERING then
          ensue (transaction (update_goal_metadata (E 1) (g_id goal)
            [(''resume_status'', JStr (goal_value
                (if g_active_plan_revision goal \<noteq> None then GOAL_RUNNING else GOAL_DISCOVERING))),
             (''waiting_question'', JStr interrupted_message)])) (\<lambda>_.
          ensue (move_goal (E 2) (g_id goal) GOAL_PAUSED ''user interrupted uncertain work'')
            (\<lambda>paused. return_value (Some paused)))
        else if g_status goal \<noteq> GOAL_PAUSED then
          ensue (pause (\<lambda>k. E (Suc k)) sid ''user interrupted the current work slice'')
            (\<lambda>paused. return_value (Some paused))
        else return_value (Some goal)))"

end
