(* ===== verification/Coordinator_Runs.thy ===== *)
theory Coordinator_Runs
  imports Coordinator Store_Gates
begin

text \<open>
  Every command of the coordinator leaves a state that a sequence of journal operations leaves as
  well, whether it returns or raises; what is proved of the journal holds after every command.
\<close>

definition journaled :: "platform \<Rightarrow> 'a command \<Rightarrow> bool" where
  "journaled P m \<longleftrightarrow> (\<forall>s. \<exists>ops. fst (m s) = run_store P ops s)"

named_theorems journaled_rules \<open>commands that are runs of the journal\<close>

lemma journaled_same:
  assumes "\<And>s. fst (m s) = s"
  shows "journaled P m"
  unfolding journaled_def
proof
  fix s
  have "fst (m s) = run_store P [] s" by (simp add: assms run_store_def)
  then show "\<exists>ops. fst (m s) = run_store P ops s" ..
qed

lemma journaled_values [journaled_rules]:
  "journaled P (return_value x)" "journaled P (stop e)" "journaled P (reading q)"
  by (rule journaled_same, simp add: return_value_def stop_def reading_def)+

lemma journaled_rescue [journaled_rules]:
  assumes m: "journaled P m" and f: "\<And>x. journaled P (f x)" and h: "\<And>e. journaled P (h e)"
  shows "journaled P (rescue m f h)"
  unfolding journaled_def
proof
  fix s
  obtain t r where r: "m s = (t, r)" by (cases "m s")
  then obtain ops where ops: "t = run_store P ops s" using m unfolding journaled_def by (metis fst_conv)
  have "\<exists>more. fst (rescue m f h s) = run_store P more t"
    using f h unfolding journaled_def rescue_def r by (cases r) auto
  then obtain more where "fst (rescue m f h s) = run_store P more t" ..
  then have "fst (rescue m f h s) = run_store P (ops @ more) s"
    by (simp add: ops run_store_def run_ops_append)
  then show "\<exists>ops. fst (rescue m f h s) = run_store P ops s" ..
qed

lemma ensue_rescue: "ensue m f = rescue m f stop"
  by (rule ext) (simp add: ensue_def rescue_def stop_def split: prod.split sum.split)

lemma journaled_ensue [journaled_rules]:
  "journaled P m \<Longrightarrow> (\<And>x. journaled P (f x)) \<Longrightarrow> journaled P (ensue m f)"
  unfolding ensue_rescue by (intro journaled_rules)

lemma journaled_transaction:
  assumes "\<And>s. new_state (m s) = exec P op s"
  shows "journaled P (transaction m)"
  unfolding journaled_def
proof
  fix s
  have "fst (transaction m s) = run_store P [op] s"
    by (cases "m s") (auto simp: transaction_def run_store_def step_or_stay_def new_state_def assms [of s, symmetric])
  then show "\<exists>ops. fst (transaction m s) = run_store P ops s" ..
qed

lemma new_state_unit: "new_state (and_then m (\<lambda>t. Inr (t, ()))) = m"
  by (cases m) (simp_all add: new_state_def)

lemma journaled_steps [journaled_rules]:
  "journaled P (move_goal E gid target reason)"
  "journaled P (transaction (create_plan P E gid request))"
  "journaled P (transaction (transition_task E gid n i st nt evs actor))"
  "journaled P (transaction (update_goal_metadata E gid md))"
  "journaled P (transaction (cancel_goal_and_session E gid sid reason))"
  "journaled P (transaction (recover_inflight E))"
  "journaled P (transaction (\<lambda>s. and_then (mutate_workflow_session E sid f expected s) (\<lambda>t. Inr (t, ()))))"
  "journaled P (transaction (\<lambda>s. and_then (append_event E ety g enty eid pl s) (\<lambda>t. Inr (t, ()))))"
  unfolding move_goal_def
  by (rule journaled_transaction [where op = "(E, GoalOp (TransitionGoal gid target reason []))"], simp add: exec_def)
    (rule journaled_transaction [where op = "(E, PlanOp (CreatePlan gid request))"], simp add: exec_def,
     rule journaled_transaction [where op = "(E, WorkOp (TransitionTask gid n i st nt evs actor))"], simp add: exec_def,
     rule journaled_transaction [where op = "(E, GoalOp (UpdateGoalMetadata gid md))"], simp add: exec_def,
     rule journaled_transaction [where op = "(E, GoalOp (CancelGoal gid sid reason))"], simp add: exec_def,
     rule journaled_transaction [where op = "(E, WorkOp RecoverInflight)"], simp add: exec_def,
     rule journaled_transaction [where op = "(E, SessionOp (MutateSession sid f expected))"], simp add: exec_def new_state_unit,
     rule journaled_transaction [where op = "(E, SessionOp (AppendEvent ety g enty eid pl))"], simp add: exec_def new_state_unit)

lemma journaled_reset [journaled_rules]: "journaled P (reset_tasks E gid n nt actor is)"
proof (induction "is" arbitrary: E)
  case Nil
  then show ?case by (simp add: journaled_rules)
next
  case (Cons i "is")
  show ?case unfolding reset_tasks.simps by (intro journaled_rules Cons.IH)
qed

lemma journaled_commands [journaled_rules]:
  "journaled P (active_goal sid)" "journaled P (latest_plan sid)" "journaled P (revision_context sid)"
  "journaled P (record_revision E sid gid plan)" "journaled P (reset_dependants E goal plan i actor)"
  "journaled P (pause E sid reason)"
proof -
  show a: "journaled P (active_goal sid)" for sid by (simp add: active_goal_def journaled_rules)
  show l: "journaled P (latest_plan sid)" for sid
    unfolding latest_plan_def by (intro journaled_rules a) (simp split: option.split add: journaled_rules)
  show "journaled P (revision_context sid)"
    unfolding revision_context_def
    by (intro journaled_rules a l) (simp split: option.split add: journaled_rules)
  show "journaled P (record_revision E sid gid plan)"
    unfolding record_revision_def by (intro journaled_rules)
  show "journaled P (reset_dependants E goal plan i actor)"
    unfolding reset_dependants_def Let_def by (simp add: journaled_rules)
  show "journaled P (pause E sid reason)"
    unfolding pause_def
    by (intro journaled_rules a) (simp split: option.split add: journaled_rules)
qed

lemma commands_journaled:
  "journaled P (replace_plan_document P E sid document reason edited_by)"
  "journaled P (update_task_from_user hide E sid i status nt)"
  "journaled P (cancel_goal P E sid confirmation)"
  "journaled P (checkpoint_interrupt E sid)"
proof -
  show "journaled P (replace_plan_document P E sid document reason edited_by)"
    unfolding replace_plan_document_def Let_def
    by (cases "parse_plan_document document") (auto intro!: journaled_rules simp: case_prod_beta)
  show "journaled P (update_task_from_user hide E sid i status nt)"
    unfolding update_task_from_user_def Let_def
    by (auto intro!: journaled_rules split: option.split)
  show "journaled P (cancel_goal P E sid confirmation)"
    unfolding cancel_goal_def Let_def
    by (auto intro!: journaled_rules split: option.split json.split)
  show "journaled P (checkpoint_interrupt E sid)"
    unfolding checkpoint_interrupt_def
    by (auto intro!: journaled_rules split: option.split)
qed

lemma journaled_reachable:
  assumes "journaled P m" "reachable P s" "m s = (t, r)"
  shows "reachable P t"
proof -
  obtain ops where "t = run_store P ops s" using assms(1,3) unfolding journaled_def by (metis fst_conv)
  then show ?thesis using reachable_run [OF assms(2)] by simp
qed

end
