(* ===== verification/Coordinator_Tasks.thy ===== *)
theory Coordinator_Tasks
  imports Coordinator_Runs
begin

text \<open>
  What the user's updates of a task do to the plan: reopening a task makes exactly the tasks that
  transitively depend on it pending, and no update leaves a started or finished task in front of
  an unfinished dependency.
\<close>

section \<open>The invalidated tasks\<close>

lemma pass_fixed:
  "invalidate_pass ts bad = bad \<Longrightarrow> t \<in> set ts \<Longrightarrow> d \<in> set (t_depends_on t) \<Longrightarrow> d \<in> set bad \<Longrightarrow> t_id t \<in> set bad"
proof (induction ts)
  case (Cons u ts)
  have "\<not> (t_id u \<notin> set bad \<and> list_ex (\<lambda>d. d \<in> set bad) (t_depends_on u))"
  proof
    assume "t_id u \<notin> set bad \<and> list_ex (\<lambda>d. d \<in> set bad) (t_depends_on u)"
    then have "invalidate_pass ts (t_id u # bad) = bad" using Cons.prems(1) by simp
    then show False using invalidate_pass_grows [of ts "t_id u # bad"] by auto
  qed
  then show ?case using Cons by (auto simp: list_ex_iff split: if_splits)
qed simp

lemma pass_sound:
  "set ts \<subseteq> set us \<Longrightarrow> set bad \<subseteq> (dep_edges us)\<^sup>* `` S \<Longrightarrow> set (invalidate_pass ts bad) \<subseteq> (dep_edges us)\<^sup>* `` S"
proof (induction ts bad rule: invalidate_pass.induct)
  case (2 t ts bad)
  have new: "t_id t \<in> (dep_edges us)\<^sup>* `` S" if d: "d \<in> set (t_depends_on t)" "d \<in> set bad" for d
  proof -
    have "(d, t_id t) \<in> dep_edges us" using 2(3) d(1) by (auto simp: dep_edges_def)
    moreover obtain x where "x \<in> S" "(x, d) \<in> (dep_edges us)\<^sup>*" using 2(4) d(2) by auto
    ultimately show ?thesis by (auto intro: rtrancl_into_rtrancl)
  qed
  show ?case
  proof (cases "t_id t \<notin> set bad \<and> list_ex (\<lambda>d. d \<in> set bad) (t_depends_on t)")
    case True
    then have S: "set (t_id t # bad) \<subseteq> (dep_edges us)\<^sup>* `` S" using 2(4) new by (auto simp: list_ex_iff)
    show ?thesis using 2(1) [OF True _ S] 2(3) True by simp
  next
    case False
    then show ?thesis using 2(2-4) by auto
  qed
qed simp

lemma invalidated_fixed:
  "invalidate_pass ts (invalidated ts bad) = invalidated ts bad \<and> set bad \<subseteq> set (invalidated ts bad)"
proof (induction ts bad rule: invalidated.induct)
  case (1 ts bad)
  show ?case
  proof (cases "invalidate_pass ts bad = bad")
    case True
    then show ?thesis by (simp add: invalidated.simps [of ts bad])
  next
    case False
    then have "invalidated ts bad = invalidated ts (invalidate_pass ts bad)"
      by (simp add: invalidated.simps [of ts bad] Let_def)
    then show ?thesis using 1 [OF refl False] invalidate_pass_grows [of ts bad] by auto
  qed
qed

lemma invalidated_sound:
  "set bad \<subseteq> (dep_edges ts)\<^sup>* `` S \<Longrightarrow> set (invalidated ts bad) \<subseteq> (dep_edges ts)\<^sup>* `` S"
proof (induction ts bad rule: invalidated.induct)
  case (1 ts bad)
  then show ?case using pass_sound [of ts ts bad S] by (simp add: invalidated.simps [of ts bad] Let_def)
qed

text \<open>The loop computes the transitive closure.\<close>

lemma invalidated_closure: "set (invalidated ts bad) = (dep_edges ts)\<^sup>* `` set bad"
proof
  show "set (invalidated ts bad) \<subseteq> (dep_edges ts)\<^sup>* `` set bad" by (rule invalidated_sound) auto
  have "x \<in> set (invalidated ts bad)" if "(b, x) \<in> (dep_edges ts)\<^sup>*" "b \<in> set bad" for b x
    using that(1)
  proof (induction rule: rtrancl_induct)
    case base
    then show ?case using invalidated_fixed that(2) by blast
  next
    case (step y z)
    then obtain t where "t \<in> set ts" "z = t_id t" "y \<in> set (t_depends_on t)" by (auto simp: dep_edges_def)
    then show ?case using pass_fixed [OF invalidated_fixed [THEN conjunct1]] step.IH by blast
  qed
  then show "(dep_edges ts)\<^sup>* `` set bad \<subseteq> set (invalidated ts bad)" by auto
qed

section \<open>Moving tasks\<close>

text \<open>The tasks of a plan that are named get the status, every other task keeps its own.\<close>

definition moved_row :: "string \<Rightarrow> string set \<Rightarrow> task_status \<Rightarrow> task_row \<Rightarrow> task_row \<Rightarrow> bool" where
  "moved_row pid ids st a b \<longleftrightarrow>
     t_plan_id b = t_plan_id a \<and> t_id b = t_id a \<and> t_depends_on b = t_depends_on a \<and>
     t_status b = (if t_plan_id a = pid \<and> t_id a \<in> ids then st else t_status a)"

definition tasks_moved :: "string \<Rightarrow> string set \<Rightarrow> task_status \<Rightarrow> store \<Rightarrow> store \<Rightarrow> bool" where
  "tasks_moved pid ids st s t \<longleftrightarrow> list_all2 (moved_row pid ids st) (st_tasks s) (st_tasks t)"

lemma tasks_moved_none: "tasks_moved pid {} st s s"
  by (simp add: tasks_moved_def moved_row_def list.rel_refl)

lemma tasks_moved_then:
  assumes "tasks_moved pid A st s t" "tasks_moved pid B st t u"
  shows "tasks_moved pid (A \<union> B) st s u"
  using assms unfolding tasks_moved_def
  by (rule list_all2_trans [rotated]) (auto simp: moved_row_def)

lemma transition_task_moves:
  assumes "reachable P s" and run: "transition_task E gid n i st nt evs actor s = Inr (t, r)"
    and p: "p \<in> set (st_plans s)" "p_goal_id p = gid" "p_revision p = n"
  shows "tasks_moved (p_id p) {i} st s t" and "st_plans t = st_plans s" and "reachable P t"
proof -
  have keys: "keys_ok s" and ok: "content_ok P s"
    using assms(1) by (rule reachable_keys, rule reachable_content)
  show "st_plans t = st_plans s"
    using exec_work_frame [of P E "TransitionTask gid n i st nt evs actor"] run by auto
  show "reachable P t"
    using reachable_step [OF assms(1), of "(E, WorkOp (TransitionTask gid n i st nt evs actor))"] run
    by (auto simp: exec_def)
  show "tasks_moved (p_id p) {i} st s t"
    using run
  proof (rule transition_task_steps)
    fix k :: task_row and s1 :: store and md pl
    let ?hit = "\<lambda>t. t_plan_id t = t_plan_id k \<and> t_id t = i"
    let ?f = "\<lambda>t. t\<lparr>t_status := st, t_attempts := t_attempts k + (if st = TASK_IN_PROGRESS \<and> t_status k \<noteq> st then 1 else 0),
        t_metadata := md, t_updated_at := now E\<rparr>"
    assume k: "fetchone (\<lambda>t. t_goal_id t = gid \<and> t_plan_revision t = n \<and> t_id t = i \<and>
        exists_row (\<lambda>p. p_id p = t_plan_id t) (st_plans s)) (st_tasks s) = Some k"
      and s1: "record_evidence E gid n i actor evs s = Inr s1"
      and log: "log_event E 0 ''task.status_changed'' (Some gid) (Some ''task'') (Some i) pl
        (s1\<lparr>st_tasks := update_where ?hit ?f (st_tasks s1)\<rparr>) = Inr t"
    have kin: "k \<in> set (st_tasks s)" "t_goal_id k = gid" "t_plan_revision k = n"
      using fetchone_Some [OF k] by auto
    then obtain q where "q \<in> set (st_plans s)" "p_id q = t_plan_id k" "p_goal_id q = gid" "p_revision q = n"
      using ok unfolding content_ok_def by metis
    then have pid: "t_plan_id k = p_id p" using unique_revision [OF keys _ p(1)] p(2,3) by metis
    have "st_tasks t = update_where ?hit ?f (st_tasks s)"
      using log record_evidence_frame [OF s1] by (auto simp: log_event_Inr)
    then show "tasks_moved (p_id p) {i} st s t"
      unfolding tasks_moved_def pid by (auto simp: update_where_def moved_row_def list.rel_map intro!: list.rel_refl_strong)
  qed
qed

lemma reset_tasks_moves:
  assumes "reachable P s" "reset_tasks E gid n nt actor is s = (t, Inr u)"
    and "p \<in> set (st_plans s)" "p_goal_id p = gid" "p_revision p = n"
  shows "tasks_moved (p_id p) (set is) TASK_PENDING s t \<and> st_plans t = st_plans s \<and> reachable P t"
  using assms
proof (induction "is" arbitrary: E s)
  case Nil
  then show ?case by (simp add: return_value_def tasks_moved_none)
next
  case (Cons i "is")
  then obtain s1 r where 1: "transition_task (E 0) gid n i TASK_PENDING nt [] actor s = Inr (s1, r)"
    and 2: "reset_tasks (\<lambda>k. E (Suc k)) gid n nt actor is s1 = (t, Inr u)"
    by (auto simp: ensue_def transaction_def split: sum.splits prod.splits)
  note m = transition_task_moves [OF Cons.prems(1) 1 Cons.prems(3-5)]
  have "tasks_moved (p_id p) (set is) TASK_PENDING s1 t \<and> st_plans t = st_plans s1 \<and> reachable P t"
    using Cons.IH [OF m(3) 2] Cons.prems(3-5) m(2) by simp
  then show ?case using m tasks_moved_then [OF m(1)] by auto
qed

section \<open>The plan a command reads\<close>

lemma latest_plan_row:
  assumes ok: "content_ok P s" and run: "get_latest_plan gid s = Inr (Some plan)"
  obtains p where "p \<in> set (st_plans s)" "p_goal_id p = gid" "p_revision plan = p_revision p" "p_id plan = p_id p"
    "p_status plan = p_status p" "p_goal_id plan = gid"
    "p_tasks plan = sort_key (\<lambda>t. - t_priority t) (stored_tasks s (p_id p))"
proof -
  obtain p rows where rows: "rev (list_plan_rows gid s) = p # rows" "plan_from_row s p = Inr plan"
    using run by (auto simp: get_latest_plan_def and_then_Inr split: list.splits)
  then have "p \<in> set (list_plan_rows gid s)" by (metis list.set_intros(1) set_rev)
  then have p: "p \<in> set (st_plans s)" "p_goal_id p = gid" by (auto simp: list_plan_rows_def)
  have "plan = plan_row.extend p (plan.fields (sort_key (\<lambda>t. - t_priority t) (stored_tasks s (p_id p))))"
    using plan_from_row_ok [OF ok p(1)] rows(2) by simp
  then show thesis using p by (intro that [of p]) (auto simp: plan_extend_fields)
qed

lemma truncate_links [simp]: "t_id (task.truncate t) = t_id t" "t_depends_on (task.truncate t) = t_depends_on t"
  by (simp_all add: task.defs)

lemma in_stored_tasks:
  "(\<exists>t \<in> set (sort_key k (stored_tasks s pid)). Q (t_id t) (t_depends_on t)) \<longleftrightarrow>
     (\<exists>a \<in> set (st_tasks s). t_plan_id a = pid \<and> Q (t_id a) (t_depends_on a))"
  by (auto simp: stored_tasks_def task_rows_def)

lemma plan_edges:
  "(d, x) \<in> dep_edges (sort_key k (stored_tasks s pid)) \<longleftrightarrow>
     (\<exists>a \<in> set (st_tasks s). t_plan_id a = pid \<and> t_id a = x \<and> d \<in> set (t_depends_on a))"
  using in_stored_tasks [of k s pid "\<lambda>i ds. i = x \<and> d \<in> set ds"] by (auto simp: dep_edges_def)

lemma plan_ids: "t_id ` set (sort_key k (stored_tasks s pid)) = t_id ` {a \<in> set (st_tasks s). t_plan_id a = pid}"
  by (auto simp: stored_tasks_def task_rows_def image_iff)

text \<open>What a successful update of a task has done.\<close>

lemma update_task_steps:
  assumes "reachable P s" and run: "update_task_from_user hide E sid i status nt s = (t, Inr r)"
  obtains p plan goal target s1 nt' evs E' where
    "load_active_goal sid s = Inr (Some goal)" "get_latest_plan (g_id goal) s = Inr (Some plan)"
    "p \<in> set (st_plans s)" "p_id plan = p_id p" "p_goal_id p = g_id goal" "p_revision plan = p_revision p"
    "p_tasks plan = sort_key (\<lambda>t. - t_priority t) (stored_tasks s (p_id p))"
    "user_target status = Some target"
    "if target = TASK_PENDING
     then upper i \<in> t_id ` {a \<in> set (st_tasks s). t_plan_id a = p_id p} \<and>
       tasks_moved (p_id p) ((dep_edges (p_tasks plan))\<^sup>* `` {upper i} \<inter> t_id ` set (p_tasks plan) - {upper i})
         TASK_PENDING s s1
     else s1 = s"
    "reachable P s1" "st_plans s1 = st_plans s"
    "transition_task E' (g_id goal) (p_revision p) i target nt' evs ''user'' s1 = Inr (t, r)"
proof -
  have ok: "content_ok P s" using assms(1) by (rule reachable_content)
  obtain goal where g: "load_active_goal sid s = Inr (Some goal)"
    using run
    by (auto simp: update_task_from_user_def ensue_def active_goal_def latest_plan_def reading_def return_value_def stop_def
        map_error_def split: option.splits sum.splits)
  obtain plan where l: "get_latest_plan (g_id goal) s = Inr (Some plan)"
    using run g
    by (auto simp: update_task_from_user_def ensue_def active_goal_def latest_plan_def reading_def return_value_def stop_def
        map_error_def split: option.splits sum.splits)
  obtain p where p: "p \<in> set (st_plans s)" "p_goal_id p = g_id goal" "p_revision plan = p_revision p" "p_id plan = p_id p"
    "p_tasks plan = sort_key (\<lambda>t. - t_priority t) (stored_tasks s (p_id p))"
    using latest_plan_row [OF ok l] by metis
  obtain target where tg: "user_target status = Some target"
    using run g l
    by (auto simp: update_task_from_user_def ensue_def active_goal_def latest_plan_def reading_def stop_def
        split: option.splits if_splits)
  obtain s1 nt' evs E' where
    reset: "(if target = TASK_PENDING then reset_dependants E goal plan i ''user'' else return_value ()) s = (s1, Inr ())"
    and last: "transition_task E' (g_id goal) (p_revision p) i target nt' evs ''user'' s1 = Inr (t, r)"
    using run g l tg p(3)
    by (auto simp: update_task_from_user_def ensue_def active_goal_def latest_plan_def reading_def stop_def
        transaction_def Let_def split: option.splits if_splits sum.splits prod.splits)
  define ids where "ids = dependants_to_reset plan (upper i)"
  have set_ids: "set ids = (dep_edges (p_tasks plan))\<^sup>* `` {upper i} \<inter> t_id ` set (p_tasks plan) - {upper i}"
    by (auto simp: ids_def dependants_to_reset_def Let_def invalidated_closure)
  have R: "(if target = TASK_PENDING
     then upper i \<in> t_id ` {a \<in> set (st_tasks s). t_plan_id a = p_id p} \<and> tasks_moved (p_id p) (set ids) TASK_PENDING s s1
     else s1 = s) \<and> reachable P s1 \<and> st_plans s1 = st_plans s"
  proof (cases "target = TASK_PENDING")
    case True
    then have known: "upper i \<in> set (map t_id (p_tasks plan))"
      and "reset_tasks E (g_id goal) (p_revision p) (reset_note (upper i) ''user'') ''user'' ids s = (s1, Inr ())"
      using reset p(3) by (auto simp: reset_dependants_def Let_def ids_def stop_def split: if_splits)
    from reset_tasks_moves [OF assms(1) this(2) p(1,2)] known True show ?thesis
      using plan_ids [of "\<lambda>t. - t_priority t" s "p_id p"] p(5) by simp
  next
    case False
    then show ?thesis using reset assms(1) by (simp add: return_value_def)
  qed
  show thesis
    using that [OF g l p(1,4,2,3,5) tg _ _ _ last] R unfolding set_ids by (auto split: if_splits)
qed

section \<open>Reopening\<close>

lemma closure_ids: "(dep_edges ts)\<^sup>* `` {i} \<subseteq> insert i (t_id ` set ts)"
proof -
  have "x = i \<or> x \<in> t_id ` set ts" if "(i, x) \<in> (dep_edges ts)\<^sup>*" for x
    using that by (induction rule: rtrancl_induct) (auto simp: dep_edges_def)
  then show ?thesis by auto
qed

lemma reopened_tasks:
  assumes "reachable P s" and run: "update_task_from_user hide E sid i ''pending'' nt s = (t, Inr r)"
    and "upper i = i"
  obtains goal plan where "load_active_goal sid s = Inr (Some goal)" "get_latest_plan (g_id goal) s = Inr (Some plan)"
    "tasks_moved (p_id plan) ((dep_edges (p_tasks plan))\<^sup>* `` {i}) TASK_PENDING s t"
  using assms(1,2)
proof (rule update_task_steps)
  fix p plan goal target s1 nt' evs E'
  assume g: "load_active_goal sid s = Inr (Some goal)" and l: "get_latest_plan (g_id goal) s = Inr (Some plan)"
    and p: "p \<in> set (st_plans s)" "p_id plan = p_id p" "p_goal_id p = g_id goal"
    and target: "user_target ''pending'' = Some target"
    and moved: "if target = TASK_PENDING
     then upper i \<in> t_id ` {a \<in> set (st_tasks s). t_plan_id a = p_id p} \<and>
       tasks_moved (p_id p) ((dep_edges (p_tasks plan))\<^sup>* `` {upper i} \<inter> t_id ` set (p_tasks plan) - {upper i})
         TASK_PENDING s s1
     else s1 = s"
    and s1: "reachable P s1" "st_plans s1 = st_plans s"
    and last: "transition_task E' (g_id goal) (p_revision p) i target nt' evs ''user'' s1 = Inr (t, r)"
  have pending: "target = TASK_PENDING" using target by (simp add: user_target_def)
  have "tasks_moved (p_id p) {i} TASK_PENDING s1 t"
    using transition_task_moves(1) [OF s1(1) last] p s1(2) pending by simp
  moreover have "tasks_moved (p_id p) ((dep_edges (p_tasks plan))\<^sup>* `` {i} \<inter> t_id ` set (p_tasks plan) - {i}) TASK_PENDING s s1"
    using moved pending \<open>upper i = i\<close> by simp
  ultimately have "tasks_moved (p_id p) ((dep_edges (p_tasks plan))\<^sup>* `` {i} \<inter> t_id ` set (p_tasks plan) - {i} \<union> {i}) TASK_PENDING s t"
    by (rule tasks_moved_then [rotated])
  moreover have "(dep_edges (p_tasks plan))\<^sup>* `` {i} \<inter> t_id ` set (p_tasks plan) - {i} \<union> {i} = (dep_edges (p_tasks plan))\<^sup>* `` {i}"
    using closure_ids [of "p_tasks plan" i] by auto
  ultimately show thesis using that [OF g l] p(2) by simp
qed

section \<open>Work in order\<close>

text \<open>Started and finished tasks of a plan have finished (or skipped) dependencies.\<close>

definition finished_statuses :: "task_status set" where
  "finished_statuses = {TASK_COMPLETED, TASK_OBSOLETE}"

definition work_in_order :: "string \<Rightarrow> store \<Rightarrow> bool" where
  "work_in_order pid s \<longleftrightarrow>
     (\<forall>a \<in> set (st_tasks s). t_plan_id a = pid \<and> t_status a \<in> {TASK_READY, TASK_IN_PROGRESS, TASK_VERIFYING, TASK_COMPLETED} \<longrightarrow>
        (\<forall>d \<in> set (t_depends_on a). \<exists>u \<in> set (st_tasks s). t_plan_id u = pid \<and> t_id u = d \<and> t_status u \<in> finished_statuses))"

lemma work_in_orderD:
  "work_in_order pid s \<Longrightarrow> a \<in> set (st_tasks s) \<Longrightarrow> t_plan_id a = pid \<Longrightarrow>
   t_status a \<in> {TASK_READY, TASK_IN_PROGRESS, TASK_VERIFYING, TASK_COMPLETED} \<Longrightarrow> d \<in> set (t_depends_on a) \<Longrightarrow>
   \<exists>u \<in> set (st_tasks s). t_plan_id u = pid \<and> t_id u = d \<and> t_status u \<in> finished_statuses"
  unfolding work_in_order_def by blast

lemma moved_source: "tasks_moved pid A st s t \<Longrightarrow> b \<in> set (st_tasks t) \<Longrightarrow> \<exists>a \<in> set (st_tasks s). moved_row pid A st a b"
  unfolding tasks_moved_def by (rule list_all2_source)

lemma moved_target: "tasks_moved pid A st s t \<Longrightarrow> a \<in> set (st_tasks s) \<Longrightarrow> \<exists>b \<in> set (st_tasks t). moved_row pid A st a b"
  unfolding tasks_moved_def by (rule list_all2_target)

lemma reset_in_order:
  assumes moved: "tasks_moved pid A TASK_PENDING s t" and ok: "work_in_order pid s"
    and closed: "\<And>a d. a \<in> set (st_tasks s) \<Longrightarrow> t_plan_id a = pid \<Longrightarrow> d \<in> set (t_depends_on a) \<Longrightarrow> d \<in> A \<Longrightarrow> t_id a \<in> A"
  shows "work_in_order pid t"
  unfolding work_in_order_def
proof (intro ballI impI)
  fix b d
  assume b: "b \<in> set (st_tasks t)" and st: "t_plan_id b = pid \<and> t_status b \<in> {TASK_READY, TASK_IN_PROGRESS, TASK_VERIFYING, TASK_COMPLETED}"
    and d: "d \<in> set (t_depends_on b)"
  obtain a where a: "a \<in> set (st_tasks s)" "moved_row pid A TASK_PENDING a b" using moved_source [OF moved b] by blast
  then have row: "t_plan_id b = t_plan_id a" "t_depends_on b = t_depends_on a"
    "t_status b = (if t_plan_id a = pid \<and> t_id a \<in> A then TASK_PENDING else t_status a)"
    by (simp_all add: moved_row_def)
  have same: "t_plan_id a = pid" using row(1) st by simp
  have out: "t_id a \<notin> A"
  proof
    assume "t_id a \<in> A"
    then have "t_status b = TASK_PENDING" using row(3) same by simp
    then show False using st by simp
  qed
  have act: "t_status a \<in> {TASK_READY, TASK_IN_PROGRESS, TASK_VERIFYING, TASK_COMPLETED}" "d \<in> set (t_depends_on a)"
    using st d row(2,3) out by simp_all
  obtain u where u: "u \<in> set (st_tasks s)" "t_plan_id u = pid" "t_id u = d" "t_status u \<in> finished_statuses"
    using work_in_orderD [OF ok a(1) same act] by blast
  obtain v where "v \<in> set (st_tasks t)" "moved_row pid A TASK_PENDING u v" using moved_target [OF moved u(1)] by blast
  moreover have "d \<notin> A" using closed [OF a(1) same act(2)] out by blast
  ultimately show "\<exists>u \<in> set (st_tasks t). t_plan_id u = pid \<and> t_id u = d \<and> t_status u \<in> finished_statuses"
    using u by (auto simp: moved_row_def)
qed

lemma move_in_order:
  assumes moved: "tasks_moved pid {i} st s t" and ok: "work_in_order pid s"
    and keeps: "\<And>u. u \<in> set (st_tasks s) \<Longrightarrow> t_plan_id u = pid \<Longrightarrow> t_id u = i \<Longrightarrow> t_status u \<in> finished_statuses \<Longrightarrow> st \<in> finished_statuses"
    and gate: "\<And>a d. a \<in> set (st_tasks s) \<Longrightarrow> t_plan_id a = pid \<Longrightarrow> t_id a = i \<Longrightarrow>
      st \<in> {TASK_READY, TASK_IN_PROGRESS, TASK_VERIFYING, TASK_COMPLETED} \<Longrightarrow> d \<in> set (t_depends_on a) \<Longrightarrow>
      \<exists>u \<in> set (st_tasks s). t_plan_id u = pid \<and> t_id u = d \<and> t_status u \<in> finished_statuses"
  shows "work_in_order pid t"
  unfolding work_in_order_def
proof (intro ballI impI)
  fix b d
  assume b: "b \<in> set (st_tasks t)" and st: "t_plan_id b = pid \<and> t_status b \<in> {TASK_READY, TASK_IN_PROGRESS, TASK_VERIFYING, TASK_COMPLETED}"
    and d: "d \<in> set (t_depends_on b)"
  obtain a where a: "a \<in> set (st_tasks s)" "moved_row pid {i} st a b" using moved_source [OF moved b] by blast
  then have same: "t_plan_id a = pid" "d \<in> set (t_depends_on a)" using st d by (auto simp: moved_row_def)
  have "\<exists>u \<in> set (st_tasks s). t_plan_id u = pid \<and> t_id u = d \<and> t_status u \<in> finished_statuses"
  proof (cases "t_id a = i")
    case True
    then show ?thesis using gate [OF a(1) same(1) True _ same(2)] a(2) st by (simp add: moved_row_def)
  next
    case False
    then have "t_status a = t_status b" using a(2) by (simp add: moved_row_def)
    then show ?thesis using work_in_orderD [OF ok a(1) same(1) _ same(2)] st by simp
  qed
  then obtain u where u: "u \<in> set (st_tasks s)" "t_plan_id u = pid" "t_id u = d" "t_status u \<in> finished_statuses" by blast
  obtain v where "v \<in> set (st_tasks t)" "moved_row pid {i} st u v" using moved_target [OF moved u(1)] by blast
  then show "\<exists>u \<in> set (st_tasks t). t_plan_id u = pid \<and> t_id u = d \<and> t_status u \<in> finished_statuses"
    using u keeps [OF u(1,2)] by (intro bexI [of _ v]) (auto simp: moved_row_def)
qed

lemma update_in_order:
  assumes r: "reachable P s" and run: "update_task_from_user hide E sid i status nt s = (t, Inr r)"
    and up: "upper i = i"
    and ok: "\<And>goal plan. load_active_goal sid s = Inr (Some goal) \<Longrightarrow> get_latest_plan (g_id goal) s = Inr (Some plan) \<Longrightarrow>
      work_in_order (p_id plan) s"
  obtains goal plan where "load_active_goal sid s = Inr (Some goal)" "get_latest_plan (g_id goal) s = Inr (Some plan)"
    "work_in_order (p_id plan) t"
  using r run
proof (rule update_task_steps)
  fix p plan goal target s1 nt' evs E'
  assume g: "load_active_goal sid s = Inr (Some goal)" and l: "get_latest_plan (g_id goal) s = Inr (Some plan)"
    and p: "p \<in> set (st_plans s)" "p_id plan = p_id p" "p_goal_id p = g_id goal" "p_revision plan = p_revision p"
    and tasks: "p_tasks plan = sort_key (\<lambda>t. - t_priority t) (stored_tasks s (p_id p))"
    and target: "user_target status = Some target"
    and moved: "if target = TASK_PENDING
     then upper i \<in> t_id ` {a \<in> set (st_tasks s). t_plan_id a = p_id p} \<and>
       tasks_moved (p_id p) ((dep_edges (p_tasks plan))\<^sup>* `` {upper i} \<inter> t_id ` set (p_tasks plan) - {upper i})
         TASK_PENDING s s1
     else s1 = s"
    and s1: "reachable P s1" "st_plans s1 = st_plans s"
    and last: "transition_task E' (g_id goal) (p_revision p) i target nt' evs ''user'' s1 = Inr (t, r)"
  have order: "work_in_order (p_id p) s" using ok [OF g l] p(2) by simp
  have step: "tasks_moved (p_id p) {i} target s1 t"
    using transition_task_moves(1) [OF s1(1) last] p(1,3) s1(2) by simp
  have "work_in_order (p_id p) t"
  proof (cases "target = TASK_PENDING")
    case True
    then have "status = ''pending''"
      using target by (auto simp: user_target_def split: if_splits)
    with r run up obtain goal' plan' where "load_active_goal sid s = Inr (Some goal')" "get_latest_plan (g_id goal') s = Inr (Some plan')"
      "tasks_moved (p_id plan') ((dep_edges (p_tasks plan'))\<^sup>* `` {i}) TASK_PENDING s t"
      by (metis reopened_tasks)
    then have m: "tasks_moved (p_id p) ((dep_edges (p_tasks plan))\<^sup>* `` {i}) TASK_PENDING s t" using g l p(2) by simp
    show ?thesis
    proof (rule reset_in_order [OF m order])
      fix a d
      assume "a \<in> set (st_tasks s)" "t_plan_id a = p_id p" "d \<in> set (t_depends_on a)" "d \<in> (dep_edges (p_tasks plan))\<^sup>* `` {i}"
      moreover from this have "(d, t_id a) \<in> dep_edges (p_tasks plan)" unfolding tasks plan_edges by blast
      ultimately show "t_id a \<in> (dep_edges (p_tasks plan))\<^sup>* `` {i}" by (auto intro: rtrancl_into_rtrancl)
    qed
  next
    case False
    then have s: "s1 = s" using moved by simp
    have keys: "keys_ok s" using r by (rule reachable_keys)
    show ?thesis
    proof (rule transition_task_gate [OF keys last [unfolded s]])
      fix k
      assume k: "k \<in> set (st_tasks s)" "t_goal_id k = g_id goal" "t_plan_revision k = p_revision p" "t_id k = i"
        and mv: "moves task_transitions (t_status k) target"
        and gate: "target \<in> {TASK_READY, TASK_IN_PROGRESS, TASK_VERIFYING, TASK_COMPLETED} \<Longrightarrow>
           \<forall>d \<in> set (t_depends_on k). \<exists>dep \<in> set (st_tasks s). t_plan_id dep = t_plan_id k \<and> t_id dep = d \<and>
              t_status dep \<in> {TASK_COMPLETED, TASK_OBSOLETE}"
      have "\<exists>q \<in> set (st_plans s). p_id q = t_plan_id k \<and> p_goal_id q = g_id goal \<and> p_revision q = p_revision p"
        using reachable_content [OF r] k unfolding content_ok_def by metis
      then have pid: "t_plan_id k = p_id p" using unique_revision [OF keys _ p(1)] p(3) by metis
      have only: "u = k" if "u \<in> set (st_tasks s)" "t_plan_id u = p_id p" "t_id u = i" for u
        using unique_task [OF keys that(1) k(1)] that pid k(4) by simp
      have tg: "target \<in> {TASK_COMPLETED, TASK_BLOCKED, TASK_OBSOLETE}"
        using target False by (auto simp: user_target_def split: if_splits)
      show ?thesis
      proof (rule move_in_order [OF step [unfolded s] order])
        show "target \<in> finished_statuses" if "u \<in> set (st_tasks s)" "t_plan_id u = p_id p" "t_id u = i"
          "t_status u \<in> finished_statuses" for u
          using only [OF that(1-3)] that(4) mv tg by (auto simp: finished_statuses_def moves_def)
        show "\<exists>u \<in> set (st_tasks s). t_plan_id u = p_id p \<and> t_id u = d \<and> t_status u \<in> finished_statuses"
          if "a \<in> set (st_tasks s)" "t_plan_id a = p_id p" "t_id a = i"
            "target \<in> {TASK_READY, TASK_IN_PROGRESS, TASK_VERIFYING, TASK_COMPLETED}" "d \<in> set (t_depends_on a)" for a d
          using gate [OF that(4)] only [OF that(1-3)] that(5) pid by (simp add: finished_statuses_def)
      qed
    qed
  qed
  then show thesis using that [OF g l] p(2) by simp
qed

end
