(* ===== verification/Coordinator_Edits.thy ===== *)
theory Coordinator_Edits
  imports Coordinator_Tasks Plan_Walk Plan_Text
begin

text \<open>
  What a document gives the plan store: a parsed document is a sound proposal, and the tasks an edit
  makes of it carry its fields and pass the checks of the store unless one names a dependency twice.
\<close>

section \<open>Sound documents\<close>

definition parsed_ok :: "parsed_task \<Rightarrow> bool" where
  "parsed_ok t \<longleftrightarrow>
     is_upper_id (pt_id t) \<and> pt_title t \<noteq> [] \<and> pt_description t \<noteq> [] \<and>
     pt_risk t \<in> {''low'', ''medium'', ''high'', ''critical''} \<and>
     pt_acceptance_criteria t \<noteq> [] \<and> pt_verification t \<noteq> []"

definition parsed_table :: "parsed_task list \<Rightarrow> (string \<times> string list) list" where
  "parsed_table ts = map (\<lambda>t. (pt_id t, pt_depends_on t)) ts"

lemma parse_task_Inr:
  assumes "parse_task lines headings strategy known h = Inr t"
  shows "parsed_ok t" "pt_id t \<notin> set known"
  using assms by (cases h; auto simp: parse_task_def parsed_ok_def raise_at_def Let_def split: if_splits)+

lemma parse_tasks_Inr:
  "parse_tasks lines headings strategy known hs = Inr ts \<Longrightarrow>
     distinct (map (pt_id \<circ> fst) ts) \<and> set known \<inter> set (map (pt_id \<circ> fst) ts) = {} \<and> (\<forall>t \<in> set ts. parsed_ok (fst t))"
proof (induction lines headings strategy known hs arbitrary: ts rule: parse_tasks.induct)
  case (2 lines headings strategy known h hs)
  from 2(2) obtain t us where t: "parse_task lines headings strategy known h = Inr t"
    "parse_tasks lines headings strategy (pt_id t # known) hs = Inr us" "ts = (t, fst h + 1) # us"
    by (auto simp: and_then_Inr)
  from 2(1) [OF t(2)] parse_task_Inr [OF t(1)] t(3) show ?case by auto
qed simp

lemma check_known_Inr: "check_known known ts = Inr u \<Longrightarrow> t \<in> set ts \<Longrightarrow> set (pt_depends_on (fst t)) \<subseteq> set known"
  by (induction known ts rule: check_known.induct)
    (auto simp: Let_def raise_at_def filter_empty_conv split: if_splits)

lemma parse_entry_Inr:
  "parse_entry evidence known n line = Inr e \<Longrightarrow> \<exists>l tx ids. e = entry_dict evidence l tx ids \<and> set ids \<subseteq> set known"
  unfolding parse_entry_def raise_at_def Let_def
  by (clarsimp split: if_split_asm option.split_asm) blast

lemma parse_entries_Inr:
  "parse_entries evidence known n ls = Inr es \<Longrightarrow> e \<in> set es \<Longrightarrow>
     \<exists>l tx ids. e = entry_dict evidence l tx ids \<and> set ids \<subseteq> set known"
proof (induction evidence known n ls arbitrary: es rule: parse_entries.induct)
  case (2 evidence known n line ls)
  show ?case
  proof (cases "strip line = []")
    case True
    then show ?thesis using 2 by (simp add: Let_def)
  next
    case False
    with 2(3) obtain e' es' where "parse_entry evidence known n (strip line) = Inr e'"
      "parse_entries evidence known (Suc n) ls = Inr es'" "es = e' # es'"
      by (auto simp: and_then_Inr Let_def)
    then show ?thesis using 2(2) [OF refl False] 2(4) parse_entry_Inr by auto
  qed
qed simp

lemma pipe_items_Inr:
  "pipe_items lines known a b evidence = Inr es \<Longrightarrow>
     es \<noteq> [] \<and> (\<forall>e \<in> set es. \<exists>l tx ids. e = entry_dict evidence l tx ids \<and> set ids \<subseteq> set known)"
  by (auto simp: pipe_items_def and_then_Inr raise_at_def split: if_splits dest: parse_entries_Inr)

definition document_ok :: "parsed_document \<Rightarrow> bool" where
  "document_ok d \<longleftrightarrow>
     (let ids = map pt_id (dc_tasks d) in
      dc_summary d \<noteq> [] \<and> dc_strategy d \<noteq> [] \<and> dc_tasks d \<noteq> [] \<and> distinct ids \<and>
      (\<forall>t \<in> set (dc_tasks d). parsed_ok t \<and> set (pt_depends_on t) \<subseteq> set ids) \<and>
      acyclic (depends (parsed_table (dc_tasks d))) \<and>
      dc_changes d \<noteq> [] \<and> dc_evidence d \<noteq> [] \<and>
      (\<forall>e \<in> set (dc_changes d). \<exists>l tx is. e = entry_dict False l tx is \<and> set is \<subseteq> set ids) \<and>
      (\<forall>e \<in> set (dc_evidence d). \<exists>l tx is. e = entry_dict True l tx is \<and> set is \<subseteq> set ids))"

lemma parse_sections_ok:
  assumes "parse_sections lines headings a b c e = Inr d"
  shows "document_ok d"
proof -
  define starts where "starts = filter (\<lambda>(_, t). is_task_title t) headings"
  obtain ts line_of v ch ev where ts: "parse_tasks lines headings b [] starts = Inr ts" "ts \<noteq> []"
    and known: "check_known (map (pt_id \<circ> fst) ts) ts = Inr ()"
    and walk: "visit_all (map (\<lambda>(t, _). (pt_id t, pt_depends_on t)) ts) line_of [] (map (pt_id \<circ> fst) ts) [] = Inr v"
    and ch: "pipe_items lines (map (pt_id \<circ> fst) ts) c e False = Inr ch"
    and ev: "pipe_items lines (map (pt_id \<circ> fst) ts) e (length lines) True = Inr ev"
    and d: "dc_tasks d = map fst ts" "dc_changes d = ch" "dc_evidence d = ev" "dc_summary d \<noteq> []" "dc_strategy d \<noteq> []"
    using assms unfolding parse_sections_def starts_def [symmetric] Let_def
    by (auto simp: and_then_Inr raise_at_def split: if_splits)
  have table: "map (\<lambda>(t, _). (pt_id t, pt_depends_on t)) ts = parsed_table (dc_tasks d)"
    by (simp add: d parsed_table_def case_prod_beta')
  have ids: "map (pt_id \<circ> fst) ts = map pt_id (dc_tasks d)" "map fst (parsed_table (dc_tasks d)) = map pt_id (dc_tasks d)"
    by (simp_all add: d parsed_table_def comp_def)
  have "acyclic (depends (parsed_table (dc_tasks d)))"
    using walk_acyclic [of "parsed_table (dc_tasks d)" line_of v] walk unfolding table ids by simp
  moreover have "\<forall>t \<in> set (dc_tasks d). parsed_ok t \<and> set (pt_depends_on t) \<subseteq> set (map pt_id (dc_tasks d))"
    using parse_tasks_Inr [OF ts(1)] check_known_Inr [OF known] unfolding ids(1) by (auto simp: d(1))
  ultimately show ?thesis
    using d ts(2) parse_tasks_Inr [OF ts(1)] pipe_items_Inr [OF ch] pipe_items_Inr [OF ev]
    unfolding document_ok_def Let_def ids(1) by auto
qed

lemma parsed_document_ok: "parse_plan_document doc = Inr d \<Longrightarrow> document_ok d"
  unfolding parse_plan_document_def Let_def raise_at_def
  by (auto split: if_splits option.splits intro: parse_sections_ok)

section \<open>The tasks of an edited plan\<close>

definition task_of :: "parsed_task \<Rightarrow> task \<Rightarrow> bool" where
  "task_of t u \<longleftrightarrow>
     t_id u = pt_id t \<and> t_title u = pt_title t \<and> t_description u = pt_description t \<and>
     t_depends_on u = pt_depends_on t \<and> t_parent_id u = None \<and> t_status u = TASK_PENDING"

lemma edited_gets:
  "get_truthy (edited_task old k t) ''id'' = (if pt_id t = [] then None else Some (JStr (pt_id t)))"
  "get_truthy (edited_task old k t) ''title'' = (if pt_title t = [] then None else Some (JStr (pt_title t)))"
  "get_truthy (edited_task old k t) ''description'' = (if pt_description t = [] then None else Some (JStr (pt_description t)))"
  "get_truthy (edited_task old k t) ''parent_id'' = None"
  "get_or d (edited_task old k t) ''depends_on'' = jstrs (pt_depends_on t)"
  "get_or d (edited_task old k t) ''status'' = JStr ''pending''"
  by (simp_all add: get_truthy_def get_or_def edited_task_def Let_def)

lemma text_items_jstrs: "text_items P (jstrs xs) = Inr xs"
  by (simp add: text_items_def jstrs_def py_iter_def comp_def)

lemma pending_status: "status_of_json (JStr ''pending'') = Inr TASK_PENDING"
  using task_enum.parse_val [of TASK_PENDING] by (simp add: status_of_json_def)

lemma coerce_edited:
  assumes run: "coerce_task P E j (TaskMapping (edited_task old k t)) gid n origin = Inr u"
    and ok: "parsed_ok t" and deps: "list_all is_upper_id (pt_depends_on t)"
  shows "task_of t u"
proof -
  have id: "upper (strip (pt_id t)) = pt_id t" "pt_id t \<noteq> []"
    using ok upper_id_facts [of "pt_id t"] by (simp_all add: parsed_ok_def)
  have ds: "map (\<lambda>d. upper (strip d)) (pt_depends_on t) = pt_depends_on t"
    using deps upper_id_facts(1,2) by (intro map_idI) (simp add: list_all_iff)
  show ?thesis
    using run ok
    by (auto simp: coerce_task_def coerce_mapping_def edited_gets text_items_jstrs pending_status id ds Let_def
        and_then_Inr mk_task_iff task_of_def parsed_ok_def split: if_splits)
qed

lemma coerce_edited_tasks:
  assumes run: "coerce_tasks P E gid n origin (edited_tasks old ts) = Inr us"
    and ok: "\<And>t. t \<in> set ts \<Longrightarrow> parsed_ok t \<and> list_all is_upper_id (pt_depends_on t)"
  shows "list_all2 task_of ts us"
proof -
  have R: "list_all2 (\<lambda>(k, v) u. coerce_task P E k v gid n origin = Inr u) (enumerate 0 (edited_tasks old ts)) us"
    using run by (simp add: coerce_tasks_def map_result_Inr case_prod_beta')
  show ?thesis
    unfolding list_all2_conv_all_nth
  proof (intro conjI allI impI)
    show l: "length ts = length us" using list_all2_lengthD [OF R] by (simp add: edited_tasks_def)
    fix i assume i: "i < length ts"
    have "coerce_task P E i (TaskMapping (edited_task old i (ts ! i))) gid n origin = Inr (us ! i)"
      using list_all2_nthD [OF R, of i] i by (simp add: edited_tasks_def nth_enumerate_eq)
    then show "task_of (ts ! i) (us ! i)" using ok [of "ts ! i"] i by (intro coerce_edited) auto
  qed
qed

lemma edited_tasks_validate:
  assumes doc: "document_ok d" and us: "list_all2 task_of (dc_tasks d) us"
  shows "(\<exists>order. validate_task_dag us = Inr order) \<longleftrightarrow> (\<forall>t \<in> set (dc_tasks d). distinct (pt_depends_on t))"
proof -
  define ts where "ts = dc_tasks d"
  have D: "distinct (map pt_id ts)" "\<And>t. t \<in> set ts \<Longrightarrow> set (pt_depends_on t) \<subseteq> set (map pt_id ts)"
    "acyclic (depends (parsed_table ts))"
    using doc by (auto simp: document_ok_def Let_def ts_def)
  have R: "list_all2 task_of ts us" using us by (simp add: ts_def)
  have ids: "map t_id us = map pt_id ts"
    using R by (induction rule: list_all2_induct) (auto simp: task_of_def)
  have id_set: "t_id ` set us = set (map pt_id ts)" using ids by (metis set_map)
  have src: "\<And>u. u \<in> set us \<Longrightarrow> \<exists>t \<in> set ts. task_of t u" and tgt: "\<And>t. t \<in> set ts \<Longrightarrow> \<exists>u \<in> set us. task_of t u"
    using list_all2_source [OF R] list_all2_target [OF R] by blast+
  have edge: "(pt_id t, x) \<in> depends (parsed_table ts)" if t: "t \<in> set ts" "x \<in> set (pt_depends_on t)" for t x
  proof -
    have "map_of (parsed_table ts) (pt_id t) = Some (pt_depends_on t)"
      using D(1) t(1) by (intro map_of_is_SomeI) (auto simp: parsed_table_def comp_def)
    then show ?thesis using t(2) by (auto simp: depends_def)
  qed
  have self: "pt_id t \<notin> set (pt_depends_on t)" if "t \<in> set ts" for t
    using edge [OF that, of "pt_id t"] D(3) by (auto simp: acyclic_def)
  have "dep_edges us \<subseteq> (depends (parsed_table ts))\<inverse>"
    using src edge by (fastforce simp: dep_edges_def task_of_def)
  then have ac: "acyclic (dep_edges us)" using D(3) acyclic_subset acyclic_converse by metis
  have par: "parent_edges us = {}" using src by (fastforce simp: parent_edges_def task_of_def)
  have "links_ok us \<longleftrightarrow> (\<forall>t \<in> set ts. distinct (pt_depends_on t))"
  proof
    assume "links_ok us"
    then show "\<forall>t \<in> set ts. distinct (pt_depends_on t)"
      using tgt unfolding links_ok_def task_of_def by metis
  next
    assume dist: "\<forall>t \<in> set ts. distinct (pt_depends_on t)"
    show "links_ok us"
      unfolding links_ok_def ids id_set
    proof (intro conjI ballI allI impI D(1))
      fix u assume "u \<in> set us"
      then obtain t where t: "t \<in> set ts" "task_of t u" using src by blast
      then show "distinct (t_depends_on u)" "set (t_depends_on u) \<subseteq> set (map pt_id ts)" "t_id u \<notin> set (t_depends_on u)"
        using dist D(2) self by (auto simp: task_of_def)
      fix p assume "t_parent_id u = Some p"
      then show "p \<in> set (map pt_id ts)" "p \<noteq> t_id u" using t(2) by (auto simp: task_of_def)
    qed
  qed
  moreover have "acyclic (parent_edges us)" unfolding par by (simp add: acyclic_def)
  ultimately show ?thesis using ac by (simp add: validate_iff ts_def)
qed

text \<open>A document the editor accepts is refused by the plan store for its links only over a repeated dependency.\<close>

lemma parsed_tasks_validate:
  assumes "parse_plan_document doc = Inr d"
    and run: "coerce_tasks P E gid n origin (edited_tasks old (dc_tasks d)) = Inr us"
  shows "list_all2 task_of (dc_tasks d) us"
    "(\<exists>order. validate_task_dag us = Inr order) \<longleftrightarrow> (\<forall>t \<in> set (dc_tasks d). distinct (pt_depends_on t))"
proof -
  have doc: "document_ok d" using assms(1) by (rule parsed_document_ok)
  then have all: "\<And>t. t \<in> set (dc_tasks d) \<Longrightarrow> parsed_ok t \<and> set (pt_depends_on t) \<subseteq> pt_id ` set (dc_tasks d)"
    by (simp add: document_ok_def Let_def)
  have "parsed_ok t \<and> list_all is_upper_id (pt_depends_on t)" if t: "t \<in> set (dc_tasks d)" for t
    unfolding list_all_iff
  proof (intro conjI ballI)
    show "parsed_ok t" using all [OF t] by simp
    fix x assume "x \<in> set (pt_depends_on t)"
    then obtain u where "u \<in> set (dc_tasks d)" "x = pt_id u" using all [OF t] by blast
    then show "is_upper_id x" using all by (simp add: parsed_ok_def)
  qed
  then show us: "list_all2 task_of (dc_tasks d) us" by (intro coerce_edited_tasks [OF run]) blast
  show "(\<exists>order. validate_task_dag us = Inr order) \<longleftrightarrow> (\<forall>t \<in> set (dc_tasks d). distinct (pt_depends_on t))"
    by (rule edited_tasks_validate [OF doc us])
qed

end
