(* ===== verification/Coordinator_Outcomes.thy ===== *)
theory Coordinator_Outcomes
  imports Coordinator_Edits Coordinator_Runs
begin

text \<open>
  How an edit of the plan document ends.  A saved edit leaves the goal waiting for approval, and the
  coordinator shows the document as it was saved.  A refused one keeps the plans, the tasks and the
  documents; the goal is back in its status unless it was being verified or reviewed.
\<close>

section \<open>Changes of status\<close>

definition status_of :: "string \<Rightarrow> store \<Rightarrow> goal_status option" where
  "status_of gid s = map_option g_status (fetchone (\<lambda>g. g_id g = gid) (st_goals s))"

text \<open>What changes when a goal moves: its own row, the sessions and the event log.\<close>

definition goal_moved :: "env \<Rightarrow> string \<Rightarrow> goal_status \<Rightarrow> store \<Rightarrow> store \<Rightarrow> bool" where
  "goal_moved E gid target s t \<longleftrightarrow>
     (\<exists>md. st_goals t = update_where (\<lambda>g. g_id g = gid)
        (\<lambda>g. g\<lparr>g_status := target, g_metadata := md, g_updated_at := now E\<rparr>) (st_goals s)) \<and>
     st_plans t = st_plans s \<and> st_tasks t = st_tasks s \<and> st_documents t = st_documents s \<and>
     ev_id ` set (st_events t) = insert (fresh E ''event'' 0) (ev_id ` set (st_events s))"

lemma move_goal_Inr:
  assumes "move_goal E gid target reason s = (t, Inr g)"
  obtains st where "status_of gid s = Some st" "moves goal_transitions st target" "goal_moved E gid target s t"
proof -
  obtain row where row: "fetchone (\<lambda>g. g_id g = gid) (st_goals s) = Some row"
    and mv: "ensure_goal_transition (g_status row) target = Inr ()"
    and t: "transition_goal E gid target reason [] s = Inr (t, g)"
    using assms
    by (auto simp: move_goal_def transaction_def transition_goal_def and_then_Inr split: option.splits sum.splits)
  have "goal_moved E gid target s t"
    using t row by (auto simp: transition_goal_def Let_def and_then_Inr log_event_Inr goal_moved_def)
  with row mv show thesis by (intro that [of "g_status row"]) (auto simp: status_of_def ensure_iffs)
qed

lemma move_goal_Inl: "move_goal E gid target reason s = (t, Inl e) \<Longrightarrow> t = s"
  by (auto simp: move_goal_def transaction_def split: sum.splits)

lemma goal_moved_status:
  assumes "goal_moved E gid target s t"
  shows "status_of k t = (if k = gid \<and> status_of gid s \<noteq> None then Some target else status_of k s)"
proof -
  obtain md where g: "st_goals t = update_where (\<lambda>g. g_id g = gid)
      (\<lambda>g. g\<lparr>g_status := target, g_metadata := md, g_updated_at := now E\<rparr>) (st_goals s)"
    using assms unfolding goal_moved_def by blast
  have "map_option g_status (fetchone (\<lambda>g. g_id g = k) (update_where (\<lambda>g. g_id g = gid)
      (\<lambda>g. g\<lparr>g_status := target, g_metadata := md, g_updated_at := now E\<rparr>) gs)) =
    (if k = gid \<and> map_option g_status (fetchone (\<lambda>g. g_id g = gid) gs) \<noteq> None then Some target
     else map_option g_status (fetchone (\<lambda>g. g_id g = k) gs))" for gs
    by (induction gs) (auto simp: update_where_def fetchone_def)
  then show ?thesis unfolding status_of_def g .
qed

text \<open>A transition is refused only by the graph, for an unknown goal, or when the event's identifier is taken.\<close>

lemma move_goal_result:
  assumes "status_of gid s = Some st" "fresh E ''event'' 0 \<notin> ev_id ` set (st_events s)"
  shows "if moves goal_transitions st target
    then \<exists>t g. move_goal E gid target reason s = (t, Inr g)
    else \<exists>m. move_goal E gid target reason s = (s, Inl (StoreFailure (DomainFailure m)))"
proof -
  obtain row where row: "fetchone (\<lambda>g. g_id g = gid) (st_goals s) = Some row" "g_status row = st"
    using assms(1) by (auto simp: status_of_def)
  show ?thesis
  proof (cases "moves goal_transitions st target")
    case True
    then have "ensure_goal_transition st target = Inr ()" by (simp add: ensure_iffs)
    then have "\<exists>t g. transition_goal E gid target reason [] s = Inr (t, g)"
      using assms(2) row by (simp add: transition_goal_def Let_def and_then_Inr log_event_Inr)
    then show ?thesis using True by (auto simp: move_goal_def transaction_def)
  next
    case False
    then obtain m where "ensure_goal_transition st target = Inl m"
      using ensure_iffs(1) [of st target] by (cases "ensure_goal_transition st target") auto
    then show ?thesis using False row by (auto simp: move_goal_def transaction_def transition_goal_def)
  qed
qed

section \<open>The steps of an edit\<close>

text \<open>The goal is opened for revision, unless it is being revised already.\<close>

definition opened :: "env \<Rightarrow> goal \<Rightarrow> string \<Rightarrow> store \<Rightarrow> store \<Rightarrow> bool" where
  "opened E goal reason s t \<longleftrightarrow>
     (if g_status goal = GOAL_REVISING then t = s
      else \<exists>g. move_goal E (g_id goal) GOAL_REVISING reason s = (t, Inr g))"

definition roll_back :: "env \<Rightarrow> goal \<Rightarrow> runtime_error \<Rightarrow> plan command" where
  "roll_back E goal e =
     ensue (if g_status goal = GOAL_REVISING then return_value goal
            else move_goal E (g_id goal) (g_status goal) ''invalid manual plan edit rolled back'') (\<lambda>_. stop e)"

lemma edit_steps:
  assumes doc: "parse_plan_document doc = Inr d" and ctx: "revision_context sid s = (s, Inr (goal, old))"
    and run: "replace_plan_document P E sid doc reason editor s = (t, r)"
  obtains (closed) e where "g_status goal \<noteq> GOAL_REVISING" "r = Inl e" "t = s"
      "move_goal (E 0) (g_id goal) GOAL_REVISING reason s = (s, Inl e)"
  | (refused) s1 e where "opened (E 0) goal reason s s1"
      "create_plan P (E 1) (g_id goal) (edit_request d (p_tasks old) doc editor) s1 = Inl e"
      "roll_back (E 2) goal (StoreFailure e) s1 = (t, r)"
  | (created) s1 s2 plan where "opened (E 0) goal reason s s1"
      "create_plan P (E 1) (g_id goal) (edit_request d (p_tasks old) doc editor) s1 = Inr (s2, plan)"
      "record_revision E sid (g_id goal) plan s2 = (t, r)"
proof -
  define m where "m = (if g_status goal = GOAL_REVISING then return_value goal
      else move_goal (E 0) (g_id goal) GOAL_REVISING reason)"
  have run': "ensue m (\<lambda>_. rescue (transaction (create_plan P (E 1) (g_id goal) (edit_request d (p_tasks old) doc editor)))
      (record_revision E sid (g_id goal)) (roll_back (E 2) goal)) s = (t, r)"
    using run
    unfolding replace_plan_document_def doc sum.case Let_def m_def roll_back_def
    by (simp only: ensue_def [of "revision_context sid"] ctx prod.case sum.case)
  show thesis
  proof (cases "m s")
    case (Pair s1 x)
    show thesis
    proof (cases x)
      case (Inl e)
      then have g: "g_status goal \<noteq> GOAL_REVISING" using Pair by (auto simp: m_def return_value_def)
      then have "move_goal (E 0) (g_id goal) GOAL_REVISING reason s = (s1, Inl e)" using Pair Inl by (simp add: m_def)
      with move_goal_Inl [OF this] g run' Pair Inl show thesis by (intro closed) (simp_all add: ensue_def)
    next
      case (Inr g)
      have op: "opened (E 0) goal reason s s1"
        using Pair Inr by (auto simp: m_def opened_def return_value_def split: if_splits)
      show thesis
        using run' Pair Inr refused [OF op] created [OF op]
        by (auto simp: ensue_def [of m] rescue_def transaction_def split: sum.splits)
    qed
  qed
qed

lemma record_revision_plans:
  assumes "record_revision E sid gid plan s = (t, r)"
  shows "st_plans t = st_plans s"
proof (cases "move_goal (E 2) gid GOAL_AWAITING_PLAN_APPROVAL (''manual plan document saved as r'' @ int_str (p_revision plan)) s")
  case (Pair s1 x)
  have "st_plans s1 = st_plans s"
    using Pair by (cases x) (auto simp: goal_moved_def dest: move_goal_Inl elim!: move_goal_Inr)
  moreover have "st_plans t = st_plans s1"
    using assms Pair
    by (auto simp: record_revision_def ensue_def reading_def transaction_def return_value_def mutate_workflow_session_def
        and_then_Inr split: sum.splits option.splits if_splits)
  ultimately show ?thesis by simp
qed

lemma opened_cases:
  "opened E goal reason s t \<Longrightarrow>
     g_status goal = GOAL_REVISING \<and> t = s \<or> goal_moved E (g_id goal) GOAL_REVISING s t"
  by (auto simp: opened_def split: if_splits elim: move_goal_Inr)

lemma opened_facts:
  assumes "opened E goal reason s t" "status_of (g_id goal) s = Some (g_status goal)"
  shows "status_of (g_id goal) t = Some GOAL_REVISING" "st_plans t = st_plans s" "st_tasks t = st_tasks s"
    "st_documents t = st_documents s"
    "ev_id ` set (st_events t) \<subseteq> insert (fresh E ''event'' 0) (ev_id ` set (st_events s))"
  using opened_cases [OF assms(1)] assms(2) goal_moved_status [of E "g_id goal" GOAL_REVISING s t "g_id goal"]
  by (auto simp: goal_moved_def)

lemma context_goal:
  assumes "reachable P s" "revision_context sid s = (s, Inr (goal, old))"
  shows "status_of (g_id goal) s = Some (g_status goal)" "g_status goal \<in> revisable"
    "load_active_goal sid s = Inr (Some goal)"
proof -
  show a: "load_active_goal sid s = Inr (Some goal)" and "g_status goal \<in> revisable"
    using assms(2)
    by (auto simp: revision_context_def active_goal_def latest_plan_def ensue_def reading_def map_error_def return_value_def stop_def
        split: sum.splits option.splits if_splits)
  obtain row where "rev (sort_key g_created_at (filter (\<lambda>g. g_session_id g = sid \<and> unfinished g) (st_goals s))) = [row]"
    and row: "goal = goal.truncate row"
    using a by (auto simp: load_active_goal_def split: list.splits)
  then have "row \<in> set (rev (sort_key g_created_at (filter (\<lambda>g. g_session_id g = sid \<and> unfinished g) (st_goals s))))"
    by simp
  then have "row \<in> set (st_goals s)" by simp
  moreover have "keys_ok s" using assms(1) by (rule reachable_keys)
  ultimately have "fetchone (\<lambda>g. g_id g = g_id row) (st_goals s) = Some row"
    by (intro fetchone_key) (simp_all add: keys_ok_def)
  then show "status_of (g_id goal) s = Some (g_status goal)"
    by (simp add: status_of_def row goal.defs)
qed

section \<open>How an edit ends\<close>

lemma refused_edit:
  assumes r: "reachable P s" and doc: "parse_plan_document doc = Inr d" and ctx: "revision_context sid s = (s, Inr (goal, old))"
    and run: "replace_plan_document P E sid doc reason editor s = (t, Inl err)" and kept: "st_plans t = st_plans s"
    and ids: "fresh (E 0) ''event'' 0 \<notin> ev_id ` set (st_events s)" "fresh (E 2) ''event'' 0 \<notin> ev_id ` set (st_events s)"
      "fresh (E 2) ''event'' 0 \<noteq> fresh (E 0) ''event'' 0"
  shows "st_tasks t = st_tasks s" "st_documents t = st_documents s"
    "status_of (g_id goal) t =
       Some (if g_status goal \<in> {GOAL_VERIFYING, GOAL_REVIEWING} then GOAL_REVISING else g_status goal)"
    "g_status goal \<in> {GOAL_VERIFYING, GOAL_REVIEWING} \<Longrightarrow> \<exists>m. err = StoreFailure (DomainFailure m)"
proof -
  note G = context_goal [OF r ctx]
  have graph: "moves goal_transitions (g_status goal) GOAL_REVISING"
    "moves goal_transitions GOAL_REVISING (g_status goal) \<longleftrightarrow> g_status goal \<notin> {GOAL_VERIFYING, GOAL_REVIEWING}"
    using G(2) by (auto simp: revisable_def moves_def)
  obtain s1 e where op: "opened (E 0) goal reason s s1" and undo: "roll_back (E 2) goal (StoreFailure e) s1 = (t, Inl err)"
    using doc ctx run
  proof (cases rule: edit_steps)
    case closed
    then show ?thesis using move_goal_result [OF G(1) ids(1), of GOAL_REVISING reason] graph(1) by auto
  next
    case (refused s1 e)
    then show ?thesis by (intro that) 
  next
    case (created s1 s2 plan)
    have "st_plans s1 = st_plans s" using opened_cases [OF created(1)] by (auto simp: goal_moved_def)
    then have "length (st_plans t) = Suc (length (st_plans s))"
      unfolding record_revision_plans [OF created(3)] create_plan_tables(1) [OF created(2)]
      by (simp add: supersede_open_def update_where_def)
    with kept show ?thesis by simp
  qed
  note O = opened_facts [OF op G(1)]
  show "st_tasks t = st_tasks s" "st_documents t = st_documents s"
    "status_of (g_id goal) t =
       Some (if g_status goal \<in> {GOAL_VERIFYING, GOAL_REVIEWING} then GOAL_REVISING else g_status goal)"
    "g_status goal \<in> {GOAL_VERIFYING, GOAL_REVIEWING} \<Longrightarrow> \<exists>m. err = StoreFailure (DomainFailure m)"
  proof -
    have f2: "fresh (E 2) ''event'' 0 \<notin> ev_id ` set (st_events s1)" using O(5) ids(2,3) by blast
    note C = move_goal_result [OF O(1) f2, of "g_status goal" "''invalid manual plan edit rolled back''"]
    consider "g_status goal = GOAL_REVISING" "t = s1"
      | "g_status goal \<in> {GOAL_VERIFYING, GOAL_REVIEWING}" "t = s1" "\<exists>m. err = StoreFailure (DomainFailure m)"
      | "g_status goal \<notin> {GOAL_VERIFYING, GOAL_REVIEWING}" "goal_moved (E 2) (g_id goal) (g_status goal) s1 t"
      using undo C graph(2)
      by (auto simp: roll_back_def ensue_def return_value_def stop_def split: if_splits sum.splits prod.splits
          elim: move_goal_Inr)
    then have "st_tasks t = st_tasks s \<and> st_documents t = st_documents s \<and> status_of (g_id goal) t =
       Some (if g_status goal \<in> {GOAL_VERIFYING, GOAL_REVIEWING} then GOAL_REVISING else g_status goal) \<and>
       (g_status goal \<in> {GOAL_VERIFYING, GOAL_REVIEWING} \<longrightarrow> (\<exists>m. err = StoreFailure (DomainFailure m)))"
    proof cases
      case 3
      then show ?thesis using O goal_moved_status [OF 3(2), of "g_id goal"] by (simp add: goal_moved_def)
    qed (use O in auto)
    then show "st_tasks t = st_tasks s" "st_documents t = st_documents s"
      "status_of (g_id goal) t =
         Some (if g_status goal \<in> {GOAL_VERIFYING, GOAL_REVIEWING} then GOAL_REVISING else g_status goal)"
      "g_status goal \<in> {GOAL_VERIFYING, GOAL_REVIEWING} \<Longrightarrow> \<exists>m. err = StoreFailure (DomainFailure m)"
      by simp_all
  qed
qed

lemma fetchone_new: "v \<notin> k ` set xs \<Longrightarrow> k r = v \<Longrightarrow> fetchone (\<lambda>q. k q = v) (xs @ [r]) = Some r"
  by (induction xs) (auto simp: fetchone_def)

lemma create_plan_saves:
  assumes run: "create_plan P E gid r s = Inr (t, plan)" and doc: "pr_document r = Some content"
  shows "map_option pd_content (get_plan_document (p_id plan) t) = Some content"
    "coerce_tasks P E gid (p_revision plan) (pr_proposed_by r) (pr_tasks r) = Inr (p_tasks plan)"
    "p_revision plan = (case latest_revision gid s of None \<Rightarrow> 0 | Some n \<Rightarrow> n) + 1"
    "p_status plan = (if pr_submit r then PLAN_PENDING_APPROVAL else PLAN_DRAFT)"
proof -
  define n where "n = (case latest_revision gid s of None \<Rightarrow> 0 | Some n \<Rightarrow> n) + 1"
  obtain s3 s4 ety pl where ins: "insert_document
       \<lparr>pd_plan_id = p_id plan, pd_goal_id = gid, pd_revision = n, pd_format_version = max 1 (pr_format_version r),
        pd_content = content, pd_content_hash = hash_text P content,
        pd_edited_by = (if pr_edited_by r = [] then pr_proposed_by r else pr_edited_by r), pd_created_at = now E\<rparr> s3 = Inr s4"
    and log: "log_event E 0 ety (Some gid) (Some ''plan'') (Some (p_id plan)) pl s4 = Inr t"
    using run unfolding create_plan_def Let_def n_def [symmetric] doc option.case
    by (clarsimp simp: and_then_Inr split: if_splits)
  obtain tasks where c: "coerce_tasks P E gid n (pr_proposed_by r) (pr_tasks r) = Inr tasks"
    and p: "p_revision plan = n" "p_tasks plan = tasks" "p_status plan = (if pr_submit r then PLAN_PENDING_APPROVAL else PLAN_DRAFT)"
    using run by (rule create_plan_steps) (simp add: n_def)
  show "coerce_tasks P E gid (p_revision plan) (pr_proposed_by r) (pr_tasks r) = Inr (p_tasks plan)"
    unfolding p by (rule c)
  show "p_revision plan = (case latest_revision gid s of None \<Rightarrow> 0 | Some n \<Rightarrow> n) + 1" unfolding p n_def ..
  show "p_status plan = (if pr_submit r then PLAN_PENDING_APPROVAL else PLAN_DRAFT)" by (fact p(3))
  have new: "p_id plan \<notin> pd_plan_id ` set (st_documents s3)"
    using ins by (auto simp: insert_document_def and_then_Inr insert_row_Inr split: if_splits)
  have "st_documents t = st_documents s4" using log by (auto simp: log_event_Inr)
  then show "map_option pd_content (get_plan_document (p_id plan) t) = Some content"
    unfolding get_plan_document_def insert_document_Inr [OF ins] by (simp add: fetchone_new [OF new])
qed

lemma load_goal_moved:
  assumes keys: "keys_ok s" and moved: "goal_moved E gid target s t"
    and g: "load_active_goal sid s = Inr (Some g)" "g_id g = gid" and live: "target \<notin> terminal_goal_statuses"
  obtains g' where "load_active_goal sid t = Inr (Some g')" "g_id g' = gid" "g_status g' = target"
proof -
  let ?Q = "\<lambda>g. g_session_id g = sid \<and> unfinished g"
  obtain md where m: "st_goals t = update_where (\<lambda>g. g_id g = gid)
      (\<lambda>g. g\<lparr>g_status := target, g_metadata := md, g_updated_at := now E\<rparr>) (st_goals s)"
    using moved unfolding goal_moved_def by blast
  let ?f = "\<lambda>g. if g_id g = gid then g\<lparr>g_status := target, g_metadata := md, g_updated_at := now E\<rparr> else g"
  obtain row where row: "rev (sort_key g_created_at (filter ?Q (st_goals s))) = [row]" "g = goal.truncate row"
    using g(1) by (auto simp: load_active_goal_def split: list.splits)
  have len: "length (filter ?Q (st_goals s)) = 1" using arg_cong [OF row(1), of length] by simp
  then obtain row' where "filter ?Q (st_goals s) = [row']" by (auto simp: length_Suc_conv)
  with row(1) have one: "filter ?Q (st_goals s) = [row]" by simp
  have "row \<in> set (filter ?Q (st_goals s))" unfolding one by simp
  then have in_s: "row \<in> set (st_goals s)" "?Q row" by simp_all
  have id: "g_id row = gid" using g(2) row(2) by (simp add: goal.defs)
  have "?Q (?f q) \<longleftrightarrow> ?Q q" if "q \<in> set (st_goals s)" for q
  proof (cases "g_id q = gid")
    case True
    then have "q = row" using key_unique [of g_id "st_goals s" q row] keys that in_s id by (simp add: keys_ok_def)
    then show ?thesis using in_s live id by simp
  qed simp
  then have "filter (?Q \<circ> ?f) (st_goals s) = filter ?Q (st_goals s)" by (intro filter_cong) auto
  then have "filter ?Q (st_goals t) = map ?f (filter ?Q (st_goals s))"
    unfolding m update_where_def filter_map by (rule arg_cong)
  then have "filter ?Q (st_goals t) = [?f row]" using one by simp
  then show thesis using id by (intro that [of "goal.truncate (?f row)"]) (simp_all add: load_active_goal_def goal.defs)
qed

lemma newest_row:
  assumes "distinct (map p_revision (filter (\<lambda>p. p_goal_id p = gid) (st_plans s)))"
    and "p \<in> set (st_plans s)" "p_goal_id p = gid" "\<forall>n \<in> set (revisions_of gid s). n \<le> p_revision p"
  shows "\<exists>rows. rev (list_plan_rows gid s) = p # rows"
proof -
  have set: "set (list_plan_rows gid s) = {q \<in> set (st_plans s). p_goal_id q = gid}" by (auto simp: list_plan_rows_def)
  then have "p \<in> set (list_plan_rows gid s)" using assms(2,3) by simp
  then obtain ys q where xs: "list_plan_rows gid s = ys @ [q]" by (metis empty_iff list.set(1) rev_exhaust)
  have q: "q \<in> set (filter (\<lambda>p. p_goal_id p = gid) (st_plans s))" using set unfolding xs by auto
  have "sorted (map p_revision (ys @ [q]))" unfolding xs [symmetric] by (simp add: list_plan_rows_def)
  then have "p_revision p \<le> p_revision q"
    using \<open>p \<in> set (list_plan_rows gid s)\<close> unfolding xs by (auto simp: sorted_append)
  moreover have "p_revision q \<le> p_revision p" using q assms(4) by (auto simp: revisions_of_def)
  ultimately have "q = p" using key_unique [OF assms(1), of q p] q assms(2,3) by simp
  then show ?thesis using xs by simp
qed

lemma opened_reachable: "reachable P s \<Longrightarrow> opened E goal reason s t \<Longrightarrow> reachable P t"
  by (auto simp: opened_def split: if_splits intro: journaled_reachable [OF journaled_steps(1)])

lemma load_same_goals: "st_goals t = st_goals s \<Longrightarrow> load_active_goal sid t = load_active_goal sid s"
  by (simp add: load_active_goal_def)

lemma latest_same_plans:
  "st_plans t = st_plans s \<Longrightarrow> st_tasks t = st_tasks s \<Longrightarrow> get_latest_plan gid t = get_latest_plan gid s"
  by (simp add: get_latest_plan_def list_plan_rows_def plan_from_row_def task_rows_def cong: list.case_cong)

lemma record_revision_Inr:
  assumes "record_revision E sid gid plan s = (t, Inr p)"
  obtains s1 where "p = plan" "goal_moved (E 2) gid GOAL_AWAITING_PLAN_APPROVAL s s1" "st_goals t = st_goals s1"
    "st_plans t = st_plans s1" "st_tasks t = st_tasks s1" "st_documents t = st_documents s1"
proof -
  obtain s1 g where s1: "move_goal (E 2) gid GOAL_AWAITING_PLAN_APPROVAL
      (''manual plan document saved as r'' @ int_str (p_revision plan)) s = (s1, Inr g)"
    using assms by (auto simp: record_revision_def ensue_def split: sum.splits prod.splits)
  have "p = plan \<and> st_goals t = st_goals s1 \<and> st_plans t = st_plans s1 \<and> st_tasks t = st_tasks s1 \<and> st_documents t = st_documents s1"
    using assms s1
    by (auto simp: record_revision_def ensue_def reading_def transaction_def return_value_def mutate_workflow_session_def
        and_then_Inr split: sum.splits option.splits if_splits)
  with move_goal_Inr [OF s1] show thesis by (metis that)
qed

lemma created_is_latest:
  assumes r: "reachable P s" and run: "create_plan P E gid req s = Inr (t, plan)"
  shows "get_latest_plan gid t = Inr (Some (plan\<lparr>p_tasks := sort_key (\<lambda>t. - t_priority t) (p_tasks plan)\<rparr>))"
proof -
  have keys: "keys_ok s" and ok: "content_ok P s" using r by (rule reachable_keys, rule reachable_content)
  note T = create_plan_tables [OF run]
  have kt: "keys_ok t" using create_plan_evolves [OF keys run] by (simp add: evolves_def)
  let ?row = "plan_row.truncate plan"
  have row: "?row \<in> set (st_plans t)" "p_goal_id ?row = gid" "p_revision ?row = p_revision plan"
    using T by (simp_all add: plan_truncate_fields)
  have "inj_on p_revision (set (filter (\<lambda>p. p_goal_id p = gid) (st_plans t)))"
    using unique_revision [OF kt] by (auto intro!: inj_onI)
  moreover have "distinct (st_plans t)" using kt by (auto simp: keys_ok_def distinct_map)
  ultimately have d: "distinct (map p_revision (filter (\<lambda>p. p_goal_id p = gid) (st_plans t)))"
    by (simp add: distinct_map)
  have "n \<le> p_revision plan" if n: "n \<in> set (revisions_of gid t)" for n
  proof -
    obtain q where q: "q \<in> set (st_plans t)" "p_goal_id q = gid" "n = p_revision q"
      using n by (auto simp: revisions_of_def)
    from q(1) consider "q = ?row" | "q \<in> set (st_plans (supersede_open E gid s))" unfolding T(1) by auto
    then show ?thesis
    proof cases
      case 2
      then obtain q' where "q' \<in> set (st_plans s)" "plan_step q' q" by (rule in_supersede_open)
      then have q': "q' \<in> set (st_plans s)" "p_goal_id q' = gid" and n': "p_revision q' = n"
        using q(2,3) by (simp_all add: plan_step_def)
      then obtain m where "latest_revision gid s = Some m" "p_revision q' \<le> m"
        using latest_revision_bound [OF q'] by metis
      then show ?thesis using T(9) n' by simp
    qed (use q row(3) in simp)
  qed
  then obtain rows where "rev (list_plan_rows gid t) = ?row # rows"
    using newest_row [OF d row(1,2)] row(3) by auto
  moreover have "plan_from_row t ?row = Inr (plan\<lparr>p_tasks := sort_key (\<lambda>t. - t_priority t) (p_tasks plan)\<rparr>)"
  proof -
    have "\<exists>q. fetchone (\<lambda>p. p_goal_id p = gid \<and> p_revision p = p_revision plan) (st_plans t) = Some q"
      using row by (cases "fetchone (\<lambda>p. p_goal_id p = gid \<and> p_revision p = p_revision plan) (st_plans t)") auto
    then obtain q where q: "fetchone (\<lambda>p. p_goal_id p = gid \<and> p_revision p = p_revision plan) (st_plans t) = Some q" ..
    then have "q = ?row" using unique_revision [OF kt _ row(1)] row(2,3) fetchone_Some [OF q] by metis
    with q show ?thesis using created_plan_reads_back [OF keys ok run] by (simp add: get_plan_def)
  qed
  ultimately show ?thesis by (simp add: get_latest_plan_def)
qed

lemma saved_edit:
  assumes r: "reachable P s" and doc: "parse_plan_document doc = Inr d" and ctx: "revision_context sid s = (s, Inr (goal, old))"
    and run: "replace_plan_document P E sid doc reason editor s = (t, Inr plan)"
  shows "status_of (g_id goal) t = Some GOAL_AWAITING_PLAN_APPROVAL"
    "p_status plan = PLAN_PENDING_APPROVAL" "list_all2 task_of (dc_tasks d) (p_tasks plan)"
    "get_latest_plan (g_id goal) t = Inr (Some (plan\<lparr>p_tasks := sort_key (\<lambda>t. - t_priority t) (p_tasks plan)\<rparr>))"
    "plan_document_text P sid t = (t, Inr doc)"
proof -
  note G = context_goal [OF r ctx]
  obtain s1 s2 plan' where op: "opened (E 0) goal reason s s1"
    and made: "create_plan P (E 1) (g_id goal) (edit_request d (p_tasks old) doc editor) s1 = Inr (s2, plan')"
    and rec: "record_revision E sid (g_id goal) plan' s2 = (t, Inr plan)"
    using doc ctx run
  proof (cases rule: edit_steps)
    case closed
    then show ?thesis by simp
  next
    case refused
    then show ?thesis by (auto simp: roll_back_def ensue_def stop_def return_value_def split: prod.splits sum.splits if_splits)
  next
    case (created s1 s2 plan')
    then show ?thesis by (intro that)
  qed
  obtain s3 where s3: "plan' = plan" "goal_moved (E 2) (g_id goal) GOAL_AWAITING_PLAN_APPROVAL s2 s3"
    "st_goals t = st_goals s3" "st_plans t = st_plans s3" "st_tasks t = st_tasks s3" "st_documents t = st_documents s3"
    using rec by (rule record_revision_Inr) blast
  have moved: "st_plans s3 = st_plans s2" "st_tasks s3 = st_tasks s2" "st_documents s3 = st_documents s2"
    using s3(2) by (auto simp: goal_moved_def)
  have r1: "reachable P s1" using r op by (rule opened_reachable)
  note made = made [unfolded s3(1)]
  note saves = create_plan_saves [OF made, of doc, unfolded edit_request_def plan_request.simps, OF refl]
  have goals: "st_goals s2 = st_goals s1" by (rule create_plan_tables(3) [OF made])
  obtain g1 where g1: "load_active_goal sid s1 = Inr (Some g1)" "g_id g1 = g_id goal"
  proof (cases "g_status goal = GOAL_REVISING \<and> s1 = s")
    case True
    then show ?thesis using G(3) that by blast
  next
    case False
    then have "goal_moved (E 0) (g_id goal) GOAL_REVISING s s1" using opened_cases [OF op] by blast
    from load_goal_moved [OF reachable_keys [OF r] this G(3) refl] that show ?thesis
      by (auto simp: terminal_goal_statuses_def)
  qed
  have keys2: "keys_ok s2" using create_plan_evolves [OF reachable_keys [OF r1] made] by (simp add: evolves_def)
  have "load_active_goal sid s2 = Inr (Some g1)" using g1(1) load_same_goals [OF goals] by simp
  then obtain g3 where g3: "load_active_goal sid t = Inr (Some g3)" "g_id g3 = g_id goal" "g_status g3 = GOAL_AWAITING_PLAN_APPROVAL"
    using load_goal_moved [OF keys2 s3(2) _ g1(2)] load_same_goals [OF s3(3)] by (auto simp: terminal_goal_statuses_def)
  have "status_of (g_id goal) s1 = Some GOAL_REVISING" by (rule opened_facts(1) [OF op G(1)])
  then have "status_of (g_id goal) s2 = Some GOAL_REVISING" using goals by (simp only: status_of_def)
  then have "status_of (g_id goal) s3 = Some GOAL_AWAITING_PLAN_APPROVAL"
    by (simp add: goal_moved_status [OF s3(2)])
  then show "status_of (g_id goal) t = Some GOAL_AWAITING_PLAN_APPROVAL" using s3(3) by (simp only: status_of_def)
  show "p_status plan = PLAN_PENDING_APPROVAL" using saves(4) by simp
  show "list_all2 task_of (dc_tasks d) (p_tasks plan)" using saves(2) by (rule parsed_tasks_validate(1) [OF doc])
  show latest: "get_latest_plan (g_id goal) t = Inr (Some (plan\<lparr>p_tasks := sort_key (\<lambda>t. - t_priority t) (p_tasks plan)\<rparr>))"
    using created_is_latest [OF r1 made] latest_same_plans [of t s2] s3(4,5) moved by simp
  have "map_option pd_content (get_plan_document (p_id plan) t) = Some doc"
    using saves(1) s3(6) moved(3) by (simp add: get_plan_document_def)
  then show "plan_document_text P sid t = (t, Inr doc)"
    using latest g3
    by (auto simp: plan_document_text_def latest_plan_def active_goal_def ensue_def reading_def)
qed

end
