(* ===== verification/Scenario_Plans.thy ===== *)
theory Scenario_Plans
  imports Scenario Plan_Roundtrip Coordinator_Outcomes
begin

text \<open>
  The journal of \<open>Scenario\<close> under the commands of the coordinator: the plan as a document, an edit
  that is saved, one that is refused, a task that is reopened.
\<close>

section \<open>Documents\<close>

definition demo_entry :: "string \<Rightarrow> string \<Rightarrow> json_obj" where
  "demo_entry k l = [(k, JStr ''x''), (l, JStr ''f''), (''supports_tasks'', jstrs [''A'', ''B''])]"

definition demo_plan :: plan where
  "demo_plan =
     \<lparr>p_id = ''p'', p_goal_id = ''g'', p_revision = 1, p_summary = ''sum'', p_status = PLAN_DRAFT,
      p_applicability = [demo_entry ''source'' ''fact''], p_strategy = ''go'', p_changes = [demo_entry ''path'' ''intent''],
      p_proposed_by = ''agent'', p_fingerprint = ''h'', p_accepted_by = None, p_accepted_at = None,
      p_created_at = 0, p_updated_at = 0, p_tasks = [demo_task ''A'' [], demo_task ''B'' [''A'']]\<rparr>"

lemma demo_plan_clean: "mk_plan demo_plan = Inr demo_plan" "clean_plan demo_plan"
  by code_simp+

definition demo_document :: "string list \<Rightarrow> string" where
  "demo_document deps =
     (case render_plan_document (\<lambda>_. []) (demo_plan\<lparr>p_tasks := [demo_task ''A'' [], demo_task ''B'' deps]\<rparr>) of
        Some doc \<Rightarrow> doc | None \<Rightarrow> [])"

text \<open>The parser accepts a task that names a dependency twice, the plan store does not.\<close>

lemma demo_repeated_dependency:
  obtains d us where "parse_plan_document (demo_document [''A'', ''A'']) = Inr d"
    "coerce_tasks demo_platform (demo_env 1) ''g'' 1 ''user'' (edited_tasks [] (dc_tasks d)) = Inr us"
    "\<not> list_all (\<lambda>t. distinct (pt_depends_on t)) (dc_tasks d)"
proof -
  have "case parse_plan_document (demo_document [''A'', ''A'']) of Inl _ \<Rightarrow> False
    | Inr d \<Rightarrow> succeeds (coerce_tasks demo_platform (demo_env 1) ''g'' 1 ''user'' (edited_tasks [] (dc_tasks d))) \<and>
        \<not> list_all (\<lambda>t. distinct (pt_depends_on t)) (dc_tasks d)" by code_simp
  then show thesis by (auto simp del: One_nat_def intro: that elim!: succeedsE split: sum.splits)
qed

text \<open>A plan without expected changes, which the plan store admits, renders to a document that is refused.\<close>

lemma rendered_without_changes_refused:
  "map_option parse_plan_document (render_plan_document (\<lambda>_. []) (demo_plan\<lparr>p_changes := []\<rparr>)) =
     Some (Inl (PlanDocumentError EmptySection 37))"
  by code_simp

section \<open>Commands on the journal\<close>

definition demo_session :: session_update where
  "demo_session =
     \<lparr>su_goal_id = Some demo_goal_id, su_session_mode = ''normal'', su_plan_state = ''approved'', su_run_state = ''executing'',
      su_ultra_profile = ''standard'', su_sleep_state = None, su_state = None, su_expected_revision = None,
      su_clear_goal_id = False\<rparr>"

text \<open>The running goal with its session; the same with the first task done and the second begun; the goal verifying.\<close>

definition demo_running :: store where
  "demo_running = run_store demo_platform [(demo_env 6, SessionOp (SaveSession ''s'' demo_session))] demo_working"

definition demo_advanced :: store where
  "demo_advanced = run_store demo_platform
     [(demo_env 7, WorkOp (TransitionTask demo_goal_id 1 ''A'' TASK_COMPLETED [] [''tests pass''] ''agent'')),
      (demo_env 8, WorkOp (TransitionTask demo_goal_id 1 ''B'' TASK_IN_PROGRESS [] [] ''agent''))] demo_running"

definition demo_verifying :: store where
  "demo_verifying = run_store demo_platform
     [(demo_env 7, GoalOp (TransitionGoal demo_goal_id GOAL_VERIFYING [] []))] demo_running"

lemma demo_commands_reachable:
  "reachable demo_platform demo_running" "reachable demo_platform demo_advanced" "reachable demo_platform demo_verifying"
proof -
  show r: "reachable demo_platform demo_running"
    unfolding demo_running_def by (rule reachable_run) (rule demo_working_reachable)
  show "reachable demo_platform demo_advanced" "reachable demo_platform demo_verifying"
    unfolding demo_advanced_def demo_verifying_def by (rule reachable_run, rule r)+
qed

definition demo_envs :: "nat \<Rightarrow> env" where
  "demo_envs k = demo_env (10 + k)"

definition demo_edit :: "string list \<Rightarrow> plan command" where
  "demo_edit deps = replace_plan_document demo_platform demo_envs ''s'' (demo_document deps) ''edit'' ''user''"

definition returns :: "'a command \<Rightarrow> store \<Rightarrow> bool" where
  "returns m s = succeeds (snd (m s))"

text \<open>What is asked of a state before and after an edit, evaluated once.\<close>

definition edit_view :: "string list \<Rightarrow> store \<Rightarrow> (bool \<times> bool \<times> bool) \<times> string list \<times> (string \<times> goal_status) option" where
  "edit_view deps s =
     (case demo_edit deps s of
        (t, r) \<Rightarrow> ((succeeds r, st_plans t = st_plans s, returns (revision_context ''s'') s),
          map ev_id (st_events s),
          map_option (\<lambda>g. (g_id g, g_status g)) (case load_active_goal ''s'' s of Inr g \<Rightarrow> g | Inl _ \<Rightarrow> None)))"

lemma demo_saved_view: "fst (edit_view [''A''] demo_running) = (True, False, True)"
  by code_simp

lemma demo_refused_view:
  "edit_view [''A'', ''A''] demo_verifying =
     ((False, True, True), map (\<lambda>i. fresh (demo_env i) ''event'' 0) [0, 1, 2, 3, 4, 5, 7], Some (demo_goal_id, GOAL_VERIFYING))"
  by code_simp

text \<open>An edit goes ahead only when the document parses.\<close>

lemma edit_parses:
  assumes "replace_plan_document P E sid doc reason editor s = (t, r)" "t \<noteq> s"
  obtains d where "parse_plan_document doc = Inr d"
  using assms by (cases "parse_plan_document doc") (auto simp: replace_plan_document_def stop_def)

lemma demo_context:
  assumes "returns (revision_context sid) s"
  obtains goal old where "revision_context sid s = (s, Inr (goal, old))"
proof -
  have "fst (revision_context sid s) = s"
    by (auto simp: revision_context_def active_goal_def latest_plan_def ensue_def reading_def return_value_def stop_def
        split: sum.split option.split prod.split)
  then show thesis using assms that
    by (cases "revision_context sid s"; cases "snd (revision_context sid s)") (auto simp: returns_def succeeds_def)
qed

lemma demo_saved:
  obtains d goal old t plan where "parse_plan_document (demo_document [''A'']) = Inr d"
    "revision_context ''s'' demo_running = (demo_running, Inr (goal, old))" "demo_edit [''A''] demo_running = (t, Inr plan)"
proof -
  obtain t r where e: "demo_edit [''A''] demo_running = (t, r)" by (cases "demo_edit [''A''] demo_running")
  then have v: "succeeds r" "st_plans t \<noteq> st_plans demo_running" "returns (revision_context ''s'') demo_running"
    using demo_saved_view by (simp_all add: edit_view_def)
  obtain d where d: "parse_plan_document (demo_document [''A'']) = Inr d"
    using e v(2) by (auto simp: demo_edit_def intro: edit_parses)
  obtain goal old where "revision_context ''s'' demo_running = (demo_running, Inr (goal, old))"
    using v(3) by (rule demo_context)
  with d v(1) e show thesis by (elim succeedsE) (blast intro: that)
qed

lemma demo_refused:
  obtains d goal old t err where "parse_plan_document (demo_document [''A'', ''A'']) = Inr d"
    "revision_context ''s'' demo_verifying = (demo_verifying, Inr (goal, old))"
    "demo_edit [''A'', ''A''] demo_verifying = (t, Inl err)" "st_plans t = st_plans demo_verifying"
    "g_id goal = demo_goal_id" "g_status goal = GOAL_VERIFYING"
proof -
  obtain t r where e: "demo_edit [''A'', ''A''] demo_verifying = (t, r)" by (cases "demo_edit [''A'', ''A''] demo_verifying")
  then have v: "\<not> succeeds r" "st_plans t = st_plans demo_verifying" "returns (revision_context ''s'') demo_verifying"
    "map_option (\<lambda>g. (g_id g, g_status g)) (case load_active_goal ''s'' demo_verifying of Inr g \<Rightarrow> g | Inl _ \<Rightarrow> None) =
       Some (demo_goal_id, GOAL_VERIFYING)"
    using demo_refused_view by (simp_all add: edit_view_def)
  obtain goal old where ctx: "revision_context ''s'' demo_verifying = (demo_verifying, Inr (goal, old))"
    using v(3) by (rule demo_context)
  have g: "g_id goal = demo_goal_id" "g_status goal = GOAL_VERIFYING"
    using context_goal(3) [OF demo_commands_reachable(3) ctx] v(4) by auto
  obtain d us where d: "parse_plan_document (demo_document [''A'', ''A'']) = Inr d"
    by (rule demo_repeated_dependency)
  obtain err where "r = Inl err" using v(1) by (cases r) (auto simp: succeeds_def)
  with e show thesis by (intro that [OF d ctx _ v(2) g]) simp
qed

lemma demo_events_unused:
  "fresh (demo_envs 0) ''event'' 0 \<notin> ev_id ` set (st_events demo_verifying)"
  "fresh (demo_envs 2) ''event'' 0 \<notin> ev_id ` set (st_events demo_verifying)"
  "fresh (demo_envs 2) ''event'' 0 \<noteq> fresh (demo_envs 0) ''event'' 0"
proof -
  have e: "map ev_id (st_events demo_verifying) = map (\<lambda>i. fresh (demo_env i) ''event'' 0) [0, 1, 2, 3, 4, 5, 7]"
    using demo_refused_view by (auto simp: edit_view_def split: prod.splits)
  have "distinct (map (\<lambda>i. fresh (demo_env i) ''event'' 0) [0, 1, 2, 3, 4, 5, 7] @
      [fresh (demo_envs 0) ''event'' 0, fresh (demo_envs 2) ''event'' 0])" by code_simp
  then show "fresh (demo_envs 0) ''event'' 0 \<notin> ev_id ` set (st_events demo_verifying)"
    "fresh (demo_envs 2) ''event'' 0 \<notin> ev_id ` set (st_events demo_verifying)"
    "fresh (demo_envs 2) ''event'' 0 \<noteq> fresh (demo_envs 0) ''event'' 0"
    unfolding e [symmetric] by (auto simp only: distinct_append set_map set_append list.set distinct.simps)
qed

section \<open>Reopening a finished task\<close>

definition demo_reopen :: "task command" where
  "demo_reopen = update_task_from_user (\<lambda>t. t) demo_envs ''s'' ''A'' ''pending'' []"

definition reopen_view :: "store \<Rightarrow> bool \<times> (string \<times> task_status) list \<times> bool" where
  "reopen_view s =
     (returns demo_reopen s, map (\<lambda>u. (t_id u, t_status u)) (st_tasks s),
      list_all (\<lambda>a. work_in_order (t_plan_id a) s) (st_tasks s))"

lemma demo_reopen_view:
  "reopen_view demo_advanced = (True, [(''A'', TASK_COMPLETED), (''B'', TASK_IN_PROGRESS)], True)"
  by code_simp

lemma demo_reopened:
  obtains t r where "demo_reopen demo_advanced = (t, Inr r)"
    "map (\<lambda>u. (t_id u, t_status u)) (st_tasks demo_advanced) = [(''A'', TASK_COMPLETED), (''B'', TASK_IN_PROGRESS)]"
  using demo_reopen_view that
  by (cases "demo_reopen demo_advanced") (auto simp: reopen_view_def returns_def elim: succeedsE)

lemma demo_in_order: "work_in_order pid demo_advanced"
  using demo_reopen_view unfolding reopen_view_def work_in_order_def list_all_iff by blast

end
