(* ===== verification/Wave_Scheduler.thy ===== *)
theory Wave_Scheduler
  imports Scopes "HOL-Library.Product_Lexorder"
begin

text \<open>
  \<open>agent/scheduler.py\<close>, second part: cooperative control, adaptive concurrency and
  \<open>DeterministicWaveScheduler\<close>.  What happens outside the scheduler is an argument (the
  record \<open>world\<close>): whether a checkpoint finds the run cancelled, what each attempt of a worker
  did, and in which order the threads of a wave reached the shared \<open>AdaptiveConcurrency\<close>.
  Since that order is an arbitrary function, the theorems cover every interleaving.
\<close>

section \<open>Cooperative control\<close>

record control =
  ct_paused :: bool
  ct_cancelled :: bool

definition control_init :: control where
  "control_init = \<lparr>ct_paused = False, ct_cancelled = False\<rparr>"

datatype control_op = Pause | Resume | Cancel

primrec exec_control :: "control_op \<Rightarrow> control \<Rightarrow> unit + control" where
  "exec_control Pause c = Inr (if ct_cancelled c then c else c\<lparr>ct_paused := True\<rparr>)"
| "exec_control Resume c = Inr (c\<lparr>ct_paused := False\<rparr>)"
| "exec_control Cancel c = Inr (c\<lparr>ct_cancelled := True, ct_paused := False\<rparr>)"

text \<open>\<open>checkpoint()\<close> returns, raises, or (paused) waits for the next notification.\<close>

datatype checkpoint = Proceed | Raise_Cancelled | Wait

definition checkpoint :: "control \<Rightarrow> checkpoint" where
  "checkpoint c =
     (if ct_paused c \<and> \<not> ct_cancelled c then Wait
      else if ct_cancelled c then Raise_Cancelled else Proceed)"

interpretation control_sane: op_invariant exec_control "\<lambda>c. ct_cancelled c \<longrightarrow> \<not> ct_paused c"
proof
  fix s p t assume "ct_cancelled s \<longrightarrow> \<not> ct_paused s" "exec_control p s = Inr t"
  then show "ct_cancelled t \<longrightarrow> \<not> ct_paused t" by (cases p) (auto split: if_splits)
qed

interpretation control_final: op_invariant exec_control "\<lambda>c. ct_cancelled c \<and> \<not> ct_paused c"
proof
  fix s p t assume "ct_cancelled s \<and> \<not> ct_paused s" "exec_control p s = Inr t"
  then show "ct_cancelled t \<and> \<not> ct_paused t" by (cases p) (auto split: if_splits)
qed

text \<open>After a cancel every later checkpoint raises.\<close>

lemma cancel_final: "checkpoint (run_ops exec_control later (run_ops exec_control [Cancel] c)) = Raise_Cancelled"
proof -
  have "ct_cancelled (run_ops exec_control later (run_ops exec_control [Cancel] c)) \<and>
      \<not> ct_paused (run_ops exec_control later (run_ops exec_control [Cancel] c))"
    by (rule control_final.run_inv) (simp add: step_or_stay_def)
  then show ?thesis by (simp add: checkpoint_def)
qed

section \<open>Adaptive concurrency\<close>

record adaptive =
  ac_maximum :: int
  ac_initial :: int
  ac_current :: int
  ac_recover_after :: int
  ac_successes :: int

datatype execution_class = LOCAL | CLOUD

definition adaptive_init :: "execution_class \<Rightarrow> int \<Rightarrow> int \<Rightarrow> int \<Rightarrow> int \<Rightarrow> adaptive" where
  "adaptive_init cls cloud_default local_default maxi recover_after =
     (let m = max 1 (min 8 maxi);
          desired = (if cls = LOCAL then local_default else cloud_default);
          i = max 1 (min m desired)
      in \<lparr>ac_maximum = m, ac_initial = i, ac_current = i, ac_recover_after = max 1 recover_after,
          ac_successes = 0\<rparr>)"

definition on_rate_limit :: "adaptive \<Rightarrow> adaptive" where
  "on_rate_limit a = a\<lparr>ac_current := max 1 (ac_current a - 1), ac_successes := 0\<rparr>"

definition on_success :: "adaptive \<Rightarrow> adaptive" where
  "on_success a =
     (let s = ac_successes a + 1 in
      if ac_recover_after a \<le> s \<and> ac_current a < ac_initial a
      then a\<lparr>ac_current := ac_current a + 1, ac_successes := 0\<rparr>
      else a\<lparr>ac_successes := s\<rparr>)"

datatype adaptive_op = RateLimit | Success

primrec exec_adaptive :: "adaptive_op \<Rightarrow> adaptive \<Rightarrow> unit + adaptive" where
  "exec_adaptive RateLimit a = Inr (on_rate_limit a)"
| "exec_adaptive Success a = Inr (on_success a)"

definition adaptive_ok :: "adaptive \<Rightarrow> bool" where
  "adaptive_ok a \<longleftrightarrow> 1 \<le> ac_current a \<and> ac_current a \<le> ac_initial a \<and> ac_initial a \<le> ac_maximum a \<and>
     ac_maximum a \<le> 8 \<and> 1 \<le> ac_recover_after a \<and> 0 \<le> ac_successes a"

interpretation adaptive_bounds: op_invariant exec_adaptive adaptive_ok
proof
  fix s p t assume "adaptive_ok s" "exec_adaptive p s = Inr t"
  then show "adaptive_ok t"
    by (cases p) (auto simp: adaptive_ok_def on_rate_limit_def on_success_def Let_def)
qed

lemma adaptive_init_ok: "adaptive_ok (adaptive_init cls c l m r)"
  by (auto simp: adaptive_ok_def adaptive_init_def Let_def)

text \<open>It heals: \<open>recover_after\<close> successes in a row give one slot back.\<close>

lemma successes_heal:
  assumes "adaptive_ok a" "ac_current a < ac_initial a" "ac_successes a = ac_recover_after a - 1 - int k"
    "int k < ac_recover_after a"
  shows "ac_current ((on_success ^^ Suc k) a) = ac_current a + 1"
  using assms
proof (induction k arbitrary: a)
  case 0
  then show ?case by (simp add: on_success_def Let_def)
next
  case (Suc k)
  have step: "on_success a = a\<lparr>ac_successes := ac_successes a + 1\<rparr>"
    using Suc.prems by (simp add: on_success_def Let_def)
  have "ac_current ((on_success ^^ Suc k) (on_success a)) = ac_current (on_success a) + 1"
    by (rule Suc.IH) (use Suc.prems in \<open>auto simp: step adaptive_ok_def\<close>)
  then show ?case unfolding funpow_Suc_right [of "Suc k"] comp_def by (simp add: step)
qed

section \<open>Items and outcomes\<close>

record work_item =
  si_id :: string
  si_depends_on :: "string list"
  si_write_paths :: "string list"
  si_order :: int

datatype schedule_status = SCH_COMPLETED | SCH_FAILED | SCH_BLOCKED | SCH_CONFLICT | SCH_CANCELLED

record 'r item_outcome =
  io_item_id :: string
  io_status :: schedule_status
  io_result :: "'r option"
  io_error :: string
  io_attempts :: nat

datatype sched_error =
    DuplicateNodes | UnknownNodes string "string list" | CycleOrUnresolved "string list"
  | UserBoundary string | OutcomeKeyError string

text \<open>
  What one attempt of the worker (with its checkpoint and lease) did.  \<open>_run_one\<close> returns the
  calls it made to the shared concurrency limit, in order, and its outcome or the exception it
  lets through.
\<close>

datatype 'r attempt =
  Returned 'r | RateLimited string | Conflicted string | Cancelled string | Raised bool string

function run_one :: "nat \<Rightarrow> string \<Rightarrow> (nat \<Rightarrow> 'r attempt) \<Rightarrow> nat \<Rightarrow>
    adaptive_op list \<times> (sched_error + 'r item_outcome)" where
  "run_one retries i tries before =
     (let n = Suc before in
      case tries n of
        Returned r \<Rightarrow>
          ([Success], Inr \<lparr>io_item_id = i, io_status = SCH_COMPLETED, io_result = Some r, io_error = [],
             io_attempts = n\<rparr>)
      | RateLimited e \<Rightarrow>
          if n > retries
          then ([RateLimit], Inr \<lparr>io_item_id = i, io_status = SCH_FAILED, io_result = None, io_error = e, io_attempts = n\<rparr>)
          else (let (calls, res) = run_one retries i tries n in (RateLimit # calls, res))
      | Conflicted e \<Rightarrow>
          ([], Inr \<lparr>io_item_id = i, io_status = SCH_CONFLICT, io_result = None, io_error = e, io_attempts = n\<rparr>)
      | Cancelled e \<Rightarrow>
          ([], Inr \<lparr>io_item_id = i, io_status = SCH_CANCELLED, io_result = None, io_error = e, io_attempts = n\<rparr>)
      | Raised boundary e \<Rightarrow>
          ([], if boundary then Inl (UserBoundary e)
               else Inr \<lparr>io_item_id = i, io_status = SCH_FAILED, io_result = None, io_error = e, io_attempts = n\<rparr>))"
  by pat_completeness auto
termination
  by (relation "measure (\<lambda>(retries, i, tries, before). Suc retries - before)") auto

declare run_one.simps [simp del]

text \<open>
  An attempt budget: at most \<open>retries + 1\<close> attempts, one report to the limit per rate-limited
  attempt, and a completed item reports one success, last.
\<close>

lemma run_one_outcome:
  "before \<le> retries \<Longrightarrow> run_one retries i tries before = (calls, Inr oc) \<Longrightarrow>
   io_item_id oc = i \<and> before < io_attempts oc \<and> io_attempts oc \<le> Suc retries \<and> io_status oc \<noteq> SCH_BLOCKED \<and>
   length calls \<le> io_attempts oc - before \<and>
   (io_status oc = SCH_COMPLETED \<longleftrightarrow> (\<exists>cs. calls = cs @ [Success])) \<and>
   (io_status oc = SCH_COMPLETED \<longleftrightarrow> (\<exists>r. tries (io_attempts oc) = Returned r \<and> io_result oc = Some r))"
proof (induction retries i tries before arbitrary: calls oc rule: run_one.induct)
  case (1 retries i tries before)
  show ?case
  proof (cases "tries (Suc before)")
    case (RateLimited e)
    show ?thesis
    proof (cases "Suc before > retries")
      case True
      with "1.prems" RateLimited show ?thesis by (auto simp: run_one.simps [of _ _ _ before])
    next
      case False
      obtain cs res where rec: "run_one retries i tries (Suc before) = (cs, res)" by fastforce
      with "1.prems" RateLimited False have eq: "calls = RateLimit # cs" "res = Inr oc"
        by (simp_all add: run_one.simps [of _ _ _ before])
      note ih = "1.IH" [OF refl RateLimited False _ rec [unfolded eq]]
      have "(\<exists>cs'. calls = cs' @ [Success]) \<longleftrightarrow> (\<exists>cs'. cs = cs' @ [Success])"
        unfolding eq by (cases cs rule: rev_cases) (auto simp: append_eq_Cons_conv Cons_eq_append_conv)
      with ih False show ?thesis by (auto simp: eq)
    qed
  qed (use "1.prems" in \<open>auto simp: run_one.simps [of _ _ _ before] split: if_splits\<close>)
qed

lemma run_one_id: "snd (run_one retries i tries before) = Inr oc \<Longrightarrow> io_item_id oc = i"
proof (induction retries i tries before rule: run_one.induct)
  case (1 retries i tries before)
  show ?case
  proof (cases "tries (Suc before)")
    case (RateLimited e)
    then show ?thesis
      using "1.prems" "1.IH" [OF refl RateLimited]
      by (cases "Suc before > retries") (auto simp: run_one.simps [of _ _ _ before] split: prod.splits)
  qed (use "1.prems" in \<open>auto simp: run_one.simps [of _ _ _ before] split: if_splits\<close>)
qed

section \<open>Waves\<close>

definition ordered_items :: "work_item list \<Rightarrow> work_item list" where
  "ordered_items items = sort_key (\<lambda>i. (si_order i, si_id i)) items"

fun validate_items :: "string list \<Rightarrow> work_item list \<Rightarrow> sched_error + unit" where
  "validate_items known [] = Inr ()"
| "validate_items known (i # is) =
     (let missing = filter (\<lambda>d. d \<notin> set known) (sorted_set (si_depends_on i)) in
      if missing \<noteq> [] then Inl (UnknownNodes (si_id i) missing) else validate_items known is)"

definition validate :: "work_item list \<Rightarrow> string list \<Rightarrow> sched_error + unit" where
  "validate items completed =
     (let ids = map si_id items in
      if length ids \<noteq> length (remdups ids) then Inl DuplicateNodes
      else validate_items (ids @ completed) items)"

fun wave_loop :: "bool \<Rightarrow> int \<Rightarrow> work_item list \<Rightarrow> work_item list \<Rightarrow> string list \<Rightarrow> work_item list" where
  "wave_loop nt limit [] wave scopes = wave"
| "wave_loop nt limit (i # ready) wave scopes =
     (if scopes_overlap nt scopes (si_write_paths i) then wave_loop nt limit ready wave scopes
      else let wave1 = wave @ [i] in
        if limit \<le> int (length wave1) then wave1
        else wave_loop nt limit ready wave1 (scopes @ si_write_paths i))"

definition next_wave :: "bool \<Rightarrow> int \<Rightarrow> work_item list \<Rightarrow> work_item list" where
  "next_wave nt limit ready =
     (let wave = wave_loop nt limit ready [] [] in if wave = [] then take 1 ready else wave)"

definition disjoint_writes :: "bool \<Rightarrow> work_item list \<Rightarrow> bool" where
  "disjoint_writes nt =
     sorted_wrt (\<lambda>a b. \<not> scopes_overlap nt (si_write_paths a) (si_write_paths b))"

lemma scopes_overlap_concat:
  "scopes_overlap nt (concat (map si_write_paths ws)) zs \<longleftrightarrow>
     (\<exists>w \<in> set ws. scopes_overlap nt (si_write_paths w) zs)"
  by (induction ws) (auto simp: scopes_overlap_append)

lemma wave_loop_props:
  assumes "disjoint_writes nt wave" "int (length wave) < limit"
    "scopes = concat (map si_write_paths wave)"
  shows "disjoint_writes nt (wave_loop nt limit ready wave scopes) \<and>
    int (length (wave_loop nt limit ready wave scopes)) \<le> limit \<and>
    (\<exists>more. wave_loop nt limit ready wave scopes = wave @ more \<and> subseq more ready)"
  using assms
proof (induction nt limit ready wave scopes rule: wave_loop.induct)
  case (1 nt limit wave scopes)
  then show ?case by simp
next
  case (2 nt limit i ready wave scopes)
  show ?case
  proof (cases "scopes_overlap nt scopes (si_write_paths i)")
    case True
    with 2 show ?thesis by (auto intro: list_emb_Cons)
  next
    case False
    have disj: "disjoint_writes nt (wave @ [i])"
      using "2.prems" False by (auto simp: disjoint_writes_def sorted_wrt_append scopes_overlap_concat)
    show ?thesis
    proof (cases "limit \<le> int (length (wave @ [i]))")
      case stop: True
      have loop: "wave_loop nt limit (i # ready) wave scopes = wave @ [i]"
        using False stop by (simp add: Let_def)
      have "subseq [i] (i # ready)" by (simp add: subseq_singleton_left)
      then show ?thesis unfolding loop using disj stop "2.prems" by auto
    next
      case go: False
      then have "disjoint_writes nt (wave_loop nt limit ready (wave @ [i]) (scopes @ si_write_paths i)) \<and>
        int (length (wave_loop nt limit ready (wave @ [i]) (scopes @ si_write_paths i))) \<le> limit \<and>
        (\<exists>more. wave_loop nt limit ready (wave @ [i]) (scopes @ si_write_paths i) = (wave @ [i]) @ more \<and> subseq more ready)"
        using "2.IH"(2) [OF False refl go] disj "2.prems" by simp
      with False go show ?thesis by (auto simp: Let_def)
    qed
  qed
qed

lemma next_wave_props:
  assumes "1 \<le> limit"
  shows "disjoint_writes nt (next_wave nt limit ready) \<and> int (length (next_wave nt limit ready)) \<le> limit \<and>
    subseq (next_wave nt limit ready) ready \<and> (ready \<noteq> [] \<longrightarrow> next_wave nt limit ready \<noteq> [])"
proof -
  have "disjoint_writes nt (wave_loop nt limit ready [] []) \<and> int (length (wave_loop nt limit ready [] [])) \<le> limit \<and>
      (\<exists>more. wave_loop nt limit ready [] [] = [] @ more \<and> subseq more ready)"
    by (rule wave_loop_props) (use assms in \<open>auto simp: disjoint_writes_def\<close>)
  then show ?thesis
    using assms by (cases ready) (auto simp: next_wave_def Let_def disjoint_writes_def)
qed

section \<open>The run\<close>

text \<open>
  \<open>wd_cancelled k\<close>: the checkpoint of pass \<open>k\<close> raises (a paused run waits inside it until it is
  resumed or cancelled).  \<open>wd_tries k i n\<close>: attempt \<open>n\<close> of item \<open>i\<close> in pass \<open>k\<close>.  \<open>wd_merge k\<close>:
  the order in which the calls of the wave's threads reached the concurrency limit.
\<close>

record 'r world =
  wd_cancelled :: "nat \<Rightarrow> bool"
  wd_tries :: "nat \<Rightarrow> string \<Rightarrow> nat \<Rightarrow> 'r attempt"
  wd_merge :: "nat \<Rightarrow> adaptive_op list list \<Rightarrow> adaptive_op list"

record 'r run_state =
  rs_pending :: "string list"
  rs_completed :: "string list"
  rs_outcomes :: "(string \<times> 'r item_outcome) list"
  rs_waves :: "string list list"
  rs_peak :: nat
  rs_adaptive :: adaptive

record 'r schedule_report =
  sr_outcomes :: "'r item_outcome list"
  sr_waves :: "string list list"
  sr_peak_concurrency :: nat

definition unfinished :: "string \<Rightarrow> schedule_status \<Rightarrow> string \<Rightarrow> 'r item_outcome" where
  "unfinished i st e = \<lparr>io_item_id = i, io_status = st, io_result = None, io_error = e, io_attempts = 1\<rparr>"

definition failed_ids :: "(string \<times> 'r item_outcome) list \<Rightarrow> string list" where
  "failed_ids os = map fst (filter (\<lambda>(i, oc). io_status oc \<noteq> SCH_COMPLETED) os)"

definition is_blocked :: "'r run_state \<Rightarrow> work_item \<Rightarrow> bool" where
  "is_blocked st i \<longleftrightarrow> si_id i \<in> set (rs_pending st) \<and>
     (\<exists>d \<in> set (si_depends_on i). d \<in> set (failed_ids (rs_outcomes st)))"

definition is_ready :: "'r run_state \<Rightarrow> work_item \<Rightarrow> bool" where
  "is_ready st i \<longleftrightarrow> si_id i \<in> set (rs_pending st) \<and> set (si_depends_on i) \<subseteq> set (rs_completed st)"

definition put_outcomes :: "'r item_outcome list \<Rightarrow> (string \<times> 'r item_outcome) list \<Rightarrow> (string \<times> 'r item_outcome) list" where
  "put_outcomes ocs os = fold (\<lambda>oc. AList.update (io_item_id oc) oc) ocs os"

definition cancel_pending :: "work_item list \<Rightarrow> 'r run_state \<Rightarrow> 'r run_state" where
  "cancel_pending ordered st =
     st\<lparr>rs_outcomes := put_outcomes
       (map (\<lambda>i. unfinished (si_id i) SCH_CANCELLED ''ULTRA run was cancelled'')
         (filter (\<lambda>i. si_id i \<in> set (rs_pending st)) ordered)) (rs_outcomes st)\<rparr>"

definition block_items :: "work_item list \<Rightarrow> 'r run_state \<Rightarrow> 'r run_state" where
  "block_items blocked st =
     st\<lparr>rs_pending := filter (\<lambda>p. p \<notin> si_id ` set blocked) (rs_pending st),
        rs_outcomes := put_outcomes
          (map (\<lambda>i. unfinished (si_id i) SCH_BLOCKED ''a dependency did not complete successfully'') blocked)
          (rs_outcomes st)\<rparr>"

definition apply_batch :: "'r item_outcome list \<Rightarrow> 'r run_state \<Rightarrow> 'r run_state" where
  "apply_batch batch st =
     st\<lparr>rs_outcomes := put_outcomes batch (rs_outcomes st),
        rs_pending := filter (\<lambda>p. p \<notin> io_item_id ` set batch) (rs_pending st),
        rs_completed := rs_completed st @ map io_item_id (filter (\<lambda>oc. io_status oc = SCH_COMPLETED) batch)\<rparr>"

definition run_wave :: "nat \<Rightarrow> 'r world \<Rightarrow> nat \<Rightarrow> work_item list \<Rightarrow> 'r run_state \<Rightarrow>
    'r run_state \<times> (sched_error + bool)" where
  "run_wave retries w k wave st =
     (let runs = map (\<lambda>i. run_one retries (si_id i) (wd_tries w k (si_id i)) 0) wave;
          calls = (if length wave = 1 then concat (map fst runs) else wd_merge w k (map fst runs));
          st1 = st\<lparr>rs_waves := rs_waves st @ [map si_id wave], rs_peak := max (rs_peak st) (length wave),
                   rs_adaptive := run_ops exec_adaptive calls (rs_adaptive st)\<rparr>
      in case map_result (\<lambda>r. snd r) runs of
           Inl e \<Rightarrow> (st1, Inl e)
         | Inr batch \<Rightarrow> (apply_batch batch st1, Inr True))"

text \<open>One pass of \<open>while pending\<close>: the new state, and whether the loop goes on.\<close>

definition sched_pass :: "bool \<Rightarrow> nat \<Rightarrow> 'r world \<Rightarrow> nat \<Rightarrow> work_item list \<Rightarrow> 'r run_state \<Rightarrow>
    'r run_state \<times> (sched_error + bool)" where
  "sched_pass nt retries w k ordered st =
     (if wd_cancelled w k then (cancel_pending ordered st, Inr False)
      else let blocked = filter (is_blocked st) ordered in
        if blocked \<noteq> [] then (block_items blocked st, Inr True)
        else let ready = filter (is_ready st) ordered in
          if ready = [] then (st, Inl (CycleOrUnresolved (sorted_set (rs_pending st))))
          else run_wave retries w k (next_wave nt (ac_current (rs_adaptive st)) ready) st)"

lemma ids_of_batch:
  "map_result (\<lambda>r. snd r) (map (\<lambda>i. run_one retries (si_id i) (tries (si_id i)) 0) wave) = Inr batch \<Longrightarrow>
   map io_item_id batch = map si_id wave"
  unfolding map_result_Inr
proof (induction wave arbitrary: batch)
  case Nil
  then show ?case by simp
next
  case (Cons i wave)
  then show ?case by (cases batch) (auto dest: run_one_id)
qed

lemma subseq_set: "subseq xs ys \<Longrightarrow> set xs \<subseteq> set ys"
  by (auto elim: list_emb_set)

lemma sched_pass_shrinks:
  assumes "sched_pass nt retries w k ordered st = (st', Inr True)"
  shows "length (rs_pending st') < length (rs_pending st)"
proof -
  have shrink: "length (filter (\<lambda>p. p \<notin> A) ps) < length ps" if "x \<in> A" "x \<in> set ps" for x :: string and A ps
    using that by (metis length_filter_less)
  have nc: "\<not> wd_cancelled w k" using assms by (auto simp: sched_pass_def)
  show ?thesis
  proof (cases "filter (is_blocked st) ordered = []")
    case False
    then obtain i where i: "i \<in> set (filter (is_blocked st) ordered)" by (cases "filter (is_blocked st) ordered") auto
    have st': "st' = block_items (filter (is_blocked st) ordered) st"
      using assms nc False by (simp add: sched_pass_def Let_def)
    show ?thesis unfolding st' block_items_def
      using i shrink [of "si_id i" "si_id ` set (filter (is_blocked st) ordered)" "rs_pending st"]
      by (auto simp: is_blocked_def)
  next
    case nb: True
    show ?thesis
    proof (cases "filter (is_ready st) ordered = []")
      case True
      then show ?thesis using assms nc nb by (simp add: sched_pass_def Let_def)
    next
      case False
      define wave where "wave = next_wave nt (ac_current (rs_adaptive st)) (filter (is_ready st) ordered)"
      have ne: "wave \<noteq> []" unfolding wave_def next_wave_def using False by (auto simp: Let_def)
      have sub: "set wave \<subseteq> set (filter (is_ready st) ordered)"
      proof -
        have "set (wave_loop n l r v s) \<subseteq> set v \<union> set r" for n l r v s
          by (induction n l r v s rule: wave_loop.induct) (auto simp: Let_def)
        from this [of nt "ac_current (rs_adaptive st)" "filter (is_ready st) ordered" "[]" "[]"]
        show ?thesis unfolding wave_def next_wave_def by (auto simp: Let_def dest: in_set_takeD)
      qed
      from ne obtain i where i: "i \<in> set wave" by (cases wave) auto
      have "run_wave retries w k wave st = (st', Inr True)"
        using assms nc nb False by (simp add: sched_pass_def Let_def wave_def)
      then obtain batch st1 where b: "map_result (\<lambda>r. snd r) (map (\<lambda>i. run_one retries (si_id i) (wd_tries w k (si_id i)) 0) wave) = Inr batch"
          and st': "st' = apply_batch batch st1" and p: "rs_pending st1 = rs_pending st"
        by (auto simp: run_wave_def Let_def split: sum.splits)
      have "si_id i \<in> io_item_id ` set batch"
        using i ids_of_batch [OF b] by (metis image_eqI list.set_map)
      moreover have "si_id i \<in> set (rs_pending st)" using i sub by (auto simp: is_ready_def)
      ultimately show ?thesis unfolding st' apply_batch_def using p shrink by auto
    qed
  qed
qed

function run_loop :: "bool \<Rightarrow> nat \<Rightarrow> 'r world \<Rightarrow> nat \<Rightarrow> work_item list \<Rightarrow> 'r run_state \<Rightarrow>
    'r run_state \<times> (sched_error + unit)" where
  "run_loop nt retries w k ordered st =
     (if rs_pending st = [] then (st, Inr ())
      else case sched_pass nt retries w k ordered st of
        (st', Inl e) \<Rightarrow> (st', Inl e)
      | (st', Inr goes_on) \<Rightarrow> if goes_on then run_loop nt retries w (Suc k) ordered st' else (st', Inr ()))"
  by pat_completeness auto
termination
  by (relation "measure (\<lambda>(nt, retries, w, k, ordered, st). length (rs_pending st))")
    (auto dest: sched_pass_shrinks [OF sym])

declare run_loop.simps [simp del]

definition start_state :: "work_item list \<Rightarrow> string list \<Rightarrow> adaptive \<Rightarrow> 'r run_state" where
  "start_state ordered external ad =
     \<lparr>rs_pending = map si_id ordered, rs_completed = external, rs_outcomes = [], rs_waves = [],
      rs_peak = 0, rs_adaptive = ad\<rparr>"

definition collect :: "work_item list \<Rightarrow> (string \<times> 'r item_outcome) list \<Rightarrow> sched_error + 'r item_outcome list" where
  "collect ordered os =
     map_result (\<lambda>i. case map_of os (si_id i) of None \<Rightarrow> Inl (OutcomeKeyError (si_id i)) | Some oc \<Rightarrow> Inr oc) ordered"

definition schedule_run :: "bool \<Rightarrow> nat \<Rightarrow> 'r world \<Rightarrow> work_item list \<Rightarrow> string list \<Rightarrow> adaptive \<Rightarrow>
    adaptive \<times> (sched_error + 'r schedule_report)" where
  "schedule_run nt retries w items external ad =
     (let ordered = ordered_items items in
      case validate ordered external of
        Inl e \<Rightarrow> (ad, Inl e)
      | Inr _ \<Rightarrow>
        (case run_loop nt retries w 0 ordered (start_state ordered external ad) of
           (st, Inl e) \<Rightarrow> (rs_adaptive st, Inl e)
         | (st, Inr _) \<Rightarrow>
             (rs_adaptive st,
              and_then (collect ordered (rs_outcomes st))
                (\<lambda>ocs. Inr \<lparr>sr_outcomes = ocs, sr_waves = rs_waves st, sr_peak_concurrency = rs_peak st\<rparr>))))"

definition successful :: "'r schedule_report \<Rightarrow> bool" where
  "successful rep = list_all (\<lambda>oc. io_status oc = SCH_COMPLETED) (sr_outcomes rep)"

end
