(* ===== verification/Schedule_Safety.thy ===== *)
theory Schedule_Safety
  imports Wave_Scheduler
begin

text \<open>
  What a run of the scheduler guarantees: its waves are bounded, write-disjoint and respect the
  dependencies; its report has one outcome per item, each justified; the cycle it reports is
  one; and workers that succeed within their attempts complete every item.
\<close>

section \<open>The invariant of the loop\<close>

definition done_in :: "string list \<Rightarrow> (string \<Rightarrow> 'r item_outcome option) \<Rightarrow> string \<Rightarrow> bool" where
  "done_in external os d \<longleftrightarrow> d \<in> set external \<or> (\<exists>c. os d = Some c \<and> io_status c = SCH_COMPLETED)"

definition outcome_ok :: "work_item list \<Rightarrow> string list \<Rightarrow> (string \<Rightarrow> 'r item_outcome option) \<Rightarrow>
    'r item_outcome \<Rightarrow> bool" where
  "outcome_ok ordered external os oc \<longleftrightarrow> (\<forall>i \<in> set ordered. si_id i = io_item_id oc \<longrightarrow>
     (io_status oc = SCH_COMPLETED \<longrightarrow> (\<forall>d \<in> set (si_depends_on i). done_in external os d)) \<and>
     (io_status oc = SCH_BLOCKED \<longrightarrow>
       (\<exists>d \<in> set (si_depends_on i). \<exists>c. os d = Some c \<and> io_status c \<noteq> SCH_COMPLETED)))"

definition wave_ok :: "bool \<Rightarrow> int \<Rightarrow> work_item list \<Rightarrow> string set \<Rightarrow> string list \<Rightarrow> bool" where
  "wave_ok nt limit ordered before wv \<longleftrightarrow>
     wv \<noteq> [] \<and> int (length wv) \<le> limit \<and> set wv \<subseteq> si_id ` set ordered \<and>
     (\<forall>i \<in> set ordered. si_id i \<in> set wv \<longrightarrow> set (si_depends_on i) \<subseteq> before) \<and>
     (\<forall>i \<in> set ordered. \<forall>j \<in> set ordered. si_id i \<in> set wv \<longrightarrow> si_id j \<in> set wv \<longrightarrow> si_id i \<noteq> si_id j \<longrightarrow>
        \<not> scopes_overlap nt (si_write_paths i) (si_write_paths j))"

definition waves_ok :: "bool \<Rightarrow> int \<Rightarrow> work_item list \<Rightarrow> string list \<Rightarrow> string list list \<Rightarrow> bool" where
  "waves_ok nt limit ordered external ws \<longleftrightarrow> distinct (concat ws) \<and>
     (\<forall>n < length ws. wave_ok nt limit ordered (set external \<union> set (concat (take n ws))) (ws ! n))"

definition core :: "bool \<Rightarrow> int \<Rightarrow> work_item list \<Rightarrow> string list \<Rightarrow> 'r run_state \<Rightarrow> bool" where
  "core nt limit ordered external st \<longleftrightarrow>
     (\<forall>k oc. map_of (rs_outcomes st) k = Some oc \<longrightarrow> io_item_id oc = k \<and> k \<in> si_id ` set ordered \<and>
        outcome_ok ordered external (map_of (rs_outcomes st)) oc \<and>
        (io_status oc = SCH_COMPLETED \<longrightarrow> k \<in> set (concat (rs_waves st)))) \<and>
     set (concat (rs_waves st)) \<subseteq> dom (map_of (rs_outcomes st)) \<and>
     waves_ok nt limit ordered external (rs_waves st) \<and>
     int (rs_peak st) \<le> limit \<and> (\<forall>wv \<in> set (rs_waves st). length wv \<le> rs_peak st)"

definition live :: "bool \<Rightarrow> int \<Rightarrow> work_item list \<Rightarrow> string list \<Rightarrow> 'r run_state \<Rightarrow> bool" where
  "live nt limit ordered external st \<longleftrightarrow>
     core nt limit ordered external st \<and> distinct (map fst (rs_outcomes st)) \<and>
     si_id ` set ordered = set (rs_pending st) \<union> dom (map_of (rs_outcomes st)) \<and>
     set (rs_pending st) \<inter> dom (map_of (rs_outcomes st)) = {} \<and>
     (\<forall>d. d \<in> set (rs_completed st) \<longleftrightarrow> done_in external (map_of (rs_outcomes st)) d) \<and>
     adaptive_ok (rs_adaptive st) \<and> ac_initial (rs_adaptive st) = limit"

lemma put_outcomes_Some:
  "distinct (map io_item_id ocs) \<Longrightarrow>
   map_of (put_outcomes ocs os) k = Some oc \<longleftrightarrow>
     (oc \<in> set ocs \<and> io_item_id oc = k) \<or> (k \<notin> io_item_id ` set ocs \<and> map_of os k = Some oc)"
  unfolding put_outcomes_def
proof (induction ocs arbitrary: os)
  case Nil
  show ?case by simp
next
  case (Cons a ocs)
  then show ?case by (auto simp: update_conv')
qed

lemma put_outcomes_dom:
  "distinct (map io_item_id ocs) \<Longrightarrow> dom (map_of (put_outcomes ocs os)) = io_item_id ` set ocs \<union> dom (map_of os)"
  by (auto simp: dom_def put_outcomes_Some)

lemma put_outcomes_distinct: "distinct (map fst os) \<Longrightarrow> distinct (map fst (put_outcomes ocs os))"
  unfolding put_outcomes_def by (induction ocs arbitrary: os) (auto simp: distinct_update)

lemma failed_ids_iff:
  "distinct (map fst os) \<Longrightarrow> k \<in> set (failed_ids os) \<longleftrightarrow> (\<exists>oc. map_of os k = Some oc \<and> io_status oc \<noteq> SCH_COMPLETED)"
  by (force simp: failed_ids_def)

lemma map_le_Some: "m \<subseteq>\<^sub>m m' \<Longrightarrow> m k = Some v \<Longrightarrow> m' k = Some v"
  unfolding map_le_def by (metis domI)

lemma done_in_mono: "os \<subseteq>\<^sub>m os' \<Longrightarrow> done_in external os d \<Longrightarrow> done_in external os' d"
  unfolding done_in_def by (blast intro: map_le_Some)

lemma outcome_ok_mono: "os \<subseteq>\<^sub>m os' \<Longrightarrow> outcome_ok ordered external os oc \<Longrightarrow> outcome_ok ordered external os' oc"
  unfolding outcome_ok_def
proof (intro ballI impI conjI)
  fix i d assume le: "os \<subseteq>\<^sub>m os'" and ok: "\<forall>i \<in> set ordered. si_id i = io_item_id oc \<longrightarrow>
     (io_status oc = SCH_COMPLETED \<longrightarrow> (\<forall>d \<in> set (si_depends_on i). done_in external os d)) \<and>
     (io_status oc = SCH_BLOCKED \<longrightarrow>
       (\<exists>d \<in> set (si_depends_on i). \<exists>c. os d = Some c \<and> io_status c \<noteq> SCH_COMPLETED))"
    and i: "i \<in> set ordered" "si_id i = io_item_id oc"
  { assume "io_status oc = SCH_COMPLETED" "d \<in> set (si_depends_on i)"
    with ok i show "done_in external os' d" by (blast intro: done_in_mono [OF le]) }
  { assume "io_status oc = SCH_BLOCKED"
    with ok i obtain e c where "e \<in> set (si_depends_on i)" "os e = Some c" "io_status c \<noteq> SCH_COMPLETED" by blast
    moreover from le \<open>os e = Some c\<close> have "os' e = Some c" by (rule map_le_Some)
    ultimately show "\<exists>d \<in> set (si_depends_on i). \<exists>c. os' d = Some c \<and> io_status c \<noteq> SCH_COMPLETED" by blast }
qed

text \<open>New outcomes for pending items extend the report.\<close>

lemma put_outcomes_le:
  assumes "distinct (map io_item_id ocs)" "io_item_id ` set ocs \<inter> dom (map_of os) = {}"
  shows "map_of os \<subseteq>\<^sub>m map_of (put_outcomes ocs os)"
  unfolding map_le_def
proof
  fix k assume k: "k \<in> dom (map_of os)"
  then obtain oc where oc: "map_of os k = Some oc" by blast
  moreover have "k \<notin> io_item_id ` set ocs" using k assms(2) by blast
  ultimately have "map_of (put_outcomes ocs os) k = Some oc" by (simp add: put_outcomes_Some [OF assms(1)])
  with oc show "map_of os k = map_of (put_outcomes ocs os) k" by simp
qed

lemma core_extend:
  assumes c: "core nt limit ordered external st"
    and d: "distinct (map io_item_id ocs)" and fresh: "io_item_id ` set ocs \<inter> dom (map_of (rs_outcomes st)) = {}"
    and ids: "io_item_id ` set ocs \<subseteq> si_id ` set ordered"
    and new: "\<And>oc. oc \<in> set ocs \<Longrightarrow> outcome_ok ordered external (map_of (put_outcomes ocs (rs_outcomes st))) oc"
    and completed: "\<And>oc. oc \<in> set ocs \<Longrightarrow> io_status oc = SCH_COMPLETED \<Longrightarrow> io_item_id oc \<in> set (concat ws)"
    and ws: "set (concat ws) \<subseteq> io_item_id ` set ocs \<union> dom (map_of (rs_outcomes st))"
      "waves_ok nt limit ordered external ws" "set (concat (rs_waves st)) \<subseteq> set (concat ws)"
    and peak: "int (rs_peak st') \<le> limit" "\<forall>wv \<in> set ws. length wv \<le> rs_peak st'"
    and st': "rs_outcomes st' = put_outcomes ocs (rs_outcomes st)" "rs_waves st' = ws"
  shows "core nt limit ordered external st'"
proof -
  have le: "map_of (rs_outcomes st) \<subseteq>\<^sub>m map_of (put_outcomes ocs (rs_outcomes st))"
    by (rule put_outcomes_le [OF d fresh])
  have "io_item_id oc = k \<and> k \<in> si_id ` set ordered \<and>
      outcome_ok ordered external (map_of (put_outcomes ocs (rs_outcomes st))) oc \<and>
      (io_status oc = SCH_COMPLETED \<longrightarrow> k \<in> set (concat ws))"
    if k: "map_of (put_outcomes ocs (rs_outcomes st)) k = Some oc" for k oc
  proof -
    consider "oc \<in> set ocs" "io_item_id oc = k" | "map_of (rs_outcomes st) k = Some oc"
      using k unfolding put_outcomes_Some [OF d] by blast
    then show ?thesis
    proof cases
      case 1
      then show ?thesis using ids new completed by auto
    next
      case 2
      then have "io_item_id oc = k \<and> k \<in> si_id ` set ordered \<and>
          outcome_ok ordered external (map_of (rs_outcomes st)) oc \<and>
          (io_status oc = SCH_COMPLETED \<longrightarrow> k \<in> set (concat (rs_waves st)))"
        using c unfolding core_def by blast
      then show ?thesis using outcome_ok_mono [OF le] ws(3) by blast
    qed
  qed
  then show ?thesis
    unfolding core_def st' put_outcomes_dom [OF d] using ws peak by blast
qed

section \<open>One pass\<close>

lemma map_unfinished_ids: "map io_item_id (map (\<lambda>i. unfinished (si_id i) s e) is) = map si_id is"
  by (simp add: unfinished_def)

lemma live_core: "live nt limit ordered external st \<Longrightarrow> core nt limit ordered external st"
  by (simp add: live_def)

lemma core_same_waves:
  assumes "core nt limit ordered external st"
  shows "set (concat (rs_waves st)) \<subseteq> A \<union> dom (map_of (rs_outcomes st))"
    "waves_ok nt limit ordered external (rs_waves st)" "int (rs_peak st) \<le> limit"
    "\<forall>wv \<in> set (rs_waves st). length wv \<le> rs_peak st"
  using assms by (auto simp: core_def)

lemma core_unfinished:
  assumes c: "core nt limit ordered external st"
    and d: "distinct (map io_item_id ocs)" and fresh: "io_item_id ` set ocs \<inter> dom (map_of (rs_outcomes st)) = {}"
    and ids: "io_item_id ` set ocs \<subseteq> si_id ` set ordered"
    and new: "\<And>oc. oc \<in> set ocs \<Longrightarrow> outcome_ok ordered external (map_of (put_outcomes ocs (rs_outcomes st))) oc"
    and s: "\<And>oc. oc \<in> set ocs \<Longrightarrow> io_status oc \<noteq> SCH_COMPLETED"
    and st': "rs_outcomes st' = put_outcomes ocs (rs_outcomes st)" "rs_waves st' = rs_waves st" "rs_peak st' = rs_peak st"
  shows "core nt limit ordered external st'"
proof (rule core_extend [OF c d fresh ids new _ core_same_waves(1,2) [OF c] subset_refl _ _ st'(1,2)])
  show "int (rs_peak st') \<le> limit" "\<forall>wv \<in> set (rs_waves st). length wv \<le> rs_peak st'"
    unfolding st' by (rule core_same_waves [OF c])+
qed (use s in blast)+

lemma cancel_core:
  fixes st :: "'r run_state"
  assumes l: "live nt limit ordered external st" and d: "distinct (map si_id ordered)"
  shows "core nt limit ordered external (cancel_pending ordered st)"
    and "si_id ` set ordered \<subseteq> dom (map_of (rs_outcomes (cancel_pending ordered st)))"
proof -
  let ?ps = "filter (\<lambda>i. si_id i \<in> set (rs_pending st)) ordered"
  let ?ocs = "map (\<lambda>i. unfinished (si_id i) SCH_CANCELLED ''ULTRA run was cancelled'' :: 'r item_outcome) ?ps"
  note c = live_core [OF l]
  have ids: "io_item_id ` set ?ocs = si_id ` set ?ps" by (simp add: unfinished_def image_image)
  have dist: "distinct (map io_item_id ?ocs)"
    unfolding map_unfinished_ids using d by (rule distinct_map_filter)
  have out: "rs_outcomes (cancel_pending ordered st) = put_outcomes ?ocs (rs_outcomes st)"
    by (simp add: cancel_pending_def)
  show "core nt limit ordered external (cancel_pending ordered st)"
  proof (rule core_unfinished [OF c dist _ _ _ _ out])
    show "io_item_id ` set ?ocs \<inter> dom (map_of (rs_outcomes st)) = {}"
      unfolding ids using l unfolding live_def by fastforce
    show "io_item_id ` set ?ocs \<subseteq> si_id ` set ordered" unfolding ids by auto
    fix oc assume "oc \<in> set ?ocs"
    then have "io_status oc = SCH_CANCELLED" by (auto simp: unfinished_def)
    then show "io_status oc \<noteq> SCH_COMPLETED"
      "outcome_ok ordered external (map_of (put_outcomes ?ocs (rs_outcomes st))) oc"
      by (simp_all add: outcome_ok_def)
  qed (simp_all add: cancel_pending_def)
  show "si_id ` set ordered \<subseteq> dom (map_of (rs_outcomes (cancel_pending ordered st)))"
  proof
    fix x assume x: "x \<in> si_id ` set ordered"
    then have "x \<in> set (rs_pending st) \<union> dom (map_of (rs_outcomes st))" using l by (simp add: live_def)
    with x show "x \<in> dom (map_of (rs_outcomes (cancel_pending ordered st)))"
      unfolding out put_outcomes_dom [OF dist] ids by auto
  qed
qed

lemma block_live:
  fixes st :: "'r run_state"
  assumes l: "live nt limit ordered external st" and d: "distinct (map si_id ordered)"
  shows "live nt limit ordered external (block_items (filter (is_blocked st) ordered) st)"
proof -
  let ?bs = "filter (is_blocked st) ordered"
  let ?ocs = "map (\<lambda>i. unfinished (si_id i) SCH_BLOCKED ''a dependency did not complete successfully'' :: 'r item_outcome) ?bs"
  let ?st = "block_items ?bs st"
  note c = live_core [OF l]
  have ids: "io_item_id ` set ?ocs = si_id ` set ?bs" by (simp add: unfinished_def image_image)
  have dist: "distinct (map io_item_id ?ocs)"
    unfolding map_unfinished_ids using d by (rule distinct_map_filter)
  have out: "rs_outcomes ?st = put_outcomes ?ocs (rs_outcomes st)" by (simp add: block_items_def)
  have pend: "si_id ` set ?bs \<subseteq> set (rs_pending st)" by (auto simp: is_blocked_def)
  have fresh: "io_item_id ` set ?ocs \<inter> dom (map_of (rs_outcomes st)) = {}"
    unfolding ids using l pend unfolding live_def by fastforce
  have keys: "distinct (map fst (rs_outcomes st))" using l by (simp add: live_def)
  note le = put_outcomes_le [OF dist fresh]
  have blocked: "outcome_ok ordered external (map_of (put_outcomes ?ocs (rs_outcomes st))) oc" if oc: "oc \<in> set ?ocs" for oc
  proof -
    from oc obtain j where j: "j \<in> set ordered" "is_blocked st j" "io_item_id oc = si_id j"
      and s: "io_status oc = SCH_BLOCKED"
      by (auto simp: unfinished_def)
    from j(2) obtain e c where e: "e \<in> set (si_depends_on j)" "map_of (rs_outcomes st) e = Some c" "io_status c \<noteq> SCH_COMPLETED"
      unfolding is_blocked_def failed_ids_iff [OF keys] by blast
    note map_le_Some [OF le e(2)]
    moreover have "i = j" if "i \<in> set ordered" "si_id i = io_item_id oc" for i
      using inj_onD [OF distinct_map [THEN iffD1, OF d, THEN conjunct2], of i j] that j(1,3) by simp
    ultimately show ?thesis unfolding outcome_ok_def using s e(1,3) by auto
  qed
  have core': "core nt limit ordered external ?st"
  proof (rule core_unfinished [OF c dist fresh _ blocked _ out])
    show "io_item_id ` set ?ocs \<subseteq> si_id ` set ordered" unfolding ids by auto
    show "io_status oc \<noteq> SCH_COMPLETED" if "oc \<in> set ?ocs" for oc
      using that by (auto simp: unfinished_def)
  qed (simp_all add: block_items_def)
  have same_done: "done_in external (map_of (put_outcomes ?ocs (rs_outcomes st))) k \<longleftrightarrow>
      done_in external (map_of (rs_outcomes st)) k" for k
  proof
    assume "done_in external (map_of (put_outcomes ?ocs (rs_outcomes st))) k"
    then show "done_in external (map_of (rs_outcomes st)) k"
      unfolding done_in_def put_outcomes_Some [OF dist] by (auto simp: unfinished_def)
  qed (rule done_in_mono [OF le])
  show ?thesis
    unfolding live_def
  proof (intro conjI)
    show "si_id ` set ordered = set (rs_pending ?st) \<union> dom (map_of (rs_outcomes ?st))"
      unfolding out put_outcomes_dom [OF dist] ids using l pend unfolding live_def
      by (auto simp: block_items_def)
    show "set (rs_pending ?st) \<inter> dom (map_of (rs_outcomes ?st)) = {}"
      unfolding out put_outcomes_dom [OF dist] ids using l unfolding live_def by (auto simp: block_items_def)
    show "\<forall>k. k \<in> set (rs_completed ?st) \<longleftrightarrow> done_in external (map_of (rs_outcomes ?st)) k"
      unfolding out same_done using l unfolding live_def by (simp add: block_items_def)
    show "distinct (map fst (rs_outcomes ?st))" unfolding out by (rule put_outcomes_distinct [OF keys])
  qed (use core' l in \<open>auto simp: live_def block_items_def\<close>)
qed

interpretation adaptive_frame: op_invariant exec_adaptive "\<lambda>a. adaptive_ok a \<and> ac_initial a = limit" for limit
proof
  fix s p t assume "adaptive_ok s \<and> ac_initial s = limit" "exec_adaptive p s = Inr t"
  then show "adaptive_ok t \<and> ac_initial t = limit"
    using adaptive_bounds.exec_inv [of s p t]
    by (cases p) (auto simp: on_rate_limit_def on_success_def Let_def split: if_splits)
qed

lemma waves_ok_snoc:
  assumes ws: "waves_ok nt limit ordered external ws" and d: "distinct wv" "set wv \<inter> set (concat ws) = {}"
    and ok: "wave_ok nt limit ordered (set external \<union> set (concat ws)) wv"
  shows "waves_ok nt limit ordered external (ws @ [wv])"
  unfolding waves_ok_def
proof (intro conjI allI impI)
  show "distinct (concat (ws @ [wv]))" using ws d by (auto simp: waves_ok_def)
  fix n assume "n < length (ws @ [wv])"
  then consider "n < length ws" | "n = length ws" by fastforce
  then show "wave_ok nt limit ordered (set external \<union> set (concat (take n (ws @ [wv])))) ((ws @ [wv]) ! n)"
  proof cases
    case 1
    with ws show ?thesis by (simp add: waves_ok_def nth_append)
  next
    case 2
    with ok show ?thesis by simp
  qed
qed

lemma distinct_ids_inj: "distinct (map si_id ordered) \<Longrightarrow> i \<in> set ordered \<Longrightarrow> j \<in> set ordered \<Longrightarrow> si_id i = si_id j \<Longrightarrow> i = j"
  by (auto simp: distinct_map inj_on_def)

lemma disjoint_writes_pair:
  assumes "disjoint_writes nt wave" "i \<in> set wave" "j \<in> set wave" "i \<noteq> j"
  shows "\<not> scopes_overlap nt (si_write_paths i) (si_write_paths j)"
proof -
  from assms(2,3) obtain m n where mn: "i = wave ! m" "j = wave ! n" "m < length wave" "n < length wave"
    by (auto simp: in_set_conv_nth)
  with assms(4) consider "m < n" | "n < m" by (metis nat_neq_iff)
  then have "\<not> scopes_overlap nt (si_write_paths i) (si_write_paths j) \<or>
      \<not> scopes_overlap nt (si_write_paths j) (si_write_paths i)"
    using assms(1) mn unfolding disjoint_writes_def sorted_wrt_iff_nth_less by cases auto
  then show ?thesis using scopes_overlap_sym [of nt "si_write_paths i" "si_write_paths j"] by blast
qed

lemma subseq_distinct: "subseq xs ys \<Longrightarrow> distinct ys \<Longrightarrow> distinct xs"
  by (induction xs ys rule: list_emb.induct) (auto dest: subseq_set)

text \<open>The wave a pass picks is admissible.\<close>

lemma picked_wave:
  fixes st :: "'r run_state"
  assumes l: "live nt limit ordered external st" and d: "distinct (map si_id ordered)"
    and wave: "wave = next_wave nt (ac_current (rs_adaptive st)) (filter (is_ready st) ordered)"
    and ne: "filter (is_ready st) ordered \<noteq> []"
  shows "set wave \<subseteq> {i \<in> set ordered. is_ready st i}" "distinct (map si_id wave)"
    "wave_ok nt limit ordered (set external \<union> set (concat (rs_waves st))) (map si_id wave)"
    "set (map si_id wave) \<inter> set (concat (rs_waves st)) = {}"
proof -
  have ok: "adaptive_ok (rs_adaptive st)" "ac_initial (rs_adaptive st) = limit" using l by (auto simp: live_def)
  then have lim: "1 \<le> ac_current (rs_adaptive st)" "ac_current (rs_adaptive st) \<le> limit" by (auto simp: adaptive_ok_def)
  note w = next_wave_props [OF lim(1), of nt "filter (is_ready st) ordered", folded wave]
  have "set wave \<subseteq> set (filter (is_ready st) ordered)" using w by (intro subseq_set) simp
  then show sub: "set wave \<subseteq> {i \<in> set ordered. is_ready st i}" by simp
  have "subseq (map si_id wave) (map si_id (filter (is_ready st) ordered))" using w by (auto intro: subseq_map)
  then show dist: "distinct (map si_id wave)"
    by (rule subseq_distinct) (rule distinct_map_filter [OF d])
  have completed: "d \<in> set external \<union> set (concat (rs_waves st))" if "d \<in> set (rs_completed st)" for d
    using that l unfolding live_def core_def done_in_def by blast
  have mem: "i \<in> set wave" if "i \<in> set ordered" "si_id i \<in> set (map si_id wave)" for i
    using that sub distinct_ids_inj [OF d] by auto
  have deps: "set (si_depends_on i) \<subseteq> set external \<union> set (concat (rs_waves st))"
    if "i \<in> set ordered" "si_id i \<in> set (map si_id wave)" for i
    using mem [OF that] sub completed by (auto simp: is_ready_def)
  have disj: "\<not> scopes_overlap nt (si_write_paths i) (si_write_paths j)"
    if "i \<in> set ordered" "j \<in> set ordered" "si_id i \<in> set (map si_id wave)" "si_id j \<in> set (map si_id wave)" "si_id i \<noteq> si_id j"
    for i j
  proof (rule disjoint_writes_pair [of nt wave])
    show "disjoint_writes nt wave" using w by blast
    show "i \<in> set wave" "j \<in> set wave" using mem that by blast+
    show "i \<noteq> j" using that(5) by blast
  qed
  have shape: "map si_id wave \<noteq> []" "int (length (map si_id wave)) \<le> limit"
    "set (map si_id wave) \<subseteq> si_id ` set ordered" using w ne lim sub by auto
  show "wave_ok nt limit ordered (set external \<union> set (concat (rs_waves st))) (map si_id wave)"
    unfolding wave_ok_def
  proof (intro conjI ballI impI)
    fix i j assume "i \<in> set ordered" "si_id i \<in> set (map si_id wave)"
    then show "set (si_depends_on i) \<subseteq> set external \<union> set (concat (rs_waves st))" by (rule deps)
  next
    fix i j assume "i \<in> set ordered" "j \<in> set ordered" "si_id i \<in> set (map si_id wave)"
      "si_id j \<in> set (map si_id wave)" "si_id i \<noteq> si_id j"
    then show "\<not> scopes_overlap nt (si_write_paths i) (si_write_paths j)" by (rule disj)
  qed (rule shape)+
  have "set (map si_id wave) \<subseteq> set (rs_pending st)" using sub by (auto simp: is_ready_def)
  moreover have "set (rs_pending st) \<inter> dom (map_of (rs_outcomes st)) = {}"
    "set (concat (rs_waves st)) \<subseteq> dom (map_of (rs_outcomes st))"
    using l by (simp_all add: live_def core_def)
  ultimately show "set (map si_id wave) \<inter> set (concat (rs_waves st)) = {}" by blast
qed

text \<open>What the batch of a wave looks like.\<close>

lemma batch_outcomes:
  assumes b: "map_result (\<lambda>r. snd r) (map (\<lambda>i. run_one retries (si_id i) (tries (si_id i)) 0) wave) = Inr batch"
    and oc: "oc \<in> set batch"
  shows "\<exists>i \<in> set wave. io_item_id oc = si_id i \<and> io_status oc \<noteq> SCH_BLOCKED \<and>
    snd (run_one retries (si_id i) (tries (si_id i)) 0) = Inr oc"
proof -
  have all: "list_all2 (\<lambda>i oc. snd (run_one retries (si_id i) (tries (si_id i)) 0) = Inr oc) wave batch"
    using b unfolding map_result_Inr by (simp add: list_all2_map1)
  from oc obtain n where n: "n < length batch" "oc = batch ! n" by (auto simp: in_set_conv_nth)
  define i where "i = wave ! n"
  have i: "i \<in> set wave" "snd (run_one retries (si_id i) (tries (si_id i)) 0) = Inr oc"
    using n list_all2_nthD2 [OF all n(1)] list_all2_lengthD [OF all] by (simp_all add: i_def)
  obtain calls where "run_one retries (si_id i) (tries (si_id i)) 0 = (calls, Inr oc)"
    using i(2) by (cases "run_one retries (si_id i) (tries (si_id i)) 0") auto
  from run_one_outcome [OF _ this] i show ?thesis by auto
qed

lemma wave_live:
  fixes st :: "'r run_state"
  assumes l: "live nt limit ordered external st" and d: "distinct (map si_id ordered)"
    and wave: "wave = next_wave nt (ac_current (rs_adaptive st)) (filter (is_ready st) ordered)"
    and ne: "filter (is_ready st) ordered \<noteq> []"
    and run: "run_wave retries w k wave st = (st', Inr goes_on)"
  shows "live nt limit ordered external st'"
proof -
  note c = live_core [OF l]
  note p = picked_wave [OF l d wave ne]
  obtain batch calls where b: "map_result (\<lambda>r. snd r) (map (\<lambda>i. run_one retries (si_id i) (wd_tries w k (si_id i)) 0) wave) = Inr batch"
    and st': "st' = apply_batch batch (st\<lparr>rs_waves := rs_waves st @ [map si_id wave],
      rs_peak := max (rs_peak st) (length wave), rs_adaptive := run_ops exec_adaptive calls (rs_adaptive st)\<rparr>)"
    using run by (auto simp: run_wave_def Let_def split: sum.splits)
  have ids: "map io_item_id batch = map si_id wave" by (rule ids_of_batch [OF b])
  then have idset: "io_item_id ` set batch = si_id ` set wave" by (metis list.set_map)
  have dist: "distinct (map io_item_id batch)" unfolding ids by (rule p(2))
  have pend: "si_id ` set wave \<subseteq> set (rs_pending st)" using p(1) by (auto simp: is_ready_def)
  have fresh: "io_item_id ` set batch \<inter> dom (map_of (rs_outcomes st)) = {}"
    unfolding idset using l pend unfolding live_def by blast
  note le = put_outcomes_le [OF dist fresh]
  have out: "rs_outcomes st' = put_outcomes batch (rs_outcomes st)" and wv: "rs_waves st' = rs_waves st @ [map si_id wave]"
    and pk: "rs_peak st' = max (rs_peak st) (length wave)"
    and pending: "rs_pending st' = filter (\<lambda>x. x \<notin> io_item_id ` set batch) (rs_pending st)"
    and compl: "rs_completed st' = rs_completed st @ map io_item_id (filter (\<lambda>oc. io_status oc = SCH_COMPLETED) batch)"
    and ad: "rs_adaptive st' = run_ops exec_adaptive calls (rs_adaptive st)"
    by (simp_all add: st' apply_batch_def)
  have done_st: "done_in external (map_of (rs_outcomes st)) e" if "e \<in> set (rs_completed st)" for e
    using that l by (simp add: live_def)
  have new: "outcome_ok ordered external (map_of (put_outcomes batch (rs_outcomes st))) oc" if oc: "oc \<in> set batch" for oc
  proof -
    from batch_outcomes [OF b oc] obtain i where i: "i \<in> set wave" "io_item_id oc = si_id i" "io_status oc \<noteq> SCH_BLOCKED" by blast
    have "j = i" if "j \<in> set ordered" "si_id j = io_item_id oc" for j
      using distinct_ids_inj [OF d that(1), of i] p(1) i that(2) by auto
    moreover have "\<forall>e \<in> set (si_depends_on i). done_in external (map_of (put_outcomes batch (rs_outcomes st))) e"
      using p(1) i(1) by (auto simp: is_ready_def intro!: done_in_mono [OF le] done_st)
    ultimately show ?thesis unfolding outcome_ok_def using i(3) by blast
  qed
  have peak: "int (rs_peak st) \<le> limit" "\<forall>v \<in> set (rs_waves st). length v \<le> rs_peak st"
    using core_same_waves [OF c] by simp_all
  have len: "int (length wave) \<le> limit" using p(3) by (simp add: wave_ok_def)
  have core': "core nt limit ordered external st'"
  proof (rule core_extend [OF c dist fresh _ new _ _ _ _ _ _ out wv])
    show "io_item_id ` set batch \<subseteq> si_id ` set ordered" unfolding idset using p(1) by auto
    show "io_item_id oc \<in> set (concat (rs_waves st @ [map si_id wave]))" if "oc \<in> set batch" for oc
    proof -
      have "io_item_id oc \<in> si_id ` set wave" using that idset by blast
      then show ?thesis by simp
    qed
    show "set (concat (rs_waves st @ [map si_id wave])) \<subseteq> io_item_id ` set batch \<union> dom (map_of (rs_outcomes st))"
      unfolding idset using c by (auto simp: core_def)
    show "waves_ok nt limit ordered external (rs_waves st @ [map si_id wave])"
      by (rule waves_ok_snoc [OF core_same_waves(2) [OF c] p(2) p(4) p(3)])
    show "int (rs_peak st') \<le> limit" using peak len by (simp add: pk)
    show "\<forall>v \<in> set (rs_waves st @ [map si_id wave]). length v \<le> rs_peak st'" using peak by (auto simp: pk)
  qed auto
  have adok: "adaptive_ok (rs_adaptive st') \<and> ac_initial (rs_adaptive st') = limit"
    unfolding ad by (rule adaptive_frame.run_inv) (use l in \<open>simp add: live_def\<close>)
  have same_done: "e \<in> set (rs_completed st') \<longleftrightarrow> done_in external (map_of (rs_outcomes st')) e" for e
  proof
    assume "e \<in> set (rs_completed st')"
    then consider "e \<in> set (rs_completed st)" | oc where "oc \<in> set batch" "io_item_id oc = e" "io_status oc = SCH_COMPLETED"
      unfolding compl by auto
    then show "done_in external (map_of (rs_outcomes st')) e"
    proof cases
      case 1
      then show ?thesis unfolding out by (intro done_in_mono [OF le] done_st)
    next
      case 2
      then have "map_of (rs_outcomes st') e = Some oc" unfolding out put_outcomes_Some [OF dist] by blast
      with 2 show ?thesis by (simp add: done_in_def)
    qed
  next
    assume "done_in external (map_of (rs_outcomes st')) e"
    then consider "e \<in> set external" | oc where "map_of (rs_outcomes st') e = Some oc" "io_status oc = SCH_COMPLETED"
      unfolding done_in_def by blast
    then show "e \<in> set (rs_completed st')"
    proof cases
      case 1
      then have "done_in external (map_of (rs_outcomes st)) e" by (simp add: done_in_def)
      with l show ?thesis by (simp add: live_def compl)
    next
      case 2
      from 2(1) consider "oc \<in> set batch" "io_item_id oc = e" | "map_of (rs_outcomes st) e = Some oc"
        unfolding out put_outcomes_Some [OF dist] by blast
      then show ?thesis
      proof cases
        case 1
        with 2(2) show ?thesis unfolding compl by auto
      next
        case old: 2
        with 2(2) have "done_in external (map_of (rs_outcomes st)) e" by (simp add: done_in_def)
        with l show ?thesis by (simp add: live_def compl)
      qed
    qed
  qed
  have doms: "dom (map_of (rs_outcomes st')) = si_id ` set wave \<union> dom (map_of (rs_outcomes st))"
    unfolding out put_outcomes_dom [OF dist] idset ..
  have pset: "set (rs_pending st') = set (rs_pending st) - si_id ` set wave" unfolding pending idset by auto
  have keys: "distinct (map fst (rs_outcomes st'))"
    unfolding out by (rule put_outcomes_distinct) (use l in \<open>simp add: live_def\<close>)
  have part: "si_id ` set ordered = set (rs_pending st) \<union> dom (map_of (rs_outcomes st))"
    "set (rs_pending st) \<inter> dom (map_of (rs_outcomes st)) = {}" using l by (simp_all add: live_def)
  have "si_id ` set ordered = set (rs_pending st') \<union> dom (map_of (rs_outcomes st'))"
    unfolding pset doms part(1) using pend by blast
  moreover have "set (rs_pending st') \<inter> dom (map_of (rs_outcomes st')) = {}"
    unfolding pset doms using part(2) by blast
  ultimately show ?thesis
    unfolding live_def using core' adok same_done keys by blast
qed

section \<open>The loop\<close>

text \<open>Every reported item waits for another reported item.\<close>

definition waits_in :: "work_item list \<Rightarrow> string list \<Rightarrow> bool" where
  "waits_in ordered ps \<longleftrightarrow> ps \<noteq> [] \<and>
     (\<forall>p \<in> set ps. \<exists>i \<in> set ordered. si_id i = p \<and> (\<exists>d \<in> set (si_depends_on i). d \<in> set ps))"

definition deps_known :: "work_item list \<Rightarrow> string list \<Rightarrow> bool" where
  "deps_known ordered external \<longleftrightarrow>
     (\<forall>i \<in> set ordered. set (si_depends_on i) \<subseteq> si_id ` set ordered \<union> set external)"

lemma map_result_Inl: "map_result f xs = Inl e \<Longrightarrow> \<exists>x \<in> set xs. f x = Inl e"
  by (induction xs) (auto simp: and_then_def split: sum.splits)

lemma run_wave_error:
  assumes "run_wave retries w k wave st = (st', Inl e)"
  shows "\<exists>m. e = UserBoundary m"
proof -
  have one: "snd (run_one retries i tries before) = Inl e \<Longrightarrow> \<exists>m. e = UserBoundary m" for i tries before
  proof (induction retries i tries before rule: run_one.induct)
    case (1 retries i tries before)
    show ?case
    proof (cases "tries (Suc before)")
      case (RateLimited x)
      then show ?thesis
        using "1.prems" "1.IH" [OF refl RateLimited]
        by (cases "Suc before > retries") (auto simp: run_one.simps [of _ _ _ before] split: prod.splits)
    qed (use "1.prems" in \<open>auto simp: run_one.simps [of _ _ _ before] split: if_splits\<close>)
  qed
  from assms have "map_result (\<lambda>r. snd r) (map (\<lambda>i. run_one retries (si_id i) (wd_tries w k (si_id i)) 0) wave) = Inl e"
    by (auto simp: run_wave_def Let_def split: sum.splits)
  from map_result_Inl [OF this] show ?thesis by (auto dest: one)
qed

lemma pass_live:
  assumes "live nt limit ordered external st" "distinct (map si_id ordered)"
    and "sched_pass nt retries w k ordered st = (st', Inr True)"
  shows "live nt limit ordered external st'"
proof (cases "filter (is_blocked st) ordered = []")
  case True
  with assms(3) have ne: "filter (is_ready st) ordered \<noteq> []"
    and run: "run_wave retries w k (next_wave nt (ac_current (rs_adaptive st)) (filter (is_ready st) ordered)) st = (st', Inr True)"
    by (auto simp: sched_pass_def Let_def split: if_splits)
  show ?thesis by (rule wave_live [OF assms(1,2) refl ne run])
next
  case False
  with assms(3) have "st' = block_items (filter (is_blocked st) ordered) st"
    by (auto simp: sched_pass_def Let_def split: if_splits)
  with block_live [OF assms(1,2)] show ?thesis by simp
qed

lemma pass_stops:
  assumes "sched_pass nt retries w k ordered st = (st', Inr False)"
  shows "st' = cancel_pending ordered st"
proof -
  have "run_wave retries w k wave st \<noteq> (st', Inr False)" for wave
    by (auto simp: run_wave_def Let_def split: sum.splits)
  with assms show ?thesis by (auto simp: sched_pass_def Let_def split: if_splits)
qed

lemma pass_error:
  assumes l: "live nt limit ordered external st" and k: "deps_known ordered external" and ne: "rs_pending st \<noteq> []"
    and run: "sched_pass nt retries w n ordered st = (st', Inl e)"
  shows "(\<exists>m. e = UserBoundary m) \<or> (\<exists>ps. e = CycleOrUnresolved ps \<and> waits_in ordered ps)"
proof (cases "filter (is_blocked st) ordered = [] \<and> filter (is_ready st) ordered = [] \<and> \<not> wd_cancelled w n")
  case False
  with run show ?thesis
    by (auto simp: sched_pass_def Let_def split: if_splits dest: run_wave_error)
next
  case True
  then have nb: "\<not> is_blocked st i" and nr: "\<not> is_ready st i" if "i \<in> set ordered" for i
    using that by (auto simp: filter_empty_conv)
  have e: "e = CycleOrUnresolved (sorted_set (rs_pending st))"
    using True run by (auto simp: sched_pass_def Let_def)
  have keys: "distinct (map fst (rs_outcomes st))" and part: "si_id ` set ordered = set (rs_pending st) \<union> dom (map_of (rs_outcomes st))"
    and compl: "\<And>d. d \<in> set (rs_completed st) \<longleftrightarrow> done_in external (map_of (rs_outcomes st)) d"
    using l by (simp_all add: live_def)
  have "\<exists>i \<in> set ordered. si_id i = p \<and> (\<exists>d \<in> set (si_depends_on i). d \<in> set (rs_pending st))"
    if p: "p \<in> set (rs_pending st)" for p
  proof -
    have "p \<in> si_id ` set ordered" unfolding part using p by (rule UnI1)
    then obtain i where i: "i \<in> set ordered" "si_id i = p" by blast
    from nr [OF i(1)] p i(2) obtain d where d: "d \<in> set (si_depends_on i)" "d \<notin> set (rs_completed st)"
      by (auto simp: is_ready_def)
    then have "d \<notin> set external" "\<And>oc. map_of (rs_outcomes st) d = Some oc \<Longrightarrow> io_status oc \<noteq> SCH_COMPLETED"
      by (auto simp: compl done_in_def)
    moreover have "\<not> (\<exists>oc. map_of (rs_outcomes st) d = Some oc \<and> io_status oc \<noteq> SCH_COMPLETED)"
      using nb [OF i(1)] d(1) p i(2) unfolding is_blocked_def failed_ids_iff [OF keys] by blast
    moreover have "d \<in> si_id ` set ordered \<union> set external" using k i(1) d(1) unfolding deps_known_def by blast
    ultimately have "d \<in> set (rs_pending st)"
      unfolding part by (cases "map_of (rs_outcomes st) d") (blast, blast)
    with i d show ?thesis by blast
  qed
  moreover have "sorted_set (rs_pending st) \<noteq> []"
    using ne set_sorted_set [of "rs_pending st"] by (metis set_empty)
  ultimately have "waits_in ordered (sorted_set (rs_pending st))" by (simp add: waits_in_def)
  with e show ?thesis by blast
qed

lemma run_loop_result:
  assumes "live nt limit ordered external st" "distinct (map si_id ordered)" "deps_known ordered external"
    and "run_loop nt retries w k ordered st = (st', res)"
  shows "case res of
      Inr u \<Rightarrow> core nt limit ordered external st' \<and> si_id ` set ordered \<subseteq> dom (map_of (rs_outcomes st'))
    | Inl e \<Rightarrow> (\<exists>m. e = UserBoundary m) \<or> (\<exists>ps. e = CycleOrUnresolved ps \<and> waits_in ordered ps)"
  using assms
proof (induction nt retries w k ordered st rule: run_loop.induct)
  case (1 nt retries w k ordered st)
  show ?case
  proof (cases "rs_pending st = []")
    case True
    then have "st' = st" "res = Inr ()" using "1.prems"(4) by (simp_all add: run_loop.simps)
    then show ?thesis using "1.prems"(1) True by (simp add: live_def)
  next
    case False
    obtain st1 r where p: "sched_pass nt retries w k ordered st = (st1, r)" by fastforce
    consider e where "r = Inl e" | "r = Inr False" | "r = Inr True" by (cases r) auto
    then show ?thesis
    proof cases
      case 1
      then have "res = Inl e" using "1.prems"(4) False p by (simp add: run_loop.simps)
      then show ?thesis using pass_error [OF "1.prems"(1,3) False p [unfolded 1]] by simp
    next
      case 2
      then have "st' = st1" "res = Inr ()" using "1.prems"(4) False p by (simp_all add: run_loop.simps)
      then show ?thesis using pass_stops [OF p [unfolded 2]] cancel_core [OF "1.prems"(1,2)] by simp
    next
      case 3
      then have "run_loop nt retries w (Suc k) ordered st1 = (st', res)"
        using "1.prems"(4) False p by (simp add: run_loop.simps)
      then show ?thesis
        using "1.IH" [OF False p [symmetric] 3 TrueI pass_live [OF "1.prems"(1,2) p [unfolded 3]] "1.prems"(2,3)] by blast
    qed
  qed
qed

section \<open>The run\<close>

lemma ordered_items_set: "set (ordered_items items) = set items"
  by (simp add: ordered_items_def)

lemma validate_items_Inr:
  "validate_items known is = Inr () \<longleftrightarrow> (\<forall>i \<in> set is. set (si_depends_on i) \<subseteq> set known)"
  by (induction known "is" rule: validate_items.induct) (auto simp: Let_def filter_empty_conv)

lemma validate_Inr:
  "validate items external = Inr () \<longleftrightarrow> distinct (map si_id items) \<and> deps_known items external"
proof -
  have "length (map si_id items) = length (remdups (map si_id items)) \<longleftrightarrow> distinct (map si_id items)"
    by (metis length_remdups_eq remdups_id_iff_distinct)
  then show ?thesis by (auto simp: validate_def Let_def validate_items_Inr deps_known_def)
qed

lemma start_live:
  assumes "adaptive_ok ad"
  shows "live nt (ac_initial ad) ordered external (start_state ordered external ad)"
  using assms by (auto simp: live_def core_def start_state_def waves_ok_def done_in_def adaptive_ok_def)

lemma collect_total:
  assumes "si_id ` set ordered \<subseteq> dom (map_of os)"
  shows "collect ordered os = Inr (map (\<lambda>i. the (map_of os (si_id i))) ordered)"
  using assms unfolding collect_def by (induction ordered) (auto simp: and_then_def)

text \<open>The report of a run.\<close>

definition report_ok :: "bool \<Rightarrow> int \<Rightarrow> work_item list \<Rightarrow> string list \<Rightarrow> 'r schedule_report \<Rightarrow> bool" where
  "report_ok nt limit ordered external rep \<longleftrightarrow>
     map io_item_id (sr_outcomes rep) = map si_id ordered \<and>
     (let os = (\<lambda>k. List.find (\<lambda>oc. io_item_id oc = k) (sr_outcomes rep)) in
      \<forall>oc \<in> set (sr_outcomes rep). outcome_ok ordered external os oc \<and>
        (io_status oc = SCH_COMPLETED \<longrightarrow> io_item_id oc \<in> set (concat (sr_waves rep)))) \<and>
     waves_ok nt limit ordered external (sr_waves rep) \<and>
     int (sr_peak_concurrency rep) \<le> limit \<and>
     (\<forall>wv \<in> set (sr_waves rep). length wv \<le> sr_peak_concurrency rep)"

lemma find_unique:
  assumes "distinct (map io_item_id ocs)"
  shows "List.find (\<lambda>oc. io_item_id oc = k) ocs = Some oc \<longleftrightarrow> oc \<in> set ocs \<and> io_item_id oc = k"
  using assms by (induction ocs) (auto simp: image_iff)

lemma schedule_run_cases:
  assumes ad: "adaptive_ok ad" and run: "schedule_run nt retries w items external ad = (ad', res)"
  shows "case res of
      Inl e \<Rightarrow> validate (ordered_items items) external = Inl e \<or> (\<exists>m. e = UserBoundary m) \<or>
        (\<exists>ps. e = CycleOrUnresolved ps \<and> waits_in items ps)
    | Inr rep \<Rightarrow> distinct (map si_id items) \<and> deps_known items external \<and>
        report_ok nt (ac_initial ad) (ordered_items items) external rep"
proof -
  let ?o = "ordered_items items"
  have perm: "set ?o = set items" by (rule ordered_items_set)
  show ?thesis
  proof (cases "validate ?o external")
    case (Inl e)
    then show ?thesis using run by (auto simp: schedule_run_def Let_def)
  next
    case (Inr u)
    then have v: "distinct (map si_id ?o)" "deps_known ?o external" using validate_Inr [of ?o external] by simp_all
    obtain st r where loop: "run_loop nt retries w 0 ?o (start_state ?o external ad) = (st, r)" by fastforce
    note res = run_loop_result [OF start_live [OF ad] v loop]
    show ?thesis
    proof (cases r)
      case err: (Inl e)
      then have "res_e": "res = Inl e" using run Inr loop by (simp add: schedule_run_def Let_def)
      then show ?thesis using res err by (auto simp: waits_in_def perm)
    next
      case ok: (Inr u')
      then have c: "core nt (ac_initial ad) ?o external st" and all: "si_id ` set ?o \<subseteq> dom (map_of (rs_outcomes st))"
        using res by simp_all
      define ocs where "ocs = map (\<lambda>i. the (map_of (rs_outcomes st) (si_id i))) ?o"
      have "res = Inr \<lparr>sr_outcomes = ocs, sr_waves = rs_waves st, sr_peak_concurrency = rs_peak st\<rparr>"
        using run Inr loop ok collect_total [OF all] by (simp add: schedule_run_def Let_def and_then_def ocs_def)
      moreover have get: "\<exists>oc. map_of (rs_outcomes st) (si_id i) = Some oc \<and> io_item_id oc = si_id i" if "i \<in> set ?o" for i
      proof -
        have "si_id i \<in> dom (map_of (rs_outcomes st))" using all that by blast
        then obtain oc where "map_of (rs_outcomes st) (si_id i) = Some oc" by blast
        then show ?thesis using c unfolding core_def by blast
      qed
      then have ids: "map io_item_id ocs = map si_id ?o" unfolding ocs_def by force
      then have dist: "distinct (map io_item_id ocs)" using v by simp
      have mem: "oc \<in> set ocs \<longleftrightarrow> map_of (rs_outcomes st) (io_item_id oc) = Some oc" for oc
      proof
        assume "oc \<in> set ocs" then show "map_of (rs_outcomes st) (io_item_id oc) = Some oc"
          using get unfolding ocs_def by force
      next
        assume a: "map_of (rs_outcomes st) (io_item_id oc) = Some oc"
        then have "io_item_id oc \<in> si_id ` set ?o" using c unfolding core_def by blast
        then obtain i where "i \<in> set ?o" "si_id i = io_item_id oc" by (metis imageE)
        with a show "oc \<in> set ocs" unfolding ocs_def by force
      qed
      have look: "List.find (\<lambda>oc. io_item_id oc = k) ocs = map_of (rs_outcomes st) k" for k
      proof (cases "map_of (rs_outcomes st) k")
        case None
        then have "\<nexists>oc. oc \<in> set ocs \<and> io_item_id oc = k" by (auto simp: mem)
        then show ?thesis unfolding None find_None_iff by blast
      next
        case (Some oc)
        then have "io_item_id oc = k" using c unfolding core_def by blast
        with Some show ?thesis by (simp add: find_unique [OF dist] mem)
      qed
      have "report_ok nt (ac_initial ad) ?o external \<lparr>sr_outcomes = ocs, sr_waves = rs_waves st, sr_peak_concurrency = rs_peak st\<rparr>"
        unfolding report_ok_def Let_def schedule_report.simps look
      proof (intro conjI ballI)
        fix oc assume "oc \<in> set ocs"
        then have "map_of (rs_outcomes st) (io_item_id oc) = Some oc" by (simp only: mem)
        with c show "outcome_ok ?o external (map_of (rs_outcomes st)) oc"
          "io_status oc = SCH_COMPLETED \<longrightarrow> io_item_id oc \<in> set (concat (rs_waves st))"
          unfolding core_def by blast+
      qed (use c ids in \<open>simp_all add: core_def\<close>)
      moreover have "distinct (map si_id items)" "deps_known items external"
        using v perm by (auto simp: deps_known_def distinct_map ordered_items_def)
      ultimately show ?thesis by simp
    qed
  qed
qed

section \<open>Progress\<close>

text \<open>
  Workers that succeed within their attempts: an item may be rate limited some times, but within
  the retry budget one attempt returns.
\<close>

definition succeeds_within :: "nat \<Rightarrow> nat \<Rightarrow> (nat \<Rightarrow> 'r attempt) \<Rightarrow> bool" where
  "succeeds_within retries before tries \<longleftrightarrow>
     (\<exists>n > before. n \<le> Suc retries \<and> (\<exists>r. tries n = Returned r) \<and>
        (\<forall>m > before. m < n \<longrightarrow> (\<exists>e. tries m = RateLimited e)))"

lemma run_one_completes:
  "succeeds_within retries before tries \<Longrightarrow>
   \<exists>calls oc. run_one retries i tries before = (calls, Inr oc) \<and> io_status oc = SCH_COMPLETED"
proof (induction retries i tries before rule: run_one.induct)
  case (1 retries i tries before)
  then obtain n r where n: "before < n" "n \<le> Suc retries" "tries n = Returned r"
    and lim: "\<And>m. before < m \<Longrightarrow> m < n \<Longrightarrow> \<exists>e. tries m = RateLimited e"
    by (auto simp: succeeds_within_def)
  show ?case
  proof (cases "n = Suc before")
    case True
    with n show ?thesis by (simp add: run_one.simps [of _ _ _ before])
  next
    case False
    with n obtain e where e: "tries (Suc before) = RateLimited e" using lim [of "Suc before"] by auto
    have nb: "\<not> retries < Suc before" using n False by simp
    have "succeeds_within retries (Suc before) tries"
      unfolding succeeds_within_def using n False lim by (intro exI [of _ n]) auto
    from "1.IH" [OF refl e nb this] show ?thesis
      using e nb by (auto simp: run_one.simps [of _ _ _ before])
  qed
qed

definition all_completed :: "'r run_state \<Rightarrow> bool" where
  "all_completed st \<longleftrightarrow> (\<forall>(k, oc) \<in> set (rs_outcomes st). io_status oc = SCH_COMPLETED)"

definition willing :: "nat \<Rightarrow> 'r world \<Rightarrow> bool" where
  "willing retries w \<longleftrightarrow> (\<forall>k. \<not> wd_cancelled w k) \<and> (\<forall>k i. succeeds_within retries 0 (wd_tries w k i))"

lemma all_completed_put:
  "all_completed st \<Longrightarrow> \<forall>oc \<in> set ocs. io_status oc = SCH_COMPLETED \<Longrightarrow>
   \<forall>(k, oc) \<in> set (put_outcomes ocs (rs_outcomes st)). io_status oc = SCH_COMPLETED"
proof -
  have "\<forall>(k, oc) \<in> set os. io_status oc = SCH_COMPLETED \<Longrightarrow> \<forall>oc \<in> set ocs. io_status oc = SCH_COMPLETED \<Longrightarrow>
      \<forall>(k, oc) \<in> set (put_outcomes ocs os). io_status oc = SCH_COMPLETED" for os
    unfolding put_outcomes_def
  proof (induction ocs arbitrary: os)
    case Nil
    then show ?case by simp
  next
    case (Cons a ocs)
    have "\<forall>(k, oc) \<in> set (AList.update (io_item_id a) a os). io_status oc = SCH_COMPLETED"
      using Cons.prems by (induction os) auto
    with Cons show ?case by simp
  qed
  then show "all_completed st \<Longrightarrow> \<forall>oc \<in> set ocs. io_status oc = SCH_COMPLETED \<Longrightarrow>
    \<forall>(k, oc) \<in> set (put_outcomes ocs (rs_outcomes st)). io_status oc = SCH_COMPLETED"
    unfolding all_completed_def by blast
qed

lemma willing_pass:
  assumes w: "willing retries w" and a: "all_completed st"
    and run: "sched_pass nt retries w k ordered st = (st', r)"
  shows "r \<noteq> Inr False \<and> (r = Inr True \<longrightarrow> all_completed st') \<and> (\<forall>m. r \<noteq> Inl (UserBoundary m))"
proof -
  have "failed_ids (rs_outcomes st) = []"
    using a unfolding failed_ids_def all_completed_def by (auto simp: filter_empty_conv)
  then have nb: "filter (is_blocked st) ordered = []" by (simp add: filter_empty_conv is_blocked_def)
  have nc: "\<not> wd_cancelled w k" using w by (simp add: willing_def)
  show ?thesis
  proof (cases "filter (is_ready st) ordered = []")
    case True
    then show ?thesis using run nb nc by (auto simp: sched_pass_def Let_def)
  next
    case False
    define wave where "wave = next_wave nt (ac_current (rs_adaptive st)) (filter (is_ready st) ordered)"
    let ?runs = "map (\<lambda>i. run_one retries (si_id i) (wd_tries w k (si_id i)) 0) wave"
    have one: "\<exists>oc. snd (run_one retries i (wd_tries w k i) 0) = Inr oc \<and> io_status oc = SCH_COMPLETED" for i
      using run_one_completes [of retries 0 "wd_tries w k i" i] w by (auto simp: willing_def)
    have "\<exists>batch. map_result (\<lambda>r. snd r) ?runs = Inr batch \<and> (\<forall>oc \<in> set batch. io_status oc = SCH_COMPLETED)"
    proof (induction wave)
      case (Cons i wave)
      then show ?case using one [of "si_id i"] by auto
    qed simp
    then obtain batch where b: "map_result (\<lambda>r. snd r) ?runs = Inr batch" "\<forall>oc \<in> set batch. io_status oc = SCH_COMPLETED"
      by blast
    have "run_wave retries w k wave st = (st', r)"
      using run nb nc False by (simp add: sched_pass_def Let_def wave_def)
    with b have "r = Inr True" "rs_outcomes st' = put_outcomes batch (rs_outcomes st)"
      by (auto simp: run_wave_def Let_def apply_batch_def)
    with all_completed_put [OF a b(2)] show ?thesis by (simp add: all_completed_def)
  qed
qed

lemma willing_loop:
  assumes "willing retries w" "all_completed st" "run_loop nt retries w k ordered st = (st', res)"
  shows "(res = Inr () \<longrightarrow> all_completed st') \<and> (\<forall>m. res \<noteq> Inl (UserBoundary m))"
  using assms
proof (induction nt retries w k ordered st rule: run_loop.induct)
  case (1 nt retries w k ordered st)
  show ?case
  proof (cases "rs_pending st = []")
    case True
    then show ?thesis using "1.prems" by (auto simp: run_loop.simps)
  next
    case False
    obtain st1 r where p: "sched_pass nt retries w k ordered st = (st1, r)" by fastforce
    note wp = willing_pass [OF "1.prems"(1,2) p]
    show ?thesis
    proof (cases r)
      case (Inl e)
      then show ?thesis using "1.prems"(3) False p wp by (auto simp: run_loop.simps)
    next
      case (Inr b)
      with wp have b: "b" by (cases b) auto
      then have "run_loop nt retries w (Suc k) ordered st1 = (st', res)"
        using "1.prems"(3) False p Inr by (simp add: run_loop.simps)
      with "1.IH" [OF False p [symmetric] Inr b "1.prems"(1)] wp Inr b show ?thesis by simp
    qed
  qed
qed

lemma willing_run:
  assumes ad: "adaptive_ok ad" and w: "willing retries w"
    and ok: "distinct (map si_id items)" "deps_known items external" and acyclic: "\<And>ps. \<not> waits_in items ps"
  shows "\<exists>ad' rep. schedule_run nt retries w items external ad = (ad', Inr rep) \<and> successful rep"
proof -
  obtain ad' res where run: "schedule_run nt retries w items external ad = (ad', res)" by fastforce
  let ?o = "ordered_items items"
  have v: "validate ?o external = Inr ()"
    unfolding validate_Inr using ok by (auto simp: deps_known_def distinct_map ordered_items_def)
  obtain st r where loop: "run_loop nt retries w 0 ?o (start_state ?o external ad) = (st, r)" by fastforce
  have "all_completed (start_state ?o external ad)" by (simp add: all_completed_def start_state_def)
  note wl = willing_loop [OF w this loop]
  note cases = schedule_run_cases [OF ad run]
  show ?thesis
  proof (cases r)
    case (Inl e)
    then have "res = Inl e" using run v loop by (auto simp: schedule_run_def Let_def)
    with cases v acyclic have "\<exists>m. e = UserBoundary m" by auto
    with wl Inl show ?thesis by blast
  next
    case (Inr u)
    have dist: "distinct (map si_id ?o)" "deps_known ?o external" using v validate_Inr [of ?o external] by simp_all
    have all: "si_id ` set ?o \<subseteq> dom (map_of (rs_outcomes st))"
      using run_loop_result [OF start_live [OF ad] dist loop] Inr by simp
    have "io_status (the (map_of (rs_outcomes st) (si_id i))) = SCH_COMPLETED" if "i \<in> set ?o" for i
    proof -
      have "si_id i \<in> dom (map_of (rs_outcomes st))" using all that by blast
      then obtain oc where oc: "map_of (rs_outcomes st) (si_id i) = Some oc" by blast
      then show ?thesis using wl Inr map_of_SomeD [OF oc] by (auto simp: all_completed_def)
    qed
    then show ?thesis using run v loop Inr collect_total [OF all]
      by (auto simp: schedule_run_def Let_def and_then_def successful_def list_all_iff)
  qed
qed

end
