(* ===== verification/Convergence.thy ===== *)
theory Convergence
  imports Json
begin

text \<open>
  \<open>agent/convergence.py\<close>: quality targets, evaluations, the convergence engine and its
  watchdog.  Scores and thresholds are rationals (every double is one); the one arithmetic
  operation on them, the subtraction of the plateau test, is the parameter \<open>fsub\<close>, so nothing
  below depends on how it rounds.  An operation that raises after it has changed the engine is
  a function returning the changed engine together with the error.
\<close>

section \<open>Dictionaries built by a comprehension\<close>

definition dict_of :: "('a \<Rightarrow> 'k) \<Rightarrow> 'a list \<Rightarrow> ('k \<times> 'a) list" where
  "dict_of key xs = fold (\<lambda>x. AList.update (key x) x) xs []"

lemma dict_of_get: "map_of (dict_of key xs) k = List.find (\<lambda>x. key x = k) (rev xs)"
proof -
  have "map_of (fold (\<lambda>x. AList.update (key x) x) xs d) k =
      (case List.find (\<lambda>x. key x = k) (rev xs) of Some x \<Rightarrow> Some x | None \<Rightarrow> map_of d k)" for d
  proof (induction xs arbitrary: d)
    case (Cons a xs)
    have "List.find P (ys @ [a]) = (case List.find P ys of Some x \<Rightarrow> Some x | None \<Rightarrow> if P a then Some a else None)" for P ys
      by (induction ys) auto
    with Cons show ?case by (auto simp: update_conv' split: option.splits)
  qed simp
  from this [of "[]"] show ?thesis by (simp add: dict_of_def split: option.splits)
qed

lemma dict_of_distinct [simp]: "distinct (map fst (dict_of key xs))"
proof -
  have "distinct (map fst d) \<Longrightarrow> distinct (map fst (fold (\<lambda>x. AList.update (key x) x) xs d))" for d
    by (induction xs arbitrary: d) (auto simp: distinct_update)
  then show ?thesis by (simp add: dict_of_def)
qed

section \<open>Contracts\<close>

datatype convergence_state =
    NOT_EVALUATED | EVALUATING | BELOW_TARGET | REFINING | REVERIFYING | CONVERGED | CONV_BLOCKED
  | USER_REVIEW_REQUIRED

datatype confidence = CONF_LOW | CONF_MEDIUM | CONF_HIGH

record evaluator =
  er_id :: string
  er_deterministic :: bool
  er_visual :: bool
  er_runtime :: bool
  er_independent :: bool
  er_capabilities :: "string list"
  er_test_runner :: bool
  er_static_analyzer :: bool
  er_browser :: bool
  er_screenshot :: bool
  er_vision_evaluator :: bool
  er_accessibility :: bool
  er_profiler :: bool
  er_user_review_required :: bool

definition routing_order :: "evaluator \<Rightarrow> string list" where
  "routing_order e =
     (if er_deterministic e \<or> er_test_runner e then [''deterministic_verification''] else []) @
     (if er_static_analyzer e then [''static_analysis''] else []) @
     (if er_runtime e then [''runtime_integration''] else []) @
     [''artifact_structure''] @
     (if er_independent e then [''independent_review''] else []) @
     (if er_visual e \<or> er_vision_evaluator e then [''vision_evaluation'']
      else if er_user_review_required e then [''user_review''] else [])"

record dimension =
  qd_id :: string
  qd_description :: string
  qd_weight :: rat
  qd_hard_gate :: bool
  qd_minimum_score :: rat
  qd_required_evidence :: "string list"
  qd_evaluation_method :: string
  qd_confidence :: confidence
  qd_remediation :: string
  qd_version :: int

datatype quality_error =
    DimensionFields | DimensionNumbers | RubricEmpty | RubricDuplicate
  | TargetFields | TargetThreshold | TargetCounts | TargetPlateau
  | ScoreRange | InvalidEvaluation | StaleEvaluation | UncoveredArtifact

definition mk_dimension :: "dimension \<Rightarrow> quality_error + dimension" where
  "mk_dimension d =
     (if qd_version d \<noteq> 1 \<or> qd_id d = [] \<or> qd_description d = [] then Inl DimensionFields
      else if qd_weight d < 0 \<or> \<not> (0 \<le> qd_minimum_score d \<and> qd_minimum_score d \<le> 1) then Inl DimensionNumbers
      else Inr d)"

record rubric =
  rb_dimensions :: "dimension list"
  rb_id :: string
  rb_version :: int

definition mk_rubric :: "rubric \<Rightarrow> quality_error + rubric" where
  "mk_rubric r =
     (if rb_version r \<noteq> 1 \<or> rb_dimensions r = [] then Inl RubricEmpty
      else if length (remdups (map qd_id (rb_dimensions r))) \<noteq> length (rb_dimensions r) then Inl RubricDuplicate
      else Inr r)"

record quality_target =
  qt_objective :: string
  qt_artifact_ids :: "string list"
  qt_rubric :: rubric
  qt_hard_gates :: "string list"
  qt_minimum_overall :: rat
  qt_independent :: int
  qt_stable :: int
  qt_plateau_window :: int
  qt_plateau_delta :: rat
  qt_refinements :: "string list"
  qt_preferences :: json_obj
  qt_feedback :: "string list"
  qt_environment :: json_obj
  qt_id :: string
  qt_version :: int

definition mk_target :: "quality_target \<Rightarrow> quality_error + quality_target" where
  "mk_target t =
     (if qt_version t \<noteq> 1 \<or> qt_objective t = [] \<or> qt_artifact_ids t = [] then Inl TargetFields
      else if \<not> (0 \<le> qt_minimum_overall t \<and> qt_minimum_overall t \<le> 1) then Inl TargetThreshold
      else if qt_independent t < 1 \<or> qt_stable t < 1 then Inl TargetCounts
      else if qt_plateau_window t < 2 \<or> \<not> (0 \<le> qt_plateau_delta t \<and> qt_plateau_delta t \<le> 1) then Inl TargetPlateau
      else Inr t)"

record quality_score =
  qs_dimension_id :: string
  qs_score :: rat
  qs_passed :: bool
  qs_evidence_ids :: "string list"
  qs_findings :: "string list"
  qs_confidence :: confidence
  qs_version :: int

definition mk_score :: "quality_score \<Rightarrow> quality_error + quality_score" where
  "mk_score s =
     (if qs_version s \<noteq> 1 \<or> \<not> (0 \<le> qs_score s \<and> qs_score s \<le> 1) then Inl ScoreRange else Inr s)"

record evaluation =
  qe_target_id :: string
  qe_artifact_hashes :: "(string \<times> string) list"
  qe_scores :: "quality_score list"
  qe_hard_gates :: "(string \<times> bool) list"
  qe_evaluator :: evaluator
  qe_overall :: rat
  qe_id :: string
  qe_version :: int
  qe_mutation_sequence :: int
  qe_created_at :: int

definition mk_evaluation :: "evaluation \<Rightarrow> quality_error + evaluation" where
  "mk_evaluation e =
     (if qe_version e \<noteq> 1 \<or> qe_target_id e = [] \<or> \<not> (0 \<le> qe_overall e \<and> qe_overall e \<le> 1)
      then Inl InvalidEvaluation else Inr e)"

definition evaluation_passes :: "quality_target \<Rightarrow> evaluation \<Rightarrow> bool" where
  "evaluation_passes t e \<longleftrightarrow>
     (let dimensions = dict_of qd_id (rb_dimensions (qt_rubric t));
          scores = dict_of qs_dimension_id (qe_scores e)
      in qe_target_id e = qt_id t \<and> qt_minimum_overall t \<le> qe_overall e \<and>
         list_all (\<lambda>gate. map_of (qe_hard_gates e) gate = Some True) (qt_hard_gates t) \<and>
         list_all (\<lambda>(k, d). case map_of scores k of None \<Rightarrow> False
                     | Some s \<Rightarrow> qd_minimum_score d \<le> qs_score s) dimensions)"

section \<open>The watchdog\<close>

record watchdog =
  wd_limit :: int
  wd_failures :: "(string \<times> int) list"

datatype advice = Continue | Replan | Retry

definition watchdog_record :: "string \<Rightarrow> bool \<Rightarrow> watchdog \<Rightarrow> watchdog \<times> advice" where
  "watchdog_record fp progress w =
     (if progress then (w\<lparr>wd_failures := AList.update fp 0 (wd_failures w)\<rparr>, Continue)
      else let count = (case map_of (wd_failures w) fp of None \<Rightarrow> 0 | Some n \<Rightarrow> n) + 1 in
        (w\<lparr>wd_failures := AList.update fp count (wd_failures w)\<rparr>,
         if wd_limit w \<le> count then Replan else Retry))"

text \<open>
  Reference: the failures of an approach since its last progress, over the whole history (the
  most recent record first).
\<close>

fun streak :: "string \<Rightarrow> (string \<times> bool) list \<Rightarrow> nat" where
  "streak fp [] = 0"
| "streak fp ((x, progress) # past) =
     (if x = fp then if progress then 0 else Suc (streak fp past) else streak fp past)"

definition watch_all :: "int \<Rightarrow> (string \<times> bool) list \<Rightarrow> watchdog" where
  "watch_all limit past =
     foldr (\<lambda>(fp, progress) w. fst (watchdog_record fp progress w)) past \<lparr>wd_limit = limit, wd_failures = []\<rparr>"

lemma watch_all_limit [simp]: "wd_limit (watch_all limit past) = limit"
  by (induction past) (auto simp: watch_all_def watchdog_record_def Let_def)

lemma watch_all_counts:
  "(case map_of (wd_failures (watch_all limit past)) fp of None \<Rightarrow> 0 | Some n \<Rightarrow> n) = int (streak fp past)"
proof (induction past)
  case Nil
  show ?case by (simp add: watch_all_def)
next
  case (Cons a past)
  obtain x p where a: "a = (x, p)" by (cases a)
  have step: "watch_all limit (a # past) = fst (watchdog_record x p (watch_all limit past))"
    by (simp add: watch_all_def a)
  show ?case unfolding step using Cons by (auto simp: a watchdog_record_def Let_def update_conv')
qed

lemma watchdog_advice:
  "snd (watchdog_record fp progress (watch_all limit past)) =
     (if progress then Continue else if limit \<le> int (streak fp past) + 1 then Replan else Retry)"
  using watch_all_counts [of limit past fp] by (simp add: watchdog_record_def Let_def)

section \<open>The engine\<close>

record refinement_action =
  ra_finding :: string
  ra_dimension_id :: string
  ra_objective :: string
  ra_affected :: "string list"
  ra_acceptance :: "string list"
  ra_verification :: "string list"
  ra_id :: string
  ra_version :: int

record refinement_cycle =
  rc_run_id :: string
  rc_attempt :: int
  rc_approach :: string
  rc_before :: "string option"
  rc_actions :: "refinement_action list"
  rc_changed_files :: "string list"
  rc_after :: "string option"
  rc_progress :: "string list"
  rc_errors :: "string list"
  rc_id :: string
  rc_version :: int
  rc_created_at :: int

record engine =
  en_target :: quality_target
  en_state :: convergence_state
  en_evaluations :: "evaluation list"
  en_cycles :: "refinement_cycle list"
  en_latest :: int
  en_watchdog :: watchdog

definition engine_init :: "quality_target \<Rightarrow> engine" where
  "engine_init t = \<lparr>en_target = t, en_state = NOT_EVALUATED, en_evaluations = [], en_cycles = [],
     en_latest = 0, en_watchdog = \<lparr>wd_limit = 3, wd_failures = []\<rparr>\<rparr>"

definition mutated :: "engine \<Rightarrow> engine" where
  "mutated e = e\<lparr>en_latest := en_latest e + 1, en_state := REVERIFYING\<rparr>"

definition required_evaluations :: "quality_target \<Rightarrow> int" where
  "required_evaluations t = max (qt_independent t) (qt_stable t)"

definition plateau :: "(rat \<Rightarrow> rat \<Rightarrow> rat) \<Rightarrow> quality_target \<Rightarrow> evaluation list \<Rightarrow> bool" where
  "plateau fsub t evs \<longleftrightarrow>
     (let w = qt_plateau_window t;
          recent = (if 0 < w then drop (length evs - nat w) evs else drop (nat (- w)) evs);
          overall = set (map qe_overall recent)
      in w \<le> int (length recent) \<and> fsub (Max overall) (Min overall) < qt_plateau_delta t)"

definition recent_fresh :: "engine \<Rightarrow> evaluation list" where
  "recent_fresh e = take (nat (required_evaluations (en_target e)))
     (filter (\<lambda>v. qe_mutation_sequence v = en_latest e) (rev (en_evaluations e)))"

definition independent_count :: "evaluation list \<Rightarrow> nat" where
  "independent_count evs = length (remdups (map (\<lambda>v. er_id (qe_evaluator v))
     (filter (\<lambda>v. er_independent (qe_evaluator v)) evs)))"

definition covers :: "quality_target \<Rightarrow> evaluation \<Rightarrow> bool" where
  "covers t v \<longleftrightarrow> set (map fst (qe_artifact_hashes v)) = set (qt_artifact_ids t)"

definition accept_evaluation :: "(rat \<Rightarrow> rat \<Rightarrow> rat) \<Rightarrow> evaluation \<Rightarrow> engine \<Rightarrow>
    engine \<times> (quality_error + convergence_state)" where
  "accept_evaluation fsub v e0 =
     (let e = e0\<lparr>en_state := EVALUATING\<rparr>; t = en_target e in
      if qe_mutation_sequence v \<noteq> en_latest e then (e, Inl StaleEvaluation)
      else if \<not> covers t v then (e, Inl UncoveredArtifact)
      else let e1 = e\<lparr>en_evaluations := en_evaluations e @ [v]\<rparr> in
        if \<not> evaluation_passes t v
        then let s = (if plateau fsub t (en_evaluations e1) then CONV_BLOCKED else BELOW_TARGET)
          in (e1\<lparr>en_state := s\<rparr>, Inr s)
        else let recent = recent_fresh e1;
            s = (if int (length recent) < required_evaluations t \<or> \<not> list_all (evaluation_passes t) recent then EVALUATING
                 else if 1 < qt_independent t \<and> int (independent_count recent) < qt_independent t then EVALUATING
                 else CONVERGED)
          in (e1\<lparr>en_state := s\<rparr>, Inr s))"

definition may_release_final :: "int \<Rightarrow> int \<Rightarrow> engine \<Rightarrow> bool" where
  "may_release_final unresolved uncertain e \<longleftrightarrow> en_state e = CONVERGED \<and> unresolved = 0 \<and> uncertain = 0"

datatype engine_op = Mutated | Evaluated evaluation

text \<open>A caller that catches what \<open>accept_evaluation\<close> raises continues with the changed engine.\<close>

primrec exec_engine :: "(rat \<Rightarrow> rat \<Rightarrow> rat) \<Rightarrow> engine_op \<Rightarrow> engine \<Rightarrow> unit + engine" where
  "exec_engine fsub Mutated e = Inr (mutated e)"
| "exec_engine fsub (Evaluated v) e = Inr (fst (accept_evaluation fsub v e))"

section \<open>What convergence means\<close>

definition converged_ok :: "engine \<Rightarrow> bool" where
  "converged_ok e \<longleftrightarrow>
     (en_state e = CONVERGED \<longrightarrow>
        required_evaluations (en_target e) \<le> int (length (recent_fresh e)) \<and>
        list_all (evaluation_passes (en_target e)) (recent_fresh e) \<and>
        (1 < qt_independent (en_target e) \<longrightarrow>
           qt_independent (en_target e) \<le> int (independent_count (recent_fresh e)))) \<and>
     (\<forall>v \<in> set (en_evaluations e). qe_mutation_sequence v \<le> en_latest e \<and>
        covers (en_target e) v)"

lemma recent_fresh_state [simp]:
  "recent_fresh (e\<lparr>en_state := s, en_evaluations := vs\<rparr>) = recent_fresh (e\<lparr>en_evaluations := vs\<rparr>)"
  "recent_fresh (e\<lparr>en_evaluations := vs, en_state := s\<rparr>) = recent_fresh (e\<lparr>en_evaluations := vs\<rparr>)"
  "recent_fresh (e\<lparr>en_state := s\<rparr>) = recent_fresh e"
  by (simp_all add: recent_fresh_def)

lemma accept_cases:
  obtains (error) err where "accept_evaluation fsub v e = (e\<lparr>en_state := EVALUATING\<rparr>, Inl err)"
      "err = StaleEvaluation \<longleftrightarrow> qe_mutation_sequence v \<noteq> en_latest e"
  | (taken) s where "accept_evaluation fsub v e = (e\<lparr>en_evaluations := en_evaluations e @ [v], en_state := s\<rparr>, Inr s)"
      "qe_mutation_sequence v = en_latest e"
      "covers (en_target e) v"
      "s = CONVERGED \<longleftrightarrow> evaluation_passes (en_target e) v \<and>
         required_evaluations (en_target e) \<le> int (length (recent_fresh (e\<lparr>en_evaluations := en_evaluations e @ [v]\<rparr>))) \<and>
         list_all (evaluation_passes (en_target e)) (recent_fresh (e\<lparr>en_evaluations := en_evaluations e @ [v]\<rparr>)) \<and>
         (1 < qt_independent (en_target e) \<longrightarrow> qt_independent (en_target e) \<le>
            int (independent_count (recent_fresh (e\<lparr>en_evaluations := en_evaluations e @ [v]\<rparr>))))"
proof -
  consider "qe_mutation_sequence v \<noteq> en_latest e"
    | "qe_mutation_sequence v = en_latest e" "\<not> covers (en_target e) v"
    | "qe_mutation_sequence v = en_latest e" "covers (en_target e) v"
    by blast
  then show thesis
  proof cases
    case 1
    then show thesis by (intro error [of StaleEvaluation]) (simp_all add: accept_evaluation_def Let_def)
  next
    case 2
    then show thesis by (intro error [of UncoveredArtifact]) (simp_all add: accept_evaluation_def Let_def)
  next
    case 3
    let ?e1 = "e\<lparr>en_evaluations := en_evaluations e @ [v]\<rparr>"
    show thesis
    proof (cases "evaluation_passes (en_target e) v")
      case False
      let ?s = "if plateau fsub (en_target e) (en_evaluations e @ [v]) then CONV_BLOCKED else BELOW_TARGET"
      show thesis
        by (rule taken [of ?s]) (use 3 False in \<open>simp_all add: accept_evaluation_def Let_def\<close>)
    next
      case True
      let ?s = "if int (length (recent_fresh ?e1)) < required_evaluations (en_target e) \<or>
          \<not> list_all (evaluation_passes (en_target e)) (recent_fresh ?e1) then EVALUATING
        else if 1 < qt_independent (en_target e) \<and> int (independent_count (recent_fresh ?e1)) < qt_independent (en_target e)
        then EVALUATING else CONVERGED"
      have "accept_evaluation fsub v e = (e\<lparr>en_evaluations := en_evaluations e @ [v], en_state := ?s\<rparr>, Inr ?s)"
        using 3 True by (simp add: accept_evaluation_def Let_def)
      then show thesis by (rule taken) (use 3 True in \<open>simp_all add: not_less not_le linorder_not_less\<close>)
    qed
  qed
qed

interpretation engine_run: op_invariant "exec_engine fsub" converged_ok for fsub
proof
  fix e p t assume ok: "converged_ok e" and run: "exec_engine fsub p e = Inr t"
  show "converged_ok t"
  proof (cases p)
    case Mutated
    have old: "qe_mutation_sequence v \<le> en_latest e"
      "covers (en_target e) v" if "v \<in> set (en_evaluations e)" for v
      using ok that unfolding converged_ok_def by blast+
    have t: "t = mutated e" using Mutated run by simp
    show ?thesis unfolding converged_ok_def
    proof (intro conjI ballI)
      fix v assume "v \<in> set (en_evaluations t)"
      then have v: "v \<in> set (en_evaluations e)" by (simp add: t mutated_def)
      show "qe_mutation_sequence v \<le> en_latest t" using old(1) [OF v] by (simp add: t mutated_def)
      show "covers (en_target t) v"
        using old(2) [OF v] by (simp add: t mutated_def)
    qed (simp add: t mutated_def)
  next
    case (Evaluated v)
    show ?thesis
    proof (rule accept_cases [of fsub v e])
      fix err assume "accept_evaluation fsub v e = (e\<lparr>en_state := EVALUATING\<rparr>, Inl err)"
      with ok run Evaluated show ?thesis by (auto simp: converged_ok_def)
    next
      fix s assume a: "accept_evaluation fsub v e = (e\<lparr>en_evaluations := en_evaluations e @ [v], en_state := s\<rparr>, Inr s)"
        and v: "qe_mutation_sequence v = en_latest e"
          "covers (en_target e) v"
        and s: "s = CONVERGED \<longleftrightarrow> evaluation_passes (en_target e) v \<and>
          required_evaluations (en_target e) \<le> int (length (recent_fresh (e\<lparr>en_evaluations := en_evaluations e @ [v]\<rparr>))) \<and>
          list_all (evaluation_passes (en_target e)) (recent_fresh (e\<lparr>en_evaluations := en_evaluations e @ [v]\<rparr>)) \<and>
          (1 < qt_independent (en_target e) \<longrightarrow> qt_independent (en_target e) \<le>
             int (independent_count (recent_fresh (e\<lparr>en_evaluations := en_evaluations e @ [v]\<rparr>))))"
      have "t = e\<lparr>en_evaluations := en_evaluations e @ [v], en_state := s\<rparr>" using a run Evaluated by simp
      then show ?thesis using ok v s by (simp add: converged_ok_def)
    qed
  qed
qed

lemma engine_init_ok: "converged_ok (engine_init t)"
  by (simp add: converged_ok_def engine_init_def)

text \<open>Accepting evaluations leaves the target and the mutation count alone.\<close>

lemma accept_frame:
  "en_target (fst (accept_evaluation fsub v e)) = en_target e"
  "en_latest (fst (accept_evaluation fsub v e)) = en_latest e"
  by (rule accept_cases [of fsub v e]; simp)+

lemma accept_all_frame:
  "en_target (run_ops (exec_engine fsub) (map Evaluated vs) e) = en_target e \<and>
   en_latest (run_ops (exec_engine fsub) (map Evaluated vs) e) = en_latest e"
  by (induction vs arbitrary: e) (auto simp: step_or_stay_def accept_frame)

lemma accept_all_evaluations:
  "\<exists>taken. en_evaluations (run_ops (exec_engine fsub) (map Evaluated vs) e) = en_evaluations e @ taken \<and> subseq taken vs"
proof (induction vs arbitrary: e)
  case (Cons v vs)
  let ?e = "fst (accept_evaluation fsub v e)"
  obtain taken where t: "en_evaluations (run_ops (exec_engine fsub) (map Evaluated vs) ?e) = en_evaluations ?e @ taken"
    "subseq taken vs" using Cons by blast
  have "en_evaluations ?e = en_evaluations e \<or> en_evaluations ?e = en_evaluations e @ [v]"
    by (rule accept_cases [of fsub v e]) simp_all
  then show ?case
  proof
    assume "en_evaluations ?e = en_evaluations e"
    with t show ?thesis by (auto simp: step_or_stay_def intro: list_emb_Cons)
  next
    assume "en_evaluations ?e = en_evaluations e @ [v]"
    with t show ?thesis by (auto simp: step_or_stay_def intro!: exI [of _ "v # taken"])
  qed
qed simp

lemma length_filter_take: "length (filter P (take n xs)) \<le> length (filter P xs)"
proof -
  have "length (filter P xs) = length (filter P (take n xs @ drop n xs))" by simp
  also have "\<dots> = length (filter P (take n xs)) + length (filter P (drop n xs))"
    by (simp only: filter_append length_append)
  finally show ?thesis by simp
qed

text \<open>After a mutation only evaluations of the new state of the artifacts count.\<close>

lemma release_needs_fresh:
  assumes ok: "converged_ok e"
    and rel: "may_release_final open_findings uncertain (run_ops (exec_engine fsub) (map Evaluated vs) (mutated e))"
  shows "required_evaluations (en_target e) \<le>
    int (length (filter (\<lambda>v. evaluation_passes (en_target e) v \<and> qe_mutation_sequence v = en_latest e + 1) vs))"
proof -
  let ?t = "run_ops (exec_engine fsub) (map Evaluated vs) (mutated e)"
  have m: "converged_ok (mutated e)" using engine_run.exec_inv [OF ok, of fsub Mutated] by simp
  then have t: "converged_ok ?t" by (rule engine_run.run_inv)
  have fr: "en_target ?t = en_target e" "en_latest ?t = en_latest e + 1"
    using accept_all_frame [of fsub vs "mutated e"] by (simp_all add: mutated_def)
  obtain taken where taken: "en_evaluations ?t = en_evaluations e @ taken" "subseq taken vs"
    using accept_all_evaluations [of fsub vs "mutated e"] by (auto simp: mutated_def)
  have old: "filter (\<lambda>v. qe_mutation_sequence v = en_latest e + 1) (rev (en_evaluations e)) = []"
    using ok unfolding converged_ok_def filter_empty_conv by fastforce
  define fresh where "fresh = filter (\<lambda>v. qe_mutation_sequence v = en_latest e + 1) (rev taken)"
  have rec: "recent_fresh ?t = take (nat (required_evaluations (en_target e))) fresh"
    unfolding recent_fresh_def fr taken(1) fresh_def by (simp add: old)
  have conv: "required_evaluations (en_target e) \<le> int (length (recent_fresh ?t))"
    "list_all (evaluation_passes (en_target e)) (recent_fresh ?t)"
    using t rel fr by (simp_all add: converged_ok_def may_release_final_def)
  let ?good = "\<lambda>v. evaluation_passes (en_target e) v \<and> qe_mutation_sequence v = en_latest e + 1"
  have "length (recent_fresh ?t) = length (filter ?good (recent_fresh ?t))"
  proof -
    have "\<forall>v \<in> set (recent_fresh ?t). ?good v"
      using conv(2) unfolding rec fresh_def list_all_iff by (auto dest: in_set_takeD)
    then have "filter ?good (recent_fresh ?t) = recent_fresh ?t" by (simp add: filter_id_conv)
    then show ?thesis by simp
  qed
  also have "\<dots> \<le> length (filter ?good fresh)"
    unfolding rec by (rule length_filter_take)
  also have "\<dots> \<le> length (filter ?good taken)"
    unfolding fresh_def rev_filter [symmetric] filter_filter length_rev
    by (rule eq_imp_le, rule arg_cong [of _ _ length], rule filter_cong) auto
  also have "\<dots> \<le> length (filter ?good vs)"
    using taken(2) by (intro list_emb_length) (rule subseq_filter)
  finally show ?thesis using conv(1) by linarith
qed

text \<open>
  Enough passing evaluations of the current artifacts, by different independent evaluators,
  converge, whatever happened before.
\<close>

lemma evaluations_converge:
  assumes len: "int (length vs) = required_evaluations (en_target e)" and pos: "vs \<noteq> []"
    and good: "\<And>v. v \<in> set vs \<Longrightarrow> evaluation_passes (en_target e) v \<and> covers (en_target e) v \<and>
      qe_mutation_sequence v = en_latest e \<and> er_independent (qe_evaluator v)"
    and distinct: "distinct (map (\<lambda>v. er_id (qe_evaluator v)) vs)"
  shows "en_state (run_ops (exec_engine fsub) (map Evaluated vs) e) = CONVERGED"
proof -
  have accepted: "\<exists>s. fst (accept_evaluation fsub v d) = d\<lparr>en_evaluations := en_evaluations d @ [v], en_state := s\<rparr>"
    if "qe_mutation_sequence v = en_latest d" "covers (en_target d) v" for v d
    using that by (auto simp: accept_evaluation_def Let_def)
  have evs: "en_evaluations (run_ops (exec_engine fsub) (map Evaluated us) d) = en_evaluations d @ us"
    if "\<And>v. v \<in> set us \<Longrightarrow> covers (en_target d) v \<and> qe_mutation_sequence v = en_latest d" for us d
    using that
  proof (induction us arbitrary: d)
    case (Cons u us)
    obtain s where s: "fst (accept_evaluation fsub u d) = d\<lparr>en_evaluations := en_evaluations d @ [u], en_state := s\<rparr>"
      using accepted [of u d] Cons.prems by auto
    have "en_evaluations (run_ops (exec_engine fsub) (map Evaluated us) (d\<lparr>en_evaluations := en_evaluations d @ [u], en_state := s\<rparr>)) =
        (en_evaluations d @ [u]) @ us"
      using Cons.IH [of "d\<lparr>en_evaluations := en_evaluations d @ [u], en_state := s\<rparr>"] Cons.prems by simp
    then show ?case by (simp add: step_or_stay_def s)
  qed simp
  obtain us v where vs: "vs = us @ [v]" using pos by (metis rev_exhaust)
  let ?d = "run_ops (exec_engine fsub) (map Evaluated us) e"
  have d: "en_target ?d = en_target e" "en_latest ?d = en_latest e" using accept_all_frame [of fsub us e] by simp_all
  have run: "run_ops (exec_engine fsub) (map Evaluated vs) e = fst (accept_evaluation fsub v ?d)"
    unfolding vs by (simp add: run_ops_append step_or_stay_def)
  have evd: "en_evaluations ?d @ [v] = en_evaluations e @ vs" using evs [of us e] good by (simp add: vs)
  have fresh: "recent_fresh (?d\<lparr>en_evaluations := en_evaluations ?d @ [v]\<rparr>) = rev vs"
  proof -
    have "filter (\<lambda>v. qe_mutation_sequence v = en_latest e) (rev vs) = rev vs"
      using good by (simp add: filter_id_conv)
    then show ?thesis unfolding recent_fresh_def by (simp add: evd d len [symmetric])
  qed
  have ids: "independent_count (rev vs) = length vs"
  proof -
    have "filter (\<lambda>v. er_independent (qe_evaluator v)) (rev vs) = rev vs" using good by (simp add: filter_id_conv)
    then show ?thesis using distinct
      by (simp add: independent_count_def distinct_remdups_id flip: rev_map)
  qed
  have pass: "list_all (evaluation_passes (en_target e)) vs" using good by (simp add: list_all_iff)
  have v: "qe_mutation_sequence v = en_latest ?d" "covers (en_target ?d) v" "evaluation_passes (en_target ?d) v"
    using good [of v] by (simp_all add: vs d)
  have "qt_independent (en_target e) \<le> int (length vs)" unfolding len by (simp add: required_evaluations_def)
  with v show ?thesis unfolding run
    by (simp add: accept_evaluation_def Let_def fresh ids len pass d list_all_rev)
qed

text \<open>
  A mutation takes the release away: it is given back only after the required number of
  passing evaluations of the new artifacts, whatever else was submitted.
\<close>

lemma release_after_mutation:
  assumes "may_release_final open_findings uncertain
    (run_ops (exec_engine fsub) (map Evaluated vs) (mutated (run_ops (exec_engine fsub) ops (engine_init t))))"
  shows "required_evaluations (en_target (run_ops (exec_engine fsub) ops (engine_init t))) \<le>
    int (length (filter (\<lambda>v. evaluation_passes (en_target (run_ops (exec_engine fsub) ops (engine_init t))) v \<and>
      qe_mutation_sequence v = en_latest (run_ops (exec_engine fsub) ops (engine_init t)) + 1) vs))"
  by (rule release_needs_fresh [OF engine_run.run_inv [OF engine_init_ok] assms])

end
