(* ===== verification/Conversions.thy ===== *)
theory Conversions
  imports Json
begin

text \<open>
  How the \<open>from_dict\<close> constructors read untyped values: Python's \<open>str\<close>, \<open>float\<close>, \<open>int\<close> and
  \<open>bool\<close> of a JSON value.  What the interpreter does with the text of a number is a parameter.
\<close>

text \<open>
  \<open>str(value.get(k) or d)\<close>, \<open>float(..)\<close>, \<open>int(..)\<close>, \<open>dict(..)\<close> and \<open>bool(..)\<close> of a value of
  the dictionary.  A string given where a number is expected, or a list where a dictionary is,
  is converted by the interpreter, a parameter (\<open>None\<close> is its \<open>ValueError\<close> or \<open>TypeError\<close>).
\<close>

record conversions =
  cv_repr :: "json \<Rightarrow> string"
  cv_float :: "json \<Rightarrow> rat option"
  cv_int :: "json \<Rightarrow> int option"
  cv_dict :: "json \<Rightarrow> json_obj option"

definition py_float :: "conversions \<Rightarrow> json \<Rightarrow> rat option" where
  "py_float cv v = (case v of JFloat r \<Rightarrow> Some r | _ \<Rightarrow> cv_float cv v)"

definition py_int :: "conversions \<Rightarrow> json \<Rightarrow> int option" where
  "py_int cv v = (case v of JInt i \<Rightarrow> Some i | _ \<Rightarrow> cv_int cv v)"

definition py_dict :: "conversions \<Rightarrow> json \<Rightarrow> json_obj option" where
  "py_dict cv v = (case v of JObj kvs \<Rightarrow> Some kvs | _ \<Rightarrow> cv_dict cv v)"

definition str_or :: "conversions \<Rightarrow> json_obj \<Rightarrow> string \<Rightarrow> string \<Rightarrow> string" where
  "str_or cv d k dflt =
     (case obj_get d k of Some v \<Rightarrow> if truthy v then py_str (cv_repr cv) v else dflt | None \<Rightarrow> dflt)"

text \<open>\<open>tuple(str(item).strip() for item in values if str(item).strip())\<close>, \<open>None\<close> when not iterable.\<close>

definition strings_of :: "conversions \<Rightarrow> json \<Rightarrow> string list option" where
  "strings_of cv v = map_option (map (py_str (cv_repr cv))) (py_iter v)"

lemma strings_of_jstrs [simp]: "strings_of cv (jstrs xs) = Some xs"
  by (simp add: strings_of_def py_iter_def jstrs_def comp_def)

lemma py_dict_JObj [simp]: "py_dict cv (JObj kvs) = Some kvs"
  by (simp add: py_dict_def)

lemma py_int_JInt [simp]: "py_int cv (JInt i) = Some i"
  by (simp add: py_int_def)

lemma get_or_simps [simp]:
  "get_or dflt [] k = dflt" "get_or dflt ((k', v) # d) k = (if k = k' then v else get_or dflt d k)"
  by (simp_all add: get_or_def)

text \<open>\<open>tuple(dict(item) for item in values if isinstance(item, Mapping))\<close>.\<close>

definition mappings :: "json list \<Rightarrow> json_obj list" where
  "mappings vs = concat (map (\<lambda>v. case v of JObj kvs \<Rightarrow> [kvs] | _ \<Rightarrow> []) vs)"

end
