(* ===== verification/Acceptance.thy ===== *)
theory Acceptance
  imports Convergence Conversions
begin

text \<open>
  \<open>agent/goal_outcome.py\<close>: the outcome contract of a goal, the evidence for it, optimisation
  experiments and the gate that accepts the product.  Scores are rationals; a float argument
  that is not a number cannot be built here (the range checks of the source reject it too).
  Error values name the check; the texts of the blockers are kept as constructors.
\<close>

datatype outcome_state = OUT_RUNNING | OUT_RECOVERING | OUT_QUALITY_BLOCKED | OUT_EXTERNAL_BLOCKED | OUT_ACCEPTED

datatype experiment_outcome = EXP_CHAMPION | EXP_REJECTED | EXP_INCONCLUSIVE

datatype outcome_error =
    ContractFields | ContractEvidence | ContractOverall | ContractCritical | ContractVisual | ContractRepetitions
  | EvidenceFields | EvidenceNumbers | ExperimentFields | ExperimentText | ExperimentScores

record outcome_contract =
  oc_goal_id :: string
  oc_objective :: string
  oc_required :: "string list"
  oc_min_overall :: rat
  oc_min_critical :: rat
  oc_visual_acceptances :: int
  oc_zero_critical :: bool
  oc_candidate_preferred :: bool
  oc_auto_converge :: bool
  oc_max_repetitions :: int
  oc_id :: string
  oc_version :: int

definition mk_contract :: "outcome_contract \<Rightarrow> outcome_error + outcome_contract" where
  "mk_contract c =
     (if oc_version c \<noteq> 1 \<or> oc_goal_id c = [] \<or> strip (oc_objective c) = [] then Inl ContractFields
      else if oc_required c = [] then Inl ContractEvidence
      else if \<not> (0 \<le> oc_min_overall c \<and> oc_min_overall c \<le> 1) then Inl ContractOverall
      else if \<not> (0 \<le> oc_min_critical c \<and> oc_min_critical c \<le> 1) then Inl ContractCritical
      else if oc_visual_acceptances c < 2 then Inl ContractVisual
      else if oc_max_repetitions c < 1 then Inl ContractRepetitions
      else Inr c)"

definition contract_to_dict :: "outcome_contract \<Rightarrow> json_obj" where
  "contract_to_dict c =
     [(''schema'', JStr ''GoalOutcomeContractV1''), (''version'', JInt 1), (''id'', JStr (oc_id c)),
      (''goal_id'', JStr (oc_goal_id c)), (''objective'', JStr (oc_objective c)),
      (''required_evidence'', jstrs (oc_required c)),
      (''minimum_overall_score'', JFloat (oc_min_overall c)),
      (''minimum_critical_score'', JFloat (oc_min_critical c)),
      (''required_clean_visual_acceptances'', JInt (oc_visual_acceptances c)),
      (''require_zero_critical_findings'', JBool (oc_zero_critical c)),
      (''require_candidate_preferred'', JBool (oc_candidate_preferred c)),
      (''auto_converge'', JBool (oc_auto_converge c)),
      (''max_strategy_repetitions'', JInt (oc_max_repetitions c))]"

datatype from_dict_error = BadValue string | NotIterable | Rejected outcome_error

definition contract_from_dict :: "conversions \<Rightarrow> string \<Rightarrow> json_obj \<Rightarrow> from_dict_error + outcome_contract" where
  "contract_from_dict cv new_id d =
     (case py_iter (get_or (JArr []) d ''required_evidence'') of
        None \<Rightarrow> Inl NotIterable
      | Some items \<Rightarrow>
        (let kinds = filter (\<lambda>s. s \<noteq> []) (map (py_str (cv_repr cv)) items) in
         case py_float cv (get_or (JFloat (95 / 100)) d ''minimum_overall_score'') of
           None \<Rightarrow> Inl (BadValue ''minimum_overall_score'')
         | Some overall \<Rightarrow>
         (case py_float cv (get_or (JFloat (90 / 100)) d ''minimum_critical_score'') of
           None \<Rightarrow> Inl (BadValue ''minimum_critical_score'')
         | Some critical \<Rightarrow>
         (case py_int cv (get_or (JInt 2) d ''required_clean_visual_acceptances'') of
           None \<Rightarrow> Inl (BadValue ''required_clean_visual_acceptances'')
         | Some visual \<Rightarrow>
         (case py_int cv (get_or (JInt 2) d ''max_strategy_repetitions'') of
           None \<Rightarrow> Inl (BadValue ''max_strategy_repetitions'')
         | Some repetitions \<Rightarrow>
         (case py_int cv (get_or (JInt 1) d ''version'') of
           None \<Rightarrow> Inl (BadValue ''version'')
         | Some version \<Rightarrow>
           map_error Rejected (mk_contract
             \<lparr>oc_goal_id = str_or cv d ''goal_id'' [], oc_objective = str_or cv d ''objective'' [],
              oc_required = kinds, oc_min_overall = overall, oc_min_critical = critical,
              oc_visual_acceptances = visual,
              oc_zero_critical = truthy (get_or (JBool True) d ''require_zero_critical_findings''),
              oc_candidate_preferred = truthy (get_or (JBool True) d ''require_candidate_preferred''),
              oc_auto_converge = truthy (get_or (JBool True) d ''auto_converge''),
              oc_max_repetitions = repetitions, oc_id = str_or cv d ''id'' new_id,
              oc_version = version\<rparr>)))))))"

text \<open>A stored contract reads back.\<close>

lemma contract_roundtrip:
  assumes "mk_contract c = Inr c" "oc_id c \<noteq> []" "[] \<notin> set (oc_required c)"
  shows "contract_from_dict cv new_id (contract_to_dict c) = Inr c"
proof -
  have kinds: "filter (\<lambda>s. s \<noteq> []) (oc_required c) = oc_required c"
    using assms(3) by (auto simp: filter_id_conv)
  have v: "oc_version c = 1" using assms(1) by (simp add: mk_contract_def split: if_splits)
  have obj: "oc_goal_id c \<noteq> []" "oc_objective c \<noteq> []"
    using assms(1) by (auto simp: mk_contract_def split: if_splits)
  have strs: "map (py_str (cv_repr cv)) (map JStr (oc_required c)) = oc_required c"
    by (simp add: comp_def)
  have same: "\<lparr>oc_goal_id = oc_goal_id c, oc_objective = oc_objective c, oc_required = oc_required c,
      oc_min_overall = oc_min_overall c, oc_min_critical = oc_min_critical c,
      oc_visual_acceptances = oc_visual_acceptances c, oc_zero_critical = oc_zero_critical c,
      oc_candidate_preferred = oc_candidate_preferred c, oc_auto_converge = oc_auto_converge c,
      oc_max_repetitions = oc_max_repetitions c, oc_id = oc_id c, oc_version = 1\<rparr> = c"
    using v by simp
  show ?thesis
    using assms(1,2) kinds obj
    by (simp add: contract_from_dict_def contract_to_dict_def get_or_def py_iter_def jstrs_def py_float_def
        py_int_def str_or_def comp_def same)
qed

section \<open>Evidence\<close>

record acceptance_evidence =
  ae_run_id :: string
  ae_kind :: string
  ae_authority :: string
  ae_passed :: bool
  ae_score :: rat
  ae_critical_findings :: int
  ae_artifact_hash :: string
  ae_details :: json_obj
  ae_id :: string
  ae_created_at :: int
  ae_version :: int

definition mk_acceptance_evidence :: "acceptance_evidence \<Rightarrow> outcome_error + acceptance_evidence" where
  "mk_acceptance_evidence e =
     (if ae_version e \<noteq> 1 \<or> ae_run_id e = [] \<or> ae_kind e = [] \<or> ae_authority e = [] then Inl EvidenceFields
      else if \<not> (0 \<le> ae_score e \<and> ae_score e \<le> 1) \<or> ae_critical_findings e < 0 then Inl EvidenceNumbers
      else Inr e)"

record opt_experiment =
  xp_run_id :: string
  xp_node_id :: string
  xp_variable :: string
  xp_baseline :: json_obj
  xp_candidate :: json_obj
  xp_hypothesis :: string
  xp_before :: rat
  xp_after :: rat
  xp_outcome :: experiment_outcome
  xp_evidence :: "string list"
  xp_id :: string
  xp_created_at :: int
  xp_version :: int

definition mk_experiment :: "opt_experiment \<Rightarrow> outcome_error + opt_experiment" where
  "mk_experiment x =
     (if xp_version x \<noteq> 1 \<or> xp_run_id x = [] \<or> xp_node_id x = [] then Inl ExperimentFields
      else if xp_variable x = [] \<or> xp_hypothesis x = [] then Inl ExperimentText
      else if \<not> (0 \<le> xp_before x \<and> xp_before x \<le> 1) \<or> \<not> (0 \<le> xp_after x \<and> xp_after x \<le> 1) then Inl ExperimentScores
      else Inr x)"

text \<open>
  A mapping given to the gate in place of typed evidence; \<open>when\<close> is \<open>datetime.fromisoformat\<close>,
  \<open>new_id\<close> and \<open>t\<close> what \<open>new_id\<close> and \<open>utc_now\<close> return for this item.
\<close>

definition evidence_from_dict :: "conversions \<Rightarrow> (string \<Rightarrow> int option) \<Rightarrow> string \<Rightarrow> int \<Rightarrow> json_obj \<Rightarrow>
    from_dict_error + acceptance_evidence" where
  "evidence_from_dict cv when new_id t d =
     (case py_float cv (get_or (JFloat 0) d ''score'') of
        None \<Rightarrow> Inl (BadValue ''score'')
      | Some score \<Rightarrow>
      (case py_int cv (get_or (JInt 0) d ''critical_findings'') of
        None \<Rightarrow> Inl (BadValue ''critical_findings'')
      | Some findings \<Rightarrow>
      (case (if truthy (get_or JNull d ''details'') then
               (case get_or JNull d ''details'' of JObj kvs \<Rightarrow> Some kvs | _ \<Rightarrow> None) else Some []) of
        None \<Rightarrow> Inl (BadValue ''details'')
      | Some details \<Rightarrow>
      (case (if truthy (get_or JNull d ''created_at'') then when (py_str (cv_repr cv) (get_or JNull d ''created_at'')) else Some t) of
        None \<Rightarrow> Inl (BadValue ''created_at'')
      | Some created \<Rightarrow>
        map_error Rejected (mk_acceptance_evidence
          \<lparr>ae_run_id = str_or cv d ''ultra_run_id'' [], ae_kind = str_or cv d ''kind'' [],
           ae_authority = str_or cv d ''authority'' [], ae_passed = truthy (get_or JNull d ''passed''),
           ae_score = score, ae_critical_findings = findings, ae_artifact_hash = str_or cv d ''artifact_hash'' [],
           ae_details = details, ae_id = str_or cv d ''id'' new_id, ae_created_at = created, ae_version = 1\<rparr>)))))"

definition evidence_to_dict :: "(int \<Rightarrow> string) \<Rightarrow> acceptance_evidence \<Rightarrow> json_obj" where
  "evidence_to_dict isofmt e =
     [(''schema'', JStr ''FinalAcceptanceEvidenceV1''), (''version'', JInt 1), (''id'', JStr (ae_id e)),
      (''ultra_run_id'', JStr (ae_run_id e)), (''kind'', JStr (ae_kind e)), (''authority'', JStr (ae_authority e)),
      (''passed'', JBool (ae_passed e)), (''score'', JFloat (ae_score e)),
      (''critical_findings'', JInt (ae_critical_findings e)), (''artifact_hash'', JStr (ae_artifact_hash e)),
      (''details'', JObj (ae_details e)), (''created_at'', JStr (isofmt (ae_created_at e)))]"

lemma evidence_roundtrip:
  assumes "mk_acceptance_evidence e = Inr e" "ae_id e \<noteq> []"
    and "when (isofmt (ae_created_at e)) = Some (ae_created_at e)" "isofmt (ae_created_at e) \<noteq> []"
  shows "evidence_from_dict cv when new_id t (evidence_to_dict isofmt e) = Inr e"
proof -
  have v: "ae_version e = 1" "ae_run_id e \<noteq> []" "ae_kind e \<noteq> []" "ae_authority e \<noteq> []"
    using assms(1) by (auto simp: mk_acceptance_evidence_def split: if_splits)
  have details: "(if truthy (JObj (ae_details e)) then (case JObj (ae_details e) of JObj kvs \<Rightarrow> Some kvs | _ \<Rightarrow> None)
      else Some []) = Some (ae_details e)"
    by simp
  have same: "\<lparr>ae_run_id = ae_run_id e, ae_kind = ae_kind e, ae_authority = ae_authority e, ae_passed = ae_passed e,
      ae_score = ae_score e, ae_critical_findings = ae_critical_findings e, ae_artifact_hash = ae_artifact_hash e,
      ae_details = ae_details e, ae_id = ae_id e, ae_created_at = ae_created_at e, ae_version = 1\<rparr> = e"
    using v by simp
  have hash: "str_or cv (evidence_to_dict isofmt e) ''artifact_hash'' [] = ae_artifact_hash e"
    by (simp add: str_or_def evidence_to_dict_def)
  have strs: "str_or cv (evidence_to_dict isofmt e) ''ultra_run_id'' [] = ae_run_id e"
    "str_or cv (evidence_to_dict isofmt e) ''kind'' [] = ae_kind e"
    "str_or cv (evidence_to_dict isofmt e) ''authority'' [] = ae_authority e"
    "str_or cv (evidence_to_dict isofmt e) ''id'' new_id = ae_id e"
    using v assms(2) by (simp_all add: str_or_def evidence_to_dict_def)
  have gets: "get_or dflt (evidence_to_dict isofmt e) ''score'' = JFloat (ae_score e)"
    "get_or dflt (evidence_to_dict isofmt e) ''critical_findings'' = JInt (ae_critical_findings e)"
    "get_or dflt (evidence_to_dict isofmt e) ''details'' = JObj (ae_details e)"
    "get_or dflt (evidence_to_dict isofmt e) ''passed'' = JBool (ae_passed e)"
    "get_or dflt (evidence_to_dict isofmt e) ''created_at'' = JStr (isofmt (ae_created_at e))" for dflt
    by (simp_all add: get_or_def evidence_to_dict_def)
  show ?thesis
    unfolding evidence_from_dict_def gets hash strs details
    using assms by (simp add: py_float_def py_int_def same)
qed

section \<open>The gate\<close>

datatype blocker =
    MissingEvidence "string list" | CriticalFindings | FewVisualAuthorities
  | LowScore rat rat | LowCriticalScore rat rat | NotPreferred

record acceptance_decision =
  ad_contract_id :: string
  ad_accepted :: bool
  ad_missing :: "string list"
  ad_blockers :: "blocker list"
  ad_evidence_ids :: "string list"
  ad_overall :: rat
  ad_critical :: rat

text \<open>The last evidence of each kind and authority, in the order the pairs first appear.\<close>

definition effective :: "acceptance_evidence list \<Rightarrow> acceptance_evidence list" where
  "effective evs = map snd (dict_of (\<lambda>e. (ae_kind e, ae_authority e)) evs)"

definition detail_set :: "string \<Rightarrow> acceptance_evidence \<Rightarrow> bool" where
  "detail_set k e = truthy (get_or (JBool False) (ae_details e) k)"

definition of_kind :: "string \<Rightarrow> acceptance_evidence list \<Rightarrow> acceptance_evidence list" where
  "of_kind k = filter (\<lambda>e. ae_kind e = k)"

definition missing_kinds :: "outcome_contract \<Rightarrow> acceptance_evidence list \<Rightarrow> string list" where
  "missing_kinds c eff = filter (\<lambda>k. \<not> list_ex ae_passed (of_kind k eff)) (oc_required c)"

definition visual_authorities :: "acceptance_evidence list \<Rightarrow> string list" where
  "visual_authorities eff = remdups (map ae_authority
     (filter (\<lambda>e. ae_passed e \<and> ae_authority e \<notin> {''builder'', ''self''}) (of_kind ''independent_visual'' eff)))"

definition evaluate_gate :: "outcome_contract \<Rightarrow> acceptance_evidence list \<Rightarrow> acceptance_decision" where
  "evaluate_gate c evs =
     (let eff = effective evs;
          missing = missing_kinds c eff;
          scored = filter (\<lambda>s. 0 < s) (map ae_score (filter ae_passed eff));
          overall = (if scored = [] then 0 else Min (set scored));
          critical_scores = map ae_score (filter (\<lambda>e. ae_passed e \<and> detail_set ''critical'' e) eff);
          critical = (if critical_scores = [] then overall else Min (set critical_scores));
          blockers =
            (if missing \<noteq> [] then [MissingEvidence missing] else []) @
            (if oc_zero_critical c \<and> list_ex (\<lambda>e. ae_critical_findings e \<noteq> 0) eff then [CriticalFindings] else []) @
            (if ''independent_visual'' \<in> set (oc_required c) \<and>
                int (length (visual_authorities eff)) < oc_visual_acceptances c then [FewVisualAuthorities] else []) @
            (if scored \<noteq> [] \<and> overall < oc_min_overall c then [LowScore overall (oc_min_overall c)] else []) @
            (if critical_scores \<noteq> [] \<and> critical < oc_min_critical c then [LowCriticalScore critical (oc_min_critical c)] else []) @
            (if oc_candidate_preferred c \<and> ''pairwise_baseline'' \<in> set (oc_required c) \<and>
                \<not> list_ex (\<lambda>e. ae_passed e \<and> detail_set ''candidate_preferred'' e) (of_kind ''pairwise_baseline'' eff)
             then [NotPreferred] else [])
      in \<lparr>ad_contract_id = oc_id c, ad_accepted = (missing = [] \<and> blockers = []), ad_missing = missing,
          ad_blockers = dict_fromkeys blockers, ad_evidence_ids = map ae_id eff, ad_overall = overall,
          ad_critical = critical\<rparr>)"

text \<open>\<open>heartbeat_is_stale\<close>; all three times in the unit of the clock.\<close>

definition heartbeat_is_stale :: "int option \<Rightarrow> int \<Rightarrow> int \<Rightarrow> bool" where
  "heartbeat_is_stale beat t stale_after = (case beat of None \<Rightarrow> True | Some b \<Rightarrow> stale_after < t - b)"

section \<open>What acceptance means\<close>

lemma effective_latest:
  "e \<in> set (effective evs) \<longleftrightarrow>
     List.find (\<lambda>x. (ae_kind x, ae_authority x) = (ae_kind e, ae_authority e)) (rev evs) = Some e"
proof
  assume "e \<in> set (effective evs)"
  then obtain k where "(k, e) \<in> set (dict_of (\<lambda>e. (ae_kind e, ae_authority e)) evs)" by (auto simp: effective_def)
  then have "map_of (dict_of (\<lambda>e. (ae_kind e, ae_authority e)) evs) k = Some e" by simp
  then show "List.find (\<lambda>x. (ae_kind x, ae_authority x) = (ae_kind e, ae_authority e)) (rev evs) = Some e"
    unfolding dict_of_get by (auto simp: find_Some_iff)
next
  assume "List.find (\<lambda>x. (ae_kind x, ae_authority x) = (ae_kind e, ae_authority e)) (rev evs) = Some e"
  then have "map_of (dict_of (\<lambda>e. (ae_kind e, ae_authority e)) evs) (ae_kind e, ae_authority e) = Some e"
    unfolding dict_of_get .
  then show "e \<in> set (effective evs)" unfolding effective_def by (force dest: map_of_SomeD)
qed

lemma effective_subset: "set (effective evs) \<subseteq> set evs"
proof
  fix e assume "e \<in> set (effective evs)"
  then obtain i where "i < length (rev evs)" "e = rev evs ! i"
    unfolding effective_latest by (auto simp: find_Some_iff)
  then have "e \<in> set (rev evs)" by (metis nth_mem)
  then show "e \<in> set evs" by simp
qed

lemma Min_list_less: "xs \<noteq> [] \<and> Min (set xs) < m \<longleftrightarrow> (\<exists>x \<in> set xs. x < m)" for m :: "'a::linorder"
  by (cases "xs = []") (simp_all add: Min_less_iff)

text \<open>Acceptance, fully spelled out over the effective evidence.\<close>

lemma gate_iff:
  "ad_accepted (evaluate_gate c evs) \<longleftrightarrow>
     (\<forall>k \<in> set (oc_required c). \<exists>e \<in> set (effective evs). ae_kind e = k \<and> ae_passed e) \<and>
     (oc_zero_critical c \<longrightarrow> (\<forall>e \<in> set (effective evs). ae_critical_findings e = 0)) \<and>
     (''independent_visual'' \<in> set (oc_required c) \<longrightarrow>
        oc_visual_acceptances c \<le> int (card (ae_authority ` {e \<in> set (effective evs). ae_kind e = ''independent_visual'' \<and>
          ae_passed e \<and> ae_authority e \<notin> {''builder'', ''self''}}))) \<and>
     (\<forall>e \<in> set (effective evs). ae_passed e \<longrightarrow> 0 < ae_score e \<longrightarrow> oc_min_overall c \<le> ae_score e) \<and>
     (\<forall>e \<in> set (effective evs). ae_passed e \<longrightarrow> detail_set ''critical'' e \<longrightarrow> oc_min_critical c \<le> ae_score e) \<and>
     (oc_candidate_preferred c \<longrightarrow> ''pairwise_baseline'' \<in> set (oc_required c) \<longrightarrow>
        (\<exists>e \<in> set (effective evs). ae_kind e = ''pairwise_baseline'' \<and> ae_passed e \<and> detail_set ''candidate_preferred'' e))"
proof -
  define eff where "eff = effective evs"
  define scored where "scored = filter (\<lambda>s. 0 < s) (map ae_score (filter ae_passed eff))"
  define crit where "crit = map ae_score (filter (\<lambda>e. ae_passed e \<and> detail_set ''critical'' e) eff)"
  have vis: "length (visual_authorities eff) = card (ae_authority ` {e \<in> set eff. ae_kind e = ''independent_visual'' \<and>
          ae_passed e \<and> ae_authority e \<notin> {''builder'', ''self''}})"
    unfolding visual_authorities_def of_kind_def length_remdups_card_conv
    by (rule arg_cong [of _ _ card]) auto
  have sc: "(scored \<noteq> [] \<and> Min (set scored) < m) = (\<not> (\<forall>e \<in> set eff. ae_passed e \<longrightarrow> 0 < ae_score e \<longrightarrow> m \<le> ae_score e))" for m
    unfolding Min_list_less scored_def by (auto simp: not_le)
  have cr: "(crit \<noteq> [] \<and> Min (set crit) < m) =
      (\<not> (\<forall>e \<in> set eff. ae_passed e \<longrightarrow> detail_set ''critical'' e \<longrightarrow> m \<le> ae_score e))" for m
    unfolding Min_list_less crit_def by (auto simp: not_le)
  have miss: "missing_kinds c eff = [] \<longleftrightarrow> (\<forall>k \<in> set (oc_required c). \<exists>e \<in> set eff. ae_kind e = k \<and> ae_passed e)"
    unfolding missing_kinds_def of_kind_def by (auto simp: filter_empty_conv list_ex_iff)
  have zero: "\<not> (oc_zero_critical c \<and> list_ex (\<lambda>e. ae_critical_findings e \<noteq> 0) eff) \<longleftrightarrow>
      (oc_zero_critical c \<longrightarrow> (\<forall>e \<in> set eff. ae_critical_findings e = 0))"
    by (auto simp: list_ex_iff)
  have pref: "\<not> (oc_candidate_preferred c \<and> ''pairwise_baseline'' \<in> set (oc_required c) \<and>
         \<not> list_ex (\<lambda>e. ae_passed e \<and> detail_set ''candidate_preferred'' e) (of_kind ''pairwise_baseline'' eff)) \<longleftrightarrow>
      (oc_candidate_preferred c \<longrightarrow> ''pairwise_baseline'' \<in> set (oc_required c) \<longrightarrow>
        (\<exists>e \<in> set eff. ae_kind e = ''pairwise_baseline'' \<and> ae_passed e \<and> detail_set ''candidate_preferred'' e))"
    unfolding of_kind_def list_ex_iff by (simp only: set_filter mem_Collect_eq) blast
  have acc: "ad_accepted (evaluate_gate c evs) \<longleftrightarrow>
      missing_kinds c eff = [] \<and>
      \<not> (oc_zero_critical c \<and> list_ex (\<lambda>e. ae_critical_findings e \<noteq> 0) eff) \<and>
      \<not> (''independent_visual'' \<in> set (oc_required c) \<and> int (length (visual_authorities eff)) < oc_visual_acceptances c) \<and>
      \<not> (scored \<noteq> [] \<and> Min (set scored) < oc_min_overall c) \<and>
      \<not> (crit \<noteq> [] \<and> Min (set crit) < oc_min_critical c) \<and>
      \<not> (oc_candidate_preferred c \<and> ''pairwise_baseline'' \<in> set (oc_required c) \<and>
         \<not> list_ex (\<lambda>e. ae_passed e \<and> detail_set ''candidate_preferred'' e) (of_kind ''pairwise_baseline'' eff))"
    unfolding evaluate_gate_def Let_def eff_def [symmetric] scored_def [symmetric] crit_def [symmetric]
    by (simp split: if_splits)
  show ?thesis
    unfolding acc miss zero pref sc cr vis eff_def [symmetric] by (simp only: not_not de_Morgan_conj not_less imp_conv_disj)
qed

end
