(* ===== verification/Orchestration.thy ===== *)
theory Orchestration
  imports Scopes Conversions
begin

text \<open>
  \<open>agent/orchestration.py\<close>: worker missions, evidence claims, specialist reviews, the adaptive
  worker router and the aggregation of evidence.  Ratios are rationals; the one rounded division
  (\<open>evidence_novelty\<close>) and the digest of a normal form are parameters.
\<close>

section \<open>Enumerations\<close>

datatype worker_role = PREDICTOR | BUILDER | FALSIFIER | CHALLENGER | SELECTOR | REPAIRER | REVIEWER

primrec worker_role_value :: "worker_role \<Rightarrow> string" where
  "worker_role_value PREDICTOR = ''predictor''"
| "worker_role_value BUILDER = ''builder''"
| "worker_role_value FALSIFIER = ''falsifier''"
| "worker_role_value CHALLENGER = ''challenger''"
| "worker_role_value SELECTOR = ''selector''"
| "worker_role_value REPAIRER = ''repairer''"
| "worker_role_value REVIEWER = ''reviewer''"

datatype visibility =
  CONTRACT_ONLY | ARTIFACT_WITHOUT_RATIONALE | ANONYMOUS_CANDIDATES | VERIFIED_FINDINGS_ONLY | FULL_SCOPED_CONTEXT

datatype mutation_policy = READ_ONLY | STAGING_ONLY | SINGLE_WRITER

datatype verdict = V_PENDING | V_PASSED | V_FAILED | V_NEEDS_EVIDENCE

datatype authority = HARNESS | TEST | BROWSER | USER | MODEL

datatype impact = USEFUL | NEUTRAL | HARMFUL

datatype arm = SINGLE_AGENT | COMPUTE_MATCHED | CURRENT | ADAPTIVE | PRODUCTION

datatype risk_tier = RISK_LOW | RISK_MEDIUM | RISK_HIGH | RISK_AMBIGUOUS

datatype review_role = SECURITY | CLEAN_CODE | TESTING | ARCHITECTURE | FIDELITY | REGRESSION

definition fixed_review_order :: "review_role list" where
  "fixed_review_order = [SECURITY, CLEAN_CODE, TESTING, ARCHITECTURE, FIDELITY, REGRESSION]"

definition read_only_roles :: "worker_role list" where
  "read_only_roles = [PREDICTOR, FALSIFIER, REVIEWER, SELECTOR]"

datatype worker_error =
    EmptyText string | LongText string | BadRatio string
  | PolicyVersion | PolicyMultiplier | PolicyMedium | PolicyHigh | PolicySamples
  | SignalVersion | SignalRisk | SignalCounters
  | MissionVersion | MissionCriteria | MissionCalls | MissionReadOnly | MissionStaging | MissionRepairer
  | ClaimVersion | ClaimUndecided | ClaimDependent
  | ImpactIds | ImpactCounters | ImpactDelta | ImpactUnearned
  | ExperimentIds | ExperimentCounters | ExperimentCausal
  | ReviewRevision | ReviewNoIssue | GateRevision | GateDuplicate

section \<open>Text\<close>

text \<open>\<open>s.split()\<close>.\<close>

function words :: "string \<Rightarrow> string list" where
  "words s =
     (let t = dropWhile is_py_space s in
      if t = [] then [] else takeWhile (\<lambda>c. \<not> is_py_space c) t # words (dropWhile (\<lambda>c. \<not> is_py_space c) t))"
  by pat_completeness auto
termination
proof (relation "measure length")
  fix s t :: string
  assume t: "t = dropWhile is_py_space s" "t \<noteq> []"
  then have "\<not> is_py_space (hd t)" by (metis hd_dropWhile)
  with t(2) have "dropWhile (\<lambda>c. \<not> is_py_space c) t = dropWhile (\<lambda>c. \<not> is_py_space c) (tl t)" by (cases t) auto
  also have "length \<dots> \<le> length (tl t)" by (rule length_dropWhile_le)
  also have "\<dots> < length t" using t(2) by simp
  also have "\<dots> \<le> length s" unfolding t(1) by (rule length_dropWhile_le)
  finally show "(dropWhile (\<lambda>c. \<not> is_py_space c) t, s) \<in> measure length" by simp
qed simp

declare words.simps [simp del]

definition squeeze :: "string \<Rightarrow> string" where
  "squeeze s = join_with '' '' (words s)"

definition bounded_text :: "string \<Rightarrow> nat \<Rightarrow> string \<Rightarrow> worker_error + string" where
  "bounded_text value maxi field =
     (let text = squeeze value in
      if text = [] then Inl (EmptyText field) else if maxi < length text then Inl (LongText field) else Inr text)"

definition bounded_ratio :: "rat \<Rightarrow> string \<Rightarrow> worker_error + rat" where
  "bounded_ratio v field = (if \<not> (0 \<le> v \<and> v \<le> 1) then Inl (BadRatio field) else Inr v)"

text \<open>\<open>tuple(dict.fromkeys(str(item).strip() for item in items if str(item).strip()))\<close>.\<close>

definition stripped :: "string list \<Rightarrow> string list" where
  "stripped xs = dict_fromkeys (map strip (filter (\<lambda>x. strip x \<noteq> []) xs))"

text \<open>A word is nonempty and has no white space.\<close>

definition is_word :: "string \<Rightarrow> bool" where
  "is_word w \<longleftrightarrow> w \<noteq> [] \<and> (\<forall>c \<in> set w. \<not> is_py_space c)"

lemma words_are_words: "w \<in> set (words s) \<Longrightarrow> is_word w"
proof (induction s rule: words.induct)
  case (1 s)
  define t where "t = dropWhile is_py_space s"
  show ?case
  proof (cases "t = []")
    case True
    with "1.prems" show ?thesis by (simp add: words.simps [of s] t_def)
  next
    case False
    then have hd: "\<not> is_py_space (hd t)" unfolding t_def by (metis hd_dropWhile)
    from "1.prems" False consider "w = takeWhile (\<lambda>c. \<not> is_py_space c) t" | "w \<in> set (words (dropWhile (\<lambda>c. \<not> is_py_space c) t))"
      by (auto simp: words.simps [of s] t_def [symmetric] Let_def)
    then show ?thesis
    proof cases
      case 1
      with False hd show ?thesis by (cases t) (auto simp: is_word_def dest: set_takeWhileD)
    next
      case 2
      with "1.IH" [OF t_def] False show ?thesis by blast
    qed
  qed
qed

lemma words_append_word:
  assumes "is_word w" "rest = [] \<or> is_py_space (hd rest)"
  shows "words (w @ rest) = w # words rest"
proof -
  have hd: "dropWhile is_py_space (w @ rest) = w @ rest"
    using assms(1) by (cases w) (auto simp: is_word_def)
  have take: "takeWhile (\<lambda>c. \<not> is_py_space c) (w @ rest) = w"
    using assms by (cases rest) (auto simp: is_word_def takeWhile_append)
  have drop: "dropWhile (\<lambda>c. \<not> is_py_space c) (w @ rest) = rest"
    using assms by (cases rest) (auto simp: is_word_def dropWhile_append)
  show ?thesis
    using assms(1) by (subst words.simps) (auto simp: hd take drop Let_def is_word_def)
qed

lemma words_space: "words (CHR '' '' # s) = words s"
proof -
  have "is_py_space CHR '' ''" by (simp add: is_py_space_def)
  then have "dropWhile is_py_space (CHR '' '' # s) = dropWhile is_py_space s" by simp
  then show ?thesis by (subst (1 2) words.simps) (simp only:)
qed

lemma words_join: "\<forall>w \<in> set ws. is_word w \<Longrightarrow> words (join_with '' '' ws) = ws"
proof (induction "'' ''" ws rule: join_with.induct)
  case 1
  show ?case by (simp add: words.simps)
next
  case (2 p)
  then show ?case using words_append_word [of p "[]"] by (simp add: words.simps [of "[]"])
next
  case (3 p q ps)
  have "words (p @ (CHR '' '' # join_with '' '' (q # ps))) = p # words (CHR '' '' # join_with '' '' (q # ps))"
    by (rule words_append_word) (use 3 in \<open>auto simp: is_py_space_def\<close>)
  with 3 show ?case by (simp add: words_space)
qed

lemma squeeze_idem [simp]: "squeeze (squeeze s) = squeeze s"
  unfolding squeeze_def by (subst words_join) (auto dest: words_are_words)

lemma bounded_text_idem: "bounded_text v n f = Inr t \<Longrightarrow> bounded_text t n f = Inr t"
  by (auto simp: bounded_text_def Let_def split: if_splits)

lemma stripped_idem [simp]: "stripped (stripped xs) = stripped xs"
proof -
  have "\<forall>x \<in> set (stripped xs). strip x = x \<and> x \<noteq> []" by (auto simp: stripped_def)
  then have "map strip (filter (\<lambda>x. strip x \<noteq> []) (stripped xs)) = stripped xs"
    by (metis (mono_tags, lifting) filter_True map_idI)
  then show ?thesis unfolding stripped_def [of "stripped xs"]
    by (simp add: dict_fromkeys_distinct) (simp add: stripped_def dict_fromkeys_distinct)
qed

definition approach_fingerprint :: "(json \<Rightarrow> string) \<Rightarrow> worker_role \<Rightarrow> string \<Rightarrow> string list \<Rightarrow> string list \<Rightarrow> string" where
  "approach_fingerprint digest role objective targets refs =
     digest (JObj
       [(''role'', JStr (worker_role_value role)),
        (''objective'', JStr (squeeze (casefold objective))),
        (''falsification_targets'', jstrs (sorted_set (map (\<lambda>t. squeeze (casefold t)) (filter (\<lambda>t. strip t \<noteq> []) targets)))),
        (''context_refs'', jstrs (sorted_set (map strip (filter (\<lambda>r. strip r \<noteq> []) refs))))])"

section \<open>Policy and risk\<close>

record policy =
  po_multiplier :: int
  po_medium_extra :: int
  po_high_extra :: int
  po_samples :: int
  po_suppress_below :: rat
  po_reprobe :: rat
  po_early_stop :: bool
  po_shadow :: bool
  po_version :: int

definition mk_policy :: "policy \<Rightarrow> worker_error + policy" where
  "mk_policy p =
     (if po_version p \<noteq> 1 then Inl PolicyVersion
      else if \<not> (1 \<le> po_multiplier p \<and> po_multiplier p \<le> 4) then Inl PolicyMultiplier
      else if \<not> (0 \<le> po_medium_extra p \<and> po_medium_extra p < po_multiplier p) then Inl PolicyMedium
      else if \<not> (0 \<le> po_high_extra p \<and> po_high_extra p < po_multiplier p) then Inl PolicyHigh
      else if po_samples p < 1 then Inl PolicySamples
      else and_then (bounded_ratio (po_suppress_below p) ''suppress_below_useful_rate'') (\<lambda>_.
           and_then (bounded_ratio (po_reprobe p) ''reprobe_fraction'') (\<lambda>_. Inr p)))"

definition default_policy :: policy where
  "default_policy = \<lparr>po_multiplier = 4, po_medium_extra = 1, po_high_extra = 3, po_samples = 20,
     po_suppress_below = 15 / 100, po_reprobe = 10 / 100, po_early_stop = True, po_shadow = True, po_version = 1\<rparr>"

record risk_signals =
  rs_declared :: string
  rs_changed_files :: int
  rs_interfaces :: bool
  rs_security :: bool
  rs_tests_changed :: bool
  rs_failed_approaches :: int
  rs_missing_evidence :: int
  rs_ambiguous :: bool
  rs_gate_available :: bool
  rs_subjective :: bool
  rs_version :: int

definition mk_signals :: "risk_signals \<Rightarrow> worker_error + risk_signals" where
  "mk_signals s =
     (if rs_version s \<noteq> 1 then Inl SignalVersion
      else if rs_declared s \<notin> {''low'', ''medium'', ''high'', ''critical''} then Inl SignalRisk
      else if min (rs_changed_files s) (min (rs_failed_approaches s) (rs_missing_evidence s)) < 0 then Inl SignalCounters
      else Inr s)"

definition tier :: "risk_signals \<Rightarrow> risk_tier" where
  "tier s =
     (if rs_ambiguous s then RISK_AMBIGUOUS
      else if rs_declared s \<in> {''high'', ''critical''} \<or> rs_security s \<or> rs_interfaces s \<or> 4 \<le> rs_changed_files s \<or>
        1 \<le> rs_failed_approaches s \<or> 2 \<le> rs_missing_evidence s \<or> rs_subjective s then RISK_HIGH
      else if rs_declared s = ''medium'' \<or> 2 \<le> rs_changed_files s \<or> rs_tests_changed s \<or> rs_missing_evidence s = 1 \<or>
        \<not> rs_gate_available s then RISK_MEDIUM
      else RISK_LOW)"

section \<open>Missions\<close>

record mission =
  ms_role :: worker_role
  ms_objective :: string
  ms_criteria :: "string list"
  ms_visibility :: visibility
  ms_policy :: mutation_policy
  ms_tools :: "string list"
  ms_targets :: "string list"
  ms_refs :: "string list"
  ms_calls :: int
  ms_seed :: "int option"
  ms_id :: string
  ms_version :: int

definition check_mission :: "mission \<Rightarrow> worker_error + mission" where
  "check_mission n =
     (if ms_version n \<noteq> 2 \<or> ms_id n = [] then Inl MissionVersion
      else if ms_criteria n = [] then Inl MissionCriteria
      else if \<not> (1 \<le> ms_calls n \<and> ms_calls n \<le> 4) then Inl MissionCalls
      else if ms_role n \<in> set read_only_roles \<and> ms_policy n \<noteq> READ_ONLY then Inl MissionReadOnly
      else if ms_role n = CHALLENGER \<and> ms_policy n \<noteq> STAGING_ONLY then Inl MissionStaging
      else if ms_role n = REPAIRER \<and> ms_visibility n \<noteq> VERIFIED_FINDINGS_ONLY then Inl MissionRepairer
      else Inr n)"

definition mk_mission :: "mission \<Rightarrow> worker_error + mission" where
  "mk_mission m =
     and_then (bounded_text (ms_objective m) 4000 ''mission objective'') (\<lambda>objective.
     check_mission (m\<lparr>ms_objective := objective, ms_criteria := stripped (ms_criteria m),
       ms_tools := stripped (ms_tools m), ms_targets := take 3 (stripped (ms_targets m)),
       ms_refs := stripped (ms_refs m)\<rparr>))"

text \<open>Normalising again changes nothing.\<close>

lemma stripped_take [simp]: "stripped (take n (stripped xs)) = take n (stripped xs)"
proof -
  have "\<forall>x \<in> set (stripped xs). strip x = x \<and> x \<noteq> []" by (auto simp: stripped_def)
  then have "\<forall>x \<in> set (take n (stripped xs)). strip x = x \<and> x \<noteq> []" by (blast dest: in_set_takeD)
  then have "map strip (filter (\<lambda>x. strip x \<noteq> []) (take n (stripped xs))) = take n (stripped xs)"
    by (metis (mono_tags, lifting) filter_True map_idI)
  then show ?thesis unfolding stripped_def [of "take n (stripped xs)"]
    by (simp add: dict_fromkeys_distinct) (simp add: stripped_def dict_fromkeys_distinct)
qed

lemma check_mission_same: "check_mission n = Inr k \<Longrightarrow> k = n"
  by (simp add: check_mission_def split: if_splits)

lemma mission_stable:
  assumes "mk_mission m = Inr n"
  shows "mk_mission n = Inr n"
proof -
  from assms obtain obj where obj: "bounded_text (ms_objective m) 4000 ''mission objective'' = Inr obj"
    and check: "check_mission (m\<lparr>ms_objective := obj, ms_criteria := stripped (ms_criteria m),
       ms_tools := stripped (ms_tools m), ms_targets := take 3 (stripped (ms_targets m)),
       ms_refs := stripped (ms_refs m)\<rparr>) = Inr n"
    unfolding mk_mission_def by (auto elim: and_then_InrE)
  note n = check_mission_same [OF check]
  have "check_mission n = Inr n" using check n by simp
  moreover have "bounded_text (ms_objective n) 4000 ''mission objective'' = Inr (ms_objective n)"
    using bounded_text_idem [OF obj] n by simp
  moreover have "n\<lparr>ms_objective := ms_objective n, ms_criteria := stripped (ms_criteria n),
       ms_tools := stripped (ms_tools n), ms_targets := take 3 (stripped (ms_targets n)),
       ms_refs := stripped (ms_refs n)\<rparr> = n"
    unfolding n by simp
  ultimately show ?thesis unfolding mk_mission_def by simp
qed

lemma mission_authority:
  assumes "mk_mission m = Inr n"
  shows "(ms_role n \<in> set read_only_roles \<longrightarrow> ms_policy n = READ_ONLY) \<and>
    (ms_role n = CHALLENGER \<longrightarrow> ms_policy n = STAGING_ONLY) \<and>
    (ms_policy n = SINGLE_WRITER \<longrightarrow> ms_role n \<in> {BUILDER, REPAIRER}) \<and>
    ms_criteria n \<noteq> [] \<and> length (ms_targets n) \<le> 3 \<and> 1 \<le> ms_calls n \<and> ms_calls n \<le> 4"
proof -
  from assms obtain k where check: "check_mission k = Inr n" and len: "length (ms_targets k) \<le> 3"
    unfolding mk_mission_def by (auto elim!: and_then_InrE)
  note n = check_mission_same [OF check]
  have "ms_criteria n \<noteq> []" "1 \<le> ms_calls n" "ms_calls n \<le> 4"
    "ms_role n \<in> set read_only_roles \<longrightarrow> ms_policy n = READ_ONLY" "ms_role n = CHALLENGER \<longrightarrow> ms_policy n = STAGING_ONLY"
    using check unfolding n [symmetric] check_mission_def by (auto split: if_splits)
  then show ?thesis using len n by (cases "ms_role n") (auto simp: read_only_roles_def)
qed

section \<open>Evidence claims\<close>

record claim =
  cl_criterion :: string
  cl_claim :: string
  cl_hash :: string
  cl_refs :: "string list"
  cl_check :: string
  cl_verdict :: verdict
  cl_authority :: authority
  cl_producer :: string
  cl_verifier :: string
  cl_id :: string
  cl_created_at :: int
  cl_version :: int

definition decisive :: "verdict \<Rightarrow> bool" where
  "decisive v \<longleftrightarrow> v = V_PASSED \<or> v = V_FAILED"

definition mk_claim :: "claim \<Rightarrow> worker_error + claim" where
  "mk_claim c =
     and_then (bounded_text (cl_criterion c) 200 ''criterion id'') (\<lambda>criterion.
     and_then (bounded_text (cl_claim c) 2000 ''evidence claim'') (\<lambda>text.
     and_then (bounded_text (cl_check c) 2000 ''falsification check'') (\<lambda>check.
     let d = c\<lparr>cl_criterion := criterion, cl_claim := text, cl_check := check, cl_refs := stripped (cl_refs c)\<rparr> in
     if cl_version d \<noteq> 1 \<or> cl_id d = [] then Inl ClaimVersion
     else if decisive (cl_verdict d) \<and> (cl_hash d = [] \<or> cl_refs d = [] \<or> cl_verifier d = []) then Inl ClaimUndecided
     else if cl_authority d = MODEL \<and> cl_verdict d = V_PASSED \<and>
       (cl_producer d = [] \<or> cl_producer d = cl_verifier d) then Inl ClaimDependent
     else Inr d)))"

definition authoritative :: "claim \<Rightarrow> bool" where
  "authoritative c =
     (if \<not> decisive (cl_verdict c) then False
      else if cl_authority c \<noteq> MODEL then cl_hash c \<noteq> [] \<and> cl_refs c \<noteq> [] \<and> cl_verifier c \<noteq> []
      else cl_producer c \<noteq> [] \<and> cl_verifier c \<noteq> [] \<and> cl_producer c \<noteq> cl_verifier c)"

definition hard_veto :: "claim \<Rightarrow> bool" where
  "hard_veto c \<longleftrightarrow> authoritative c \<and> cl_verdict c = V_FAILED \<and> cl_authority c \<noteq> MODEL"

text \<open>A constructed pass is authoritative; so is a failure, unless it is a model's own.\<close>

lemma constructed_authoritative:
  assumes "mk_claim c = Inr d" "decisive (cl_verdict d)"
  shows "authoritative d \<longleftrightarrow> \<not> (cl_authority d = MODEL \<and> cl_verdict d = V_FAILED \<and>
    (cl_producer d = [] \<or> cl_producer d = cl_verifier d))"
  using assms by (auto simp: mk_claim_def Let_def and_then_Inr authoritative_def decisive_def split: if_splits)

definition evidence_decision :: "claim list \<Rightarrow> verdict" where
  "evidence_decision items =
     (if list_ex hard_veto items then V_FAILED
      else let auth = filter authoritative items in
        if auth = [] then V_NEEDS_EVIDENCE
        else let criteria = set (map cl_criterion items);
                 passed = set (map cl_criterion (filter (\<lambda>c. cl_verdict c = V_PASSED) auth));
                 failed = map cl_criterion (filter (\<lambda>c. cl_verdict c = V_FAILED) auth)
             in if failed \<noteq> [] then V_FAILED
                else if criteria \<noteq> {} \<and> criteria \<subseteq> passed then V_PASSED else V_NEEDS_EVIDENCE)"

text \<open>No majority: one authoritative failure decides, and a pass covers every criterion.\<close>

lemma decision_failed_iff:
  "evidence_decision items = V_FAILED \<longleftrightarrow> (\<exists>c \<in> set items. authoritative c \<and> cl_verdict c = V_FAILED)"
proof -
  have "hard_veto c \<Longrightarrow> authoritative c \<and> cl_verdict c = V_FAILED" for c by (simp add: hard_veto_def)
  then show ?thesis
    by (auto simp: evidence_decision_def Let_def list_ex_iff filter_empty_conv)
qed

lemma decision_passed_iff:
  "evidence_decision items = V_PASSED \<longleftrightarrow>
     items \<noteq> [] \<and> (\<forall>c \<in> set items. authoritative c \<longrightarrow> cl_verdict c = V_PASSED) \<and>
     (\<forall>c \<in> set items. \<exists>d \<in> set items. authoritative d \<and> cl_criterion c = cl_criterion d)"
proof -
  have dec: "authoritative c \<Longrightarrow> cl_verdict c \<noteq> V_FAILED \<Longrightarrow> cl_verdict c = V_PASSED" for c
    by (auto simp: authoritative_def decisive_def split: if_splits)
  have no_fail: "evidence_decision items \<noteq> V_FAILED \<longleftrightarrow> (\<forall>c \<in> set items. authoritative c \<longrightarrow> cl_verdict c = V_PASSED)"
    unfolding decision_failed_iff using dec by auto
  show ?thesis
  proof (cases "evidence_decision items = V_FAILED")
    case True
    then show ?thesis using no_fail by auto
  next
    case False
    then have p: "\<forall>c \<in> set items. authoritative c \<longrightarrow> cl_verdict c = V_PASSED" using no_fail by blast
    have f: "filter (\<lambda>c. cl_verdict c = V_PASSED) (filter authoritative items) = filter authoritative items"
      by (rule filter_True) (use p in simp)
    have g: "filter (\<lambda>c. cl_verdict c = V_FAILED) (filter authoritative items) = []"
      by (rule filter_False) (use p in simp)
    have h: "\<not> list_ex hard_veto items" using p by (auto simp: list_ex_iff hard_veto_def)
    have "evidence_decision items = V_PASSED \<longleftrightarrow> filter authoritative items \<noteq> [] \<and> items \<noteq> [] \<and>
        cl_criterion ` set items \<subseteq> cl_criterion ` set (filter authoritative items)"
      unfolding evidence_decision_def Let_def f g using h by (simp split: if_splits)
    also have "\<dots> \<longleftrightarrow> items \<noteq> [] \<and> (\<forall>c \<in> set items. \<exists>d \<in> set items. authoritative d \<and> cl_criterion c = cl_criterion d)"
      by (cases items) (auto simp: image_subset_iff image_iff filter_empty_conv)
    finally show ?thesis using p by blast
  qed
qed

section \<open>Impact and experiments\<close>

record worker_impact =
  wi_experiment_id :: string
  wi_worker_id :: string
  wi_role :: worker_role
  wi_task_class :: string
  wi_model :: string
  wi_outcome :: impact
  wi_approach :: string
  wi_novelty :: rat
  wi_verified :: int
  wi_false :: int
  wi_fixes :: int
  wi_score_delta :: rat
  wi_input_tokens :: int
  wi_output_tokens :: int
  wi_latency :: int
  wi_claims :: "claim list"
  wi_evidence :: "string list"
  wi_reason :: string
  wi_delegation_id :: "string option"
  wi_agent_run_id :: "string option"
  wi_id :: string
  wi_created_at :: int
  wi_version :: int

definition check_impact :: "worker_impact \<Rightarrow> worker_error + worker_impact" where
  "check_impact w =
     (if wi_version w \<noteq> 1 \<or> wi_id w = [] \<or> wi_experiment_id w = [] \<or> wi_worker_id w = [] then Inl ImpactIds
      else and_then (bounded_ratio (wi_novelty w) ''evidence novelty'') (\<lambda>_.
        if Min {wi_verified w, wi_false w, wi_fixes w, wi_input_tokens w, wi_output_tokens w, wi_latency w} < 0
        then Inl ImpactCounters
        else if \<not> (- 1 \<le> wi_score_delta w \<and> wi_score_delta w \<le> 1) then Inl ImpactDelta
        else if wi_outcome w = USEFUL \<and>
          \<not> (wi_verified w \<noteq> 0 \<or> wi_fixes w \<noteq> 0 \<or> 0 < wi_novelty w \<or> 0 < wi_score_delta w)
        then Inl ImpactUnearned
        else Inr w))"

definition mk_impact :: "worker_impact \<Rightarrow> worker_error + worker_impact" where
  "mk_impact w = check_impact (w\<lparr>wi_evidence := stripped (wi_evidence w)\<rparr>)"

definition classify_worker_impact :: "int \<Rightarrow> int \<Rightarrow> int \<Rightarrow> rat \<Rightarrow> rat \<Rightarrow> impact" where
  "classify_worker_impact verified false_findings fixes novelty delta =
     (if verified < false_findings \<and> delta \<le> 0 then HARMFUL
      else if 0 < verified \<or> 0 < fixes \<or> 0 < novelty \<or> 0 < delta then USEFUL
      else NEUTRAL)"

text \<open>
  An outcome the classifier gives is one the record accepts: a worker classified as useful has
  earned it.
\<close>

lemma classified_impact_accepted:
  assumes w: "wi_outcome w = classify_worker_impact (wi_verified w) (wi_false w) (wi_fixes w) (wi_novelty w) (wi_score_delta w)"
    and ids: "wi_version w = 1" "wi_id w \<noteq> []" "wi_experiment_id w \<noteq> []" "wi_worker_id w \<noteq> []"
    and nums: "0 \<le> wi_novelty w" "wi_novelty w \<le> 1" "- 1 \<le> wi_score_delta w" "wi_score_delta w \<le> 1"
    "0 \<le> wi_verified w" "0 \<le> wi_false w" "0 \<le> wi_fixes w" "0 \<le> wi_input_tokens w" "0 \<le> wi_output_tokens w" "0 \<le> wi_latency w"
  shows "check_impact w = Inr w"
proof -
  have earned: "\<not> (wi_outcome w = USEFUL \<and> \<not> (wi_verified w \<noteq> 0 \<or> wi_fixes w \<noteq> 0 \<or> 0 < wi_novelty w \<or> 0 < wi_score_delta w))"
    unfolding w classify_worker_impact_def by (auto split: if_splits)
  have counters: "\<not> Min {wi_verified w, wi_false w, wi_fixes w, wi_input_tokens w, wi_output_tokens w, wi_latency w} < 0"
    using nums by (simp add: Min_insert)
  have ratio: "bounded_ratio (wi_novelty w) ''evidence novelty'' = Inr (wi_novelty w)"
    using nums by (simp add: bounded_ratio_def)
  show ?thesis
    unfolding check_impact_def ratio using earned counters ids nums(3,4) by (simp only: and_then_simps) simp
qed

definition evidence_novelty :: "(nat \<Rightarrow> nat \<Rightarrow> rat) \<Rightarrow> string list \<Rightarrow> string list \<Rightarrow> rat" where
  "evidence_novelty ratio existing candidate =
     (let e = set (stripped existing); c = set (stripped candidate) in
      if c = {} then 0 else ratio (card (c - e)) (card c))"

record orch_experiment =
  ox_goal_id :: string
  ox_unit_id :: string
  ox_arm :: arm
  ox_model :: string
  ox_policy :: string
  ox_task_class :: string
  ox_baseline :: rat
  ox_candidate :: rat
  ox_success :: bool
  ox_false_completion :: bool
  ox_calls :: int
  ox_input_tokens :: int
  ox_output_tokens :: int
  ox_latency :: int
  ox_gpu :: int
  ox_causal :: bool
  ox_matched :: bool
  ox_metrics :: json_obj
  ox_evidence :: "string list"
  ox_ultra_run_id :: "string option"
  ox_id :: string
  ox_created_at :: int
  ox_version :: int

definition mk_orch_experiment :: "orch_experiment \<Rightarrow> worker_error + orch_experiment" where
  "mk_orch_experiment x0 =
     (let x = x0\<lparr>ox_evidence := stripped (ox_evidence x0)\<rparr> in
      if ox_version x \<noteq> 1 \<or> ox_goal_id x = [] \<or> ox_unit_id x = [] \<or> ox_model x = [] then Inl ExperimentIds
      else and_then (bounded_ratio (ox_baseline x) ''baseline score'') (\<lambda>_.
           and_then (bounded_ratio (ox_candidate x) ''candidate score'') (\<lambda>_.
        if Min {ox_calls x, ox_input_tokens x, ox_output_tokens x, ox_latency x, ox_gpu x} < 0 then Inl ExperimentCounters
        else if ox_causal x \<and> \<not> ox_matched x then Inl ExperimentCausal
        else Inr x)))"

section \<open>Specialist reviews\<close>

record review =
  rv_role :: review_role
  rv_hash :: string
  rv_sequence :: int
  rv_passed :: "bool option"
  rv_summary :: string
  rv_issues :: "json_obj list"
  rv_refs :: "string list"
  rv_reviewer :: string
  rv_version :: int

text \<open>The issues are given as values; those that are not mappings are dropped.\<close>

definition mk_review :: "review \<Rightarrow> json list \<Rightarrow> worker_error + review" where
  "mk_review r0 issues =
     and_then (bounded_text (rv_summary r0) 4000 ''specialist review summary'') (\<lambda>summary.
     let r = r0\<lparr>rv_summary := summary, rv_issues := mappings issues, rv_refs := stripped (rv_refs r0)\<rparr> in
     if rv_version r \<noteq> 1 \<or> rv_hash r = [] \<or> rv_sequence r < 0 then Inl ReviewRevision
     else if rv_passed r = Some False \<and> rv_issues r = [] then Inl ReviewNoIssue
     else Inr r)"

record review_gate =
  rg_hash :: string
  rg_sequence :: int
  rg_reviews :: "review list"
  rg_version :: int

definition mk_review_gate :: "review_gate \<Rightarrow> worker_error + review_gate" where
  "mk_review_gate g =
     (let roles = map rv_role (rg_reviews g) in
      if rg_version g \<noteq> 1 \<or> rg_hash g = [] \<or> rg_sequence g < 0 then Inl GateRevision
      else if length roles \<noteq> length (remdups roles) then Inl GateDuplicate
      else Inr g)"

definition missing_roles :: "review_gate \<Rightarrow> review_role list" where
  "missing_roles g = filter (\<lambda>r. r \<notin> set (map rv_role (rg_reviews g))) fixed_review_order"

definition stale_roles :: "review_gate \<Rightarrow> review_role list" where
  "stale_roles g = map rv_role (filter (\<lambda>r. rv_hash r \<noteq> rg_hash g \<or> rv_sequence r \<noteq> rg_sequence g) (rg_reviews g))"

definition failed_roles :: "review_gate \<Rightarrow> review_role list" where
  "failed_roles g = map rv_role (filter (\<lambda>r. rv_passed r = Some False) (rg_reviews g))"

definition gate_verdict :: "review_gate \<Rightarrow> verdict" where
  "gate_verdict g =
     (if missing_roles g \<noteq> [] \<or> stale_roles g \<noteq> [] \<or> list_ex (\<lambda>r. rv_passed r = None) (rg_reviews g)
      then V_NEEDS_EVIDENCE
      else if failed_roles g \<noteq> [] then V_FAILED
      else V_PASSED)"

lemma gate_passed_iff:
  assumes "mk_review_gate g = Inr g"
  shows "gate_verdict g = V_PASSED \<longleftrightarrow>
    length (rg_reviews g) = 6 \<and>
    (\<forall>role. \<exists>r \<in> set (rg_reviews g). rv_role r = role) \<and>
    (\<forall>r \<in> set (rg_reviews g). rv_passed r = Some True \<and> rv_hash r = rg_hash g \<and> rv_sequence r = rg_sequence g)"
proof -
  have all: "role \<in> set fixed_review_order" for role by (cases role) (simp_all add: fixed_review_order_def)
  then have univ: "(UNIV :: review_role set) = set fixed_review_order" by blast
  have dist: "distinct (map rv_role (rg_reviews g))"
  proof -
    have "length (map rv_role (rg_reviews g)) = length (remdups (map rv_role (rg_reviews g)))"
      using assms by (simp add: mk_review_gate_def Let_def split: if_splits)
    then show ?thesis by (metis length_remdups_eq remdups_id_iff_distinct)
  qed
  have miss: "missing_roles g = [] \<longleftrightarrow> (\<forall>role. \<exists>r \<in> set (rg_reviews g). rv_role r = role)"
  proof -
    have "missing_roles g = [] \<longleftrightarrow> (\<forall>role. role \<in> rv_role ` set (rg_reviews g))"
      unfolding missing_roles_def filter_empty_conv set_map using all by blast
    also have "\<dots> \<longleftrightarrow> (\<forall>role. \<exists>r \<in> set (rg_reviews g). rv_role r = role)" by (metis imageE image_eqI)
    finally show ?thesis .
  qed
  have len: "\<forall>role. \<exists>r \<in> set (rg_reviews g). rv_role r = role \<Longrightarrow> length (rg_reviews g) = 6"
  proof -
    assume "\<forall>role. \<exists>r \<in> set (rg_reviews g). rv_role r = role"
    then have "rv_role ` set (rg_reviews g) = UNIV" by (metis UNIV_eq_I image_eqI)
    then have "set (map rv_role (rg_reviews g)) = UNIV" by simp
    then have "length (map rv_role (rg_reviews g)) = card (set fixed_review_order)"
      using dist univ by (metis distinct_card)
    then show ?thesis by (simp add: fixed_review_order_def)
  qed
  have stale: "stale_roles g = [] \<longleftrightarrow> (\<forall>r \<in> set (rg_reviews g). rv_hash r = rg_hash g \<and> rv_sequence r = rg_sequence g)"
    by (simp add: stale_roles_def filter_empty_conv)
  have failed: "failed_roles g = [] \<longleftrightarrow> (\<forall>r \<in> set (rg_reviews g). rv_passed r \<noteq> Some False)"
    by (simp add: failed_roles_def filter_empty_conv)
  have true: "rv_passed r = Some True \<longleftrightarrow> rv_passed r \<noteq> None \<and> rv_passed r \<noteq> Some False" for r
    by (cases "rv_passed r") auto
  have "gate_verdict g = V_PASSED \<longleftrightarrow>
      missing_roles g = [] \<and> stale_roles g = [] \<and> \<not> list_ex (\<lambda>r. rv_passed r = None) (rg_reviews g) \<and> failed_roles g = []"
    by (simp add: gate_verdict_def)
  also have "\<dots> \<longleftrightarrow> missing_roles g = [] \<and>
      (\<forall>r \<in> set (rg_reviews g). rv_passed r = Some True \<and> rv_hash r = rg_hash g \<and> rv_sequence r = rg_sequence g)"
    unfolding stale failed true list_ex_iff by auto
  finally show ?thesis unfolding miss using len by auto
qed

section \<open>Routing\<close>

record route =
  ro_tier :: risk_tier
  ro_roles :: "worker_role list"
  ro_calls :: int
  ro_reason :: string
  ro_early_stop :: bool
  ro_version :: int

definition tier_roles :: "risk_tier \<Rightarrow> worker_role list" where
  "tier_roles t = (case t of RISK_LOW \<Rightarrow> [] | RISK_MEDIUM \<Rightarrow> [FALSIFIER]
     | RISK_AMBIGUOUS \<Rightarrow> [CHALLENGER, SELECTOR, REPAIRER] | RISK_HIGH \<Rightarrow> [PREDICTOR, FALSIFIER, REPAIRER])"

definition tier_reason :: "risk_tier \<Rightarrow> string" where
  "tier_reason t = (case t of
       RISK_LOW \<Rightarrow> ''deterministic verification is sufficient for the observed low-risk change''
     | RISK_MEDIUM \<Rightarrow> ''one blind falsifier targets the observed evidence or verification gap''
     | RISK_AMBIGUOUS \<Rightarrow> ''independent staged candidates and anonymous evidence selection address design ambiguity''
     | RISK_HIGH \<Rightarrow> ''pre-mortem, falsification, and verified-finding repair cover the observed high-risk signals'')"

definition route_workers :: "policy \<Rightarrow> risk_signals \<Rightarrow> worker_role list \<Rightarrow> route" where
  "route_workers p s suppressed =
     (let t = tier s;
          roles = filter (\<lambda>r. r \<notin> set suppressed) (tier_roles t);
          extra = (if t = RISK_LOW then 0 else if t = RISK_MEDIUM then po_medium_extra p else po_high_extra p);
          calls = min (po_multiplier p) (min (1 + extra) (1 + int (length roles)))
      in \<lparr>ro_tier = t, ro_roles = take (nat (max 0 (calls - 1))) roles, ro_calls = calls, ro_reason = tier_reason t,
          ro_early_stop = po_early_stop p, ro_version = 1\<rparr>)"

text \<open>Every role of a route fits the budget: one call for the builder, one for each role.\<close>

lemma route_bounds:
  assumes "mk_policy p = Inr p"
  shows "1 \<le> ro_calls (route_workers p s supp) \<and> ro_calls (route_workers p s supp) \<le> po_multiplier p \<and>
    ro_calls (route_workers p s supp) \<le> 4 \<and>
    int (length (ro_roles (route_workers p s supp))) = ro_calls (route_workers p s supp) - 1 \<and>
    set (ro_roles (route_workers p s supp)) \<inter> set supp = {} \<and> BUILDER \<notin> set (ro_roles (route_workers p s supp)) \<and>
    (tier s = RISK_LOW \<longrightarrow> ro_roles (route_workers p s supp) = [])"
proof -
  have p: "1 \<le> po_multiplier p" "po_multiplier p \<le> 4" "0 \<le> po_medium_extra p" "po_medium_extra p < po_multiplier p"
    "0 \<le> po_high_extra p" "po_high_extra p < po_multiplier p"
    using assms by (auto simp: mk_policy_def split: if_splits)
  have nb: "BUILDER \<notin> set (tier_roles t)" for t by (cases t) (simp_all add: tier_roles_def)
  define roles where "roles = filter (\<lambda>r. r \<notin> set supp) (tier_roles (tier s))"
  define extra where "extra = (if tier s = RISK_LOW then 0 else if tier s = RISK_MEDIUM then po_medium_extra p else po_high_extra p)"
  define calls where "calls = min (po_multiplier p) (min (1 + extra) (1 + int (length roles)))"
  have r: "ro_calls (route_workers p s supp) = calls" "ro_roles (route_workers p s supp) = take (nat (max 0 (calls - 1))) roles"
    unfolding route_workers_def Let_def roles_def extra_def calls_def by (simp_all only: route.simps)
  have e: "0 \<le> extra" using p by (auto simp: extra_def)
  then have c: "1 \<le> calls" "calls \<le> po_multiplier p" "calls - 1 \<le> int (length roles)" using p by (auto simp: calls_def)
  let ?rs = "take (nat (max 0 (calls - 1))) roles"
  have sub: "set ?rs \<subseteq> set roles" by (rule set_take_subset)
  have roles: "set roles \<inter> set supp = {}" "BUILDER \<notin> set roles" "tier s = RISK_LOW \<Longrightarrow> roles = []"
    using nb by (auto simp: roles_def tier_roles_def)
  have len: "int (length ?rs) = calls - 1" using c by simp
  show ?thesis unfolding r
  proof (intro conjI impI)
    show "set ?rs \<inter> set supp = {}" "BUILDER \<notin> set ?rs" using sub roles(1,2) by blast+
    show "?rs = []" if "tier s = RISK_LOW" using roles(3) [OF that] by simp
  qed (use c p len in linarith)+
qed

text \<open>More signals never lower the tier.\<close>

definition tier_rank :: "risk_tier \<Rightarrow> nat" where
  "tier_rank t = (case t of RISK_LOW \<Rightarrow> 0 | RISK_MEDIUM \<Rightarrow> 1 | RISK_HIGH \<Rightarrow> 2 | RISK_AMBIGUOUS \<Rightarrow> 3)"

definition declared_rank :: "string \<Rightarrow> nat" where
  "declared_rank d = (if d = ''low'' then 0 else if d = ''medium'' then 1 else 2)"

definition more_signals :: "risk_signals \<Rightarrow> risk_signals \<Rightarrow> bool" where
  "more_signals a b \<longleftrightarrow> declared_rank (rs_declared a) \<le> declared_rank (rs_declared b) \<and>
     rs_changed_files a \<le> rs_changed_files b \<and> (rs_interfaces a \<longrightarrow> rs_interfaces b) \<and>
     (rs_security a \<longrightarrow> rs_security b) \<and> (rs_tests_changed a \<longrightarrow> rs_tests_changed b) \<and>
     rs_failed_approaches a \<le> rs_failed_approaches b \<and> rs_missing_evidence a \<le> rs_missing_evidence b \<and>
     (rs_ambiguous a \<longrightarrow> rs_ambiguous b) \<and> (rs_gate_available b \<longrightarrow> rs_gate_available a) \<and>
     (rs_subjective a \<longrightarrow> rs_subjective b)"

lemma tier_mono:
  assumes "mk_signals a = Inr a" "mk_signals b = Inr b" "more_signals a b"
  shows "tier_rank (tier a) \<le> tier_rank (tier b)"
proof -
  have d: "rs_declared a \<in> {''low'', ''medium'', ''high'', ''critical''}" "rs_declared b \<in> {''low'', ''medium'', ''high'', ''critical''}"
    using assms(1,2) by (auto simp: mk_signals_def split: if_splits)
  have rank: "2 \<le> declared_rank (rs_declared x) \<longleftrightarrow> rs_declared x \<in> {''high'', ''critical''}"
    "1 \<le> declared_rank (rs_declared x) \<longleftrightarrow> rs_declared x \<in> {''medium'', ''high'', ''critical''}"
    if "rs_declared x \<in> {''low'', ''medium'', ''high'', ''critical''}" for x :: risk_signals
    using that by (auto simp: declared_rank_def)
  have le: "declared_rank (rs_declared a) \<le> declared_rank (rs_declared b)" using assms(3) by (simp add: more_signals_def)
  define hi where "hi x \<longleftrightarrow> rs_declared x \<in> {''high'', ''critical''}" for x :: risk_signals
  define me where "me x \<longleftrightarrow> rs_declared x = ''medium''" for x :: risk_signals
  have rank': "2 \<le> declared_rank (rs_declared x) \<longleftrightarrow> hi x" "1 \<le> declared_rank (rs_declared x) \<longleftrightarrow> me x \<or> hi x"
    if "rs_declared x \<in> {''low'', ''medium'', ''high'', ''critical''}" for x :: risk_signals
    using rank [OF that] unfolding hi_def me_def by auto
  have high: "hi a \<Longrightarrow> hi b" using rank'(1) [OF d(1)] rank'(1) [OF d(2)] le by linarith
  have med: "me a \<Longrightarrow> me b \<or> hi b" using rank'(2) [OF d(1)] rank'(2) [OF d(2)] le by linarith
  define H where "H x \<longleftrightarrow> hi x \<or> rs_security x \<or> rs_interfaces x \<or>
    4 \<le> rs_changed_files x \<or> 1 \<le> rs_failed_approaches x \<or> 2 \<le> rs_missing_evidence x \<or> rs_subjective x" for x :: risk_signals
  define M where "M x \<longleftrightarrow> me x \<or> 2 \<le> rs_changed_files x \<or> rs_tests_changed x \<or>
    rs_missing_evidence x = 1 \<or> \<not> rs_gate_available x" for x :: risk_signals
  have rank_tier: "tier_rank (tier x) = (if rs_ambiguous x then 3 else if H x then 2 else if M x then 1 else 0)" for x
    by (simp add: tier_def tier_rank_def H_def M_def hi_def me_def)
  have ms: "rs_interfaces a \<longrightarrow> rs_interfaces b" "rs_security a \<longrightarrow> rs_security b" "rs_tests_changed a \<longrightarrow> rs_tests_changed b"
    "rs_subjective a \<longrightarrow> rs_subjective b" "rs_gate_available b \<longrightarrow> rs_gate_available a"
    "rs_changed_files a \<le> rs_changed_files b" "rs_failed_approaches a \<le> rs_failed_approaches b"
    "rs_missing_evidence a \<le> rs_missing_evidence b"
    using assms(3) by (simp_all add: more_signals_def)
  then have num: "4 \<le> rs_changed_files a \<Longrightarrow> 4 \<le> rs_changed_files b" "2 \<le> rs_changed_files a \<Longrightarrow> 2 \<le> rs_changed_files b"
    "1 \<le> rs_failed_approaches a \<Longrightarrow> 1 \<le> rs_failed_approaches b" "2 \<le> rs_missing_evidence a \<Longrightarrow> 2 \<le> rs_missing_evidence b"
    "rs_missing_evidence a = 1 \<Longrightarrow> rs_missing_evidence b = 1 \<or> 2 \<le> rs_missing_evidence b"
    by linarith+
  have "H a \<Longrightarrow> H b" unfolding H_def using high ms(1-5) num by blast
  moreover have "M a \<Longrightarrow> M b \<or> H b" unfolding M_def H_def using med ms(1-5) num by blast
  moreover have "rs_ambiguous a \<Longrightarrow> rs_ambiguous b" using assms(3) by (simp add: more_signals_def)
  ultimately show ?thesis unfolding rank_tier by auto
qed

end
