(* ===== verification/Ultra_Contracts.thy ===== *)
theory Ultra_Contracts
  imports Wave_Scheduler Conversions
begin

text \<open>
  \<open>agent/ultra_models.py\<close>, the scope contracts of ULTRA work: path normalisation, task
  contracts with their dictionaries, and the check that a dynamically created child stays within
  the contract that was approved.
\<close>

section \<open>Text\<close>

datatype contract_error =
    EmptyField string | FieldLimit string | WrongVersion string
  | NotRelative string | EscapesWorkspace string | NotConvertible string
  | BadSeverity | RunFields | RunConcurrency | NodeIds | NodeCounters | AgentFields

definition durable_text :: "string \<Rightarrow> string \<Rightarrow> nat \<Rightarrow> contract_error + string" where
  "durable_text value name maxi =
     (let result = strip value in
      if result = [] then Inl (EmptyField name)
      else if CHR 0x00 \<in> set result \<or> maxi < length result then Inl (FieldLimit name)
      else Inr result)"

definition string_tuple :: "string list \<Rightarrow> string list" where
  "string_tuple xs = map strip (filter (\<lambda>x. strip x \<noteq> []) xs)"

lemma durable_text_idem: "durable_text v n k = Inr t \<Longrightarrow> durable_text t n k = Inr t"
  by (auto simp: durable_text_def Let_def split: if_splits)

lemma string_tuple_idem [simp]: "string_tuple (string_tuple xs) = string_tuple xs"
  by (simp add: string_tuple_def filter_map comp_def)

section \<open>Contract paths\<close>

text \<open>\<open>str.isalpha\<close> of a character below 256.\<close>

definition py_alpha :: "char \<Rightarrow> bool" where
  "py_alpha c = (let n = (of_char c :: nat) in
     (65 \<le> n \<and> n \<le> 90) \<or> (97 \<le> n \<and> n \<le> 122) \<or> n = 170 \<or> n = 181 \<or> n = 186 \<or>
     (192 \<le> n \<and> n \<le> 214) \<or> (216 \<le> n \<and> n \<le> 246) \<or> 248 \<le> n)"

definition drive_prefix :: "string \<Rightarrow> bool" where
  "drive_prefix s = (case s of a # b # _ \<Rightarrow> py_alpha a \<and> b = CHR '':'' | _ \<Rightarrow> False)"

definition workspace_root :: string where
  "workspace_root = ''workspace/''"

definition path_parts :: "string \<Rightarrow> string list" where
  "path_parts s = filter (\<lambda>p. p \<noteq> [] \<and> p \<noteq> ''.'') (split_on CHR ''/'' s)"

definition normalize_path :: "string \<Rightarrow> contract_error + string" where
  "normalize_path value =
     (let text0 = forward_slashes (strip value);
          text = (if starts_with workspace_root (casefold text0) then drop (length workspace_root) text0 else text0)
      in if text = [] \<or> text = ''.'' then Inr ''.''
         else if starts_with ''/'' text \<or> drive_prefix text then Inl (NotRelative value)
         else let parts = path_parts text in
           if ''..'' \<in> set parts then Inl (EscapesWorkspace value)
           else let normalized = rstrip_slash (join_with ''/'' parts) in
             Inr (if normalized = [] then ''.'' else normalized))"

definition no_slash :: "string \<Rightarrow> bool" where
  "no_slash p \<longleftrightarrow> CHR ''/'' \<notin> set p"

lemma split_on_no_slash: "p \<in> set (split_on CHR ''/'' s) \<Longrightarrow> no_slash p"
proof (induction s arbitrary: p)
  case (Cons x xs)
  then show ?case by (cases "split_on CHR ''/'' xs") (auto simp: no_slash_def split: if_splits)
qed (simp add: no_slash_def)

lemma split_on_append: "no_slash p \<Longrightarrow> split_on CHR ''/'' (p @ CHR ''/'' # s) = p # split_on CHR ''/'' s"
  by (simp add: no_slash_def split_on_free)

lemma split_on_single: "no_slash p \<Longrightarrow> split_on CHR ''/'' p = [p]"
  by (simp add: no_slash_def split_on_one)

lemma split_on_join: "ps \<noteq> [] \<Longrightarrow> \<forall>p \<in> set ps. no_slash p \<Longrightarrow> split_on CHR ''/'' (join_with ''/'' ps) = ps"
  by (induction "''/''" ps rule: join_with.induct) (auto simp: split_on_append split_on_single)

lemma path_parts_good: "p \<in> set (path_parts s) \<Longrightarrow> no_slash p \<and> p \<noteq> [] \<and> p \<noteq> ''.''"
  unfolding path_parts_def by (auto dest: split_on_no_slash)

lemma rstrip_slash_id: "s = [] \<or> last s \<noteq> CHR ''/'' \<Longrightarrow> rstrip_slash s = s"
  by (cases s rule: rev_cases) (auto simp: rstrip_slash_def)

lemma last_join: "ps \<noteq> [] \<Longrightarrow> last ps \<noteq> [] \<Longrightarrow> last (join_with ''/'' ps) = last (last ps)"
proof (induction "''/''" ps rule: join_with.induct)
  case (3 p q ps)
  then have "join_with ''/'' (q # ps) \<noteq> []" by (cases ps) auto
  with 3 show ?case by simp
qed simp_all

lemma join_parts_last:
  assumes "ps \<noteq> []" "\<forall>p \<in> set ps. no_slash p \<and> p \<noteq> []"
  shows "last (join_with ''/'' ps) \<noteq> CHR ''/''" and "join_with ''/'' ps \<noteq> []"
proof -
  have "last ps \<in> set ps" using assms(1) by simp
  then have l: "last ps \<noteq> []" "no_slash (last ps)" using assms(2) by blast+
  then show "last (join_with ''/'' ps) \<noteq> CHR ''/''"
    unfolding last_join [OF assms(1) l(1)] no_slash_def by (metis last_in_set)
  show "join_with ''/'' ps \<noteq> []" using assms by (cases ps; cases "tl ps") auto
qed

text \<open>A normalised path names the workspace or walks down from it: no empty, \<open>.\<close> or \<open>..\<close> step.\<close>

lemma normalize_path_inside:
  assumes "normalize_path v = Inr p"
  shows "p = ''.'' \<or> (\<forall>q \<in> set (split_on CHR ''/'' p). q \<noteq> [] \<and> q \<noteq> ''.'' \<and> q \<noteq> ''..'')"
proof -
  define tx where "tx = (if starts_with workspace_root (casefold (forward_slashes (strip v)))
      then drop (length workspace_root) (forward_slashes (strip v)) else forward_slashes (strip v))"
  have p: "p = ''.'' \<or> (''..'' \<notin> set (path_parts tx) \<and>
      p = (if rstrip_slash (join_with ''/'' (path_parts tx)) = [] then ''.''
           else rstrip_slash (join_with ''/'' (path_parts tx))))"
    using assms unfolding normalize_path_def Let_def tx_def [symmetric] by (simp split: if_splits)
  show ?thesis
  proof (cases "path_parts tx = []")
    case True
    with p show ?thesis by (auto simp: rstrip_slash_def)
  next
    case False
    have good: "\<forall>q \<in> set (path_parts tx). no_slash q \<and> q \<noteq> []" using path_parts_good by blast
    have "rstrip_slash (join_with ''/'' (path_parts tx)) = join_with ''/'' (path_parts tx)"
      by (rule rstrip_slash_id) (use join_parts_last [OF False good] in blast)
    with p join_parts_last(2) [OF False good]
    consider "p = ''.''" | "''..'' \<notin> set (path_parts tx)" "p = join_with ''/'' (path_parts tx)" by auto
    then show ?thesis
    proof cases
      case 2
      have "split_on CHR ''/'' p = path_parts tx" unfolding 2(2) by (rule split_on_join [OF False]) (use good in blast)
      then show ?thesis using 2(1) path_parts_good [of _ tx] by auto
    qed simp
  qed
qed

section \<open>Task contracts\<close>

record task_contract =
  tc_objective :: string
  tc_criteria :: "string list"
  tc_write :: "string list"
  tc_read :: "string list"
  tc_forbidden :: "string list"
  tc_interfaces :: json_obj
  tc_dependencies :: "string list"
  tc_metadata :: json_obj
  tc_version :: int

definition normalize_paths :: "string list \<Rightarrow> contract_error + string list" where
  "normalize_paths ps = and_then (map_result normalize_path ps) (\<lambda>qs. Inr (dict_fromkeys qs))"

definition mk_task_contract :: "task_contract \<Rightarrow> contract_error + task_contract" where
  "mk_task_contract c =
     and_then (durable_text (tc_objective c) ''task objective'' 8000) (\<lambda>objective.
     and_then (normalize_paths (tc_write c)) (\<lambda>writes.
     and_then (normalize_paths (tc_read c)) (\<lambda>reads.
     let d = c\<lparr>tc_objective := objective, tc_criteria := string_tuple (tc_criteria c), tc_write := writes,
               tc_read := reads, tc_forbidden := string_tuple (tc_forbidden c),
               tc_dependencies := string_tuple (tc_dependencies c)\<rparr>
     in if tc_version d \<noteq> 1 then Inl (WrongVersion ''TaskContractV1'') else Inr d)))"

definition task_contract_to_dict :: "task_contract \<Rightarrow> json_obj" where
  "task_contract_to_dict c =
     [(''version'', JInt 1), (''objective'', JStr (tc_objective c)), (''success_criteria'', jstrs (tc_criteria c)),
      (''write_paths'', jstrs (tc_write c)), (''read_paths'', jstrs (tc_read c)),
      (''forbidden_changes'', jstrs (tc_forbidden c)), (''interfaces'', JObj (tc_interfaces c)),
      (''external_dependencies'', jstrs (tc_dependencies c)), (''metadata'', JObj (tc_metadata c))]"

definition tuple_field :: "conversions \<Rightarrow> json_obj \<Rightarrow> string \<Rightarrow> bool \<Rightarrow> string list \<Rightarrow> contract_error + string list" where
  "tuple_field cv d k none_ok dflt =
     (case obj_get d k of None \<Rightarrow> Inr dflt
      | Some v \<Rightarrow> if v = JNull \<and> none_ok then Inr []
         else case strings_of cv v of None \<Rightarrow> Inl (NotConvertible k) | Some xs \<Rightarrow> Inr xs)"

definition object_field :: "conversions \<Rightarrow> json_obj \<Rightarrow> string \<Rightarrow> contract_error + json_obj" where
  "object_field cv d k =
     (case obj_get d k of None \<Rightarrow> Inr []
      | Some v \<Rightarrow> (case py_dict cv v of Some kvs \<Rightarrow> Inr kvs | None \<Rightarrow> Inl (NotConvertible k)))"

definition task_contract_from_dict :: "conversions \<Rightarrow> json_obj \<Rightarrow> contract_error + task_contract" where
  "task_contract_from_dict cv d =
     (case py_int cv (get_or (JInt 1) d ''version'') of None \<Rightarrow> Inl (NotConvertible ''version'')
      | Some version \<Rightarrow>
     and_then (tuple_field cv d ''success_criteria'' True []) (\<lambda>criteria.
     and_then (tuple_field cv d ''write_paths'' False []) (\<lambda>writes.
     and_then (tuple_field cv d ''read_paths'' False [''.'']) (\<lambda>reads.
     and_then (tuple_field cv d ''forbidden_changes'' True []) (\<lambda>forbidden.
     and_then (object_field cv d ''interfaces'') (\<lambda>interfaces.
     and_then (tuple_field cv d ''external_dependencies'' True []) (\<lambda>dependencies.
     and_then (object_field cv d ''metadata'') (\<lambda>metadata.
       mk_task_contract
         \<lparr>tc_objective = py_str (cv_repr cv) (get_or (JStr []) d ''objective''), tc_criteria = criteria,
          tc_write = writes, tc_read = reads, tc_forbidden = forbidden, tc_interfaces = interfaces,
          tc_dependencies = dependencies, tc_metadata = metadata, tc_version = version\<rparr>))))))))"

text \<open>Building again from the dictionary is building again from the contract.\<close>

lemma task_contract_dict: "tc_version c = 1 \<Longrightarrow> task_contract_from_dict cv (task_contract_to_dict c) = mk_task_contract c"
proof -
  assume v: "tc_version c = 1"
  have nn: "jstrs xs \<noteq> JNull" for xs by (simp add: jstrs_def)
  have same: "\<lparr>tc_objective = tc_objective c, tc_criteria = tc_criteria c, tc_write = tc_write c, tc_read = tc_read c,
      tc_forbidden = tc_forbidden c, tc_interfaces = tc_interfaces c, tc_dependencies = tc_dependencies c,
      tc_metadata = tc_metadata c, tc_version = 1\<rparr> = c" using v by simp
  show ?thesis
    by (simp add: task_contract_from_dict_def task_contract_to_dict_def tuple_field_def object_field_def nn same)
qed

definition stable_paths :: "string list \<Rightarrow> bool" where
  "stable_paths ps = list_all (\<lambda>p. normalize_path p = Inr p) ps"

lemma normalize_paths_stable: "stable_paths ps \<Longrightarrow> distinct ps \<Longrightarrow> normalize_paths ps = Inr ps"
proof -
  assume s: "stable_paths ps" and d: "distinct ps"
  have "map_result normalize_path ps = Inr ps" using s by (induction ps) (auto simp: stable_paths_def)
  then show ?thesis using d by (simp add: normalize_paths_def dict_fromkeys_distinct)
qed

lemma mk_task_contract_parts:
  assumes "mk_task_contract c = Inr d"
  shows "durable_text (tc_objective d) ''task objective'' 8000 = Inr (tc_objective d) \<and> tc_version d = 1 \<and>
    string_tuple (tc_criteria d) = tc_criteria d \<and> string_tuple (tc_forbidden d) = tc_forbidden d \<and>
    string_tuple (tc_dependencies d) = tc_dependencies d \<and> distinct (tc_write d) \<and> distinct (tc_read d) \<and>
    normalize_paths (tc_write c) = Inr (tc_write d) \<and> normalize_paths (tc_read c) = Inr (tc_read d)"
proof -
  from assms obtain objective writes reads where o: "durable_text (tc_objective c) ''task objective'' 8000 = Inr objective"
    and w: "normalize_paths (tc_write c) = Inr writes" and r: "normalize_paths (tc_read c) = Inr reads"
    and d: "d = c\<lparr>tc_objective := objective, tc_criteria := string_tuple (tc_criteria c), tc_write := writes,
               tc_read := reads, tc_forbidden := string_tuple (tc_forbidden c),
               tc_dependencies := string_tuple (tc_dependencies c)\<rparr>" and v: "tc_version d = 1"
    unfolding mk_task_contract_def by (auto simp: Let_def elim!: and_then_InrE split: if_splits)
  have "distinct writes" "distinct reads" using w r by (auto simp: normalize_paths_def and_then_Inr)
  then show ?thesis using durable_text_idem [OF o] w r v unfolding d by simp
qed

lemma task_contract_roundtrip:
  assumes "mk_task_contract c = Inr d" "stable_paths (tc_write d)" "stable_paths (tc_read d)"
  shows "task_contract_from_dict cv (task_contract_to_dict d) = Inr d"
proof -
  note p = mk_task_contract_parts [OF assms(1)]
  have same: "d\<lparr>tc_objective := tc_objective d, tc_criteria := tc_criteria d, tc_write := tc_write d,
     tc_read := tc_read d, tc_forbidden := tc_forbidden d, tc_dependencies := tc_dependencies d\<rparr> = d" by simp
  have "mk_task_contract d = Inr d"
    unfolding mk_task_contract_def
    using p normalize_paths_stable [OF assms(2)] normalize_paths_stable [OF assms(3)] by (simp add: same)
  then show ?thesis using task_contract_dict p by simp
qed

section \<open>Scope\<close>

definition within_keys :: "string \<Rightarrow> string \<Rightarrow> bool" where
  "within_keys c p \<longleftrightarrow> p = ''.'' \<or> c = p \<or> starts_with (p @ ''/'') c"

definition path_within :: "string \<Rightarrow> string \<Rightarrow> contract_error + bool" where
  "path_within child parent =
     and_then (normalize_path child) (\<lambda>c. and_then (normalize_path parent) (\<lambda>p.
       Inr (within_keys (casefold c) (casefold p))))"

fun any_within :: "string \<Rightarrow> string list \<Rightarrow> contract_error + bool" where
  "any_within path [] = Inr False"
| "any_within path (a # as) = and_then (path_within path a) (\<lambda>b. if b then Inr True else any_within path as)"

datatype violation =
    OutsidePath string | DropsForbidden "string list" | InterfaceChanged string | NewDependencies "string list"

definition path_violations :: "task_contract \<Rightarrow> task_contract \<Rightarrow> contract_error + violation list" where
  "path_violations parent child =
     and_then (map_result (\<lambda>p. and_then (any_within p (tc_write parent)) (\<lambda>b. Inr (if b then [] else [OutsidePath p])))
       (tc_write child)) (\<lambda>vs. Inr (concat vs))"

definition contract_scope_violations :: "task_contract \<Rightarrow> task_contract \<Rightarrow> contract_error + violation list" where
  "contract_scope_violations parent child =
     and_then (path_violations parent child) (\<lambda>outside.
     let missing = filter (\<lambda>f. f \<notin> set (map casefold (tc_forbidden child))) (map casefold (tc_forbidden parent));
         changed = filter (\<lambda>(name, def). case obj_get (tc_interfaces parent) name of None \<Rightarrow> True
                             | Some v \<Rightarrow> canonical v \<noteq> canonical def) (tc_interfaces child);
         added = filter (\<lambda>d. casefold d \<notin> set (map casefold (tc_dependencies parent))) (tc_dependencies child)
     in Inr (outside @ (if missing \<noteq> [] then [DropsForbidden (sorted_set missing)] else []) @
             map (\<lambda>(name, def). InterfaceChanged name) changed @
             (if added \<noteq> [] then [NewDependencies (sorted_set added)] else [])))"

definition assert_child_contract :: "task_contract \<Rightarrow> task_contract \<Rightarrow> (contract_error + violation list) + unit" where
  "assert_child_contract parent child =
     (case contract_scope_violations parent child of
        Inl e \<Rightarrow> Inl (Inl e)
      | Inr vs \<Rightarrow> if vs \<noteq> [] then Inl (Inr vs) else Inr ())"

lemma starts_with_iff: "starts_with p s \<longleftrightarrow> (\<exists>r. s = p @ r)"
  unfolding starts_with_def by (metis append_eq_conv_conj)

lemma within_keys_trans:
  assumes "within_keys c b" "within_keys b a"
  shows "within_keys c a"
proof -
  consider "a = ''.''" | "c = b" | "b = ''.''" "a \<noteq> ''.''" | "b = a" | "starts_with (b @ ''/'') c" "starts_with (a @ ''/'') b"
    using assms unfolding within_keys_def by blast
  then show ?thesis
  proof cases
    case 3
    then have "b = a" using assms(2) by (cases a) (auto simp: within_keys_def starts_with_iff)
    with assms show ?thesis by simp
  next
    case 5
    then show ?thesis by (auto simp: within_keys_def starts_with_iff)
  qed (use assms in \<open>auto simp: within_keys_def\<close>)
qed

lemma within_Inr:
  "path_within c p = Inr b \<longleftrightarrow> (\<exists>x y. normalize_path c = Inr x \<and> normalize_path p = Inr y \<and>
     b = within_keys (casefold x) (casefold y))"
  by (auto simp: path_within_def and_then_Inr)

lemma any_within_True:
  "any_within x as = Inr True \<Longrightarrow> \<exists>a \<in> set as. path_within x a = Inr True"
  by (induction as) (auto simp: and_then_Inr split: if_splits)

lemma any_within_trans:
  "path_within x y = Inr True \<Longrightarrow> any_within y as = Inr True \<Longrightarrow> any_within x as = Inr True"
proof (induction as)
  case (Cons a as)
  from Cons.prems obtain xn yn where n: "normalize_path x = Inr xn" "normalize_path y = Inr yn"
    "within_keys (casefold xn) (casefold yn)" by (auto simp: within_Inr)
  from Cons.prems(2) obtain an where a: "normalize_path a = Inr an"
    and rest: "\<not> within_keys (casefold yn) (casefold an) \<Longrightarrow> any_within y as = Inr True"
    using n by (auto simp: and_then_Inr within_Inr split: if_splits)
  have "path_within x a = Inr (within_keys (casefold xn) (casefold an))" using n a by (simp add: within_Inr)
  moreover have "any_within x as = Inr True" if "\<not> within_keys (casefold xn) (casefold an)"
    using Cons.IH [OF Cons.prems(1) rest] within_keys_trans [OF n(3)] that by blast
  ultimately show ?case by simp
qed simp

lemma path_violations_Nil:
  "path_violations p c = Inr [] \<longleftrightarrow> (\<forall>x \<in> set (tc_write c). any_within x (tc_write p) = Inr True)"
proof -
  let ?f = "\<lambda>x. and_then (any_within x (tc_write p)) (\<lambda>b. Inr (if b then [] else [OutsidePath x]))"
  have "(\<exists>vs. map_result ?f xs = Inr vs \<and> concat vs = []) \<longleftrightarrow> (\<forall>x \<in> set xs. any_within x (tc_write p) = Inr True)" for xs
  proof (induction xs)
    case (Cons x xs)
    show ?case
    proof (cases "any_within x (tc_write p)")
      case (Inr b)
      then show ?thesis using Cons by (cases b) (auto simp: and_then_Inr)
    qed simp
  qed simp
  then show ?thesis by (auto simp: path_violations_def and_then_Inr)
qed

lemma no_violations_iff:
  "contract_scope_violations p c = Inr [] \<longleftrightarrow>
     (\<forall>x \<in> set (tc_write c). any_within x (tc_write p) = Inr True) \<and>
     casefold ` set (tc_forbidden p) \<subseteq> casefold ` set (tc_forbidden c) \<and>
     (\<forall>(name, def) \<in> set (tc_interfaces c). \<exists>v. obj_get (tc_interfaces p) name = Some v \<and> canonical v = canonical def) \<and>
     casefold ` set (tc_dependencies c) \<subseteq> casefold ` set (tc_dependencies p)"
proof -
  have "contract_scope_violations p c = Inr [] \<longleftrightarrow> path_violations p c = Inr [] \<and>
      filter (\<lambda>f. f \<notin> set (map casefold (tc_forbidden c))) (map casefold (tc_forbidden p)) = [] \<and>
      filter (\<lambda>(name, def). case obj_get (tc_interfaces p) name of None \<Rightarrow> True
                             | Some v \<Rightarrow> canonical v \<noteq> canonical def) (tc_interfaces c) = [] \<and>
      filter (\<lambda>d. casefold d \<notin> set (map casefold (tc_dependencies p))) (tc_dependencies c) = []"
    by (auto simp: contract_scope_violations_def and_then_Inr Let_def split: if_splits)
  then show ?thesis unfolding path_violations_Nil filter_empty_conv
    by (auto simp: image_subset_iff split: option.splits)
qed

text \<open>Scope narrows along a chain of children.\<close>

lemma scope_trans:
  assumes "contract_scope_violations a b = Inr []" "contract_scope_violations b c = Inr []"
  shows "contract_scope_violations a c = Inr []"
proof -
  have ab: "\<forall>x \<in> set (tc_write b). any_within x (tc_write a) = Inr True"
    "casefold ` set (tc_forbidden a) \<subseteq> casefold ` set (tc_forbidden b)"
    "\<forall>(name, def) \<in> set (tc_interfaces b). \<exists>v. obj_get (tc_interfaces a) name = Some v \<and> canonical v = canonical def"
    "casefold ` set (tc_dependencies b) \<subseteq> casefold ` set (tc_dependencies a)"
    using assms(1) unfolding no_violations_iff by simp_all
  have bc: "\<forall>x \<in> set (tc_write c). any_within x (tc_write b) = Inr True"
    "casefold ` set (tc_forbidden b) \<subseteq> casefold ` set (tc_forbidden c)"
    "\<forall>(name, def) \<in> set (tc_interfaces c). \<exists>v. obj_get (tc_interfaces b) name = Some v \<and> canonical v = canonical def"
    "casefold ` set (tc_dependencies c) \<subseteq> casefold ` set (tc_dependencies b)"
    using assms(2) unfolding no_violations_iff by simp_all
  show ?thesis unfolding no_violations_iff
  proof (intro conjI ballI)
    show "casefold ` set (tc_forbidden a) \<subseteq> casefold ` set (tc_forbidden c)" by (rule order.trans [OF ab(2) bc(2)])
    show "casefold ` set (tc_dependencies c) \<subseteq> casefold ` set (tc_dependencies a)" by (rule order.trans [OF bc(4) ab(4)])
  next
    fix x assume "x \<in> set (tc_write c)"
    with bc(1) have "any_within x (tc_write b) = Inr True" by simp
    then obtain y where y: "y \<in> set (tc_write b)" "path_within x y = Inr True" using any_within_True by blast
    from ab(1) y(1) have "any_within y (tc_write a) = Inr True" by simp
    with y(2) show "any_within x (tc_write a) = Inr True" by (rule any_within_trans)
  next
    fix e assume e: "e \<in> set (tc_interfaces c)"
    obtain name d where nd: "e = (name, d)" by (cases e)
    with e bc(3) obtain v where v: "obj_get (tc_interfaces b) name = Some v" "canonical v = canonical d" by blast
    then have "(name, v) \<in> set (tc_interfaces b)" by (simp add: map_of_SomeD)
    with ab(3) obtain w where "obj_get (tc_interfaces a) name = Some w" "canonical w = canonical v" by blast
    with v nd show "case e of (name, def) \<Rightarrow> \<exists>v. obj_get (tc_interfaces a) name = Some v \<and> canonical v = canonical def"
      by simp
  qed
qed

lemma assert_child_iff: "assert_child_contract p c = Inr () \<longleftrightarrow> contract_scope_violations p c = Inr []"
  by (auto simp: assert_child_contract_def split: sum.splits if_splits)

text \<open>A chain of accepted children: each contract accepted under the one before it.\<close>

fun accepted_chain :: "task_contract \<Rightarrow> task_contract list \<Rightarrow> bool" where
  "accepted_chain p [] = True"
| "accepted_chain p (c # cs) = (assert_child_contract p c = Inr () \<and> accepted_chain c cs)"

lemma chain_scope:
  "accepted_chain p cs \<Longrightarrow> \<forall>c \<in> set cs. contract_scope_violations p c = Inr []"
proof (induction cs arbitrary: p)
  case (Cons c cs)
  then have pc: "contract_scope_violations p c = Inr []" by (simp add: assert_child_iff)
  have "\<forall>d \<in> set cs. contract_scope_violations c d = Inr []" using Cons by simp
  then show ?case using pc scope_trans [OF pc] by auto
qed simp

text \<open>
  The stored paths of a contract as the rest of the program reads them, without normalising
  again: a path lies under another when the steps of the other come first.
\<close>

definition lies_under :: "string \<Rightarrow> string \<Rightarrow> bool" where
  "lies_under c p \<longleftrightarrow> p = ''.'' \<or>
     take (length (split_on CHR ''/'' p)) (split_on CHR ''/'' c) = split_on CHR ''/'' p"

definition stored_within :: "task_contract \<Rightarrow> task_contract \<Rightarrow> bool" where
  "stored_within parent child \<longleftrightarrow>
     list_all (\<lambda>x. list_ex (\<lambda>y. lies_under (casefold x) (casefold y)) (tc_write parent)) (tc_write child)"

lemma split_on_steps: "split_on CHR ''/'' (p @ CHR ''/'' # s) = split_on CHR ''/'' p @ split_on CHR ''/'' s"
proof (induction p)
  case (Cons x p)
  have "split_on CHR ''/'' p \<noteq> []" by (induction p) (auto split: list.splits)
  then show ?case using Cons by (cases "split_on CHR ''/'' p") auto
qed simp

lemma within_lies_under: "within_keys c p \<Longrightarrow> lies_under c p"
  by (auto simp: within_keys_def lies_under_def starts_with_iff split_on_steps)

lemma stable_any_within:
  assumes "normalize_path x = Inr x" "stable_paths ps" "any_within x ps = Inr True"
  shows "list_ex (\<lambda>y. lies_under (casefold x) (casefold y)) ps"
  using assms(2,3)
proof (induction ps)
  case (Cons p ps)
  then have "normalize_path p = Inr p" "stable_paths ps" by (simp_all add: stable_paths_def)
  with Cons assms(1) show ?case by (auto simp: path_within_def dest: within_lies_under split: if_splits)
qed simp

lemma accepted_stored_within:
  assumes "assert_child_contract p c = Inr ()" "stable_paths (tc_write p)" "stable_paths (tc_write c)"
  shows "stored_within p c"
  unfolding stored_within_def list_all_iff
proof
  fix x assume x: "x \<in> set (tc_write c)"
  then have "normalize_path x = Inr x" using assms(3) by (auto simp: stable_paths_def list_all_iff)
  from stable_any_within [OF this assms(2)]
  show "list_ex (\<lambda>y. lies_under (casefold x) (casefold y)) (tc_write p)"
    using assms(1) x unfolding assert_child_iff no_violations_iff by auto
qed

text \<open>Every path of a constructed contract is inside the workspace.\<close>

definition inside_workspace :: "string \<Rightarrow> bool" where
  "inside_workspace p \<longleftrightarrow> p = ''.'' \<or> (\<forall>q \<in> set (split_on CHR ''/'' p). q \<noteq> [] \<and> q \<noteq> ''.'' \<and> q \<noteq> ''..'')"

lemma normalize_paths_inside: "normalize_paths ps = Inr qs \<Longrightarrow> q \<in> set qs \<Longrightarrow> inside_workspace q"
proof -
  assume n: "normalize_paths ps = Inr qs" and q: "q \<in> set qs"
  from n obtain rs where r: "map_result normalize_path ps = Inr rs" "qs = dict_fromkeys rs"
    by (auto simp: normalize_paths_def and_then_Inr)
  have norm: "normalize_path v = Inr p \<Longrightarrow> inside_workspace p" for v p
    unfolding inside_workspace_def by (rule normalize_path_inside)
  have "\<forall>r \<in> set rs. inside_workspace r"
    using r(1)
  proof (induction ps arbitrary: rs)
    case (Cons p ps)
    then show ?case by (auto simp: and_then_Inr dest: norm)
  qed simp
  then show ?thesis using q r(2) by simp
qed

lemma contract_paths_inside_workspace:
  assumes "mk_task_contract c = Inr d" "p \<in> set (tc_write d) \<union> set (tc_read d)"
  shows "inside_workspace p"
  using mk_task_contract_parts [OF assms(1)] normalize_paths_inside assms(2) by blast

end
