(* ===== verification/Scenario_Runs.thy ===== *)
theory Scenario_Runs
  imports Schedule_Safety Convergence Acceptance Orchestration Ultra_Contracts
begin

text \<open>
  Concrete inputs for the witnesses about the scheduler, the convergence engine and the
  acceptance gate.
\<close>

definition demo_item :: "string \<Rightarrow> string list \<Rightarrow> string list \<Rightarrow> work_item" where
  "demo_item i deps paths = \<lparr>si_id = i, si_depends_on = deps, si_write_paths = paths, si_order = 0\<rparr>"

definition demo_items :: "work_item list" where
  "demo_items = [demo_item ''C'' [''A''] [''src/c''], demo_item ''B'' [] [''src/a/x''], demo_item ''A'' [] [''src/a'']]"

definition demo_world :: "nat world" where
  "demo_world = \<lparr>wd_cancelled = (\<lambda>k. False), wd_tries = (\<lambda>k i n. if n = 1 then RateLimited ''429'' else Returned n),
     wd_merge = (\<lambda>k traces. concat traces)\<rparr>"

definition demo_adaptive :: adaptive where
  "demo_adaptive = adaptive_init CLOUD 4 1 8 4"

definition demo_target :: quality_target where
  "demo_target = \<lparr>qt_objective = ''game'', qt_artifact_ids = [''index.html''],
     qt_rubric = \<lparr>rb_dimensions = [\<lparr>qd_id = ''visual'', qd_description = ''looks right'', qd_weight = 1,
       qd_hard_gate = False, qd_minimum_score = 4 / 5, qd_required_evidence = [], qd_evaluation_method = ''evidence_review'',
       qd_confidence = CONF_MEDIUM, qd_remediation = [], qd_version = 1\<rparr>], rb_id = ''rubric_1'', rb_version = 1\<rparr>,
     qt_hard_gates = [''starts''], qt_minimum_overall = 9 / 10, qt_independent = 2, qt_stable = 1,
     qt_plateau_window = 3, qt_plateau_delta = 1 / 50, qt_refinements = [], qt_preferences = [], qt_feedback = [],
     qt_environment = [], qt_id = ''target_1'', qt_version = 1\<rparr>"

definition demo_evaluation :: "string \<Rightarrow> int \<Rightarrow> evaluation" where
  "demo_evaluation who n = \<lparr>qe_target_id = ''target_1'', qe_artifact_hashes = [(''index.html'', ''h'')],
     qe_scores = [\<lparr>qs_dimension_id = ''visual'', qs_score = 19 / 20, qs_passed = True, qs_evidence_ids = [],
       qs_findings = [], qs_confidence = CONF_HIGH, qs_version = 1\<rparr>],
     qe_hard_gates = [(''starts'', True)],
     qe_evaluator = \<lparr>er_id = who, er_deterministic = False, er_visual = True, er_runtime = False, er_independent = True,
       er_capabilities = [], er_test_runner = False, er_static_analyzer = False, er_browser = True, er_screenshot = True,
       er_vision_evaluator = True, er_accessibility = False, er_profiler = False, er_user_review_required = False\<rparr>,
     qe_overall = 19 / 20, qe_id = who, qe_version = 1, qe_mutation_sequence = n, qe_created_at = 0\<rparr>"

definition demo_contract :: "string list \<Rightarrow> outcome_contract" where
  "demo_contract kinds = \<lparr>oc_goal_id = ''goal_1'', oc_objective = ''game'', oc_required = kinds,
     oc_min_overall = 95 / 100, oc_min_critical = 90 / 100, oc_visual_acceptances = 2, oc_zero_critical = True,
     oc_candidate_preferred = True, oc_auto_converge = True, oc_max_repetitions = 2, oc_id = ''outcome_contract_1'',
     oc_version = 1\<rparr>"

definition demo_proof :: "string \<Rightarrow> string \<Rightarrow> rat \<Rightarrow> acceptance_evidence" where
  "demo_proof kind who score = \<lparr>ae_run_id = ''ultra_1'', ae_kind = kind, ae_authority = who, ae_passed = True,
     ae_score = score, ae_critical_findings = 0, ae_artifact_hash = ''h'', ae_details = [(''critical'', JBool False)],
     ae_id = kind @ who, ae_created_at = 0, ae_version = 1\<rparr>"

definition demo_proofs :: "acceptance_evidence list" where
  "demo_proofs = [demo_proof ''final_artifact'' ''harness'' (96 / 100), demo_proof ''independent_visual'' ''judge'' (97 / 100),
     demo_proof ''independent_visual'' ''user'' (98 / 100)]"

lemma demo_proof_simps [simp]:
  "ae_kind (demo_proof k who s) = k" "ae_authority (demo_proof k who s) = who" "ae_passed (demo_proof k who s)"
  "ae_score (demo_proof k who s) = s" "ae_critical_findings (demo_proof k who s) = 0"
  "\<not> detail_set d (demo_proof k who s)"
  by (simp_all add: demo_proof_def detail_set_def get_or_def)

definition demo_claim :: "string \<Rightarrow> verdict \<Rightarrow> authority \<Rightarrow> claim" where
  "demo_claim criterion v a = \<lparr>cl_criterion = criterion, cl_claim = ''works'', cl_hash = ''h'', cl_refs = [''log''],
     cl_check = ''run it'', cl_verdict = v, cl_authority = a, cl_producer = ''builder'', cl_verifier = ''tester'',
     cl_id = ''claim_1'', cl_created_at = 0, cl_version = 1\<rparr>"

definition demo_review :: "review_role \<Rightarrow> bool option \<Rightarrow> review" where
  "demo_review role v = \<lparr>rv_role = role, rv_hash = ''h'', rv_sequence = 1, rv_passed = v, rv_summary = ''seen'',
     rv_issues = [], rv_refs = [], rv_reviewer = ''r'', rv_version = 1\<rparr>"

definition demo_gate :: "review_role list \<Rightarrow> review_gate" where
  "demo_gate roles = \<lparr>rg_hash = ''h'', rg_sequence = 1, rg_reviews = map (\<lambda>r. demo_review r (Some True)) roles, rg_version = 1\<rparr>"

definition demo_signals :: "string \<Rightarrow> int \<Rightarrow> risk_signals" where
  "demo_signals declared files = \<lparr>rs_declared = declared, rs_changed_files = files, rs_interfaces = False, rs_security = False,
     rs_tests_changed = False, rs_failed_approaches = 0, rs_missing_evidence = 0, rs_ambiguous = False,
     rs_gate_available = True, rs_subjective = False, rs_version = 1\<rparr>"

definition demo_mission :: "worker_role \<Rightarrow> mutation_policy \<Rightarrow> mission" where
  "demo_mission role pol = \<lparr>ms_role = role, ms_objective = ''check the  parser'', ms_criteria = [''parses''],
     ms_visibility = VERIFIED_FINDINGS_ONLY, ms_policy = pol, ms_tools = [], ms_targets = [''a'', ''b'', ''c'', ''d''],
     ms_refs = [], ms_calls = 1, ms_seed = None, ms_id = ''mission_1'', ms_version = 2\<rparr>"

definition demo_scope :: "string list \<Rightarrow> task_contract" where
  "demo_scope paths = \<lparr>tc_objective = ''build'', tc_criteria = [], tc_write = paths, tc_read = [''.''],
     tc_forbidden = [], tc_interfaces = [], tc_dependencies = [], tc_metadata = [], tc_version = 1\<rparr>"

text \<open>
  The overall threshold does not see zero scores: passing evidence with the default score
  0 is accepted, with overall score 0, under a contract that asks for 0.95.
\<close>

lemma zero_score_accepted:
  "let d = evaluate_gate (demo_contract [''final_artifact'']) [demo_proof ''final_artifact'' ''harness'' 0] in
   oc_min_overall (demo_contract [''final_artifact'']) = 95 / 100 \<and> ad_accepted d \<and> ad_overall d = 0"
  by code_simp

text \<open>
  The overlap test misses bracket globs: \<open>a[bc]\<close> and \<open>a[cd]\<close> are reported as disjoint
  although both match \<open>ac\<close>.  The comment in the source promises false positives only.
\<close>

lemma bracket_globs_missed:
  "\<not> scopes_overlap nt [''a[bc]''] [''a[cd]''] \<and> fnmatchcase ''ac'' ''a[bc]'' \<and> fnmatchcase ''ac'' ''a[cd]''"
  by (cases nt) (simp, code_simp)+

text \<open>
  Normalisation removes one leading \<open>workspace/\<close> and is applied again by the scope check and when
  reading back, so a stored path \<open>workspace/src/x\<close> is accepted under a parent that may write \<open>src\<close>
  only, and reads back as \<open>src/x\<close>.
\<close>

lemma workspace_prefix_escapes:
  "mk_task_contract (demo_scope [''workspace/workspace/src/x'']) = Inr (demo_scope [''workspace/src/x'']) \<and>
   assert_child_contract (demo_scope [''src'']) (demo_scope [''workspace/src/x'']) = Inr () \<and>
   \<not> stored_within (demo_scope [''src'']) (demo_scope [''workspace/src/x'']) \<and>
   task_contract_from_dict cv (task_contract_to_dict (demo_scope [''workspace/src/x''])) = Inr (demo_scope [''src/x''])"
proof (intro conjI)
  show "task_contract_from_dict cv (task_contract_to_dict (demo_scope [''workspace/src/x''])) = Inr (demo_scope [''src/x''])"
    by (subst task_contract_dict) (simp add: demo_scope_def, code_simp)
qed code_simp+

end
