(* ===== verification/Swarm.thy ===== *)
theory Swarm
  imports Store_Types
begin

text \<open>
  \<open>agent/swarm_protocol.py\<close> and the swarm tables of \<open>agent/store.py\<close>: agent messages, coordinator
  leases with fencing tokens, consensus rounds and their votes.  A table is the list of its rows
  in rowid order and an operation is one transaction, as in \<open>Store_Types\<close>.  The clock counts
  microseconds, confidences are rationals and \<open>fsum\<close> is the interpreter's \<open>sum\<close> of a nonempty
  list of floats.
\<close>

section \<open>Messages, rounds and votes\<close>

datatype message_type =
    INFORM | REQUEST | PROPOSAL | VOTE | DECISION | BLOCKER | CONTRACT_QUERY | CONTRACT_RESPONSE
  | PACKAGE_PUBLISHED | QUALITY_FINDING | REVISION_REQUEST | INTEGRATION_READY | CONSENSUS_RESULT

datatype consensus_status = CS_OPEN | CS_ACCEPTED | CS_REJECTED | CS_TIED

primrec consensus_value :: "consensus_status \<Rightarrow> string" where
  "consensus_value CS_OPEN = ''open''"
| "consensus_value CS_ACCEPTED = ''accepted''"
| "consensus_value CS_REJECTED = ''rejected''"
| "consensus_value CS_TIED = ''tied''"

record message =
  sm_run :: string
  sm_sender :: string
  sm_recipient :: string
  sm_type :: message_type
  sm_topic :: string
  sm_payload :: json_obj
  sm_confidence :: rat
  sm_correlation :: string
  sm_parent :: "string option"
  sm_fencing :: int
  sm_deadline :: "string option"
  sm_evidence :: "json_obj list"
  sm_schema :: string
  sm_id :: string
  sm_protocol :: int
  sm_created_at :: int

definition unit_interval :: "rat \<Rightarrow> rat" where
  "unit_interval c = max 0 (min 1 c)"

definition mk_message :: "message \<Rightarrow> store_error + message" where
  "mk_message m =
     (if sm_run m = [] \<or> sm_sender m = [] \<or> sm_recipient m = []
      then Inl (ValueError ''swarm message requires run, sender, and recipient'')
      else let n = m\<lparr>sm_topic := take 500 (strip (sm_topic m)), sm_confidence := unit_interval (sm_confidence m),
                     sm_fencing := max 0 (sm_fencing m)\<rparr>
        in if sm_topic n = [] then Inl (ValueError ''swarm message requires a topic'')
           else if strip (sm_schema n) = [] then Inl (ValueError ''swarm message requires a schema name'')
           else Inr n)"

record message_row = message +
  sm_consumed_at :: "int option"

record consensus_round =
  cr_run :: string
  cr_topic :: string
  cr_leader :: string
  cr_quorum :: int
  cr_status :: consensus_status
  cr_decision :: json_obj
  cr_id :: string
  cr_created_at :: int
  cr_updated_at :: int
  cr_closed_at :: "int option"

definition mk_round :: "consensus_round \<Rightarrow> store_error + consensus_round" where
  "mk_round r =
     (if cr_run r = [] \<or> strip (cr_topic r) = [] \<or> cr_leader r = []
      then Inl (ValueError ''consensus round requires run, topic, and leader'')
      else if cr_quorum r < 1 then Inl (ValueError ''consensus quorum must be positive'')
      else Inr (r\<lparr>cr_topic := take 500 (strip (cr_topic r))\<rparr>))"

record vote =
  vt_round :: string
  vt_voter :: string
  vt_verdict :: string
  vt_confidence :: rat
  vt_rationale :: string
  vt_evidence :: json_obj
  vt_created_at :: int

definition mk_vote :: "vote \<Rightarrow> store_error + vote" where
  "mk_vote v =
     (if vt_round v = [] \<or> vt_voter v = [] then Inl (ValueError ''consensus vote requires round and voter'')
      else let verdict = casefold (strip (vt_verdict v)) in
        if verdict \<notin> {''accept'', ''reject'', ''abstain''}
        then Inl (ValueError ''consensus vote verdict must be accept, reject, or abstain'')
        else Inr (v\<lparr>vt_verdict := verdict, vt_confidence := unit_interval (vt_confidence v),
                    vt_rationale := take 2000 (vt_rationale v)\<rparr>))"

datatype agent_state =
    AG_CREATED | AG_READY | AG_RUNNING | AG_WAITING_FOR_TOOL | AG_WAITING_FOR_DEPENDENCY | AG_REVIEWING
  | AG_BLOCKED | AG_COMPLETED | AG_FAILED | AG_CANCELLED

text \<open>The columns of \<open>agent_registry\<close> that elections read.\<close>

record agent =
  ag_id :: string
  ag_run :: "string option"
  ag_index :: int
  ag_role :: string
  ag_state :: agent_state

record coordinator_lease =
  le_run :: string
  le_leader :: string
  le_token :: int
  le_expires_at :: int
  le_updated_at :: int

text \<open>\<open>sw_runs\<close> holds the identifiers of the rows of \<open>ultra_runs\<close>.\<close>

record swarm =
  sw_runs :: "string list"
  sw_agents :: "agent list"
  sw_messages :: "message_row list"
  sw_rounds :: "consensus_round list"
  sw_votes :: "vote list"
  sw_leases :: "coordinator_lease list"

definition empty_swarm :: "string list \<Rightarrow> swarm" where
  "empty_swarm runs = \<lparr>sw_runs = runs, sw_agents = [], sw_messages = [], sw_rounds = [], sw_votes = [], sw_leases = []\<rparr>"

section \<open>Messages\<close>

definition get_swarm_message :: "string \<Rightarrow> swarm \<Rightarrow> store_error + message_row" where
  "get_swarm_message i s =
     (case fetchone (\<lambda>m. sm_id m = i) (sw_messages s) of None \<Rightarrow> Inl (NotFoundError ''swarm message'' i) | Some m \<Rightarrow> Inr m)"

definition post_swarm_message :: "message \<Rightarrow> swarm \<Rightarrow> store_error + swarm" where
  "post_swarm_message m0 s =
     and_then (mk_message m0) (\<lambda>m.
     if sm_run m \<notin> set (sw_runs s) then Inl (NotFoundError ''ULTRA run'' (sm_run m))
     else if (case sm_parent m of None \<Rightarrow> False | Some p \<Rightarrow> \<not> exists_row (\<lambda>n. sm_id n = p) (sw_messages s))
     then Inl (IntegrityError ''FOREIGN KEY swarm_messages(id)'')
     else and_then (insert_row (IntegrityError ''swarm_messages.id'') sm_id
            (message.extend m \<lparr>sm_consumed_at = None\<rparr>) (sw_messages s))
          (\<lambda>t. Inr (s\<lparr>sw_messages := t\<rparr>)))"

definition inbox_filter :: "string \<Rightarrow> string option \<Rightarrow> string option \<Rightarrow> bool \<Rightarrow> message_row \<Rightarrow> bool" where
  "inbox_filter run recipient topic consumed m \<longleftrightarrow> sm_run m = run \<and>
     (case recipient of None \<Rightarrow> True | Some r \<Rightarrow> sm_recipient m = r) \<and>
     (case topic of None \<Rightarrow> True | Some t \<Rightarrow> sm_topic m = t) \<and> (consumed \<or> sm_consumed_at m = None)"

definition list_swarm_messages ::
    "string \<Rightarrow> string option \<Rightarrow> string option \<Rightarrow> bool \<Rightarrow> int \<Rightarrow> swarm \<Rightarrow> message_row list" where
  "list_swarm_messages run recipient topic consumed limit s =
     take (nat (max 1 (min limit 10000)))
       (sort_key (\<lambda>m. (sm_created_at m, sm_id m)) (filter (inbox_filter run recipient topic consumed) (sw_messages s)))"

definition mark_swarm_message_consumed :: "env \<Rightarrow> string \<Rightarrow> swarm \<Rightarrow> store_error + swarm" where
  "mark_swarm_message_consumed E i s =
     (if \<not> exists_row (\<lambda>m. sm_id m = i) (sw_messages s) then Inl (NotFoundError ''swarm message'' i)
      else Inr (s\<lparr>sw_messages := update_where (\<lambda>m. sm_id m = i)
        (\<lambda>m. m\<lparr>sm_consumed_at := (case sm_consumed_at m of None \<Rightarrow> Some (now E) | Some t \<Rightarrow> Some t)\<rparr>) (sw_messages s)\<rparr>))"

section \<open>Leaders\<close>

definition save_agent :: "agent \<Rightarrow> swarm \<Rightarrow> store_error + swarm" where
  "save_agent a s =
     (if ag_id a = [] \<or> ag_index a < 1 \<or> ag_role a = []
      then Inl (ValueError ''agent registry entry requires runtime id, positive display index, and role'')
      else if exists_row (\<lambda>b. ag_id b = ag_id a) (sw_agents s)
      then Inr (s\<lparr>sw_agents := update_where (\<lambda>b. ag_id b = ag_id a) (\<lambda>b. b\<lparr>ag_state := ag_state a\<rparr>) (sw_agents s)\<rparr>)
      else if (case ag_run a of None \<Rightarrow> False | Some r \<Rightarrow> r \<notin> set (sw_runs s))
      then Inl (IntegrityError ''FOREIGN KEY ultra_runs(id)'')
      else Inr (s\<lparr>sw_agents := sw_agents s @ [a]\<rparr>))"

definition list_agent_registry :: "string \<Rightarrow> swarm \<Rightarrow> agent list" where
  "list_agent_registry run s =
     sort_key (\<lambda>a. (ag_index a, ag_id a)) (filter (\<lambda>a. ag_run a = Some run) (sw_agents s))"

definition named :: "string list \<Rightarrow> string list" where
  "named xs = dict_fromkeys (filter (\<lambda>x. strip x \<noteq> []) xs)"

definition elect_consensus_leader :: "string \<Rightarrow> string list \<Rightarrow> swarm \<Rightarrow> store_error + string" where
  "elect_consensus_leader run candidates s =
     (let cands = named candidates;
          registry = filter (\<lambda>a. ag_state a \<notin> {AG_CANCELLED, AG_FAILED} \<and> (cands = [] \<or> ag_id a \<in> set cands))
            (list_agent_registry run s)
      in if registry = []
         then if cands \<noteq> [] then Inr (hd (sorted_set cands)) else Inl (NotFoundError ''eligible agents'' run)
         else Inr (ag_id (hd (sort_key (\<lambda>a. (ag_index a, ag_id a)) registry))))"

definition lease_of :: "string \<Rightarrow> swarm \<Rightarrow> coordinator_lease option" where
  "lease_of run s = fetchone (\<lambda>l. le_run l = run) (sw_leases s)"

text \<open>\<open>INSERT .. ON CONFLICT(ultra_run_id) DO UPDATE\<close>.\<close>

definition put_lease :: "coordinator_lease \<Rightarrow> coordinator_lease list \<Rightarrow> coordinator_lease list" where
  "put_lease l t =
     (if exists_row (\<lambda>k. le_run k = le_run l) t then update_where (\<lambda>k. le_run k = le_run l) (\<lambda>k. l) t else t @ [l])"

definition acquire_coordinator_lease ::
    "env \<Rightarrow> string \<Rightarrow> string list \<Rightarrow> int \<Rightarrow> swarm \<Rightarrow> store_error + swarm \<times> coordinator_lease" where
  "acquire_coordinator_lease E run candidates ttl s =
     (let t = now E; expires = t + 1000000 * max 5 (min ttl 3600); cands = named candidates in
      and_then (elect_consensus_leader run cands s) (\<lambda>selected.
      let row = lease_of run s;
          (leader, token) = (case row of
              Some l \<Rightarrow> if t < le_expires_at l \<and> (cands = [] \<or> le_leader l \<in> set cands)
                then (le_leader l, le_token l) else (selected, le_token l + 1)
            | None \<Rightarrow> (selected, 1));
          new = \<lparr>le_run = run, le_leader = leader, le_token = token, le_expires_at = expires, le_updated_at = t\<rparr>
      in if row = None \<and> run \<notin> set (sw_runs s) then Inl (IntegrityError ''FOREIGN KEY ultra_runs(id)'')
         else Inr (s\<lparr>sw_leases := put_lease new (sw_leases s)\<rparr>, new)))"

section \<open>Consensus\<close>

definition open_consensus_round ::
    "env \<Rightarrow> string \<Rightarrow> string \<Rightarrow> int \<Rightarrow> string option \<Rightarrow> string list \<Rightarrow> swarm \<Rightarrow> store_error + swarm \<times> string" where
  "open_consensus_round E run topic quorum leader candidates s =
     and_then (case leader of
         Some l \<Rightarrow> if l \<noteq> [] then Inr l else elect_consensus_leader run candidates s
       | None \<Rightarrow> elect_consensus_leader run candidates s) (\<lambda>l.
     and_then (mk_round \<lparr>cr_run = run, cr_topic = topic, cr_leader = l, cr_quorum = quorum, cr_status = CS_OPEN,
       cr_decision = [], cr_id = fresh E ''consensus'' 0, cr_created_at = now E, cr_updated_at = now E,
       cr_closed_at = None\<rparr>) (\<lambda>r.
     if run \<notin> set (sw_runs s) then Inl (NotFoundError ''ULTRA run'' run)
     else and_then (insert_row (IntegrityError ''consensus_rounds.id'') cr_id r (sw_rounds s))
       (\<lambda>t. Inr (s\<lparr>sw_rounds := t\<rparr>, cr_id r))))"

definition find_round :: "string \<Rightarrow> swarm \<Rightarrow> store_error + consensus_round" where
  "find_round i s =
     (case fetchone (\<lambda>r. cr_id r = i) (sw_rounds s) of None \<Rightarrow> Inl (NotFoundError ''consensus round'' i) | Some r \<Rightarrow> Inr r)"

definition list_consensus_votes :: "string \<Rightarrow> swarm \<Rightarrow> vote list" where
  "list_consensus_votes i s = sort_key (\<lambda>v. (vt_created_at v, vt_voter v)) (filter (\<lambda>v. vt_round v = i) (sw_votes s))"

definition get_consensus_round :: "string \<Rightarrow> swarm \<Rightarrow> store_error + consensus_round \<times> vote list" where
  "get_consensus_round i s = and_then (find_round i s) (\<lambda>r. Inr (r, list_consensus_votes i s))"

definition set_round :: "string \<Rightarrow> (consensus_round \<Rightarrow> consensus_round) \<Rightarrow> swarm \<Rightarrow> swarm" where
  "set_round i f s = s\<lparr>sw_rounds := update_where (\<lambda>r. cr_id r = i) f (sw_rounds s)\<rparr>"

definition decisive_votes :: "vote list \<Rightarrow> vote list" where
  "decisive_votes vs = filter (\<lambda>v. vt_verdict v \<in> {''accept'', ''reject''}) vs"

definition confidences :: "string \<Rightarrow> vote list \<Rightarrow> rat list" where
  "confidences verdict vs = map vt_confidence (filter (\<lambda>v. vt_verdict v = verdict) (decisive_votes vs))"

text \<open>\<open>sum\<close> of no floats is the integer 0.\<close>

definition total :: "(rat list \<Rightarrow> rat) \<Rightarrow> rat list \<Rightarrow> rat" where
  "total fsum xs = (if xs = [] then 0 else fsum xs)"

definition total_json :: "(rat list \<Rightarrow> rat) \<Rightarrow> rat list \<Rightarrow> json" where
  "total_json fsum xs = (if xs = [] then JInt 0 else JFloat (fsum xs))"

definition tally_status :: "(rat list \<Rightarrow> rat) \<Rightarrow> vote list \<Rightarrow> consensus_status" where
  "tally_status fsum vs =
     (let a = total fsum (confidences ''accept'' vs); r = total fsum (confidences ''reject'' vs) in
      if r < a then CS_ACCEPTED else if a < r then CS_REJECTED else CS_TIED)"

definition tally_decision :: "(rat list \<Rightarrow> rat) \<Rightarrow> int \<Rightarrow> vote list \<Rightarrow> json_obj" where
  "tally_decision fsum quorum vs =
     [(''verdict'', JStr (case tally_status fsum vs of CS_ACCEPTED \<Rightarrow> ''accept'' | CS_REJECTED \<Rightarrow> ''reject'' | _ \<Rightarrow> ''tie'')),
      (''accept_score'', total_json fsum (confidences ''accept'' vs)),
      (''reject_score'', total_json fsum (confidences ''reject'' vs)),
      (''quorum'', JInt quorum), (''votes'', JInt (int (length (decisive_votes vs))))]"

definition tally_consensus_round :: "(rat list \<Rightarrow> rat) \<Rightarrow> env \<Rightarrow> string \<Rightarrow> swarm \<Rightarrow> store_error + swarm" where
  "tally_consensus_round fsum E i s =
     and_then (get_consensus_round i s) (\<lambda>(r, vs).
     if cr_status r \<noteq> CS_OPEN then Inr s
     else if int (length (decisive_votes vs)) < cr_quorum r then Inr s
     else Inr (set_round i (\<lambda>q. q\<lparr>cr_status := tally_status fsum vs, cr_decision := tally_decision fsum (cr_quorum r) vs,
            cr_updated_at := now E, cr_closed_at := Some (now E)\<rparr>) s))"

definition put_vote :: "vote \<Rightarrow> vote list \<Rightarrow> vote list" where
  "put_vote v t =
     (if exists_row (\<lambda>w. vt_round w = vt_round v \<and> vt_voter w = vt_voter v) t
      then update_where (\<lambda>w. vt_round w = vt_round v \<and> vt_voter w = vt_voter v) (\<lambda>w. v) t else t @ [v])"

definition cast_vote :: "vote \<Rightarrow> swarm \<Rightarrow> store_error + swarm" where
  "cast_vote v0 s =
     and_then (mk_vote v0) (\<lambda>v.
     and_then (find_round (vt_round v) s) (\<lambda>r.
     if cr_status r \<noteq> CS_OPEN then Inl (StateStoreError ''cannot vote on a closed consensus round'')
     else Inr (s\<lparr>sw_votes := put_vote v (sw_votes s)\<rparr>)))"

definition record_consensus_vote :: "(rat list \<Rightarrow> rat) \<Rightarrow> env \<Rightarrow> vote \<Rightarrow> swarm \<Rightarrow> store_error + swarm" where
  "record_consensus_vote fsum E v s = and_then (cast_vote v s) (tally_consensus_round fsum E (vt_round v))"

definition resolve_consensus_tie ::
    "env \<Rightarrow> string \<Rightarrow> string \<Rightarrow> string \<Rightarrow> rat \<Rightarrow> string \<Rightarrow> json_obj \<Rightarrow> swarm \<Rightarrow> store_error + swarm" where
  "resolve_consensus_tie E i judge verdict confidence rationale evidence s =
     (let normalized = casefold (strip verdict) in
      if normalized \<notin> {''accept'', ''reject''} then Inl (ValueError ''judge verdict must be accept or reject'')
      else and_then (find_round i s) (\<lambda>r.
        if cr_status r \<noteq> CS_TIED
        then Inl (StateStoreError ''an independent judge may resolve only a tied consensus round'')
        else Inr (set_round i (\<lambda>q. q\<lparr>cr_status := (if normalized = ''accept'' then CS_ACCEPTED else CS_REJECTED),
          cr_decision := obj_merge (cr_decision r)
            [(''verdict'', JStr normalized), (''resolved_from'', JStr ''tie''), (''judge_agent_id'', JStr judge),
             (''judge_confidence'', JFloat (unit_interval confidence)), (''judge_rationale'', JStr rationale),
             (''judge_evidence'', JObj evidence)],
          cr_updated_at := now E, cr_closed_at := Some (now E)\<rparr>) s)))"

section \<open>The system\<close>

datatype (plugins only: code size) swarm_op =
    PostMessage message | ConsumeMessage env string | SaveAgent agent
  | LeaseCoordinator env string "string list" int
  | OpenRound env string string int "string option" "string list"
  | CastVote vote | RecordVote env vote | Tally env string
  | ResolveTie env string string string rat string json_obj

fun exec_swarm :: "(rat list \<Rightarrow> rat) \<Rightarrow> swarm_op \<Rightarrow> swarm \<Rightarrow> store_error + swarm" where
  "exec_swarm fsum (PostMessage m) s = post_swarm_message m s"
| "exec_swarm fsum (ConsumeMessage E i) s = mark_swarm_message_consumed E i s"
| "exec_swarm fsum (SaveAgent a) s = save_agent a s"
| "exec_swarm fsum (LeaseCoordinator E run cands ttl) s =
     and_then (acquire_coordinator_lease E run cands ttl s) (\<lambda>(t, l). Inr t)"
| "exec_swarm fsum (OpenRound E run topic quorum leader cands) s =
     and_then (open_consensus_round E run topic quorum leader cands s) (\<lambda>(t, i). Inr t)"
| "exec_swarm fsum (CastVote v) s = cast_vote v s"
| "exec_swarm fsum (RecordVote E v) s = record_consensus_vote fsum E v s"
| "exec_swarm fsum (Tally E i) s = tally_consensus_round fsum E i s"
| "exec_swarm fsum (ResolveTie E i judge verdict c rationale evidence) s =
     resolve_consensus_tie E i judge verdict c rationale evidence s"

end
