(* ===== verification/Swarm_Safety.thy ===== *)
theory Swarm_Safety
  imports Swarm
begin

text \<open>
  What every use of the swarm tables keeps: closed consensus rounds are decided by a quorum of
  the votes they have, or by a judge after a tie; a closed round keeps its votes and its decision;
  fencing tokens only grow and a token names one leader; messages are consumed once.
\<close>

section \<open>The invariant\<close>

definition judged :: "consensus_round \<Rightarrow> bool" where
  "judged r \<longleftrightarrow> (cr_status r = CS_ACCEPTED \<or> cr_status r = CS_REJECTED) \<and>
     obj_get (cr_decision r) ''resolved_from'' = Some (JStr ''tie'') \<and>
     (\<exists>j. obj_get (cr_decision r) ''judge_agent_id'' = Some (JStr j)) \<and>
     obj_get (cr_decision r) ''verdict'' = Some (JStr (if cr_status r = CS_ACCEPTED then ''accept'' else ''reject''))"

definition decided_by :: "(rat list \<Rightarrow> rat) \<Rightarrow> vote list \<Rightarrow> consensus_round \<Rightarrow> bool" where
  "decided_by fsum vs r \<longleftrightarrow> cr_quorum r \<le> int (length (decisive_votes vs)) \<and>
     (cr_status r = tally_status fsum vs \<and> cr_decision r = tally_decision fsum (cr_quorum r) vs \<or>
      tally_status fsum vs = CS_TIED \<and> judged r)"

definition round_ok :: "(rat list \<Rightarrow> rat) \<Rightarrow> swarm \<Rightarrow> consensus_round \<Rightarrow> bool" where
  "round_ok fsum s r \<longleftrightarrow> 1 \<le> cr_quorum r \<and> (cr_closed_at r = None \<longleftrightarrow> cr_status r = CS_OPEN) \<and>
     (cr_status r = CS_OPEN \<or> decided_by fsum (list_consensus_votes (cr_id r) s) r)"

definition swarm_ok :: "(rat list \<Rightarrow> rat) \<Rightarrow> swarm \<Rightarrow> bool" where
  "swarm_ok fsum s \<longleftrightarrow> distinct (map cr_id (sw_rounds s)) \<and>
     distinct (map (\<lambda>v. (vt_round v, vt_voter v)) (sw_votes s)) \<and>
     distinct (map le_run (sw_leases s)) \<and> list_all (\<lambda>l. 1 \<le> le_token l) (sw_leases s) \<and>
     distinct (map sm_id (sw_messages s)) \<and> list_all (round_ok fsum s) (sw_rounds s)"

section \<open>The history\<close>

definition message_step :: "message_row \<Rightarrow> message_row \<Rightarrow> bool" where
  "message_step m n \<longleftrightarrow> n = m \<or> sm_consumed_at m = None \<and> (\<exists>t. n = m\<lparr>sm_consumed_at := Some t\<rparr>)"

definition round_step :: "consensus_round \<Rightarrow> consensus_round \<Rightarrow> bool" where
  "round_step r q \<longleftrightarrow> q = r \<or>
     (cr_id q, cr_run q, cr_topic q, cr_leader q, cr_quorum q, cr_created_at q) =
     (cr_id r, cr_run r, cr_topic r, cr_leader r, cr_quorum r, cr_created_at r) \<and>
     (cr_status r = CS_OPEN \<and> cr_status q \<noteq> CS_OPEN \<or>
      cr_status r = CS_TIED \<and> (cr_status q = CS_ACCEPTED \<or> cr_status q = CS_REJECTED))"

definition lease_step :: "coordinator_lease \<Rightarrow> coordinator_lease \<Rightarrow> bool" where
  "lease_step l k \<longleftrightarrow> le_run k = le_run l \<and> (le_token l < le_token k \<or> le_token k = le_token l \<and> le_leader k = le_leader l)"

definition votes_frozen :: "swarm \<Rightarrow> swarm \<Rightarrow> bool" where
  "votes_frozen s t \<longleftrightarrow>
     list_all (\<lambda>r. cr_status r = CS_OPEN \<or> list_consensus_votes (cr_id r) t = list_consensus_votes (cr_id r) s) (sw_rounds s)"

definition swarm_advance :: "swarm \<Rightarrow> swarm \<Rightarrow> bool" where
  "swarm_advance s t \<longleftrightarrow> rows_advance message_step (sw_messages s) (sw_messages t) \<and>
     rows_advance round_step (sw_rounds s) (sw_rounds t) \<and> rows_advance lease_step (sw_leases s) (sw_leases t) \<and>
     votes_frozen s t"

interpretation messages: row_history message_step
  by unfold_locales (auto simp: message_step_def)

interpretation rounds: row_history round_step
  by unfold_locales (auto simp: round_step_def)

interpretation coordinators: row_history lease_step
  by unfold_locales (auto simp: lease_step_def)

lemma swarm_advance_refl: "swarm_advance s s"
  by (simp add: swarm_advance_def votes_frozen_def list_all_iff)

lemma frozen_trans:
  assumes "rows_advance round_step (sw_rounds s) (sw_rounds t)" "votes_frozen s t" "votes_frozen t u"
  shows "votes_frozen s u"
  unfolding votes_frozen_def list_all_iff
proof
  fix r assume r: "r \<in> set (sw_rounds s)"
  from assms(1) r obtain q where q: "q \<in> set (sw_rounds t)" "round_step r q" by (rule rows_advance_mem)
  have "cr_id q = cr_id r" "cr_status r \<noteq> CS_OPEN \<Longrightarrow> cr_status q \<noteq> CS_OPEN" using q(2) by (auto simp: round_step_def)
  then show "cr_status r = CS_OPEN \<or> list_consensus_votes (cr_id r) u = list_consensus_votes (cr_id r) s"
    using assms(2,3) r q(1) unfolding votes_frozen_def list_all_iff by metis
qed

lemma swarm_advance_trans: "swarm_advance s t \<Longrightarrow> swarm_advance t u \<Longrightarrow> swarm_advance s u"
  unfolding swarm_advance_def
  by (blast intro: messages.adv_trans rounds.adv_trans coordinators.adv_trans frozen_trans)

section \<open>Operations\<close>

text \<open>Operations that leave rounds and votes alone.\<close>

lemma round_ok_cong: "sw_votes t = sw_votes s \<Longrightarrow> round_ok fsum t = round_ok fsum s"
  by (rule ext) (simp add: round_ok_def list_consensus_votes_def)

lemma frozen_cong: "sw_votes t = sw_votes s \<Longrightarrow> votes_frozen s t"
  by (simp add: votes_frozen_def list_consensus_votes_def list_all_iff)

lemma ok_same_rounds:
  assumes "swarm_ok fsum s" "sw_rounds t = sw_rounds s" "sw_votes t = sw_votes s"
    "distinct (map le_run (sw_leases t))" "list_all (\<lambda>l. 1 \<le> le_token l) (sw_leases t)" "distinct (map sm_id (sw_messages t))"
  shows "swarm_ok fsum t"
  using assms round_ok_cong [OF assms(3)] by (simp add: swarm_ok_def)

lemma post_ok:
  assumes "swarm_ok fsum s" "post_swarm_message m s = Inr t"
  shows "swarm_ok fsum t \<and> swarm_advance s t"
proof -
  from assms(2) obtain r where t: "t = s\<lparr>sw_messages := sw_messages s @ [r]\<rparr>" "sm_id r \<notin> sm_id ` set (sw_messages s)"
    by (auto simp: post_swarm_message_def insert_row_Inr message.extend_def elim!: and_then_InrE split: if_splits)
  show ?thesis
  proof
    show "swarm_ok fsum t" by (rule ok_same_rounds [OF assms(1)]) (use assms(1) t in \<open>auto simp: swarm_ok_def\<close>)
    show "swarm_advance s t" using t(1) frozen_cong [of t s] by (simp add: swarm_advance_def)
  qed
qed

lemma consume_ok:
  assumes "swarm_ok fsum s" "mark_swarm_message_consumed E i s = Inr t"
  shows "swarm_ok fsum t \<and> swarm_advance s t"
proof -
  let ?f = "\<lambda>m. m\<lparr>sm_consumed_at := (case sm_consumed_at m of None \<Rightarrow> Some (now E) | Some t \<Rightarrow> Some t)\<rparr>"
  from assms(2) have t: "t = s\<lparr>sw_messages := update_where (\<lambda>m. sm_id m = i) ?f (sw_messages s)\<rparr>"
    by (auto simp: mark_swarm_message_consumed_def split: if_splits)
  have step: "message_step m (?f m)" for m
    by (cases "sm_consumed_at m") (auto simp: message_step_def)
  show ?thesis
  proof
    show "swarm_ok fsum t"
      by (rule ok_same_rounds [OF assms(1)]) (use assms(1) t in \<open>auto simp: swarm_ok_def table_simps\<close>)
    show "swarm_advance s t" using t frozen_cong [of t s] step by (auto simp: swarm_advance_def)
  qed
qed

lemma agent_ok:
  assumes "swarm_ok fsum s" "save_agent a s = Inr t"
  shows "swarm_ok fsum t \<and> swarm_advance s t"
proof -
  from assms(2) obtain as where t: "t = s\<lparr>sw_agents := as\<rparr>"
    by (auto simp: save_agent_def split: if_splits)
  show ?thesis
    using t assms(1) ok_same_rounds [OF assms(1), of t] frozen_cong [of t s] by (simp add: swarm_advance_def swarm_ok_def)
qed

lemma put_lease_distinct:
  "distinct (map le_run ls) \<Longrightarrow> distinct (map le_run (put_lease l ls))"
  by (auto simp: put_lease_def table_simps)

lemma lease_ok:
  assumes "swarm_ok fsum s" "acquire_coordinator_lease E run cands ttl s = Inr (t, l)"
  shows "swarm_ok fsum t \<and> swarm_advance s t"
proof -
  define cs where "cs = named cands"
  from assms(2) obtain selected where t: "t = s\<lparr>sw_leases := put_lease l (sw_leases s)\<rparr>" and run: "le_run l = run"
    and l: "case lease_of run s of
        Some k \<Rightarrow> if now E < le_expires_at k \<and> (cs = [] \<or> le_leader k \<in> set cs)
          then le_leader l = le_leader k \<and> le_token l = le_token k else le_token l = le_token k + 1
      | None \<Rightarrow> le_token l = 1"
    unfolding cs_def acquire_coordinator_lease_def
    by (auto simp: Let_def elim!: and_then_InrE split: if_splits option.splits)
  have step: "lease_step k l" if k: "k \<in> set (sw_leases s)" "le_run k = run" for k
  proof -
    have "lease_of run s = Some k"
      using assms(1) k fetchone_key [of le_run "sw_leases s" k] by (simp add: lease_of_def swarm_ok_def)
    with l run k(2) show ?thesis by (auto simp: lease_step_def split: if_splits)
  qed
  have "rows_advance lease_step (sw_leases s) (put_lease l (sw_leases s))"
    using step run by (auto simp: put_lease_def)
  moreover have "swarm_ok fsum t"
  proof (rule ok_same_rounds [OF assms(1)])
    have old: "1 \<le> le_token k" if "k \<in> set (sw_leases s)" for k
      using assms(1) that by (simp add: swarm_ok_def list_all_iff)
    then have "1 \<le> le_token l"
      using l fetchone_Some [of _ "sw_leases s"] by (fastforce simp: lease_of_def split: option.splits if_splits)
    with old show "list_all (\<lambda>l. 1 \<le> le_token l) (sw_leases t)"
      unfolding list_all_iff t by (auto simp: put_lease_def elim: in_update_whereE split: if_splits)
  qed (use assms(1) t put_lease_distinct in \<open>auto simp: swarm_ok_def\<close>)
  ultimately show ?thesis using t frozen_cong [of t s] by (simp add: swarm_advance_def)
qed

lemma open_ok:
  assumes "swarm_ok fsum s" "open_consensus_round E run topic quorum leader cands s = Inr (t, i)"
  shows "swarm_ok fsum t \<and> swarm_advance s t"
proof -
  from assms(2) obtain r where t: "t = s\<lparr>sw_rounds := sw_rounds s @ [r]\<rparr>" "cr_id r \<notin> cr_id ` set (sw_rounds s)"
    and r: "cr_status r = CS_OPEN" "cr_closed_at r = None" "1 \<le> cr_quorum r"
    unfolding open_consensus_round_def
    by (auto simp: insert_row_Inr mk_round_def elim!: and_then_InrE split: if_splits)
  have "round_ok fsum t = round_ok fsum s" by (rule round_ok_cong) (simp add: t)
  moreover have "round_ok fsum t r" using r by (simp add: round_ok_def)
  ultimately have "swarm_ok fsum t" using assms(1) t by (simp add: swarm_ok_def image_iff)
  then show ?thesis using t frozen_cong [of t s] by (simp add: swarm_advance_def)
qed

text \<open>Closing a round with a decision its votes justify.\<close>

lemma set_round_ok:
  assumes ok: "swarm_ok fsum s" and r: "r \<in> set (sw_rounds s)" "cr_id r = i"
    and step: "round_step r (f r)" and new: "round_ok fsum s (f r)"
  shows "swarm_ok fsum (set_round i f s) \<and> swarm_advance s (set_round i f s)"
proof -
  let ?t = "set_round i f s"
  have votes: "sw_votes ?t = sw_votes s" by (simp add: set_round_def)
  have only: "q = r" if "q \<in> set (sw_rounds s)" "cr_id q = i" for q
    using ok r that key_unique [of cr_id "sw_rounds s" q r] by (simp add: swarm_ok_def)
  have id: "cr_id (f r) = cr_id r" using step by (auto simp: round_step_def)
  have upd: "update_where (\<lambda>q. cr_id q = i) f (sw_rounds s) = update_where (\<lambda>q. cr_id q = i) (\<lambda>q. f r) (sw_rounds s)"
    unfolding update_where_def using only by (intro map_cong) auto
  have "distinct (map cr_id (sw_rounds ?t))"
    unfolding set_round_def using ok id r(2) upd by (simp add: table_simps swarm_ok_def)
  moreover have "list_all (round_ok fsum ?t) (sw_rounds ?t)"
    unfolding round_ok_cong [OF votes] list_all_iff
  proof
    fix q assume "q \<in> set (sw_rounds ?t)"
    then have "q \<in> set (sw_rounds s) \<or> q = f r"
      unfolding set_round_def upd by (auto elim: in_update_whereE)
    then show "round_ok fsum s q" using ok new by (auto simp: swarm_ok_def list_all_iff)
  qed
  ultimately have "swarm_ok fsum ?t" using ok by (simp add: swarm_ok_def set_round_def)
  moreover have "rows_advance round_step (sw_rounds s) (sw_rounds ?t)"
    unfolding set_round_def upd using only step by (auto intro!: rounds.adv_update)
  ultimately show ?thesis using frozen_cong [OF votes] by (simp add: swarm_advance_def set_round_def)
qed

lemma find_round_Inr: "find_round i s = Inr r \<Longrightarrow> r \<in> set (sw_rounds s) \<and> cr_id r = i"
  by (auto simp: find_round_def dest: fetchone_Some split: option.splits)

lemma tally_status_closed: "tally_status fsum vs \<noteq> CS_OPEN"
  by (simp add: tally_status_def Let_def)

lemma tally_ok:
  assumes ok: "swarm_ok fsum s" and run: "tally_consensus_round fsum E i s = Inr t"
  shows "swarm_ok fsum t \<and> swarm_advance s t"
proof -
  let ?vs = "list_consensus_votes i s"
  from run obtain r where r: "find_round i s = Inr r"
    by (auto simp: tally_consensus_round_def get_consensus_round_def elim!: and_then_InrE)
  let ?f = "\<lambda>q. q\<lparr>cr_status := tally_status fsum ?vs, cr_decision := tally_decision fsum (cr_quorum r) ?vs,
            cr_updated_at := now E, cr_closed_at := Some (now E)\<rparr>"
  from run r consider "t = s" | "cr_status r = CS_OPEN" "cr_quorum r \<le> int (length (decisive_votes ?vs))" "t = set_round i ?f s"
    by (auto simp: tally_consensus_round_def get_consensus_round_def split: if_splits)
  then show ?thesis
  proof cases
    case 1
    with ok swarm_advance_refl show ?thesis by simp
  next
    case 2
    note mem = find_round_Inr [OF r]
    have q: "1 \<le> cr_quorum r" using ok mem by (auto simp: swarm_ok_def list_all_iff round_ok_def)
    have "round_step r (?f r)" using 2(1) tally_status_closed by (simp add: round_step_def)
    moreover have "round_ok fsum s (?f r)" using 2(2) q mem tally_status_closed by (simp add: round_ok_def decided_by_def)
    ultimately show ?thesis unfolding 2(3) using set_round_ok [OF ok, of r i ?f] mem by blast
  qed
qed

lemma tie_ok:
  assumes ok: "swarm_ok fsum s" and run: "resolve_consensus_tie E i judge verdict c rationale evidence s = Inr t"
  shows "swarm_ok fsum t \<and> swarm_advance s t"
proof -
  let ?n = "casefold (strip verdict)"
  let ?d = "[(''verdict'', JStr ?n), (''resolved_from'', JStr ''tie''), (''judge_agent_id'', JStr judge),
             (''judge_confidence'', JFloat (unit_interval c)), (''judge_rationale'', JStr rationale),
             (''judge_evidence'', JObj evidence)]"
  from run obtain r where r: "find_round i s = Inr r" and tied: "cr_status r = CS_TIED" and n: "?n \<in> {''accept'', ''reject''}"
    and t: "t = set_round i (\<lambda>q. q\<lparr>cr_status := (if ?n = ''accept'' then CS_ACCEPTED else CS_REJECTED),
          cr_decision := obj_merge (cr_decision r) ?d, cr_updated_at := now E, cr_closed_at := Some (now E)\<rparr>) s"
    unfolding resolve_consensus_tie_def Let_def by (auto elim!: and_then_InrE split: if_splits)
  let ?f = "\<lambda>q. q\<lparr>cr_status := (if ?n = ''accept'' then CS_ACCEPTED else CS_REJECTED),
          cr_decision := obj_merge (cr_decision r) ?d, cr_updated_at := now E, cr_closed_at := Some (now E)\<rparr>"
  note mem = find_round_Inr [OF r]
  have old: "round_ok fsum s r" using ok mem by (auto simp: swarm_ok_def list_all_iff)
  have get: "obj_get (obj_merge (cr_decision r) ?d) k = (case obj_get ?d k of Some v \<Rightarrow> Some v | None \<Rightarrow> obj_get (cr_decision r) k)" for k
    by (rule obj_get_merge) simp
  have "judged (?f r)" using n unfolding judged_def by (auto simp: get simp del: obj_merge.simps)
  moreover have "tally_status fsum (list_consensus_votes i s) = CS_TIED"
    "1 \<le> cr_quorum r" "cr_quorum r \<le> int (length (decisive_votes (list_consensus_votes i s)))"
    using old tied mem by (auto simp: round_ok_def decided_by_def)
  ultimately have "round_ok fsum s (?f r)" using mem by (simp add: round_ok_def decided_by_def)
  moreover have "round_step r (?f r)" using tied by (simp add: round_step_def)
  ultimately show ?thesis unfolding t using set_round_ok [OF ok, of r i ?f] mem by blast
qed

lemma put_vote_other:
  "i \<noteq> vt_round v \<Longrightarrow> filter (\<lambda>w. vt_round w = i) (put_vote v vs) = filter (\<lambda>w. vt_round w = i) vs"
proof -
  assume i: "i \<noteq> vt_round v"
  have "filter (\<lambda>w. vt_round w = i) (update_where (\<lambda>w. vt_round w = vt_round v \<and> vt_voter w = vt_voter v) (\<lambda>w. v) vs) =
      filter (\<lambda>w. vt_round w = i) vs"
    using i unfolding update_where_def by (induction vs) auto
  with i show ?thesis by (simp add: put_vote_def)
qed

lemma put_vote_distinct:
  "distinct (map (\<lambda>v. (vt_round v, vt_voter v)) vs) \<Longrightarrow> distinct (map (\<lambda>v. (vt_round v, vt_voter v)) (put_vote v vs))"
proof -
  assume d: "distinct (map (\<lambda>v. (vt_round v, vt_voter v)) vs)"
  have "map (\<lambda>v. (vt_round v, vt_voter v)) (update_where (\<lambda>w. vt_round w = vt_round v \<and> vt_voter w = vt_voter v) (\<lambda>w. v) vs) =
      map (\<lambda>v. (vt_round v, vt_voter v)) vs"
    by (rule map_update_where) simp
  with d show ?thesis by (auto simp: put_vote_def)
qed

lemma cast_ok:
  assumes ok: "swarm_ok fsum s" and run: "cast_vote v0 s = Inr t"
  shows "swarm_ok fsum t \<and> swarm_advance s t"
proof -
  from run obtain v r where r: "find_round (vt_round v) s = Inr r" "cr_status r = CS_OPEN"
    and t: "t = s\<lparr>sw_votes := put_vote v (sw_votes s)\<rparr>"
    unfolding cast_vote_def by (auto elim!: and_then_InrE split: if_splits)
  note mem = find_round_Inr [OF r(1)]
  have closed: "cr_id q \<noteq> vt_round v" if "q \<in> set (sw_rounds s)" "cr_status q \<noteq> CS_OPEN" for q
    using ok mem r(2) that key_unique [of cr_id "sw_rounds s" q r] by (auto simp: swarm_ok_def)
  have same: "list_consensus_votes (cr_id q) t = list_consensus_votes (cr_id q) s"
    if "q \<in> set (sw_rounds s)" "cr_status q \<noteq> CS_OPEN" for q
    using closed [OF that] unfolding list_consensus_votes_def t by (simp add: put_vote_other)
  have "list_all (round_ok fsum t) (sw_rounds s)"
    unfolding list_all_iff
  proof
    fix q assume q: "q \<in> set (sw_rounds s)"
    then have "round_ok fsum s q" using ok by (auto simp: swarm_ok_def list_all_iff)
    then show "round_ok fsum t q" using same [OF q] by (cases "cr_status q = CS_OPEN") (auto simp: round_ok_def)
  qed
  then have "swarm_ok fsum t" using ok put_vote_distinct t by (simp add: swarm_ok_def)
  moreover have "votes_frozen s t" using same by (auto simp: votes_frozen_def list_all_iff)
  ultimately show ?thesis using t by (simp add: swarm_advance_def)
qed

lemma record_ok:
  assumes "swarm_ok fsum s" "record_consensus_vote fsum E v s = Inr t"
  shows "swarm_ok fsum t \<and> swarm_advance s t"
proof -
  from assms(2) obtain u where u: "cast_vote v s = Inr u" "tally_consensus_round fsum E (vt_round v) u = Inr t"
    by (auto simp: record_consensus_vote_def elim: and_then_InrE)
  show ?thesis using cast_ok [OF assms(1) u(1)] tally_ok [OF _ u(2)] swarm_advance_trans by blast
qed

lemma exec_swarm_ok: "swarm_ok fsum s \<Longrightarrow> exec_swarm fsum p s = Inr t \<Longrightarrow> swarm_ok fsum t \<and> swarm_advance s t"
  by (cases p) (auto elim!: and_then_InrE
      dest: post_ok consume_ok agent_ok cast_ok record_ok tally_ok tie_ok lease_ok open_ok)

interpretation swarm_run: op_relation "exec_swarm fsum" "swarm_ok fsum" swarm_advance for fsum
  by unfold_locales (auto dest: exec_swarm_ok intro: swarm_advance_refl swarm_advance_trans)

lemma empty_swarm_ok: "swarm_ok fsum (empty_swarm runs)"
  by (simp add: swarm_ok_def empty_swarm_def)

lemma reachable_swarm_ok: "swarm_ok fsum (run_ops (exec_swarm fsum) ops (empty_swarm runs))"
  by (rule swarm_run.run_inv) (rule empty_swarm_ok)

section \<open>Votes\<close>

text \<open>Recording a vote leaves the round open only while the quorum is missing.\<close>

lemma record_tallies:
  assumes "swarm_ok fsum s" "record_consensus_vote fsum E v s = Inr t"
  shows "\<exists>r \<in> set (sw_rounds t). cr_id r = vt_round v \<and>
    (cr_status r = CS_OPEN \<longleftrightarrow> int (length (decisive_votes (list_consensus_votes (vt_round v) t))) < cr_quorum r)"
proof -
  from assms(2) obtain u where u: "cast_vote v s = Inr u" "tally_consensus_round fsum E (vt_round v) u = Inr t"
    by (auto simp: record_consensus_vote_def elim: and_then_InrE)
  have ok: "swarm_ok fsum t" using record_ok [OF assms] by blast
  from u(2) obtain r where r: "find_round (vt_round v) u = Inr r"
    by (auto simp: tally_consensus_round_def get_consensus_round_def elim!: and_then_InrE)
  have "cr_status r = CS_OPEN"
  proof -
    from u(1) obtain w q where w: "mk_vote v = Inr w" "find_round (vt_round w) s = Inr q" "cr_status q = CS_OPEN" "sw_rounds u = sw_rounds s"
      unfolding cast_vote_def by (auto elim!: and_then_InrE split: if_splits)
    have "vt_round w = vt_round v" using w(1) by (auto simp: mk_vote_def Let_def split: if_splits)
    with r w show ?thesis by (simp add: find_round_def)
  qed
  note mem = find_round_Inr [OF r]
  let ?vs = "list_consensus_votes (vt_round v) u"
  show ?thesis
  proof (cases "int (length (decisive_votes ?vs)) < cr_quorum r")
    case True
    then have "t = u" using u(2) r \<open>cr_status r = CS_OPEN\<close>
      by (simp add: tally_consensus_round_def get_consensus_round_def)
    with True mem \<open>cr_status r = CS_OPEN\<close> show ?thesis by blast
  next
    case False
    let ?f = "\<lambda>q. q\<lparr>cr_status := tally_status fsum ?vs, cr_decision := tally_decision fsum (cr_quorum r) ?vs,
            cr_updated_at := now E, cr_closed_at := Some (now E)\<rparr>"
    have t: "t = set_round (vt_round v) ?f u"
      using u(2) r False \<open>cr_status r = CS_OPEN\<close> by (simp add: tally_consensus_round_def get_consensus_round_def)
    have "?f r \<in> set (sw_rounds t)" unfolding t set_round_def using mem by (auto simp: set_update_where)
    moreover have "list_consensus_votes (vt_round v) t = ?vs" unfolding t set_round_def by (simp add: list_consensus_votes_def)
    ultimately show ?thesis using mem False tally_status_closed by (intro bexI [of _ "?f r"]) auto
  qed
qed

text \<open>
  The swarm only advances.  Whatever follows, messages are consumed once and never change
  otherwise, a round leaves its status only from open, or from a tie to a verdict, the votes of
  a closed round are frozen, and the fencing token of a run never decreases and names one leader.
\<close>

lemma swarm_advances:
  "swarm_advance (run_ops (exec_swarm fsum) ops (empty_swarm runs))
     (run_ops (exec_swarm fsum) later (run_ops (exec_swarm fsum) ops (empty_swarm runs)))"
  by (rule swarm_run.run_rel) (rule reachable_swarm_ok)

end
