(* ===== verification/Swarm_Coordinator.thy ===== *)
theory Swarm_Coordinator
  imports Swarm_Safety Conversions
begin

text \<open>
  \<open>agent/swarm_bus.py\<close> and \<open>agent/swarm_coordinator.py\<close>: durable delivery to subscribers and the
  proposal, voting and decision workflow.  Each call of the store is a transaction of its own, so
  an action returns the state it leaves also when it raises.  \<open>E k\<close> is what the k-th call reads
  from its environment.  A callback is named by a number; what it does, and what it raises, does
  not reach the bus.
\<close>

section \<open>The bus\<close>

record subscription =
  sb_run :: string
  sb_callback :: nat
  sb_recipient :: "string option"
  sb_prefix :: "string option"
  sb_type :: "message_type option"

definition matches :: "subscription \<Rightarrow> message_row \<Rightarrow> bool" where
  "matches b m \<longleftrightarrow> sm_run m = sb_run b \<and>
     (case sb_recipient b of None \<Rightarrow> True | Some r \<Rightarrow> sm_recipient m = r) \<and>
     (case sb_prefix b of None \<Rightarrow> True | Some p \<Rightarrow> take (length p) (sm_topic m) = p) \<and>
     (case sb_type b of None \<Rightarrow> True | Some t \<Rightarrow> sm_type m = t)"

record net =
  nt_swarm :: swarm
  nt_subs :: "subscription list"
  nt_called :: "(nat \<times> message_row) list"

type_synonym 'a action = "net \<Rightarrow> (store_error + 'a) \<times> net"

definition seq :: "'a action \<Rightarrow> ('a \<Rightarrow> 'b action) \<Rightarrow> 'b action" where
  "seq m f n = (case m n of (Inl e, n') \<Rightarrow> (Inl e, n') | (Inr x, n') \<Rightarrow> f x n')"

definition give :: "'a \<Rightarrow> 'a action" where
  "give x n = (Inr x, n)"

definition fail :: "store_error \<Rightarrow> 'a action" where
  "fail e n = (Inl e, n)"

text \<open>A transaction of the store; a read of the store.\<close>

definition transact :: "(swarm \<Rightarrow> store_error + swarm \<times> 'a) \<Rightarrow> 'a action" where
  "transact f n = (case f (nt_swarm n) of Inl e \<Rightarrow> (Inl e, n) | Inr (s, x) \<Rightarrow> (Inr x, n\<lparr>nt_swarm := s\<rparr>))"

definition query :: "(swarm \<Rightarrow> store_error + 'a) \<Rightarrow> 'a action" where
  "query f n = (f (nt_swarm n), n)"

definition subscribe :: "subscription \<Rightarrow> net \<Rightarrow> net" where
  "subscribe b n = n\<lparr>nt_subs := nt_subs n @ [b]\<rparr>"

definition unsubscribe :: "subscription \<Rightarrow> net \<Rightarrow> net" where
  "unsubscribe b n = n\<lparr>nt_subs := remove1 b (nt_subs n)\<rparr>"

definition notify :: "message_row \<Rightarrow> net \<Rightarrow> net" where
  "notify m n = n\<lparr>nt_called := nt_called n @ map (\<lambda>b. (sb_callback b, m)) (filter (\<lambda>b. matches b m) (nt_subs n))\<rparr>"

definition publish :: "message \<Rightarrow> message_row action" where
  "publish m =
     seq (transact (\<lambda>s. and_then (post_swarm_message m s) (\<lambda>t. Inr (t, ())))) (\<lambda>_.
     seq (query (get_swarm_message (sm_id m))) (\<lambda>row n. (Inr row, notify row n)))"

fun drain_loop :: "(nat \<Rightarrow> env) \<Rightarrow> bool \<Rightarrow> message_row list \<Rightarrow> unit action" where
  "drain_loop E ack [] = give ()"
| "drain_loop E ack (m # ms) =
     (\<lambda>n. (if ack
        then seq (transact (\<lambda>s. and_then (mark_swarm_message_consumed (E 0) (sm_id m) s) (\<lambda>t. Inr (t, ()))))
               (\<lambda>_. drain_loop (\<lambda>k. E (Suc k)) ack ms)
        else drain_loop (\<lambda>k. E (Suc k)) ack ms) (notify m n))"

definition drain ::
    "(nat \<Rightarrow> env) \<Rightarrow> string \<Rightarrow> string \<Rightarrow> string option \<Rightarrow> int \<Rightarrow> bool \<Rightarrow> message_row list action" where
  "drain E run recipient topic limit ack =
     seq (query (\<lambda>s. Inr (list_swarm_messages run (Some recipient) topic False limit s))) (\<lambda>ms.
     seq (drain_loop E ack ms) (\<lambda>_. give ms))"

section \<open>The coordinator\<close>

record workflow =
  wf_proposal :: string
  wf_round :: string
  wf_leader :: string
  wf_voters :: "string list"
  wf_requests :: "string list"

definition swarm_message :: "env \<Rightarrow> string \<Rightarrow> string \<Rightarrow> string \<Rightarrow> message_type \<Rightarrow> string \<Rightarrow> json_obj \<Rightarrow> message" where
  "swarm_message E run sender recipient kind topic payload =
     \<lparr>sm_run = run, sm_sender = sender, sm_recipient = recipient, sm_type = kind, sm_topic = topic, sm_payload = payload,
      sm_confidence = 1, sm_correlation = [], sm_parent = None, sm_fencing = 0, sm_deadline = None, sm_evidence = [],
      sm_schema = ''SwarmMessageV1'', sm_id = fresh E ''swarm_msg'' 0, sm_protocol = 1, sm_created_at = now E\<rparr>"

definition lead :: "env \<Rightarrow> string \<Rightarrow> string list \<Rightarrow> coordinator_lease action" where
  "lead E run candidates = transact (acquire_coordinator_lease E run candidates 30)"

definition default_quorum :: "string list \<Rightarrow> int option \<Rightarrow> int" where
  "default_quorum voters quorum =
     (case quorum of Some q \<Rightarrow> if q \<noteq> 0 then q else max 1 (int ((2 * length voters + 2) div 3))
      | None \<Rightarrow> max 1 (int ((2 * length voters + 2) div 3)))"

definition proposal_evidence :: "json_obj \<Rightarrow> store_error + json_obj list" where
  "proposal_evidence proposal =
     (case obj_get proposal ''evidence'' of None \<Rightarrow> Inr []
      | Some v \<Rightarrow> (case py_iter v of None \<Rightarrow> Inl (PyTypeError ''evidence'') | Some xs \<Rightarrow> Inr (mappings xs)))"

definition request_message ::
    "env \<Rightarrow> string \<Rightarrow> consensus_round \<Rightarrow> message_row \<Rightarrow> json_obj \<Rightarrow> string \<Rightarrow> int \<Rightarrow> string \<Rightarrow> message" where
  "request_message E run r proposal_row proposal topic token voter =
     (swarm_message E run (cr_leader r) voter REQUEST (''consensus-vote:'' @ cr_id r)
        [(''round_id'', JStr (cr_id r)), (''proposal_message_id'', JStr (sm_id proposal_row)), (''proposal'', JObj proposal),
         (''topic'', JStr topic), (''quorum'', JInt (cr_quorum r))])
     \<lparr>sm_correlation := cr_id r, sm_parent := Some (sm_id proposal_row), sm_fencing := token\<rparr>"

fun request_votes ::
    "(nat \<Rightarrow> env) \<Rightarrow> string \<Rightarrow> consensus_round \<Rightarrow> message_row \<Rightarrow> json_obj \<Rightarrow> string \<Rightarrow> int \<Rightarrow> string list \<Rightarrow> string list action" where
  "request_votes E run r p proposal topic token [] = give []"
| "request_votes E run r p proposal topic token (v # vs) =
     seq (publish (request_message (E 0) run r p proposal topic token v)) (\<lambda>row.
     seq (request_votes (\<lambda>k. E (Suc k)) run r p proposal topic token vs) (\<lambda>ids. give (sm_id row # ids)))"

definition propose ::
    "(nat \<Rightarrow> env) \<Rightarrow> string \<Rightarrow> string \<Rightarrow> string \<Rightarrow> json_obj \<Rightarrow> string list \<Rightarrow> int option \<Rightarrow> string option \<Rightarrow> rat \<Rightarrow> workflow action" where
  "propose E run proposer topic proposal voters0 quorum leader0 confidence =
     (let voters = named voters0 in
      if voters = [] then fail (ValueError ''swarm proposal requires at least one voter'')
      else seq (lead (E 0) run (case leader0 of None \<Rightarrow> voters | Some l \<Rightarrow> if l = [] then voters else [l])) (\<lambda>lease.
           seq (query (\<lambda>s. proposal_evidence proposal)) (\<lambda>evidence.
           seq (publish ((swarm_message (E 1) run proposer (le_leader lease) PROPOSAL topic proposal)
                  \<lparr>sm_confidence := confidence, sm_correlation := topic, sm_fencing := le_token lease, sm_evidence := evidence\<rparr>)) (\<lambda>p.
           seq (transact (open_consensus_round (E 2) run topic (default_quorum voters quorum) (Some (le_leader lease)) [le_leader lease])) (\<lambda>i.
           seq (query (get_consensus_round i)) (\<lambda>(r, vs).
           seq (request_votes (\<lambda>k. E (3 + k)) run r p proposal topic (le_token lease) voters) (\<lambda>ids.
             give \<lparr>wf_proposal = sm_id p, wf_round = cr_id r, wf_leader = cr_leader r, wf_voters = voters, wf_requests = ids\<rparr>)))))))"

definition votes_json :: "(vote \<Rightarrow> json) \<Rightarrow> vote list \<Rightarrow> json" where
  "votes_json vote_json vs = JArr (map vote_json vs)"

definition publish_decision :: "(vote \<Rightarrow> json) \<Rightarrow> (nat \<Rightarrow> env) \<Rightarrow> consensus_round \<times> vote list \<Rightarrow> message_row action" where
  "publish_decision vj E rv =
     (let (r, vs) = rv in
      seq (lead (E 0) (cr_run r) [cr_leader r]) (\<lambda>lease.
      publish ((swarm_message (E 1) (cr_run r) (cr_leader r) ''swarm'' DECISION (''consensus-decision:'' @ cr_id r)
          [(''round_id'', JStr (cr_id r)), (''status'', JStr (consensus_value (cr_status r))), (''decision'', JObj (cr_decision r)),
           (''votes'', votes_json vj vs), (''topic'', JStr (cr_topic r))])
        \<lparr>sm_confidence := (if cr_status r = CS_ACCEPTED then 1 else 0), sm_correlation := cr_id r, sm_fencing := le_token lease\<rparr>)))"

definition request_tie_break :: "(vote \<Rightarrow> json) \<Rightarrow> (nat \<Rightarrow> env) \<Rightarrow> string \<Rightarrow> consensus_round \<times> vote list \<Rightarrow> message_row action" where
  "request_tie_break vj E judge rv =
     (let (r, vs) = rv in
      seq (lead (E 0) (cr_run r) [cr_leader r]) (\<lambda>lease.
      publish ((swarm_message (E 1) (cr_run r) (cr_leader r) judge REQUEST (''consensus-tie-break:'' @ cr_id r)
          [(''round_id'', JStr (cr_id r)), (''topic'', JStr (cr_topic r)), (''decision'', JObj (cr_decision r)),
           (''votes'', votes_json vj vs), (''required_response'', JStr ''independent accept/reject verdict with evidence'')])
        \<lparr>sm_correlation := cr_id r, sm_fencing := le_token lease\<rparr>)))"

definition submit_vote ::
    "(rat list \<Rightarrow> rat) \<Rightarrow> (vote \<Rightarrow> json) \<Rightarrow> (nat \<Rightarrow> env) \<Rightarrow> string \<Rightarrow> string \<Rightarrow> string \<Rightarrow> rat \<Rightarrow> string \<Rightarrow> json_obj \<Rightarrow>
      (consensus_round \<times> vote list) action" where
  "submit_vote fsum vj E i voter verdict confidence rationale evidence =
     (let v = \<lparr>vt_round = i, vt_voter = voter, vt_verdict = verdict, vt_confidence = confidence, vt_rationale = rationale,
               vt_evidence = evidence, vt_created_at = now (E 0)\<rparr> in
      seq (transact (\<lambda>s. and_then (record_consensus_vote fsum (E 1) v s) (\<lambda>t. Inr (t, ())))) (\<lambda>_.
      seq (query (get_consensus_round i)) (\<lambda>rv.
      if cr_status (fst rv) = CS_TIED then seq (request_tie_break vj (\<lambda>k. E (2 + k)) ''independent-judge'' rv) (\<lambda>_. give rv)
      else if cr_status (fst rv) \<noteq> CS_OPEN then seq (publish_decision vj (\<lambda>k. E (2 + k)) rv) (\<lambda>_. give rv)
      else give rv)))"

definition submit_judge_verdict ::
    "(vote \<Rightarrow> json) \<Rightarrow> (nat \<Rightarrow> env) \<Rightarrow> string \<Rightarrow> string \<Rightarrow> string \<Rightarrow> rat \<Rightarrow> string \<Rightarrow> json_obj \<Rightarrow> (consensus_round \<times> vote list) action" where
  "submit_judge_verdict vj E i judge verdict confidence rationale evidence =
     seq (transact (\<lambda>s. and_then (resolve_consensus_tie (E 0) i judge verdict confidence rationale evidence s) (\<lambda>t. Inr (t, ())))) (\<lambda>_.
     seq (query (get_consensus_round i)) (\<lambda>rv.
     seq (publish_decision vj (\<lambda>k. E (1 + k)) rv) (\<lambda>d.
     seq (publish ((swarm_message (E 3) (cr_run (fst rv)) judge ''swarm'' CONSENSUS_RESULT (''consensus-result:'' @ i)
            [(''round_id'', JStr i), (''status'', JStr (consensus_value (cr_status (fst rv)))),
             (''decision'', JObj (cr_decision (fst rv))), (''decision_message_id'', JStr (sm_id d))])
          \<lparr>sm_confidence := confidence, sm_correlation := i\<rparr>)) (\<lambda>_. give rv))))"

section \<open>Every action is a run of store operations\<close>

definition store_run :: "(rat list \<Rightarrow> rat) \<Rightarrow> 'a action \<Rightarrow> bool" where
  "store_run fsum m \<longleftrightarrow> (\<forall>n. \<exists>ops. nt_swarm (snd (m n)) = run_ops (exec_swarm fsum) ops (nt_swarm n))"

named_theorems action_intros

lemma store_runD: "store_run fsum m \<Longrightarrow> \<exists>ops. nt_swarm (snd (m n)) = run_ops (exec_swarm fsum) ops (nt_swarm n)"
  by (simp add: store_run_def)

lemma store_run_same: "(\<And>n. nt_swarm (snd (m n)) = nt_swarm n) \<Longrightarrow> store_run fsum m"
  unfolding store_run_def by (intro allI exI [of _ "[]"]) simp

lemma store_run_simple [action_intros]:
  "store_run fsum (give x)" "store_run fsum (fail e)" "store_run fsum (query f)"
  "store_run fsum (\<lambda>n. (Inr x, notify row n))"
  by (rule store_run_same; simp add: give_def fail_def query_def notify_def)+

lemma store_run_seq [action_intros]:
  assumes "store_run fsum m" "\<And>x. store_run fsum (f x)"
  shows "store_run fsum (seq m f)"
  unfolding store_run_def
proof
  fix n
  obtain ops where ops: "nt_swarm (snd (m n)) = run_ops (exec_swarm fsum) ops (nt_swarm n)"
    using store_runD [OF assms(1)] by blast
  show "\<exists>ops. nt_swarm (snd (seq m f n)) = run_ops (exec_swarm fsum) ops (nt_swarm n)"
  proof (cases "m n")
    case (Pair r n')
    show ?thesis
    proof (cases r)
      case (Inl e)
      with Pair ops show ?thesis by (auto simp: seq_def)
    next
      case (Inr x)
      obtain ops' where "nt_swarm (snd (f x n')) = run_ops (exec_swarm fsum) ops' (nt_swarm n')"
        using store_runD [OF assms(2)] by blast
      then have "nt_swarm (snd (seq m f n)) = run_ops (exec_swarm fsum) (ops @ ops') (nt_swarm n)"
        using Pair Inr ops by (simp add: seq_def run_ops_append)
      then show ?thesis by blast
    qed
  qed
qed

lemma store_run_transact:
  assumes "\<And>s t x. f s = Inr (t, x) \<Longrightarrow> \<exists>p. exec_swarm fsum p s = Inr t"
  shows "store_run fsum (transact f)"
  unfolding store_run_def
proof
  fix n
  show "\<exists>ops. nt_swarm (snd (transact f n)) = run_ops (exec_swarm fsum) ops (nt_swarm n)"
  proof (cases "f (nt_swarm n)")
    case (Inl e)
    then have "nt_swarm (snd (transact f n)) = run_ops (exec_swarm fsum) [] (nt_swarm n)" by (simp add: transact_def)
    then show ?thesis by blast
  next
    case (Inr tx)
    then obtain p where "exec_swarm fsum p (nt_swarm n) = Inr (fst tx)" using assms [of _ "fst tx" "snd tx"] by auto
    then have "nt_swarm (snd (transact f n)) = run_ops (exec_swarm fsum) [p] (nt_swarm n)"
      using Inr by (cases tx) (simp add: transact_def step_or_stay_def)
    then show ?thesis by blast
  qed
qed

lemma store_run_op [action_intros]:
  assumes "\<And>s. exec_swarm fsum p s = g s"
  shows "store_run fsum (transact (\<lambda>s. and_then (g s) (\<lambda>t. Inr (t, ()))))"
  by (rule store_run_transact) (use assms in \<open>auto elim!: and_then_InrE intro!: exI [of _ p]\<close>)

lemma publish_run [action_intros]: "store_run fsum (publish m)"
  unfolding publish_def by (intro action_intros store_run_op [of _ "PostMessage m"]) simp_all

lemma lead_run [action_intros]: "store_run fsum (lead E run cands)"
  unfolding lead_def
proof (rule store_run_transact)
  fix s t l assume "acquire_coordinator_lease E run cands 30 s = Inr (t, l)"
  then show "\<exists>p. exec_swarm fsum p s = Inr t" by (intro exI [of _ "LeaseCoordinator E run cands 30"]) simp
qed

lemma open_run [action_intros]: "store_run fsum (transact (open_consensus_round E run topic q l cs))"
proof (rule store_run_transact)
  fix s t i assume "open_consensus_round E run topic q l cs s = Inr (t, i)"
  then show "\<exists>p. exec_swarm fsum p s = Inr t" by (intro exI [of _ "OpenRound E run topic q l cs"]) simp
qed

lemma drain_loop_run: "store_run fsum (drain_loop E ack ms)"
proof (induction E ack ms rule: drain_loop.induct)
  case (2 E ack m ms)
  have rest: "store_run fsum (drain_loop (\<lambda>k. E (Suc k)) ack ms)" using 2 by (cases ack) simp_all
  have "store_run fsum (if ack
        then seq (transact (\<lambda>s. and_then (mark_swarm_message_consumed (E 0) (sm_id m) s) (\<lambda>t. Inr (t, ()))))
               (\<lambda>_. drain_loop (\<lambda>k. E (Suc k)) ack ms)
        else drain_loop (\<lambda>k. E (Suc k)) ack ms)" (is "store_run fsum ?a")
    using rest by (cases ack) (auto intro!: action_intros store_run_op [of _ "ConsumeMessage (E 0) (sm_id m)"])
  then have "\<exists>ops. nt_swarm (snd (?a (notify m n))) = run_ops (exec_swarm fsum) ops (nt_swarm n)" for n
    using store_runD [of fsum ?a "notify m n"] by (simp add: notify_def)
  then show ?case unfolding store_run_def by simp
qed (simp add: action_intros)

lemma requests_run: "store_run fsum (request_votes E run r p proposal topic token vs)"
proof (induction vs arbitrary: E)
  case (Cons v vs)
  show ?case unfolding request_votes.simps by (intro action_intros Cons)
qed (simp add: action_intros)

lemma decision_run [action_intros]:
  "store_run fsum (publish_decision vj E rv)" "store_run fsum (request_tie_break vj E judge rv)"
  by (cases rv; auto simp: publish_decision_def request_tie_break_def intro!: action_intros)+

lemma drain_run: "store_run fsum (drain E run recipient topic limit ack)"
  unfolding drain_def by (intro action_intros drain_loop_run)

lemma propose_run: "store_run fsum (propose E run proposer topic proposal voters quorum leader confidence)"
  unfolding propose_def Let_def by (auto intro!: action_intros requests_run)

lemma submit_vote_run: "store_run fsum (submit_vote fsum vj E i voter verdict confidence rationale evidence)"
  unfolding submit_vote_def Let_def by (auto intro!: action_intros store_run_op [of _ "RecordVote (E 1) _"])

lemma judge_run: "store_run fsum (submit_judge_verdict vj E i judge verdict confidence rationale evidence)"
  unfolding submit_judge_verdict_def
  by (auto intro!: action_intros store_run_op [of _ "ResolveTie (E 0) i judge verdict confidence rationale evidence"])

end
