(* ===== verification/Swarm_Delivery.thy ===== *)
theory Swarm_Delivery
  imports Swarm_Coordinator
begin

text \<open>
  What the swarm delivers: a drained inbox is empty of what was returned and never returns it
  again; a decided vote is announced under the fencing token of the leader.
\<close>

section \<open>Draining\<close>

definition consume :: "env \<Rightarrow> string \<Rightarrow> message_row list \<Rightarrow> message_row list" where
  "consume E i t = update_where (\<lambda>m. sm_id m = i)
     (\<lambda>m. m\<lparr>sm_consumed_at := (case sm_consumed_at m of None \<Rightarrow> Some (now E) | Some t \<Rightarrow> Some t)\<rparr>) t"

lemma consume_Inr:
  "mark_swarm_message_consumed E i s =
     (if i \<in> sm_id ` set (sw_messages s) then Inr (s\<lparr>sw_messages := consume E i (sw_messages s)\<rparr>)
      else Inl (NotFoundError ''swarm message'' i))"
  by (auto simp: mark_swarm_message_consumed_def consume_def)

fun consume_all :: "(nat \<Rightarrow> env) \<Rightarrow> message_row list \<Rightarrow> message_row list \<Rightarrow> message_row list" where
  "consume_all E [] t = t"
| "consume_all E (m # ms) t = consume_all (\<lambda>k. E (Suc k)) ms (consume (E 0) (sm_id m) t)"

lemma ids_consume [simp]: "map sm_id (consume E i t) = map sm_id t"
  unfolding consume_def by (rule map_update_where) simp

lemma id_set_consume [simp]: "sm_id ` set (consume E i t) = sm_id ` set t"
  by (metis ids_consume set_map)

lemma ids_consume_all [simp]: "map sm_id (consume_all E ms t) = map sm_id t"
  by (induction E ms t rule: consume_all.induct) simp_all

lemma inbox_consume:
  "filter (inbox_filter run r topic False) (consume E i t) = filter (\<lambda>m. sm_id m \<noteq> i) (filter (inbox_filter run r topic False) t)"
  unfolding consume_def update_where_def
  by (induction t) (auto simp: inbox_filter_def split: option.splits)

lemma inbox_consume_all:
  "filter (inbox_filter run r topic False) (consume_all E ms t) =
   filter (\<lambda>m. sm_id m \<notin> sm_id ` set ms) (filter (inbox_filter run r topic False) t)"
proof (induction E ms t rule: consume_all.induct)
  case (2 E m ms t)
  show ?case unfolding consume_all.simps 2 inbox_consume by (auto simp: filter_filter intro: filter_cong)
qed simp

lemma drain_loop_result:
  "sm_id ` set ms \<subseteq> sm_id ` set (sw_messages (nt_swarm n)) \<Longrightarrow>
   \<exists>n'. drain_loop E True ms n = (Inr (), n') \<and>
     nt_swarm n' = (nt_swarm n)\<lparr>sw_messages := consume_all E ms (sw_messages (nt_swarm n))\<rparr> \<and>
     nt_subs n' = nt_subs n \<and>
     nt_called n' = nt_called n @ concat (map (\<lambda>m. map (\<lambda>b. (sb_callback b, m)) (filter (\<lambda>b. matches b m) (nt_subs n))) ms)"
proof (induction ms arbitrary: E n)
  case Nil
  show ?case by (simp add: give_def)
next
  case (Cons m ms)
  let ?n = "(notify m n)\<lparr>nt_swarm := (nt_swarm n)\<lparr>sw_messages := consume (E 0) (sm_id m) (sw_messages (nt_swarm n))\<rparr>\<rparr>"
  have step: "drain_loop E True (m # ms) n = drain_loop (\<lambda>k. E (Suc k)) True ms ?n"
    using Cons.prems by (simp add: seq_def transact_def consume_Inr notify_def)
  have "sm_id ` set ms \<subseteq> sm_id ` set (sw_messages (nt_swarm ?n))" using Cons.prems by simp
  from Cons.IH [OF this, of "\<lambda>k. E (Suc k)"] show ?case unfolding step by (simp add: notify_def)
qed

definition inbox :: "string \<Rightarrow> string \<Rightarrow> string option \<Rightarrow> swarm \<Rightarrow> message_row list" where
  "inbox run recipient topic s = filter (inbox_filter run (Some recipient) topic False) (sw_messages s)"

lemma listed_subset: "set (list_swarm_messages run (Some r) topic False limit s) \<subseteq> set (inbox run r topic s)"
  by (auto simp: list_swarm_messages_def inbox_def dest!: in_set_takeD)

lemma drain_result:
  "\<exists>n'. drain E run r topic limit True n = (Inr (list_swarm_messages run (Some r) topic False limit (nt_swarm n)), n') \<and>
     inbox run r topic (nt_swarm n') =
       filter (\<lambda>m. sm_id m \<notin> sm_id ` set (list_swarm_messages run (Some r) topic False limit (nt_swarm n)))
         (inbox run r topic (nt_swarm n)) \<and>
     nt_called n' = nt_called n @ concat (map (\<lambda>m. map (\<lambda>b. (sb_callback b, m)) (filter (\<lambda>b. matches b m) (nt_subs n)))
       (list_swarm_messages run (Some r) topic False limit (nt_swarm n)))"
proof -
  let ?ms = "list_swarm_messages run (Some r) topic False limit (nt_swarm n)"
  have "sm_id ` set ?ms \<subseteq> sm_id ` set (sw_messages (nt_swarm n))"
    using listed_subset [of run r topic limit "nt_swarm n"] by (auto simp: inbox_def)
  from drain_loop_result [OF this, of E] show ?thesis
    by (auto simp: drain_def seq_def query_def give_def inbox_def inbox_consume_all)
qed

lemma inbox_gone:
  assumes ok: "swarm_ok fsum s" and adv: "swarm_advance s t" "swarm_ok fsum t"
    and m: "m \<in> set (sw_messages s)" "sm_consumed_at m \<noteq> None"
  shows "sm_id m \<notin> sm_id ` set (inbox run r topic t)"
proof
  assume "sm_id m \<in> sm_id ` set (inbox run r topic t)"
  then obtain q where q: "q \<in> set (sw_messages t)" "sm_id q = sm_id m" "sm_consumed_at q = None"
    by (auto simp: inbox_def inbox_filter_def)
  have "rows_advance message_step (sw_messages s) (sw_messages t)" using adv(1) by (simp add: swarm_advance_def)
  then obtain p where p: "p \<in> set (sw_messages t)" "message_step m p" using m(1) by (rule rows_advance_mem)
  then have "p = m" using m(2) by (auto simp: message_step_def)
  moreover have "p = q" using adv(2) p q \<open>p = m\<close> key_unique [of sm_id "sw_messages t" p q] by (simp add: swarm_ok_def)
  ultimately show False using q m by simp
qed

lemma drained_consumed:
  assumes "drain E run r topic limit True n = (Inr ms, n')" "swarm_ok fsum (nt_swarm n)" "i \<in> sm_id ` set ms"
  shows "\<exists>m \<in> set (sw_messages (nt_swarm n')). sm_id m = i \<and> sm_consumed_at m \<noteq> None"
proof -
  let ?ms = "list_swarm_messages run (Some r) topic False limit (nt_swarm n)"
  have sub: "sm_id ` set ?ms \<subseteq> sm_id ` set (sw_messages (nt_swarm n))"
    using listed_subset [of run r topic limit "nt_swarm n"] by (auto simp: inbox_def)
  from drain_loop_result [OF sub, of E] assms(1) have ms: "ms = ?ms"
    and n': "sw_messages (nt_swarm n') = consume_all E ms (sw_messages (nt_swarm n))"
    by (auto simp: drain_def seq_def query_def give_def)
  have one: "\<exists>m \<in> set (consume E i t). sm_id m = i \<and> sm_consumed_at m \<noteq> None" if "i \<in> sm_id ` set t" for E i t
  proof -
    from that obtain q where q: "q \<in> set t" "sm_id q = i" by blast
    let ?q = "q\<lparr>sm_consumed_at := (case sm_consumed_at q of None \<Rightarrow> Some (now E) | Some t \<Rightarrow> Some t)\<rparr>"
    have "?q \<in> set (consume E i t)" unfolding consume_def set_update_where using q by (intro image_eqI [of _ _ q]) simp_all
    moreover have "sm_id ?q = i \<and> sm_consumed_at ?q \<noteq> None" using q(2) by (simp split: option.splits)
    ultimately show ?thesis by blast
  qed
  have keep: "\<exists>m \<in> set (consume E j t). sm_id m = i \<and> sm_consumed_at m \<noteq> None"
    if "\<exists>m \<in> set t. sm_id m = i \<and> sm_consumed_at m \<noteq> None" for E j t
  proof -
    from that obtain q where q: "q \<in> set t" "sm_id q = i" "sm_consumed_at q \<noteq> None" by blast
    let ?q = "if sm_id q = j then q\<lparr>sm_consumed_at := (case sm_consumed_at q of None \<Rightarrow> Some (now E) | Some t \<Rightarrow> Some t)\<rparr> else q"
    have "?q \<in> set (consume E j t)" unfolding consume_def set_update_where using q by (intro image_eqI [of _ _ q]) simp_all
    moreover have "sm_id ?q = i \<and> sm_consumed_at ?q \<noteq> None" using q(2,3) by (simp split: option.splits)
    ultimately show ?thesis by blast
  qed
  have keep_all: "\<exists>m \<in> set (consume_all E ks t). sm_id m = i \<and> sm_consumed_at m \<noteq> None"
    if "\<exists>m \<in> set t. sm_id m = i \<and> sm_consumed_at m \<noteq> None" for E ks t
    using that
  proof (induction E ks t rule: consume_all.induct)
    case (2 E m ks t)
    from 2(1) [OF keep [OF 2(2)]] show ?case by simp
  qed simp
  have "\<exists>m \<in> set (consume_all E ks t). sm_id m = i \<and> sm_consumed_at m \<noteq> None"
    if "i \<in> sm_id ` set ks" "sm_id ` set ks \<subseteq> sm_id ` set t" for E ks t
    using that
  proof (induction E ks t rule: consume_all.induct)
    case (2 E m ks t)
    show ?case
    proof (cases "i = sm_id m")
      case True
      then have "i \<in> sm_id ` set t" using 2(3) by simp
      from keep_all [OF one [OF this]] True show ?thesis by simp
    next
      case False
      with 2 show ?thesis by simp
    qed
  qed simp
  from this [OF assms(3), of "sw_messages (nt_swarm n)" E] sub ms show ?thesis unfolding n' by simp
qed

lemma drains_disjoint:
  assumes "swarm_ok fsum (nt_swarm n)" "drain E run r topic limit True n = (Inr ms, n')"
    and "nt_swarm n'' = run_ops (exec_swarm fsum) ops (nt_swarm n')"
    and "drain E' run' r' topic' limit' ack n'' = (Inr ms', n3)"
  shows "sm_id ` set ms \<inter> sm_id ` set ms' = {}"
proof -
  obtain ops0 where "nt_swarm n' = run_ops (exec_swarm fsum) ops0 (nt_swarm n)"
    using store_runD [OF drain_run [of fsum E run r topic limit True], of n] assms(2) by auto
  then have ok': "swarm_ok fsum (nt_swarm n')" using swarm_run.run_inv [OF assms(1)] by simp
  have ok'': "swarm_ok fsum (nt_swarm n'')" "swarm_advance (nt_swarm n') (nt_swarm n'')"
    unfolding assms(3) by (rule swarm_run.run_inv [OF ok'], rule swarm_run.run_rel [OF ok'])
  have ms': "set ms' \<subseteq> set (inbox run' r' topic' (nt_swarm n''))"
  proof -
    have "ms' = list_swarm_messages run' (Some r') topic' False limit' (nt_swarm n'')"
      using assms(4) by (auto simp: drain_def seq_def query_def give_def split: prod.splits sum.splits)
    then show ?thesis using listed_subset by simp
  qed
  show ?thesis
  proof (rule ccontr)
    assume "sm_id ` set ms \<inter> sm_id ` set ms' \<noteq> {}"
    then obtain i where i: "i \<in> sm_id ` set ms" "i \<in> sm_id ` set ms'" by blast
    obtain m where m: "m \<in> set (sw_messages (nt_swarm n'))" "sm_id m = i" "sm_consumed_at m \<noteq> None"
      using drained_consumed [OF assms(2,1) i(1)] by blast
    from inbox_gone [OF ok' ok''(2,1) m(1,3), of run' r' topic'] i(2) ms' m(2) show False by blast
  qed
qed

section \<open>Announcing a decision\<close>

lemma named_single [simp]: "strip x \<noteq> [] \<Longrightarrow> named [x] = [x]"
  by (simp add: named_def dict_fromkeys_def)

lemma lead_single:
  assumes "acquire_coordinator_lease E run [x] ttl s = Inr (t, l)" "strip x \<noteq> []"
  shows "le_leader l = x"
proof -
  have "elect_consensus_leader run [x] s = Inr y \<Longrightarrow> y = x" for y
  proof -
    assume e: "elect_consensus_leader run [x] s = Inr y"
    define reg where "reg = filter (\<lambda>a. ag_state a \<notin> {AG_CANCELLED, AG_FAILED} \<and> ag_id a = x) (list_agent_registry run s)"
    have "y = (if reg = [] then x else ag_id (hd (sort_key (\<lambda>a. (ag_index a, ag_id a)) reg)))"
      using e assms(2) by (simp add: elect_consensus_leader_def reg_def sorted_set_def Let_def split: if_splits)
    moreover have "ag_id (hd (sort_key (\<lambda>a. (ag_index a, ag_id a)) reg)) = x" if "reg \<noteq> []"
    proof -
      have "sort_key (\<lambda>a. (ag_index a, ag_id a)) reg \<noteq> []" using that by (metis length_0_conv length_sort)
      then have "hd (sort_key (\<lambda>a. (ag_index a, ag_id a)) reg) \<in> set reg" by (metis list.set_sel(1) set_sort)
      then show ?thesis by (simp add: reg_def)
    qed
    ultimately show "y = x" by (simp split: if_splits)
  qed
  then show ?thesis
    using assms unfolding acquire_coordinator_lease_def
    by (auto simp: Let_def elim!: and_then_InrE split: if_splits option.splits)
qed

lemma put_lease_mem: "l \<in> set (put_lease l ls)"
  by (auto simp: put_lease_def set_update_where image_iff)

lemma lead_Inr:
  assumes "lead E run [x] n = (Inr l, n')" "strip x \<noteq> []"
  shows "le_leader l = x \<and> l \<in> set (sw_leases (nt_swarm n')) \<and> le_run l = run"
proof -
  from assms(1) obtain s where s: "acquire_coordinator_lease E run [x] 30 (nt_swarm n) = Inr (s, l)" "nt_swarm n' = s"
    by (auto simp: lead_def transact_def split: sum.splits)
  have "s = (nt_swarm n)\<lparr>sw_leases := put_lease l (sw_leases (nt_swarm n))\<rparr> \<and> le_run l = run"
    using s(1) unfolding acquire_coordinator_lease_def
    by (auto simp: Let_def elim!: and_then_InrE split: if_splits option.splits)
  then show ?thesis using lead_single [OF s(1) assms(2)] s(2) put_lease_mem by auto
qed

lemma seq_Inr: "seq m f n = (Inr y, n') \<longleftrightarrow> (\<exists>x k. m n = (Inr x, k) \<and> f x k = (Inr y, n'))"
  by (auto simp: seq_def split: prod.splits sum.splits)

lemma publish_Inr:
  assumes "publish m n = (Inr row, n')"
  shows "\<exists>k. mk_message m = Inr k \<and> row = message.extend k \<lparr>sm_consumed_at = None\<rparr> \<and> row \<in> set (sw_messages (nt_swarm n')) \<and>
    sw_leases (nt_swarm n') = sw_leases (nt_swarm n)"
proof -
  from assms obtain s1 where post: "post_swarm_message m (nt_swarm n) = Inr s1"
    and row: "get_swarm_message (sm_id m) s1 = Inr row" "n' = notify row (n\<lparr>nt_swarm := s1\<rparr>)"
    by (auto simp: publish_def seq_Inr transact_def query_def elim!: and_then_InrE split: sum.splits)
  from post obtain k where k: "mk_message m = Inr k" by (auto simp: post_swarm_message_def elim: and_then_InrE)
  let ?r = "message.extend k \<lparr>sm_consumed_at = None\<rparr>"
  have id: "sm_id ?r = sm_id m" using k by (auto simp: mk_message_def Let_def message.extend_def split: if_splits)
  have s1: "s1 = (nt_swarm n)\<lparr>sw_messages := sw_messages (nt_swarm n) @ [?r]\<rparr>" "sm_id ?r \<notin> sm_id ` set (sw_messages (nt_swarm n))"
    using post k unfolding post_swarm_message_def
    by (simp_all add: insert_row_Inr and_then_Inr split: if_splits)
  have "fetchone (\<lambda>x. sm_id x = sm_id m) (sw_messages s1) = Some row"
    using row(1) by (auto simp: get_swarm_message_def split: option.splits)
  then have mem: "row \<in> set (sw_messages s1)" "sm_id row = sm_id m" by (auto dest: fetchone_Some)
  moreover have "row \<notin> set (sw_messages (nt_swarm n))" using s1(2) id mem(2) by (metis image_eqI)
  ultimately have "row = ?r" using s1(1) by simp
  then show ?thesis using k mem s1(1) row(2) by (simp add: notify_def)
qed

text \<open>A vote that decides a round leaves a decision message under the token of the leader's lease.\<close>

lemma decision_announced:
  assumes "submit_vote fsum vj E i voter verdict confidence rationale evidence n = (Inr (r, vs), n')"
    and "cr_status r = CS_ACCEPTED \<or> cr_status r = CS_REJECTED" "strip (cr_leader r) \<noteq> []"
  shows "\<exists>m \<in> set (sw_messages (nt_swarm n')). \<exists>l \<in> set (sw_leases (nt_swarm n')).
    sm_type m = DECISION \<and> sm_correlation m = cr_id r \<and> sm_recipient m = ''swarm'' \<and> sm_sender m = cr_leader r \<and>
    le_run l = cr_run r \<and> le_leader l = cr_leader r \<and> sm_fencing m = max 0 (le_token l)"
proof -
  from assms(1,2) obtain k d where "publish_decision vj (\<lambda>k. E (2 + k)) (r, vs) k = (Inr d, n')"
    unfolding submit_vote_def Let_def by (auto simp: seq_Inr give_def split: if_splits)
  then obtain l k1 where l: "lead (E 2) (cr_run r) [cr_leader r] k = (Inr l, k1)"
    and d: "publish ((swarm_message (E 3) (cr_run r) (cr_leader r) ''swarm'' DECISION (''consensus-decision:'' @ cr_id r)
          [(''round_id'', JStr (cr_id r)), (''status'', JStr (consensus_value (cr_status r))), (''decision'', JObj (cr_decision r)),
           (''votes'', votes_json vj vs), (''topic'', JStr (cr_topic r))])
        \<lparr>sm_confidence := (if cr_status r = CS_ACCEPTED then 1 else 0), sm_correlation := cr_id r, sm_fencing := le_token l\<rparr>) k1 = (Inr d, n')"
    by (auto simp: publish_decision_def seq_Inr numeral_3_eq_3 numeral_2_eq_2)
  note lead = lead_Inr [OF l assms(3)]
  from publish_Inr [OF d] obtain row where row: "mk_message ((swarm_message (E 3) (cr_run r) (cr_leader r) ''swarm'' DECISION (''consensus-decision:'' @ cr_id r)
          [(''round_id'', JStr (cr_id r)), (''status'', JStr (consensus_value (cr_status r))), (''decision'', JObj (cr_decision r)),
           (''votes'', votes_json vj vs), (''topic'', JStr (cr_topic r))])
        \<lparr>sm_confidence := (if cr_status r = CS_ACCEPTED then 1 else 0), sm_correlation := cr_id r, sm_fencing := le_token l\<rparr>) = Inr row"
    "d = message.extend row \<lparr>sm_consumed_at = None\<rparr>" "d \<in> set (sw_messages (nt_swarm n'))" "sw_leases (nt_swarm n') = sw_leases (nt_swarm k1)"
    by blast
  have "sm_type d = DECISION" "sm_correlation d = cr_id r" "sm_recipient d = ''swarm''" "sm_sender d = cr_leader r"
    "sm_fencing d = max 0 (le_token l)"
    using row(1,2) by (auto simp: mk_message_def swarm_message_def Let_def message.extend_def split: if_splits)
  with row(3,4) lead show ?thesis by (intro bexI [of _ d] bexI [of _ l]) auto
qed

end
