(* ===== verification/Scenario_Swarm.thy ===== *)
theory Scenario_Swarm
  imports Swarm_Delivery
begin

text \<open>Concrete inputs for the witnesses about the swarm.\<close>

text \<open>A run with one agent and one round, to be decided by the votes of \<open>quorum\<close> agents.\<close>

definition demo_clock :: "nat \<Rightarrow> env" where
  "demo_clock k = \<lparr>now = int k, fresh = (\<lambda>p i. p @ nat_str k)\<rparr>"

definition demo_swarm :: "int \<Rightarrow> swarm" where
  "demo_swarm quorum = run_ops (exec_swarm sum_list)
     [SaveAgent \<lparr>ag_id = ''boss'', ag_run = Some ''run'', ag_index = 1, ag_role = ''lead'', ag_state = AG_RUNNING\<rparr>,
      OpenRound (demo_clock 1) ''run'' ''gate'' quorum (Some ''boss'') []] (empty_swarm [''run''])"

definition demo_net :: "swarm \<Rightarrow> net" where
  "demo_net s = \<lparr>nt_swarm = s, nt_subs = [\<lparr>sb_run = ''run'', sb_callback = 7, sb_recipient = None, sb_prefix = None,
     sb_type = None\<rparr>], nt_called = []\<rparr>"

definition demo_vote :: "string \<Rightarrow> string \<Rightarrow> vote" where
  "demo_vote who v = \<lparr>vt_round = ''consensus1'', vt_voter = who, vt_verdict = v, vt_confidence = 1, vt_rationale = [],
     vt_evidence = [], vt_created_at = 2\<rparr>"

definition demo_message :: "nat \<Rightarrow> message" where
  "demo_message k = swarm_message (demo_clock k) ''run'' ''boss'' ''a'' INFORM ''news'' []"

text \<open>
  The judge of a tie need not be independent: a voter of a tied round resolves it in favour
  of its own vote.
\<close>

lemma voter_judges_own_tie:
  "let s = run_ops (exec_swarm sum_list) [RecordVote (demo_clock 3) (demo_vote ''a'' ''accept''),
       RecordVote (demo_clock 4) (demo_vote ''b'' ''reject'')] (demo_swarm 2);
       t = run_ops (exec_swarm sum_list) [ResolveTie (demo_clock 5) ''consensus1'' ''a'' ''accept'' 1 [] []] s
   in map cr_status (sw_rounds s) = [CS_TIED] \<and> map vt_voter (list_consensus_votes ''consensus1'' s) = [''a'', ''b''] \<and>
      map cr_status (sw_rounds t) = [CS_ACCEPTED] \<and>
      map (\<lambda>r. obj_get (cr_decision r) ''judge_agent_id'') (sw_rounds t) = [Some (JStr ''a'')]"
  by code_simp

end
