(* ===== verification/Ultra_Types.thy ===== *)
theory Ultra_Types
  imports Ultra_Contracts Store_Approval
begin

text \<open>
  \<open>agent/ultra_models.py\<close>, the records of an ULTRA run, and the ULTRA tables of
  \<open>agent/store.py\<close> next to the core tables of \<open>Store_Types\<close>.  A row that is read is built again
  by its constructor; the lemmas at the end show that this changes nothing for a specification, a
  result, an insight or an architecture that was stored.  The paths of a contract and of a lease are
  the exception, so nodes and leases are read through \<open>read_node\<close> and \<open>read_lease\<close>.
\<close>

section \<open>Statuses\<close>

datatype ultra_phase =
    PH_GOAL_INTERVIEW | PH_GOAL_SPEC | PH_ARCHITECTURE | PH_MASTER_PLAN | PH_AWAITING_APPROVAL | PH_MODULE_WAVES
  | PH_INTEGRATION | PH_GLOBAL_REVIEW | PH_EVIDENCE_GATE | PH_COMPLETED

primrec phase_value :: "ultra_phase \<Rightarrow> string" where
  "phase_value PH_GOAL_INTERVIEW = ''goal_interview''"
| "phase_value PH_GOAL_SPEC = ''goal_spec''"
| "phase_value PH_ARCHITECTURE = ''architecture''"
| "phase_value PH_MASTER_PLAN = ''master_plan''"
| "phase_value PH_AWAITING_APPROVAL = ''awaiting_approval''"
| "phase_value PH_MODULE_WAVES = ''module_waves''"
| "phase_value PH_INTEGRATION = ''integration''"
| "phase_value PH_GLOBAL_REVIEW = ''global_review''"
| "phase_value PH_EVIDENCE_GATE = ''evidence_gate''"
| "phase_value PH_COMPLETED = ''completed''"

datatype run_status =
    RUN_DRAFT | RUN_AWAITING_APPROVAL | RUN_RUNNING | RUN_PAUSED | RUN_REVISION_REQUIRED | RUN_RECOVERING
  | RUN_BLOCKED | RUN_COMPLETED | RUN_CANCELLED | RUN_UNCERTAIN

primrec run_value :: "run_status \<Rightarrow> string" where
  "run_value RUN_DRAFT = ''draft''"
| "run_value RUN_AWAITING_APPROVAL = ''awaiting_approval''"
| "run_value RUN_RUNNING = ''running''"
| "run_value RUN_PAUSED = ''paused''"
| "run_value RUN_REVISION_REQUIRED = ''revision_required''"
| "run_value RUN_RECOVERING = ''recovering''"
| "run_value RUN_BLOCKED = ''blocked''"
| "run_value RUN_COMPLETED = ''completed''"
| "run_value RUN_CANCELLED = ''cancelled''"
| "run_value RUN_UNCERTAIN = ''uncertain''"

datatype node_kind = K_MILESTONE | K_MODULE | K_SUBMODULE | K_TASK

primrec kind_value :: "node_kind \<Rightarrow> string" where
  "kind_value K_MILESTONE = ''milestone''"
| "kind_value K_MODULE = ''module''"
| "kind_value K_SUBMODULE = ''submodule''"
| "kind_value K_TASK = ''task''"

datatype node_status =
    N_PENDING | N_READY | N_IN_PROGRESS | N_REVIEWING | N_TESTING | N_FIXING | N_INTEGRATING | N_COMPLETED
  | N_FAILED | N_BLOCKED | N_CONFLICT | N_CANCELLED | N_UNCERTAIN | N_REVISION_REQUIRED

primrec node_value :: "node_status \<Rightarrow> string" where
  "node_value N_PENDING = ''pending''"
| "node_value N_READY = ''ready''"
| "node_value N_IN_PROGRESS = ''in_progress''"
| "node_value N_REVIEWING = ''reviewing''"
| "node_value N_TESTING = ''testing''"
| "node_value N_FIXING = ''fixing''"
| "node_value N_INTEGRATING = ''integrating''"
| "node_value N_COMPLETED = ''completed''"
| "node_value N_FAILED = ''failed''"
| "node_value N_BLOCKED = ''blocked''"
| "node_value N_CONFLICT = ''conflict''"
| "node_value N_CANCELLED = ''cancelled''"
| "node_value N_UNCERTAIN = ''uncertain''"
| "node_value N_REVISION_REQUIRED = ''revision_required''"

datatype agent_status = A_QUEUED | A_RUNNING | A_COMPLETED | A_FAILED | A_CANCELLED | A_RATE_LIMITED | A_UNCERTAIN

primrec agent_value :: "agent_status \<Rightarrow> string" where
  "agent_value A_QUEUED = ''queued''"
| "agent_value A_RUNNING = ''running''"
| "agent_value A_COMPLETED = ''completed''"
| "agent_value A_FAILED = ''failed''"
| "agent_value A_CANCELLED = ''cancelled''"
| "agent_value A_RATE_LIMITED = ''rate_limited''"
| "agent_value A_UNCERTAIN = ''uncertain''"

datatype lease_status = L_ACTIVE | L_RELEASED | L_EXPIRED | L_UNCERTAIN

datatype access_level = ACCESS_NORMAL | ACCESS_FULL

section \<open>Errors\<close>

datatype (plugins only: code size) ultra_error =
    Journal store_error
  | Contract contract_error
  | ScopeError "violation list"
  | BindingChanged
  | MasterApprovalError string
  | LeaseConflict string
  | Malformed string

abbreviation journal :: "store_error + 'a \<Rightarrow> ultra_error + 'a" where
  "journal \<equiv> map_error Journal"

abbreviation contract :: "contract_error + 'a \<Rightarrow> ultra_error + 'a" where
  "contract \<equiv> map_error Contract"

section \<open>Specifications and results\<close>

record goal_spec =
  gs_objective :: string
  gs_scope :: "string list"
  gs_criteria :: "string list"
  gs_constraints :: "string list"
  gs_non_goals :: "string list"
  gs_answers :: json_obj
  gs_version :: int

definition mk_goal_spec :: "goal_spec \<Rightarrow> contract_error + goal_spec" where
  "mk_goal_spec g =
     and_then (durable_text (gs_objective g) ''goal objective'' 20000) (\<lambda>objective.
     if gs_version g \<noteq> 1 then Inl (WrongVersion ''GoalSpecV1'')
     else Inr (g\<lparr>gs_objective := objective, gs_scope := string_tuple (gs_scope g), gs_criteria := string_tuple (gs_criteria g),
                 gs_constraints := string_tuple (gs_constraints g), gs_non_goals := string_tuple (gs_non_goals g)\<rparr>))"

definition goal_spec_to_dict :: "goal_spec \<Rightarrow> json_obj" where
  "goal_spec_to_dict g =
     [(''version'', JInt 1), (''objective'', JStr (gs_objective g)), (''scope'', jstrs (gs_scope g)),
      (''success_criteria'', jstrs (gs_criteria g)), (''constraints'', jstrs (gs_constraints g)),
      (''non_goals'', jstrs (gs_non_goals g)), (''answered_questions'', JObj (gs_answers g))]"

definition goal_spec_from_dict :: "conversions \<Rightarrow> json_obj \<Rightarrow> contract_error + goal_spec" where
  "goal_spec_from_dict cv d =
     (case py_int cv (get_or (JInt 1) d ''version'') of None \<Rightarrow> Inl (NotConvertible ''version'')
      | Some version \<Rightarrow>
     and_then (tuple_field cv d ''scope'' True []) (\<lambda>scope.
     and_then (tuple_field cv d ''success_criteria'' True []) (\<lambda>criteria.
     and_then (tuple_field cv d ''constraints'' True []) (\<lambda>constraints.
     and_then (tuple_field cv d ''non_goals'' True []) (\<lambda>non_goals.
     and_then (object_field cv d ''answered_questions'') (\<lambda>answers.
       mk_goal_spec \<lparr>gs_objective = py_str (cv_repr cv) (get_or (JStr []) d ''objective''), gs_scope = scope,
         gs_criteria = criteria, gs_constraints = constraints, gs_non_goals = non_goals, gs_answers = answers,
         gs_version = version\<rparr>))))))"

record architecture =
  ax_summary :: string
  ax_components :: "json_obj list"
  ax_interfaces :: json_obj
  ax_decisions :: "json_obj list"
  ax_constraints :: "string list"
  ax_version :: int

definition mk_architecture :: "architecture \<Rightarrow> contract_error + architecture" where
  "mk_architecture a =
     and_then (durable_text (ax_summary a) ''architecture summary'' 20000) (\<lambda>summary.
     if ax_version a \<noteq> 1 then Inl (WrongVersion ''ArchitectureSpecV1'')
     else Inr (a\<lparr>ax_summary := summary, ax_constraints := string_tuple (ax_constraints a)\<rparr>))"

record insight =
  in_summary :: string
  in_category :: string
  in_details :: string
  in_severity :: string
  in_evidence :: "string list"
  in_id :: string
  in_created_at :: int
  in_version :: int

definition mk_insight :: "insight \<Rightarrow> contract_error + insight" where
  "mk_insight i =
     and_then (durable_text (in_summary i) ''insight summary'' 4000) (\<lambda>summary.
     and_then (durable_text (in_category i) ''insight category'' 100) (\<lambda>category.
     if in_severity i \<notin> {''info'', ''warning'', ''error'', ''critical''} then Inl BadSeverity
     else Inr (i\<lparr>in_summary := summary, in_category := category, in_details := take 20000 (in_details i),
                 in_evidence := string_tuple (in_evidence i)\<rparr>)))"

record result_package =
  rk_summary :: string
  rk_changed :: "string list"
  rk_tests :: "json_obj list"
  rk_artifacts :: "string list"
  rk_insights :: "insight list"
  rk_issues :: "string list"
  rk_metadata :: json_obj
  rk_version :: int

definition mk_result :: "result_package \<Rightarrow> contract_error + result_package" where
  "mk_result r =
     and_then (durable_text (rk_summary r) ''result summary'' 20000) (\<lambda>summary.
     Inr (r\<lparr>rk_summary := summary, rk_changed := string_tuple (rk_changed r), rk_artifacts := string_tuple (rk_artifacts r),
            rk_issues := string_tuple (rk_issues r)\<rparr>))"

section \<open>Runs, nodes, agents and leases\<close>

record ultra_run =
  ur_id :: string
  ur_goal :: string
  ur_provider :: string
  ur_model :: string
  ur_class :: execution_class
  ur_access :: access_level
  ur_concurrency :: int
  ur_phase :: ultra_phase
  ur_status :: run_status
  ur_goal_spec :: "goal_spec option"
  ur_architecture :: "architecture option"
  ur_plan_revision :: "int option"
  ur_fingerprint :: string
  ur_approved :: bool
  ur_config :: json_obj
  ur_error :: "string option"
  ur_created_at :: int
  ur_updated_at :: int
  ur_approved_by :: "string option"
  ur_approved_at :: "int option"

definition mk_run :: "ultra_run \<Rightarrow> contract_error + ultra_run" where
  "mk_run r =
     (if ur_goal r = [] \<or> strip (ur_provider r) = [] \<or> strip (ur_model r) = [] then Inl RunFields
      else if \<not> (1 \<le> ur_concurrency r \<and> ur_concurrency r \<le> 8) then Inl RunConcurrency
      else Inr r)"

record work_node =
  wn_id :: string
  wn_run :: string
  wn_parent :: "string option"
  wn_task :: "string option"
  wn_kind :: node_kind
  wn_title :: string
  wn_objective :: string
  wn_status :: node_status
  wn_depth :: int
  wn_position :: int
  wn_depends :: "string list"
  wn_contract :: task_contract
  wn_role :: string
  wn_attempts :: int
  wn_max_attempts :: int
  wn_result :: "result_package option"
  wn_error :: "string option"
  wn_checkpoint :: string
  wn_metadata :: json_obj
  wn_created_at :: int
  wn_updated_at :: int

definition mk_node :: "work_node \<Rightarrow> contract_error + work_node" where
  "mk_node n =
     (if wn_run n = [] \<or> wn_id n = [] then Inl NodeIds
      else and_then (durable_text (wn_title n) ''node title'' 300) (\<lambda>title.
           and_then (durable_text (wn_objective n) ''node objective'' 8000) (\<lambda>objective.
           if wn_depth n < 0 \<or> wn_attempts n < 0 \<or> wn_max_attempts n < 1 then Inl NodeCounters
           else Inr (n\<lparr>wn_title := title, wn_objective := objective, wn_depends := string_tuple (wn_depends n)\<rparr>))))"

text \<open>Truthiness of an optional identifier.\<close>

definition given :: "string option \<Rightarrow> bool" where
  "given x \<longleftrightarrow> (case x of Some s \<Rightarrow> s \<noteq> [] | None \<Rightarrow> False)"

definition is_master_module :: "work_node \<Rightarrow> bool" where
  "is_master_module n \<longleftrightarrow> wn_kind n = K_MODULE \<and> wn_parent n = None \<and> given (wn_task n)"

record agent_run =
  ar_id :: string
  ar_run :: string
  ar_node :: "string option"
  ar_role :: string
  ar_provider :: string
  ar_model :: string
  ar_phase :: string
  ar_status :: agent_status
  ar_attempt :: int
  ar_usage :: json_obj
  ar_result :: "result_package option"
  ar_error :: "string option"
  ar_trace :: "string option"
  ar_side_effects :: bool
  ar_started_at :: int
  ar_updated_at :: int
  ar_finished_at :: "int option"

definition mk_agent_run :: "agent_run \<Rightarrow> contract_error + agent_run" where
  "mk_agent_run a =
     (if ar_run a = [] \<or> strip (ar_role a) = [] \<or> strip (ar_phase a) = [] then Inl AgentFields else Inr a)"

record resource_lease =
  rl_id :: string
  rl_run :: string
  rl_node :: string
  rl_agent :: "string option"
  rl_path :: string
  rl_hash :: "string option"
  rl_status :: lease_status
  rl_acquired_at :: int
  rl_updated_at :: int
  rl_expires_at :: int
  rl_released_at :: "int option"

definition mk_resource_lease :: "resource_lease \<Rightarrow> contract_error + resource_lease" where
  "mk_resource_lease l = and_then (normalize_path (rl_path l)) (\<lambda>p. Inr (l\<lparr>rl_path := p\<rparr>))"

record ultra_recovery =
  uv_runs :: "string list"
  uv_nodes :: "string list"
  uv_agents :: "string list"
  uv_leases :: "string list"

definition ultra_recovery_changed :: "ultra_recovery \<Rightarrow> bool" where
  "ultra_recovery_changed r \<longleftrightarrow> uv_runs r \<noteq> [] \<or> uv_nodes r \<noteq> [] \<or> uv_agents r \<noteq> [] \<or> uv_leases r \<noteq> []"

section \<open>The tables\<close>

record ultra =
  ul_store :: store
  ul_runs :: "ultra_run list"
  ul_nodes :: "work_node list"
  ul_agents :: "agent_run list"
  ul_leases :: "resource_lease list"

definition empty_ultra :: ultra where
  "empty_ultra = \<lparr>ul_store = empty_store, ul_runs = [], ul_nodes = [], ul_agents = [], ul_leases = []\<rparr>"

text \<open>An argument as its constructors deliver it: the parts first, then the record.\<close>

definition build_opt :: "('a \<Rightarrow> contract_error + 'b) \<Rightarrow> 'a option \<Rightarrow> contract_error + 'b option" where
  "build_opt f x = (case x of None \<Rightarrow> Inr None | Some y \<Rightarrow> and_then (f y) (\<lambda>z. Inr (Some z)))"

definition build_result :: "result_package \<Rightarrow> contract_error + result_package" where
  "build_result r = and_then (map_result mk_insight (rk_insights r)) (\<lambda>is. mk_result (r\<lparr>rk_insights := is\<rparr>))"

definition build_run :: "ultra_run \<Rightarrow> contract_error + ultra_run" where
  "build_run r =
     and_then (build_opt mk_goal_spec (ur_goal_spec r)) (\<lambda>spec.
     and_then (build_opt mk_architecture (ur_architecture r)) (\<lambda>arch.
       mk_run (r\<lparr>ur_goal_spec := spec, ur_architecture := arch\<rparr>)))"

definition build_node :: "work_node \<Rightarrow> contract_error + work_node" where
  "build_node n =
     and_then (mk_task_contract (wn_contract n)) (\<lambda>c.
     and_then (build_opt build_result (wn_result n)) (\<lambda>r.
       mk_node (n\<lparr>wn_contract := c, wn_result := r\<rparr>)))"

definition build_agent :: "agent_run \<Rightarrow> contract_error + agent_run" where
  "build_agent a = and_then (build_opt build_result (ar_result a)) (\<lambda>r. mk_agent_run (a\<lparr>ar_result := r\<rparr>))"

text \<open>
  \<open>_work_node_from_row\<close> and \<open>_resource_lease_from_row\<close>.  \<open>TaskContractV1.from_dict\<close> of the stored
  dictionary is the constructor on the stored contract (\<open>task_contract_dict\<close>).
\<close>

definition read_node :: "work_node \<Rightarrow> ultra_error + work_node" where
  "read_node n = contract (and_then (mk_task_contract (wn_contract n)) (\<lambda>c. mk_node (n\<lparr>wn_contract := c\<rparr>)))"

definition read_lease :: "resource_lease \<Rightarrow> ultra_error + resource_lease" where
  "read_lease l = contract (mk_resource_lease l)"

text \<open>What the constructors give is in normal form, so reading the other columns changes nothing.\<close>

lemma goal_spec_dict:
  "gs_version g = 1 \<Longrightarrow> goal_spec_from_dict cv (goal_spec_to_dict g) = mk_goal_spec g"
proof -
  assume v: "gs_version g = 1"
  have nn: "jstrs xs \<noteq> JNull" for xs by (simp add: jstrs_def)
  have same: "\<lparr>gs_objective = gs_objective g, gs_scope = gs_scope g, gs_criteria = gs_criteria g,
      gs_constraints = gs_constraints g, gs_non_goals = gs_non_goals g, gs_answers = gs_answers g, gs_version = 1\<rparr> = g"
    using v by simp
  show ?thesis
    by (simp add: goal_spec_from_dict_def goal_spec_to_dict_def tuple_field_def object_field_def nn same)
qed

lemma goal_spec_roundtrip:
  assumes "mk_goal_spec g = Inr h"
  shows "goal_spec_from_dict cv (goal_spec_to_dict h) = Inr h"
proof -
  from assms obtain objective where o: "durable_text (gs_objective g) ''goal objective'' 20000 = Inr objective"
    and v: "gs_version g = 1"
    and h: "h = g\<lparr>gs_objective := objective, gs_scope := string_tuple (gs_scope g), gs_criteria := string_tuple (gs_criteria g),
                 gs_constraints := string_tuple (gs_constraints g), gs_non_goals := string_tuple (gs_non_goals g)\<rparr>"
    unfolding mk_goal_spec_def by (auto elim!: and_then_InrE split: if_splits)
  have "mk_goal_spec h = Inr h" unfolding mk_goal_spec_def h using durable_text_idem [OF o] v by simp
  then show ?thesis using goal_spec_dict [of h cv] v h by simp
qed

lemma mk_node_stable:
  assumes "mk_node n = Inr m"
  shows "mk_node m = Inr m"
proof -
  from assms obtain title objective where t: "durable_text (wn_title n) ''node title'' 300 = Inr title"
    and o: "durable_text (wn_objective n) ''node objective'' 8000 = Inr objective"
    and c: "wn_run n \<noteq> []" "wn_id n \<noteq> []" "\<not> (wn_depth n < 0 \<or> wn_attempts n < 0 \<or> wn_max_attempts n < 1)"
    and m: "m = n\<lparr>wn_title := title, wn_objective := objective, wn_depends := string_tuple (wn_depends n)\<rparr>"
    unfolding mk_node_def by (auto elim!: and_then_InrE split: if_splits)
  show ?thesis unfolding mk_node_def m using durable_text_idem [OF t] durable_text_idem [OF o] c by simp
qed

lemma mk_insight_stable:
  assumes "mk_insight r = Inr q"
  shows "mk_insight q = Inr q"
proof -
  from assms obtain summary category where t: "durable_text (in_summary r) ''insight summary'' 4000 = Inr summary"
    and o: "durable_text (in_category r) ''insight category'' 100 = Inr category"
    and c: "in_severity r \<in> {''info'', ''warning'', ''error'', ''critical''}"
    and q: "q = r\<lparr>in_summary := summary, in_category := category, in_details := take 20000 (in_details r),
                 in_evidence := string_tuple (in_evidence r)\<rparr>"
    unfolding mk_insight_def by (elim and_then_InrE) (simp split: if_splits)
  have "in_severity q \<in> {''info'', ''warning'', ''error'', ''critical''}" using c q by simp
  moreover have "q\<lparr>in_summary := summary, in_category := category, in_details := take 20000 (in_details q),
                 in_evidence := string_tuple (in_evidence q)\<rparr> = q" unfolding q by simp
  ultimately show ?thesis unfolding mk_insight_def using durable_text_idem [OF t] durable_text_idem [OF o]
    by (simp add: q del: insert_iff)
qed

lemma mk_result_stable:
  assumes "mk_result r = Inr q"
  shows "mk_result q = Inr q"
proof -
  from assms obtain summary where t: "durable_text (rk_summary r) ''result summary'' 20000 = Inr summary"
    and q: "q = r\<lparr>rk_summary := summary, rk_changed := string_tuple (rk_changed r),
                 rk_artifacts := string_tuple (rk_artifacts r), rk_issues := string_tuple (rk_issues r)\<rparr>"
    unfolding mk_result_def by (auto elim!: and_then_InrE)
  show ?thesis unfolding mk_result_def q using durable_text_idem [OF t] by simp
qed

lemma mk_architecture_stable:
  assumes "mk_architecture a = Inr b"
  shows "mk_architecture b = Inr b"
proof -
  from assms obtain summary where t: "durable_text (ax_summary a) ''architecture summary'' 20000 = Inr summary"
    and v: "ax_version a = 1" and b: "b = a\<lparr>ax_summary := summary, ax_constraints := string_tuple (ax_constraints a)\<rparr>"
    unfolding mk_architecture_def by (auto elim!: and_then_InrE split: if_splits)
  show ?thesis unfolding mk_architecture_def b using durable_text_idem [OF t] v by simp
qed

end
