(* ===== verification/Ultra_Store.thy ===== *)
theory Ultra_Store
  imports Ultra_Types
begin

text \<open>
  The ULTRA operations of \<open>agent/store.py\<close> on runs and work nodes: creating and updating a run,
  binding it to the accepted plan, decomposing a module into a tree of nodes within the limits and
  contracts that were approved, reading the tree, and moving a node.  An operation returns the error
  it raises, with the tables unchanged, or the new tables and its result; \<open>sync_master_modules\<close> is a
  sequence of transactions and returns the tables with either.
\<close>

section \<open>Events\<close>

text \<open>The environment whose identifiers start at the \<open>k\<close>-th.\<close>

definition shift_env :: "nat \<Rightarrow> env \<Rightarrow> env" where
  "shift_env k E = E\<lparr>fresh := (\<lambda>p i. fresh E p (k + i))\<rparr>"

definition ultra_event :: "env \<Rightarrow> nat \<Rightarrow> string \<Rightarrow> string option \<Rightarrow> string \<Rightarrow> string \<Rightarrow> json_obj \<Rightarrow> ultra \<Rightarrow>
    ultra_error + ultra" where
  "ultra_event E k ety gid entity i payload u =
     and_then (journal (log_event E k ety gid (Some entity) (Some i) payload (ul_store u)))
       (\<lambda>s. Inr (u\<lparr>ul_store := s\<rparr>))"

definition class_value :: "execution_class \<Rightarrow> string" where
  "class_value c = (case c of LOCAL \<Rightarrow> ''local'' | CLOUD \<Rightarrow> ''cloud'')"

section \<open>Runs\<close>

definition finished_runs :: "run_status set" where
  "finished_runs = {RUN_COMPLETED, RUN_CANCELLED, RUN_BLOCKED}"

definition insert_run :: "ultra_run \<Rightarrow> ultra \<Rightarrow> ultra_error + ultra" where
  "insert_run r u =
     and_then (journal (insert_row (IntegrityError ''ultra_runs.id'') ur_id r (ul_runs u)))
       (\<lambda>t. Inr (u\<lparr>ul_runs := t\<rparr>))"

definition create_ultra_run :: "env \<Rightarrow> ultra_run \<Rightarrow> ultra \<Rightarrow> ultra_error + ultra \<times> ultra_run" where
  "create_ultra_run E run u =
     and_then (contract (build_run run)) (\<lambda>item.
     if \<not> goal_exists (ur_goal item) (ul_store u) then Inl (Journal (NotFoundError ''goal'' (ur_goal item)))
     else case fetchone (\<lambda>r. ur_goal r = ur_goal item \<and> ur_status r \<notin> finished_runs) (ul_runs u) of
       Some active \<Rightarrow> Inl (Journal (ActiveGoalError (ur_goal item) (ur_id active)))
     | None \<Rightarrow>
       and_then (insert_run (item\<lparr>ur_approved_by := None, ur_approved_at := None\<rparr>) u) (\<lambda>u1.
       and_then (ultra_event E 0 ''ultra.run_created'' (Some (ur_goal item)) ''ultra_run'' (ur_id item)
           [(''provider'', JStr (ur_provider item)), (''model'', JStr (ur_model item)),
            (''execution_class'', JStr (class_value (ur_class item))), (''concurrency'', JInt (ur_concurrency item))] u1) (\<lambda>u2.
       Inr (u2, item))))"

definition get_ultra_run :: "string \<Rightarrow> ultra \<Rightarrow> ultra_error + ultra_run" where
  "get_ultra_run i u =
     (case fetchone (\<lambda>r. ur_id r = i) (ul_runs u) of
        None \<Rightarrow> Inl (Journal (NotFoundError ''ULTRA run'' i))
      | Some r \<Rightarrow> Inr r)"

definition get_active_ultra_run :: "string option \<Rightarrow> ultra \<Rightarrow> ultra_run option" where
  "get_active_ultra_run gid u =
     (case sort_key (\<lambda>r. - ur_updated_at r)
             (filter (\<lambda>r. ur_status r \<notin> finished_runs \<and> (given gid \<longrightarrow> Some (ur_goal r) = gid)) (ul_runs u)) of
        [] \<Rightarrow> None | r # _ \<Rightarrow> Some r)"

definition list_ultra_runs :: "string option \<Rightarrow> ultra \<Rightarrow> ultra_run list" where
  "list_ultra_runs gid u =
     sort_key (\<lambda>r. (ur_created_at r, ur_id r)) (filter (\<lambda>r. given gid \<longrightarrow> Some (ur_goal r) = gid) (ul_runs u))"

record run_update =
  ru_provider :: "string option"
  ru_model :: "string option"
  ru_class :: "execution_class option"
  ru_access :: "access_level option"
  ru_concurrency :: "int option"
  ru_phase :: "ultra_phase option"
  ru_status :: "run_status option"
  ru_goal_spec :: "goal_spec option"
  ru_architecture :: "architecture option"
  ru_config :: "json_obj option"
  ru_error :: "string option"

definition keep :: "'a option \<Rightarrow> 'a \<Rightarrow> 'a" where
  "keep x y = (case x of Some v \<Rightarrow> v | None \<Rightarrow> y)"

definition next_concurrency :: "run_update \<Rightarrow> ultra_run \<Rightarrow> int" where
  "next_concurrency p current = keep (ru_concurrency p) (ur_concurrency current)"

definition updated_run :: "env \<Rightarrow> run_update \<Rightarrow> ultra_run \<Rightarrow> goal_spec option \<Rightarrow> architecture option \<Rightarrow> ultra_run \<Rightarrow> ultra_run" where
  "updated_run E p current spec arch r =
     r\<lparr>ur_provider := keep (map_option strip (ru_provider p)) (ur_provider current),
       ur_model := keep (map_option strip (ru_model p)) (ur_model current),
       ur_class := keep (ru_class p) (ur_class current), ur_access := keep (ru_access p) (ur_access current),
       ur_concurrency := next_concurrency p current,
       ur_phase := keep (ru_phase p) (ur_phase current), ur_status := keep (ru_status p) (ur_status current),
       ur_goal_spec := (if spec = None then ur_goal_spec current else spec),
       ur_architecture := (if arch = None then ur_architecture current else arch),
       ur_config := obj_merge (ur_config current) (keep (ru_config p) []),
       ur_error := ru_error p, ur_updated_at := now E\<rparr>"

definition update_ultra_run :: "env \<Rightarrow> string \<Rightarrow> run_update \<Rightarrow> ultra \<Rightarrow> ultra_error + ultra \<times> ultra_run" where
  "update_ultra_run E i p u =
     and_then (get_ultra_run i u) (\<lambda>current.
     if keep (map_option strip (ru_provider p)) (ur_provider current) = [] \<or>
        keep (map_option strip (ru_model p)) (ur_model current) = [] \<or>
        \<not> (1 \<le> next_concurrency p current \<and> next_concurrency p current \<le> 8)
     then Inl (Journal (ValueError ''invalid ULTRA provider/model/concurrency update''))
     else
       and_then (contract (build_opt mk_goal_spec (ru_goal_spec p))) (\<lambda>spec.
       and_then (contract (build_opt mk_architecture (ru_architecture p))) (\<lambda>arch.
       let change = updated_run E p current spec arch;
           sel = (\<lambda>r. ur_id r = i \<and> ur_updated_at r = ur_updated_at current)
       in if \<not> exists_row sel (ul_runs u) then Inl (Journal (StateStoreError ''ULTRA run changed concurrently''))
          else and_then (ultra_event E 0 ''ultra.run_updated'' (Some (ur_goal current)) ''ultra_run'' i
                   [(''phase'', JStr (phase_value (ur_phase (change current)))),
                    (''status'', JStr (run_value (ur_status (change current))))]
                   (u\<lparr>ul_runs := update_where sel change (ul_runs u)\<rparr>)) (\<lambda>u1.
               Inr (u1, change current)))))"

definition approve_ultra_master :: "env \<Rightarrow> string \<Rightarrow> int \<Rightarrow> string \<Rightarrow> string \<Rightarrow> ultra \<Rightarrow> ultra_error + ultra \<times> ultra_run" where
  "approve_ultra_master E i revision fingerprint approved_by u =
     and_then (get_ultra_run i u) (\<lambda>run.
     case fetchone (\<lambda>p. p_goal_id p = ur_goal run \<and> p_revision p = revision) (st_plans (ul_store u)) of
       None \<Rightarrow> Inl (MasterApprovalError ''master plan revision does not exist'')
     | Some plan \<Rightarrow>
       if p_status plan \<noteq> PLAN_ACCEPTED then Inl (MasterApprovalError ''master plan must be accepted first'')
       else if fingerprint = [] \<or> p_fingerprint plan \<noteq> fingerprint
       then Inl (MasterApprovalError ''master plan fingerprint does not match'')
       else let change = (\<lambda>r. r\<lparr>ur_plan_revision := Some revision, ur_fingerprint := fingerprint, ur_approved := True,
                   ur_phase := PH_MODULE_WAVES, ur_status := RUN_RUNNING, ur_updated_at := now E\<rparr>);
                record_by = (\<lambda>r. r\<lparr>ur_approved_by := Some approved_by, ur_approved_at := Some (now E)\<rparr>)
            in and_then (ultra_event E 0 ''ultra.master_approved'' (Some (ur_goal run)) ''ultra_run'' i
                 [(''revision'', JInt revision), (''fingerprint'', JStr fingerprint)]
                 (u\<lparr>ul_runs := update_where (\<lambda>r. ur_id r = i) (record_by \<circ> change) (ul_runs u)\<rparr>)) (\<lambda>u1.
               Inr (u1, change run)))"

section \<open>Work nodes\<close>

definition setting :: "conversions \<Rightarrow> ultra_run \<Rightarrow> string \<Rightarrow> int \<Rightarrow> int \<Rightarrow> ultra_error + int" where
  "setting cv run k dflt cap =
     (case py_int cv (get_or (JInt dflt) (ur_config run) k) of
        None \<Rightarrow> Inl (Malformed k)
      | Some v \<Rightarrow> Inr (max 1 (min v cap)))"

definition check_child :: "task_contract \<Rightarrow> task_contract \<Rightarrow> ultra_error + unit" where
  "check_child parent child =
     map_error (\<lambda>e. case e of Inl c \<Rightarrow> Contract c | Inr vs \<Rightarrow> ScopeError vs) (assert_child_contract parent child)"

definition task_in_accepted_plan :: "store \<Rightarrow> string \<Rightarrow> int option \<Rightarrow> string option \<Rightarrow> bool" where
  "task_in_accepted_plan s gid revision task_id =
     exists_row (\<lambda>t. t_goal_id t = gid \<and> Some (t_plan_revision t) = revision \<and> Some (t_id t) = task_id \<and>
                     exists_row (\<lambda>p. p_id p = t_plan_id t \<and> p_status p = PLAN_ACCEPTED) (st_plans s)) (st_tasks s)"

text \<open>The depth and the plan task of a new node, from its parent or from the approved plan.\<close>

definition place_node :: "ultra_run \<Rightarrow> int \<Rightarrow> work_node \<Rightarrow> ultra \<Rightarrow> ultra_error + int \<times> string option" where
  "place_node run max_depth item u =
     (if given (wn_parent item) then
        case fetchone (\<lambda>n. Some (wn_id n) = wn_parent item) (ul_nodes u) of
          None \<Rightarrow> Inl (Journal (NotFoundError ''parent work node'' (the (wn_parent item))))
        | Some row \<Rightarrow>
          and_then (read_node row) (\<lambda>parent.
          if wn_run parent \<noteq> wn_run item then Inl (Journal (StateStoreError ''parent work node belongs to another ULTRA run''))
          else if max_depth < wn_depth parent + 1 then Inl (Journal (StateStoreError ''ULTRA decomposition depth exceeded''))
          else and_then (check_child (wn_contract parent) (wn_contract item)) (\<lambda>_.
               if given (wn_task item) \<and> wn_task item \<noteq> wn_task parent then Inl BindingChanged
               else Inr (wn_depth parent + 1, wn_task parent)))
      else if wn_kind item = K_MODULE then
        if \<not> ur_approved run \<or> \<not> given (wn_task item)
        then Inl (MasterApprovalError ''a master module requires approved plan-task binding'')
        else if \<not> task_in_accepted_plan (ul_store u) (ur_goal run) (ur_plan_revision run) (wn_task item)
        then Inl (MasterApprovalError ''master module is not present in the accepted plan'')
        else Inr (0, wn_task item)
      else Inr (0, wn_task item))"

fun check_dependencies :: "work_node \<Rightarrow> ultra \<Rightarrow> string list \<Rightarrow> ultra_error + unit" where
  "check_dependencies item u [] = Inr ()"
| "check_dependencies item u (d # ds) =
     (if \<not> exists_row (\<lambda>n. wn_id n = d \<and> wn_run n = wn_run item) (ul_nodes u)
      then Inl (Journal (StateStoreError ''work-node dependency is missing or foreign''))
      else if d = wn_id item then Inl (Journal (StateStoreError ''a work node cannot depend on itself''))
      else check_dependencies item u ds)"

definition insert_node :: "work_node \<Rightarrow> ultra \<Rightarrow> ultra_error + ultra" where
  "insert_node n u =
     (if wn_parent n \<noteq> None \<and> wn_parent n \<notin> Some ` wn_id ` set (ul_nodes u)
      then Inl (Journal (IntegrityError ''FOREIGN KEY work_nodes(id)''))
      else and_then (journal (insert_row (IntegrityError ''work_nodes.id'') wn_id n (ul_nodes u)))
             (\<lambda>t. Inr (u\<lparr>ul_nodes := t\<rparr>)))"

definition create_work_node :: "conversions \<Rightarrow> env \<Rightarrow> work_node \<Rightarrow> ultra \<Rightarrow> ultra_error + ultra \<times> work_node" where
  "create_work_node cv E node u =
     and_then (contract (build_node node)) (\<lambda>item.
     and_then (get_ultra_run (wn_run item) u) (\<lambda>run.
     and_then (setting cv run ''max_depth'' 5 12) (\<lambda>max_depth.
     and_then (setting cv run ''max_nodes'' 500 5000) (\<lambda>max_nodes.
     if max_nodes \<le> int (length (filter (\<lambda>n. wn_run n = wn_run item) (ul_nodes u)))
     then Inl (Journal (StateStoreError ''ULTRA work-node cap reached''))
     else
       and_then (place_node run max_depth item u) (\<lambda>(depth, task).
       and_then (check_dependencies item u (wn_depends item)) (\<lambda>_.
       let stored = item\<lparr>wn_depth := depth, wn_task := task\<rparr> in
       and_then (insert_node stored u) (\<lambda>u1.
       and_then (ultra_event E 0 ''ultra.node_created'' (Some (ur_goal run)) ''work_node'' (wn_id stored)
           [(''kind'', JStr (kind_value (wn_kind stored))), (''parent_id'', opt_str (wn_parent stored)),
            (''depth'', JInt depth)] u1) (\<lambda>u2.
       Inr (u2, stored)))))))))"

definition get_work_node :: "string \<Rightarrow> ultra \<Rightarrow> ultra_error + work_node" where
  "get_work_node i u =
     (case fetchone (\<lambda>n. wn_id n = i) (ul_nodes u) of
        None \<Rightarrow> Inl (Journal (NotFoundError ''work node'' i))
      | Some n \<Rightarrow> read_node n)"

text \<open>The recursive query: level by level, at most one level per row.\<close>

definition children_of :: "work_node list \<Rightarrow> string list \<Rightarrow> string list" where
  "children_of t ids = map wn_id (filter (\<lambda>n. wn_parent n \<in> Some ` set ids) t)"

fun descend :: "nat \<Rightarrow> work_node list \<Rightarrow> string list \<Rightarrow> string list" where
  "descend 0 t ids = ids"
| "descend (Suc k) t ids = (if ids = [] then [] else ids @ descend k t (children_of t ids))"

definition subtree :: "work_node list \<Rightarrow> string \<Rightarrow> string \<Rightarrow> string list" where
  "subtree t run i = descend (length t) t (map wn_id (filter (\<lambda>n. wn_id n = i \<and> wn_run n = run) t))"

definition list_work_nodes :: "string \<Rightarrow> string option \<Rightarrow> node_status option \<Rightarrow> bool \<Rightarrow> ultra \<Rightarrow> ultra_error + work_node list" where
  "list_work_nodes run parent status recursive u =
     (let rows =
        (if \<not> recursive then filter (\<lambda>n. wn_run n = run \<and> wn_parent n = parent) (ul_nodes u)
         else case parent of
           None \<Rightarrow> filter (\<lambda>n. wn_run n = run) (ul_nodes u)
         | Some i \<Rightarrow> filter (\<lambda>n. wn_id n \<in> set (subtree (ul_nodes u) run i)) (ul_nodes u))
      in map_result read_node
           (sort_key (\<lambda>n. (wn_depth n, wn_position n, wn_created_at n, wn_id n))
              (filter (\<lambda>n. case status of None \<Rightarrow> True | Some st \<Rightarrow> wn_status n = st) rows)))"

text \<open>The walk to the root; the set of seen nodes grows within the table.\<close>

function ancestor_walk :: "ultra \<Rightarrow> string \<Rightarrow> string list \<Rightarrow> work_node list \<Rightarrow> work_node \<Rightarrow> ultra_error + work_node list" where
  "ancestor_walk u run seen result current =
     (if \<not> given (wn_parent current) then Inr result
      else case get_work_node (the (wn_parent current)) u of
        Inl e \<Rightarrow> Inl e
      | Inr parent \<Rightarrow>
          if wn_id parent \<in> set seen \<or> wn_run parent \<noteq> run
          then Inl (Journal (StateCorruptionError ''invalid work-node parent hierarchy''))
          else ancestor_walk u run (wn_id parent # seen) (parent # result) parent)"
  by pat_completeness auto

lemma read_node_id: "read_node n = Inr m \<Longrightarrow> wn_id m = wn_id n"
  unfolding read_node_def mk_node_def by (auto elim!: and_then_InrE split: if_splits)

lemma get_work_node_id: "get_work_node i u = Inr n \<Longrightarrow> wn_id n = i \<and> i \<in> wn_id ` set (ul_nodes u)"
  unfolding get_work_node_def by (auto split: option.splits dest!: fetchone_Some dest: read_node_id)

termination ancestor_walk
proof (relation "measure (\<lambda>(u, run, seen, result, current). card (wn_id ` set (ul_nodes u) - set seen))")
  fix u run seen result and current parent :: work_node
  assume g: "get_work_node (the (wn_parent current)) u = Inr parent"
    and n: "\<not> (wn_id parent \<in> set seen \<or> wn_run parent \<noteq> run)"
  have "wn_id parent \<in> wn_id ` set (ul_nodes u)" using get_work_node_id [OF g] by simp
  then have "wn_id ` set (ul_nodes u) - set (wn_id parent # seen) \<subset> wn_id ` set (ul_nodes u) - set seen" using n by auto
  then have "card (wn_id ` set (ul_nodes u) - set (wn_id parent # seen)) < card (wn_id ` set (ul_nodes u) - set seen)"
    by (rule psubset_card_mono [rotated]) simp
  then show "((u, run, wn_id parent # seen, parent # result, parent), (u, run, seen, result, current))
      \<in> measure (\<lambda>(u, run, seen, result, current). card (wn_id ` set (ul_nodes u) - set seen))" by simp
qed simp

declare ancestor_walk.simps [simp del]

definition work_node_ancestors :: "string \<Rightarrow> ultra \<Rightarrow> ultra_error + work_node list" where
  "work_node_ancestors i u =
     and_then (get_work_node i u) (\<lambda>node. ancestor_walk u (wn_run node) [wn_id node] [] node)"

section \<open>Moving a node\<close>

definition node_done :: "ultra \<Rightarrow> string \<Rightarrow> bool" where
  "node_done u d = (case fetchone (\<lambda>n. wn_id n = d) (ul_nodes u) of
      None \<Rightarrow> False | Some n \<Rightarrow> wn_status n = N_COMPLETED)"

definition change_node :: "string \<Rightarrow> int \<Rightarrow> (work_node \<Rightarrow> work_node) \<Rightarrow> ultra \<Rightarrow> ultra_error + ultra" where
  "change_node i stamp change u =
     (let sel = (\<lambda>n. wn_id n = i \<and> wn_updated_at n = stamp) in
      if \<not> exists_row sel (ul_nodes u) then Inl (Journal (StateStoreError ''work node changed concurrently''))
      else Inr (u\<lparr>ul_nodes := update_where sel change (ul_nodes u)\<rparr>))"

definition exhausted :: "work_node \<Rightarrow> node_status \<Rightarrow> bool \<Rightarrow> bool" where
  "exhausted node requested increment \<longleftrightarrow>
     wn_max_attempts node < wn_attempts node + (if increment then 1 else 0) \<and> requested \<in> {N_IN_PROGRESS, N_FIXING}"

definition moved_node :: "env \<Rightarrow> work_node \<Rightarrow> node_status \<Rightarrow> result_package option \<Rightarrow> string option \<Rightarrow> string option \<Rightarrow>
    bool \<Rightarrow> work_node \<Rightarrow> work_node" where
  "moved_node E node requested package error cp increment n =
     n\<lparr>wn_status := (if exhausted node requested increment then N_REVISION_REQUIRED else requested),
       wn_attempts := wn_attempts node + (if increment then 1 else 0),
       wn_result := (if package = None then wn_result node else package),
       wn_error := (if exhausted node requested increment \<and> \<not> given error
                    then Some ''bounded fix attempts exhausted'' else error),
       wn_checkpoint := keep cp (wn_checkpoint node), wn_updated_at := now E\<rparr>"

definition transition_work_node :: "env \<Rightarrow> string \<Rightarrow> node_status \<Rightarrow> result_package option \<Rightarrow> string option \<Rightarrow>
    string option \<Rightarrow> bool \<Rightarrow> ultra \<Rightarrow> ultra_error + ultra \<times> work_node" where
  "transition_work_node E i requested result error cp increment u =
     and_then (get_work_node i u) (\<lambda>node.
     and_then (contract (build_opt build_result result)) (\<lambda>package.
     if requested = N_IN_PROGRESS \<and> \<not> list_all (node_done u) (wn_depends node)
     then Inl (Journal (CompletionGateError ''work-node dependencies are incomplete''))
     else if requested = N_COMPLETED \<and> package = None \<and> wn_result node = None
     then Inl (Journal (CompletionGateError ''completing a work node requires a result package''))
     else
       let change = moved_node E node requested package error cp increment in
       and_then (change_node i (wn_updated_at node) change u) (\<lambda>u1.
       case fetchone (\<lambda>r. ur_id r = wn_run node) (ul_runs u) of
         None \<Rightarrow> Inl (Journal (PyTypeError ''NoneType''))
       | Some run \<Rightarrow>
         and_then (ultra_event E 0 ''ultra.node_status_changed'' (Some (ur_goal run)) ''work_node'' i
             [(''from'', JStr (node_value (wn_status node))), (''to'', JStr (node_value (wn_status (change node)))),
              (''attempts'', JInt (wn_attempts (change node)))] u1) (\<lambda>u2.
         Inr (u2, change node)))))"

definition update_work_node_definition :: "env \<Rightarrow> string \<Rightarrow> task_contract \<Rightarrow> string list \<Rightarrow> string \<Rightarrow> string \<Rightarrow>
    json_obj \<Rightarrow> ultra \<Rightarrow> ultra_error + ultra \<times> work_node" where
  "update_work_node_definition E i contract0 depends role cp metadata u =
     and_then (contract (mk_task_contract contract0)) (\<lambda>c.
     and_then (get_work_node i u) (\<lambda>node.
     let dependencies = dict_fromkeys (filter (\<lambda>d. d \<noteq> []) depends) in
     if \<not> list_all (\<lambda>d. exists_row (\<lambda>n. wn_id n = d \<and> wn_run n = wn_run node) (ul_nodes u)) dependencies
     then Inl (Journal (StateStoreError ''work-node dependency is missing or foreign''))
     else
       let change = (\<lambda>n. n\<lparr>wn_depends := dependencies, wn_contract := c, wn_role := role, wn_checkpoint := cp,
                           wn_metadata := metadata, wn_updated_at := now E\<rparr>)
       in and_then (change_node i (wn_updated_at node) change u) (\<lambda>u1.
          and_then (contract (mk_node (change node))) (\<lambda>m. Inr (u1, m)))))"

section \<open>The modules of the approved plan\<close>

definition or_text :: "string \<Rightarrow> string \<Rightarrow> string" where
  "or_text a b = (if a = [] then b else a)"

definition change_supports :: "conversions \<Rightarrow> string \<Rightarrow> json_obj \<Rightarrow> ultra_error + bool" where
  "change_supports cv task_id c =
     (case strings_of cv (get_or (JArr []) c ''supports_tasks'') of
        None \<Rightarrow> Inl (Malformed ''supports_tasks'')
      | Some xs \<Rightarrow> Inr (task_id \<in> set (map (\<lambda>x. upper (strip x)) xs)))"

fun module_paths :: "conversions \<Rightarrow> string \<Rightarrow> json_obj list \<Rightarrow> ultra_error + string list" where
  "module_paths cv task_id [] = Inr []"
| "module_paths cv task_id (c # cs) =
     and_then (change_supports cv task_id c) (\<lambda>b.
     and_then (module_paths cv task_id cs) (\<lambda>ps.
       Inr (if b then py_str (cv_repr cv) (get_or JNull c ''path'') # ps else ps)))"

definition module_contract :: "ultra_run \<Rightarrow> plan \<Rightarrow> goal \<Rightarrow> task \<Rightarrow> string list \<Rightarrow> task_contract" where
  "module_contract run plan goal task paths =
     \<lparr>tc_objective = or_text (t_description task) (t_title task), tc_criteria = t_acceptance_criteria task,
      tc_write = (if paths = [] then [''.''] else paths), tc_read = [''.''], tc_forbidden = g_constraints goal,
      tc_interfaces = (case ur_architecture run of Some a \<Rightarrow> ax_interfaces a | None \<Rightarrow> []), tc_dependencies = [],
      tc_metadata = [(''plan_revision'', JInt (p_revision plan)), (''task_id'', JStr (t_id task))], tc_version = 1\<rparr>"

definition module_node :: "env \<Rightarrow> ultra_run \<Rightarrow> nat \<Rightarrow> task \<Rightarrow> task_contract \<Rightarrow> (string \<times> work_node) list \<Rightarrow> work_node" where
  "module_node E run position task c existing =
     \<lparr>wn_id = fresh E ''node'' 0, wn_run = ur_id run, wn_parent = None, wn_task = Some (t_id task), wn_kind = K_MODULE,
      wn_title = t_title task, wn_objective = or_text (t_description task) (t_title task), wn_status = N_PENDING,
      wn_depth = 0, wn_position = int position,
      wn_depends = map wn_id (List.map_filter (map_of existing) (t_depends_on task)),
      wn_contract = c, wn_role = rp_name (t_role task), wn_attempts = 0, wn_max_attempts = 3, wn_result = None,
      wn_error = None, wn_checkpoint = [], wn_metadata = [], wn_created_at = now E, wn_updated_at = now E\<rparr>"

definition create_module :: "conversions \<Rightarrow> env \<Rightarrow> ultra_run \<Rightarrow> plan \<Rightarrow> nat \<Rightarrow> task \<Rightarrow> (string \<times> work_node) list \<Rightarrow>
    ultra \<Rightarrow> ultra_error + ultra \<times> work_node" where
  "create_module cv E run plan position task existing u =
     and_then (module_paths cv (t_id task) (p_changes plan)) (\<lambda>paths.
     and_then (journal (get_goal (ur_goal run) (ul_store u))) (\<lambda>goal.
     and_then (contract (mk_task_contract (module_contract run plan goal task paths))) (\<lambda>c.
       create_work_node cv E (module_node E run position task c existing) u)))"

text \<open>One task per turn of the loop, in the order the plan lists them; every creation commits.\<close>

fun sync_tasks :: "conversions \<Rightarrow> env \<Rightarrow> ultra_run \<Rightarrow> plan \<Rightarrow> (nat \<times> task) list \<Rightarrow> (string \<times> work_node) list \<Rightarrow>
    work_node list \<Rightarrow> ultra \<Rightarrow> ultra \<times> (ultra_error + work_node list)" where
  "sync_tasks cv E run plan [] existing modules u = (u, Inr modules)"
| "sync_tasks cv E run plan ((position, task) # rest) existing modules u =
     (case map_of existing (t_id task) of
        Some node \<Rightarrow> sync_tasks cv E run plan rest existing (modules @ [node]) u
      | None \<Rightarrow>
        case create_module cv (shift_env position E) run plan position task existing u of
          Inl e \<Rightarrow> (u, Inl e)
        | Inr (v, node) \<Rightarrow> sync_tasks cv E run plan rest ((t_id task, node) # existing) (modules @ [node]) v)"

definition master_modules :: "work_node list \<Rightarrow> (string \<times> work_node) list" where
  "master_modules nodes = rev (map (\<lambda>n. (the (wn_task n), n)) (filter is_master_module nodes))"

definition sync_master_modules :: "conversions \<Rightarrow> env \<Rightarrow> string \<Rightarrow> ultra \<Rightarrow> ultra \<times> (ultra_error + work_node list)" where
  "sync_master_modules cv E i u =
     (case and_then (get_ultra_run i u) (\<lambda>run.
           case ur_plan_revision run of
             None \<Rightarrow> Inl (MasterApprovalError ''ULTRA master plan is not approved'')
           | Some revision \<Rightarrow>
             if \<not> ur_approved run then Inl (MasterApprovalError ''ULTRA master plan is not approved'')
             else and_then (journal (get_plan (ur_goal run) revision (ul_store u))) (\<lambda>plan.
                  and_then (list_work_nodes i None None True u) (\<lambda>nodes. Inr (run, plan, nodes)))) of
        Inl e \<Rightarrow> (u, Inl e)
      | Inr (run, plan, nodes) \<Rightarrow> sync_tasks cv E run plan (enumerate 0 (p_tasks plan)) (master_modules nodes) [] u)"

end
