(* ===== verification/Ultra_Leases.thy ===== *)
theory Ultra_Leases
  imports Ultra_Store
begin

text \<open>
  The rest of the ULTRA operations of \<open>agent/store.py\<close>: agent runs, leases on paths, the recovery
  of interrupted work, and \<open>exec_ultra\<close>, which runs any operation of the journal, core or ULTRA, on
  the tables.  Times are microseconds.
\<close>

section \<open>Agent runs\<close>

definition insert_agent :: "agent_run \<Rightarrow> ultra \<Rightarrow> ultra_error + ultra" where
  "insert_agent a u =
     (if ar_node a \<noteq> None \<and> ar_node a \<notin> Some ` wn_id ` set (ul_nodes u)
      then Inl (Journal (IntegrityError ''FOREIGN KEY work_nodes(id)''))
      else and_then (journal (insert_row (IntegrityError ''agent_runs.id'') ar_id a (ul_agents u)))
             (\<lambda>t. Inr (u\<lparr>ul_agents := t\<rparr>)))"

definition create_agent_run :: "env \<Rightarrow> agent_run \<Rightarrow> ultra \<Rightarrow> ultra_error + ultra \<times> agent_run" where
  "create_agent_run E agent u =
     and_then (contract (build_agent agent)) (\<lambda>item.
     case fetchone (\<lambda>r. ur_id r = ar_run item) (ul_runs u) of
       None \<Rightarrow> Inl (Journal (NotFoundError ''ULTRA run'' (ar_run item)))
     | Some run \<Rightarrow>
       if given (ar_node item) \<and> \<not> exists_row (\<lambda>n. Some (wn_id n) = ar_node item \<and> wn_run n = ar_run item) (ul_nodes u)
       then Inl (Journal (StateStoreError ''agent work node is missing or belongs to another run''))
       else
         and_then (insert_agent item u) (\<lambda>u1.
         and_then (ultra_event E 0 ''ultra.agent_created'' (Some (ur_goal run)) ''agent_run'' (ar_id item)
             [(''role'', JStr (ar_role item)), (''node_id'', opt_str (ar_node item)), (''phase'', JStr (ar_phase item))] u1) (\<lambda>u2.
         Inr (u2, item))))"

definition get_agent_run :: "string \<Rightarrow> ultra \<Rightarrow> ultra_error + agent_run" where
  "get_agent_run i u =
     (case fetchone (\<lambda>a. ar_id a = i) (ul_agents u) of
        None \<Rightarrow> Inl (Journal (NotFoundError ''agent run'' i))
      | Some a \<Rightarrow> Inr a)"

definition list_agent_runs :: "string \<Rightarrow> string option \<Rightarrow> agent_status option \<Rightarrow> ultra \<Rightarrow> agent_run list" where
  "list_agent_runs run node status u =
     sort_key (\<lambda>a. (ar_started_at a, ar_id a))
       (filter (\<lambda>a. ar_run a = run \<and> (given node \<longrightarrow> ar_node a = node) \<and> (status = None \<or> Some (ar_status a) = status))
               (ul_agents u))"

definition terminal_agents :: "agent_status set" where
  "terminal_agents = {A_COMPLETED, A_FAILED, A_CANCELLED, A_UNCERTAIN}"

record agent_update =
  au_usage :: "json_obj option"
  au_result :: "result_package option"
  au_error :: "string option"
  au_trace :: "string option"
  au_side_effects :: "bool option"

definition updated_agent :: "env \<Rightarrow> agent_run \<Rightarrow> agent_status \<Rightarrow> agent_update \<Rightarrow> result_package option \<Rightarrow> agent_run \<Rightarrow> agent_run" where
  "updated_agent E item target p package a =
     a\<lparr>ar_status := target, ar_usage := obj_merge (ar_usage item) (keep (au_usage p) []),
       ar_result := (if package = None then ar_result item else package), ar_error := au_error p,
       ar_trace := (if au_trace p = None then ar_trace item else au_trace p),
       ar_side_effects := keep (au_side_effects p) (ar_side_effects item), ar_updated_at := now E,
       ar_finished_at := (if target \<in> terminal_agents then Some (now E) else None)\<rparr>"

definition update_agent_run :: "env \<Rightarrow> string \<Rightarrow> agent_status \<Rightarrow> agent_update \<Rightarrow> ultra \<Rightarrow> ultra_error + ultra \<times> agent_run" where
  "update_agent_run E i target p u =
     and_then (get_agent_run i u) (\<lambda>item.
     and_then (contract (build_opt build_result (au_result p))) (\<lambda>package.
     let change = updated_agent E item target p package;
         sel = (\<lambda>a. ar_id a = i \<and> ar_updated_at a = ar_updated_at item)
     in if \<not> exists_row sel (ul_agents u) then Inl (Journal (StateStoreError ''agent run changed concurrently''))
        else case fetchone (\<lambda>r. ur_id r = ar_run item) (ul_runs u) of
          None \<Rightarrow> Inl (Journal (PyTypeError ''NoneType''))
        | Some run \<Rightarrow>
          and_then (ultra_event E 0 ''ultra.agent_status_changed'' (Some (ur_goal run)) ''agent_run'' i
              [(''from'', JStr (agent_value (ar_status item))), (''to'', JStr (agent_value target)),
               (''role'', JStr (ar_role item))]
              (u\<lparr>ul_agents := update_where sel change (ul_agents u)\<rparr>)) (\<lambda>u1.
          Inr (u1, change item))))"

section \<open>Leases on paths\<close>

text \<open>\<open>max(5, min(ttl, 3600))\<close> seconds.\<close>

definition lease_span :: "int \<Rightarrow> int" where
  "lease_span ttl = 1000000 * max 5 (min ttl 3600)"

definition overlap_keys :: "string \<Rightarrow> string \<Rightarrow> bool" where
  "overlap_keys l r \<longleftrightarrow>
     l = ''.'' \<or> r = ''.'' \<or> l = r \<or> starts_with (r @ ''/'') l \<or> starts_with (l @ ''/'') r"

definition paths_overlap :: "string \<Rightarrow> string \<Rightarrow> contract_error + bool" where
  "paths_overlap a b =
     and_then (normalize_path a) (\<lambda>l. and_then (normalize_path b) (\<lambda>r. Inr (overlap_keys (casefold l) (casefold r))))"

definition expire_leases :: "env \<Rightarrow> ultra \<Rightarrow> ultra" where
  "expire_leases E u =
     u\<lparr>ul_leases := update_where (\<lambda>l. rl_status l = L_ACTIVE \<and> rl_expires_at l \<le> now E)
        (\<lambda>l. l\<lparr>rl_status := L_EXPIRED, rl_updated_at := now E, rl_released_at := Some (now E)\<rparr>) (ul_leases u)\<rparr>"

text \<open>The active leases in turn: the first that overlaps is the caller's own, or a conflict.\<close>

fun lease_scan :: "(resource_lease \<Rightarrow> bool) \<Rightarrow> string \<Rightarrow> resource_lease list \<Rightarrow> ultra_error + resource_lease option" where
  "lease_scan own path [] = Inr None"
| "lease_scan own path (row # rows) =
     and_then (read_lease row) (\<lambda>current.
     and_then (contract (paths_overlap (rl_path current) path)) (\<lambda>b.
       if \<not> b then lease_scan own path rows
       else if own current then Inr (Some current)
       else Inl (LeaseConflict (rl_path current))))"

definition update_lease :: "string \<Rightarrow> (resource_lease \<Rightarrow> resource_lease) \<Rightarrow> ultra \<Rightarrow> ultra" where
  "update_lease i change u = u\<lparr>ul_leases := update_where (\<lambda>l. rl_id l = i) change (ul_leases u)\<rparr>"

definition insert_lease :: "resource_lease \<Rightarrow> ultra \<Rightarrow> ultra_error + ultra" where
  "insert_lease l u =
     (if rl_run l \<notin> ur_id ` set (ul_runs u) \<or> (rl_agent l \<noteq> None \<and> rl_agent l \<notin> Some ` ar_id ` set (ul_agents u))
      then Inl (Journal (IntegrityError ''FOREIGN KEY resource_leases''))
      else and_then (journal (insert_row (IntegrityError ''resource_leases.id'') rl_id l (ul_leases u)))
             (\<lambda>t. Inr (u\<lparr>ul_leases := t\<rparr>)))"

definition acquire_resource_lease :: "env \<Rightarrow> string \<Rightarrow> string \<Rightarrow> string \<Rightarrow> string option \<Rightarrow> string option \<Rightarrow> int \<Rightarrow> ultra \<Rightarrow>
    ultra_error + ultra \<times> resource_lease" where
  "acquire_resource_lease E run node path agent pre_write_hash ttl u =
     and_then (contract (normalize_path path)) (\<lambda>normalized.
     let expires = now E + lease_span ttl in
     if \<not> exists_row (\<lambda>n. wn_id n = node \<and> wn_run n = run) (ul_nodes u)
     then Inl (Journal (StateStoreError ''lease work node is missing or belongs to another run''))
     else
       let u1 = expire_leases E u;
           own = (\<lambda>l. rl_run l = run \<and> rl_node l = node \<and> rl_agent l = agent \<and> casefold (rl_path l) = casefold normalized);
           active = sort_key (\<lambda>l. (rl_acquired_at l, rl_id l)) (filter (\<lambda>l. rl_status l = L_ACTIVE) (ul_leases u1));
           extend = (\<lambda>l. l\<lparr>rl_expires_at := expires, rl_updated_at := now E, rl_hash := pre_write_hash\<rparr>)
       in and_then (lease_scan own normalized active) (\<lambda>found.
          case found of
            Some current \<Rightarrow> Inr (update_lease (rl_id current) extend u1, extend current)
          | None \<Rightarrow>
            and_then (contract (mk_resource_lease
                \<lparr>rl_id = fresh E ''lease'' 0, rl_run = run, rl_node = node, rl_agent = agent, rl_path = normalized,
                 rl_hash = pre_write_hash, rl_status = L_ACTIVE, rl_acquired_at = now E, rl_updated_at = now E,
                 rl_expires_at = expires, rl_released_at = None\<rparr>)) (\<lambda>lease.
            and_then (insert_lease lease u1) (\<lambda>u2. Inr (u2, lease)))))"

definition find_lease :: "string \<Rightarrow> ultra \<Rightarrow> ultra_error + resource_lease" where
  "find_lease i u =
     (case fetchone (\<lambda>l. rl_id l = i) (ul_leases u) of
        None \<Rightarrow> Inl (Journal (NotFoundError ''resource lease'' i))
      | Some l \<Rightarrow> read_lease l)"

definition renew_resource_lease :: "env \<Rightarrow> string \<Rightarrow> int \<Rightarrow> ultra \<Rightarrow> ultra_error + ultra \<times> resource_lease" where
  "renew_resource_lease E i ttl u =
     and_then (find_lease i u) (\<lambda>item.
     if rl_status item \<noteq> L_ACTIVE \<or> rl_expires_at item \<le> now E then Inl (LeaseConflict (rl_path item))
     else let change = (\<lambda>l. l\<lparr>rl_expires_at := now E + lease_span ttl, rl_updated_at := now E\<rparr>)
          in Inr (update_lease i change u, change item))"

definition release_resource_lease :: "env \<Rightarrow> string \<Rightarrow> lease_status \<Rightarrow> ultra \<Rightarrow> ultra_error + ultra \<times> resource_lease" where
  "release_resource_lease E i target u =
     (if target = L_ACTIVE
      then Inl (Journal (ValueError ''lease release status must be released, expired, or uncertain''))
      else and_then (find_lease i u) (\<lambda>item.
        let change = (\<lambda>l. l\<lparr>rl_status := target, rl_updated_at := now E, rl_released_at := Some (now E)\<rparr>)
        in if rl_status item = L_ACTIVE \<or> (rl_status item = L_UNCERTAIN \<and> target = L_RELEASED)
           then Inr (update_lease i change u, change item)
           else Inr (u, item)))"

text \<open>A changed hash is committed as a conflict before it is raised.\<close>

definition assert_lease_hash :: "env \<Rightarrow> string \<Rightarrow> string option \<Rightarrow> ultra \<Rightarrow> ultra \<times> (ultra_error + resource_lease)" where
  "assert_lease_hash E i current_hash u =
     (case find_lease i u of
        Inl e \<Rightarrow> (u, Inl e)
      | Inr item \<Rightarrow>
        if rl_status item \<noteq> L_ACTIVE then (u, Inl (LeaseConflict (rl_path item)))
        else if rl_hash item = current_hash then (u, Inr item)
        else
          let u1 = update_lease i (\<lambda>l. l\<lparr>rl_status := L_UNCERTAIN, rl_updated_at := now E, rl_released_at := Some (now E)\<rparr>) u;
              u2 = u1\<lparr>ul_nodes := update_where (\<lambda>n. wn_id n = rl_node item)
                      (\<lambda>n. n\<lparr>wn_status := N_UNCERTAIN,
                             wn_error := Some ''pre-write hash changed; integration conflict requires inspection'',
                             wn_updated_at := now E\<rparr>) (ul_nodes u1)\<rparr>
          in case ultra_event E 0 ''ultra.lease_conflict''
                    (map_option ur_goal (fetchone (\<lambda>r. ur_id r = rl_run item) (ul_runs u2))) ''resource_lease'' i
                    [(''path'', JStr (rl_path item)), (''expected_hash'', opt_str (rl_hash item))] u2 of
               Inl e \<Rightarrow> (u, Inl e)
             | Inr u3 \<Rightarrow> (u3, Inl (LeaseConflict (rl_path item))))"

definition list_resource_leases :: "string option \<Rightarrow> lease_status option \<Rightarrow> ultra \<Rightarrow> ultra_error + resource_lease list" where
  "list_resource_leases run status u =
     map_result read_lease (sort_key (\<lambda>l. (rl_acquired_at l, rl_id l))
       (filter (\<lambda>l. (given run \<longrightarrow> Some (rl_run l) = run) \<and> (status = None \<or> Some (rl_status l) = status)) (ul_leases u)))"

definition expired_ids :: "env \<Rightarrow> ultra \<Rightarrow> string list" where
  "expired_ids E u = map rl_id (filter (\<lambda>l. rl_status l = L_ACTIVE \<and> rl_expires_at l \<le> now E) (ul_leases u))"

definition reap_expired_leases :: "env \<Rightarrow> ultra \<Rightarrow> ultra \<times> string list" where
  "reap_expired_leases E u = (expire_leases E u, expired_ids E u)"

section \<open>Recovery\<close>

definition in_flight_nodes :: "node_status set" where
  "in_flight_nodes = {N_IN_PROGRESS, N_REVIEWING, N_TESTING, N_FIXING, N_INTEGRATING}"

definition in_flight_agents :: "agent_status set" where
  "in_flight_agents = {A_RUNNING, A_RATE_LIMITED}"

definition coalesce :: "string option \<Rightarrow> string \<Rightarrow> string option" where
  "coalesce x y = (case x of Some v \<Rightarrow> Some v | None \<Rightarrow> Some y)"

definition recover_run :: "env \<Rightarrow> agent_run list \<Rightarrow> work_node list \<Rightarrow> string list \<Rightarrow> nat \<times> string \<Rightarrow> ultra \<Rightarrow> ultra_error + ultra" where
  "recover_run E agents nodes leases = (\<lambda>(k, run) u.
     let u1 = u\<lparr>ul_runs := update_where (\<lambda>r. ur_id r = run \<and> ur_status r \<notin> {RUN_COMPLETED, RUN_CANCELLED})
                (\<lambda>r. r\<lparr>ur_status := RUN_RECOVERING, ur_updated_at := now E\<rparr>) (ul_runs u)\<rparr>
     in ultra_event E k ''ultra.recovery_performed'' (map_option ur_goal (fetchone (\<lambda>r. ur_id r = run) (ul_runs u1)))
          ''ultra_run'' run
          [(''agents'', jstrs (map ar_id (filter (\<lambda>a. ar_run a = run) agents))),
           (''nodes'', jstrs (map wn_id (filter (\<lambda>n. wn_run n = run) nodes))),
           (''expired_leases'', jstrs leases)] u1)"

definition recover_ultra_inflight :: "env \<Rightarrow> ultra \<Rightarrow> ultra_error + ultra \<times> ultra_recovery" where
  "recover_ultra_inflight E u =
     (let agents = filter (\<lambda>a. ar_status a \<in> in_flight_agents) (ul_agents u);
          nodes = filter (\<lambda>n. wn_status n \<in> in_flight_nodes) (ul_nodes u);
          leases = expired_ids E u;
          runs = sorted_set (map ar_run agents @ map wn_run nodes);
          u1 = (expire_leases E u)
            \<lparr>ul_agents := update_where (\<lambda>a. ar_status a \<in> in_flight_agents)
               (\<lambda>a. a\<lparr>ar_status := A_UNCERTAIN, ar_error := coalesce (ar_error a) ''interrupted before a durable completion checkpoint'',
                       ar_updated_at := now E, ar_finished_at := Some (now E)\<rparr>) (ul_agents u),
             ul_nodes := update_where (\<lambda>n. wn_status n \<in> in_flight_nodes)
               (\<lambda>n. n\<lparr>wn_status := N_UNCERTAIN, wn_error := coalesce (wn_error n) ''interrupted work requires inspection before resume'',
                       wn_updated_at := now E\<rparr>) (ul_nodes u)\<rparr>
      in and_then (fold_result (recover_run E agents nodes leases) (enumerate 0 runs) u1) (\<lambda>u2.
         Inr (u2, \<lparr>uv_runs = runs, uv_nodes = map wn_id nodes, uv_agents = map ar_id agents, uv_leases = leases\<rparr>)))"

section \<open>Any operation of the journal\<close>

text \<open>
  No caller creates a run that claims an approval (\<open>UltraSession.save_ultra_run\<close>, \<open>diagnostics\<close>),
  so \<open>CreateRun\<close> is the creation of a run with the defaults of those fields.
\<close>

definition unapproved :: "ultra_run \<Rightarrow> ultra_run" where
  "unapproved r = r\<lparr>ur_plan_revision := None, ur_fingerprint := [], ur_approved := False\<rparr>"

datatype (plugins only: code) ultra_op =
    Core store_op
  | CreateRun ultra_run
  | UpdateRun string run_update
  | ApproveMaster string int string string
  | CreateNode work_node
  | TransitionNode string node_status "result_package option" "string option" "string option" bool
  | UpdateNode string task_contract "string list" string string json_obj
  | SyncModules string
  | CreateAgent agent_run
  | UpdateAgent string agent_status agent_update
  | AcquireLease string string string "string option" "string option" int
  | RenewLease string int
  | ReleaseLease string lease_status
  | AssertHash string "string option"
  | ReapLeases
  | RecoverUltra

definition tables :: "ultra_error + ultra \<times> 'a \<Rightarrow> ultra_error + ultra" where
  "tables m = and_then m (\<lambda>(u, _). Inr u)"

lemma tables_Inr [simp]: "tables m = Inr t \<longleftrightarrow> (\<exists>r. m = Inr (t, r))"
  by (auto simp: tables_def and_then_Inr)

primrec exec_ultra_op :: "platform \<Rightarrow> conversions \<Rightarrow> env \<Rightarrow> ultra_op \<Rightarrow> ultra \<Rightarrow> ultra_error + ultra" where
  "exec_ultra_op P cv E (Core p) u = and_then (journal (exec_store P E p (ul_store u))) (\<lambda>s. Inr (u\<lparr>ul_store := s\<rparr>))"
| "exec_ultra_op P cv E (CreateRun r) u = tables (create_ultra_run E (unapproved r) u)"
| "exec_ultra_op P cv E (UpdateRun i p) u = tables (update_ultra_run E i p u)"
| "exec_ultra_op P cv E (ApproveMaster i n fp b) u = tables (approve_ultra_master E i n fp b u)"
| "exec_ultra_op P cv E (CreateNode n) u = tables (create_work_node cv E n u)"
| "exec_ultra_op P cv E (TransitionNode i st r e c b) u = tables (transition_work_node E i st r e c b u)"
| "exec_ultra_op P cv E (UpdateNode i c ds role cp m) u = tables (update_work_node_definition E i c ds role cp m u)"
| "exec_ultra_op P cv E (SyncModules i) u = Inr (fst (sync_master_modules cv E i u))"
| "exec_ultra_op P cv E (CreateAgent a) u = tables (create_agent_run E a u)"
| "exec_ultra_op P cv E (UpdateAgent i st p) u = tables (update_agent_run E i st p u)"
| "exec_ultra_op P cv E (AcquireLease r n p a h ttl) u = tables (acquire_resource_lease E r n p a h ttl u)"
| "exec_ultra_op P cv E (RenewLease i ttl) u = tables (renew_resource_lease E i ttl u)"
| "exec_ultra_op P cv E (ReleaseLease i st) u = tables (release_resource_lease E i st u)"
| "exec_ultra_op P cv E (AssertHash i h) u = Inr (fst (assert_lease_hash E i h u))"
| "exec_ultra_op P cv E ReapLeases u = Inr (fst (reap_expired_leases E u))"
| "exec_ultra_op P cv E RecoverUltra u = tables (recover_ultra_inflight E u)"

definition exec_ultra :: "platform \<Rightarrow> conversions \<Rightarrow> env \<times> ultra_op \<Rightarrow> ultra \<Rightarrow> ultra_error + ultra" where
  "exec_ultra P cv = (\<lambda>(E, p). exec_ultra_op P cv E p)"

definition run_ultra :: "platform \<Rightarrow> conversions \<Rightarrow> (env \<times> ultra_op) list \<Rightarrow> ultra" where
  "run_ultra P cv ops = run_ops (exec_ultra P cv) ops empty_ultra"

end
