(* ===== verification/Ultra_Safety.thy ===== *)
theory Ultra_Safety
  imports Ultra_Leases
begin

text \<open>
  What every use of the ULTRA tables keeps: the core journal stays a reachable one, an approved run
  names an approved plan, the work nodes form trees within the limits whose roots are bound to tasks
  of approved plans, dependencies stay inside a run, contracts stay inside the workspace, and no two
  active leases overlap.  Rows are never deleted and keep their identity.
\<close>

section \<open>The invariant\<close>

text \<open>A plan of the goal that was approved, by its revision.\<close>

definition approved_plan :: "store \<Rightarrow> string \<Rightarrow> plan_row \<Rightarrow> bool" where
  "approved_plan s gid p \<longleftrightarrow> p \<in> set (st_plans s) \<and> p_goal_id p = gid \<and> p_status p \<in> {PLAN_ACCEPTED, PLAN_SUPERSEDED} \<and>
     exists_row (\<lambda>a. ap_plan_id a = p_id p \<and> ap_fingerprint a = p_fingerprint p) (st_approvals s)"

definition run_ok :: "store \<Rightarrow> ultra_run \<Rightarrow> bool" where
  "run_ok s r \<longleftrightarrow> goal_exists (ur_goal r) s \<and> 1 \<le> ur_concurrency r \<and> ur_concurrency r \<le> 8 \<and>
     (ur_approved r \<longrightarrow> (\<exists>p. approved_plan s (ur_goal r) p \<and> ur_plan_revision r = Some (p_revision p) \<and>
        ur_fingerprint r = p_fingerprint p))"

definition run_key :: "ultra_run \<Rightarrow> string \<times> string" where
  "run_key r = (ur_id r, ur_goal r)"

definition node_key :: "work_node \<Rightarrow> string \<times> string \<times> int \<times> string option" where
  "node_key n = (wn_id n, wn_run n, wn_depth n, wn_task n)"

text \<open>Where a node hangs: below its parent, or, for a module, at a task of an approved plan.\<close>

definition module_bound :: "store \<Rightarrow> (string \<times> string) set \<Rightarrow> work_node \<Rightarrow> bool" where
  "module_bound s R n \<longleftrightarrow> (\<exists>gid p t. (wn_run n, gid) \<in> R \<and> approved_plan s gid p \<and> t \<in> set (st_tasks s) \<and>
     t_plan_id t = p_id p \<and> wn_task n = Some (t_id t))"

definition anchored :: "store \<Rightarrow> (string \<times> string) set \<Rightarrow> (string \<times> string \<times> int \<times> string option) set \<Rightarrow> work_node \<Rightarrow> bool" where
  "anchored s R N n \<longleftrightarrow>
     (case wn_parent n of
        Some p \<Rightarrow> 1 \<le> wn_depth n \<and> (p, wn_run n, wn_depth n - 1, wn_task n) \<in> N
      | None \<Rightarrow> wn_depth n = 0 \<and> (wn_kind n = K_MODULE \<longrightarrow> module_bound s R n))"

definition contract_inside :: "task_contract \<Rightarrow> bool" where
  "contract_inside c \<longleftrightarrow> list_all inside_workspace (tc_write c @ tc_read c)"

definition node_ok :: "store \<Rightarrow> (string \<times> string) set \<Rightarrow> (string \<times> string \<times> int \<times> string option) set \<Rightarrow> work_node \<Rightarrow> bool" where
  "node_ok s R N n \<longleftrightarrow> wn_id n \<noteq> [] \<and> (\<exists>g. (wn_run n, g) \<in> R) \<and> wn_depth n \<le> 12 \<and> 1 \<le> wn_max_attempts n \<and>
     anchored s R N n \<and> contract_inside (wn_contract n) \<and>
     (\<forall>d \<in> set (wn_depends n). \<exists>k t. (d, wn_run n, k, t) \<in> N)"

definition nodes_of :: "string \<Rightarrow> ultra \<Rightarrow> work_node list" where
  "nodes_of run u = filter (\<lambda>n. wn_run n = run) (ul_nodes u)"

text \<open>Two active leases, when their paths are in normal form, do not overlap.\<close>

definition steady :: "resource_lease \<Rightarrow> bool" where
  "steady l \<longleftrightarrow> rl_status l = L_ACTIVE \<and> normalize_path (rl_path l) = Inr (rl_path l)"

definition apart :: "resource_lease list \<Rightarrow> bool" where
  "apart t \<longleftrightarrow> (\<forall>a \<in> set t. \<forall>b \<in> set t. steady a \<and> steady b \<and> rl_id a \<noteq> rl_id b \<longrightarrow>
     \<not> overlap_keys (casefold (rl_path a)) (casefold (rl_path b)))"

definition nodes_ok :: "ultra \<Rightarrow> bool" where
  "nodes_ok u \<longleftrightarrow> distinct (map wn_id (ul_nodes u)) \<and>
     list_all (node_ok (ul_store u) (run_key ` set (ul_runs u)) (node_key ` set (ul_nodes u))) (ul_nodes u) \<and>
     (\<forall>r. length (nodes_of r u) \<le> 5000)"

definition runs_ok :: "ultra \<Rightarrow> bool" where
  "runs_ok u \<longleftrightarrow> distinct (map ur_id (ul_runs u)) \<and> list_all (run_ok (ul_store u)) (ul_runs u)"

definition leases_apart :: "ultra \<Rightarrow> bool" where
  "leases_apart u \<longleftrightarrow> distinct (map rl_id (ul_leases u)) \<and> apart (ul_leases u)"

definition ultra_ok :: "platform \<Rightarrow> ultra \<Rightarrow> bool" where
  "ultra_ok P u \<longleftrightarrow> reachable P (ul_store u) \<and> runs_ok u \<and> nodes_ok u \<and> distinct (map ar_id (ul_agents u)) \<and> leases_apart u"

section \<open>The history\<close>

definition run_step :: "ultra_run \<Rightarrow> ultra_run \<Rightarrow> bool" where
  "run_step r q \<longleftrightarrow> run_key q = run_key r \<and> ur_created_at q = ur_created_at r \<and> (ur_approved r \<longrightarrow> ur_approved q)"

definition node_step :: "work_node \<Rightarrow> work_node \<Rightarrow> bool" where
  "node_step n m \<longleftrightarrow> node_key m = node_key n \<and> wn_parent m = wn_parent n \<and> wn_kind m = wn_kind n \<and>
     wn_title m = wn_title n \<and> wn_objective m = wn_objective n \<and> wn_position m = wn_position n \<and>
     wn_max_attempts m = wn_max_attempts n \<and> wn_created_at m = wn_created_at n \<and> wn_attempts n \<le> wn_attempts m"

definition agent_step :: "agent_run \<Rightarrow> agent_run \<Rightarrow> bool" where
  "agent_step a b \<longleftrightarrow> (ar_id b, ar_run b, ar_node b, ar_role b, ar_provider b, ar_model b, ar_phase b, ar_attempt b) =
     (ar_id a, ar_run a, ar_node a, ar_role a, ar_provider a, ar_model a, ar_phase a, ar_attempt a)"

text \<open>An active lease may end in any way, one left uncertain may be released; the others stay as they ended.\<close>

definition hold_step :: "resource_lease \<Rightarrow> resource_lease \<Rightarrow> bool" where
  "hold_step l k \<longleftrightarrow> (rl_id k, rl_run k, rl_node k, rl_agent k, rl_path k, rl_acquired_at k) =
     (rl_id l, rl_run l, rl_node l, rl_agent l, rl_path l, rl_acquired_at l) \<and>
     (rl_status l = L_ACTIVE \<or> rl_status k = rl_status l \<or> rl_status l = L_UNCERTAIN \<and> rl_status k = L_RELEASED)"

interpretation run_rows: row_history run_step
  by unfold_locales (auto simp: run_step_def)

interpretation node_rows: row_history node_step
  by unfold_locales (auto simp: node_step_def)

interpretation agent_rows: row_history agent_step
  by unfold_locales (auto simp: agent_step_def)

interpretation hold_rows: row_history hold_step
  by unfold_locales (auto simp: hold_step_def)

definition ultra_advance :: "ultra \<Rightarrow> ultra \<Rightarrow> bool" where
  "ultra_advance u v \<longleftrightarrow> advance (ul_store u) (ul_store v) \<and> rows_advance run_step (ul_runs u) (ul_runs v) \<and>
     rows_advance node_step (ul_nodes u) (ul_nodes v) \<and> rows_advance agent_step (ul_agents u) (ul_agents v) \<and>
     rows_advance hold_step (ul_leases u) (ul_leases v)"

lemma ultra_advance_refl [simp]: "ultra_advance u u"
  by (simp add: ultra_advance_def)

lemma ultra_advance_trans: "ultra_advance u v \<Longrightarrow> ultra_advance v w \<Longrightarrow> ultra_advance u w"
  unfolding ultra_advance_def
  by (blast intro: advance_trans run_rows.adv_trans node_rows.adv_trans agent_rows.adv_trans hold_rows.adv_trans)

text \<open>A step that keeps the invariant and the history.\<close>

definition carries :: "platform \<Rightarrow> ultra \<Rightarrow> ultra \<Rightarrow> bool" where
  "carries P u v \<longleftrightarrow> (ultra_ok P u \<longrightarrow> ultra_ok P v \<and> ultra_advance u v)"

lemma carries_refl [simp]: "carries P u u"
  by (simp add: carries_def)

lemma carries_trans: "carries P u v \<Longrightarrow> carries P v w \<Longrightarrow> carries P u w"
  by (auto simp: carries_def intro: ultra_advance_trans)

section \<open>Growing tables\<close>

lemma plan_advance:
  assumes "advance s t" "reachable P s" "reachable P t" "approved_plan s gid p"
  obtains q where "approved_plan t gid q" "p_id q = p_id p" "p_revision q = p_revision p" "p_fingerprint q = p_fingerprint p"
proof -
  have p: "p \<in> set (st_plans s)" "p_goal_id p = gid" using assms(4) by (simp_all add: approved_plan_def)
  obtain q where q: "q \<in> set (st_plans t)" "plan_step p q"
    using assms(1) p(1) unfolding advance_def by (meson rows_advance_mem)
  obtain a where a: "a \<in> set (st_approvals s)" "ap_plan_id a = p_id p" "ap_fingerprint a = p_fingerprint p"
    using assms(4) by (auto simp: approved_plan_def)
  have at: "a \<in> set (st_approvals t)" using assms(1) a(1) by (auto simp: advance_def rows_advance_eq prefix_def)
  have m: "approvals_match t" "keys_ok t" using reachable_governance [OF assms(3)] by (auto simp: governance_def approvals_ok_def)
  obtain q' where q': "q' \<in> set (st_plans t)" "p_id q' = ap_plan_id a" "p_status q' \<in> {PLAN_ACCEPTED, PLAN_SUPERSEDED}"
    using m(1) at by (auto simp: approvals_match_def)
  have "p_id q = p_id p" using q(2) by (simp add: plan_step_def)
  then have "q' = q" using m(2) q(1) q' a(2) by (intro key_unique [of p_id "st_plans t"]) (auto simp: keys_ok_def)
  then have "approved_plan t gid q" using q q' at a p by (auto simp: approved_plan_def plan_step_def)
  then show thesis using that q(2) by (simp add: plan_step_def)
qed

lemma goal_advance: "advance s t \<Longrightarrow> goal_exists g s \<Longrightarrow> goal_exists g t"
proof -
  assume a: "advance s t" "goal_exists g s"
  then obtain x where x: "x \<in> set (st_goals s)" "g_id x = g" by auto
  obtain y where "y \<in> set (st_goals t)" "goal_step x y" using a(1) x(1) unfolding advance_def by (meson rows_advance_mem)
  then show ?thesis using x(2) by (auto simp: goal_step_def)
qed

lemma run_ok_mono:
  assumes "advance s t" "reachable P s" "reachable P t" "run_ok s r"
  shows "run_ok t r"
proof -
  have g: "goal_exists (ur_goal r) t" using assms(1,4) goal_advance unfolding run_ok_def by blast
  show ?thesis
  proof (cases "ur_approved r")
    case True
    then obtain p where p: "approved_plan s (ur_goal r) p" "ur_plan_revision r = Some (p_revision p)" "ur_fingerprint r = p_fingerprint p"
      using assms(4) by (auto simp: run_ok_def)
    from plan_advance [OF assms(1-3) p(1)] p(2,3) g assms(4) show ?thesis unfolding run_ok_def by metis
  qed (use g assms(4) in \<open>simp add: run_ok_def\<close>)
qed

lemma module_bound_mono:
  assumes "advance s t" "reachable P s" "reachable P t" "R \<subseteq> R'" "module_bound s R n"
  shows "module_bound t R' n"
proof -
  obtain gid p k where b: "(wn_run n, gid) \<in> R" "approved_plan s gid p" "k \<in> set (st_tasks s)" "t_plan_id k = p_id p"
    "wn_task n = Some (t_id k)" using assms(5) unfolding module_bound_def by blast
  obtain k' where k: "k' \<in> set (st_tasks t)" "task_step k k'"
    using assms(1) b(3) unfolding advance_def by (meson rows_advance_mem)
  from plan_advance [OF assms(1-3) b(2)] k b assms(4) show ?thesis unfolding module_bound_def task_step_def by (metis subsetD)
qed

lemma node_ok_mono:
  assumes "advance s t" "reachable P s" "reachable P t" "R \<subseteq> R'" "N \<subseteq> N'" "node_ok s R N n"
  shows "node_ok t R' N' n"
proof -
  have "anchored t R' N' n"
    using assms(6) module_bound_mono [OF assms(1-4)] assms(5) unfolding node_ok_def anchored_def by (auto split: option.splits)
  moreover have "\<forall>d \<in> set (wn_depends n). \<exists>k t. (d, wn_run n, k, t) \<in> N'" using assms(5,6) unfolding node_ok_def by blast
  moreover have "\<exists>g. (wn_run n, g) \<in> R'" using assms(4,6) unfolding node_ok_def by blast
  ultimately show ?thesis using assms(6) unfolding node_ok_def by simp
qed

lemma rows_advance_image:
  assumes "rows_advance R t u" "\<And>a b. R a b \<Longrightarrow> k b = k a"
  shows "k ` set t \<subseteq> k ` set u"
proof
  fix y assume "y \<in> k ` set t"
  then obtain x where x: "x \<in> set t" "y = k x" by blast
  obtain z where z: "z \<in> set u" "R x z" using rows_advance_mem [OF assms(1) x(1)] .
  show "y \<in> k ` set u" by (rule image_eqI [where x = z]) (use z assms(2) x(2) in auto)
qed

lemma run_keys_advance: "rows_advance run_step t u \<Longrightarrow> run_key ` set t \<subseteq> run_key ` set u"
  by (erule rows_advance_image) (simp add: run_step_def)

lemma node_keys_advance: "rows_advance node_step t u \<Longrightarrow> node_key ` set t \<subseteq> node_key ` set u"
  by (erule rows_advance_image) (simp add: node_step_def)

section \<open>Steps on the tables\<close>

lemma core_step:
  assumes "reachable P s" "exec_store P E p s = Inr t"
  shows "reachable P t" and "advance s t"
proof -
  have e: "exec P (E, p) s = Inr t" using assms(2) by (simp add: exec_def)
  show "reachable P t" by (rule reachable_step [OF assms(1) e])
  show "advance s t" using reachable_advance [OF assms(1), of "[(E, p)]"] e by (simp add: run_store_def step_or_stay_def)
qed

lemma carries_store:
  assumes "exec_store P E p (ul_store u) = Inr s"
  shows "carries P u (u\<lparr>ul_store := s\<rparr>)"
  unfolding carries_def
proof
  assume ok: "ultra_ok P u"
  then have r: "reachable P (ul_store u)" by (simp add: ultra_ok_def)
  note c = core_step [OF r assms]
  have "list_all (run_ok s) (ul_runs u)" using ok run_ok_mono [OF c(2) r c(1)]
    by (auto simp: ultra_ok_def runs_ok_def list_all_iff)
  moreover have "list_all (node_ok s (run_key ` set (ul_runs u)) (node_key ` set (ul_nodes u))) (ul_nodes u)"
    using ok node_ok_mono [OF c(2) r c(1) subset_refl subset_refl] by (auto simp: ultra_ok_def nodes_ok_def list_all_iff)
  ultimately show "ultra_ok P (u\<lparr>ul_store := s\<rparr>) \<and> ultra_advance u (u\<lparr>ul_store := s\<rparr>)"
    using ok c by (simp add: ultra_ok_def runs_ok_def nodes_ok_def leases_apart_def ultra_advance_def nodes_of_def)
qed

lemma event_op:
  "log_event E k ety gid enty eid payload s = exec_store P (shift_env k E) (SessionOp (AppendEvent ety gid enty eid payload)) s"
  by (simp add: append_event_def log_event_def shift_env_def)

lemma carries_event: "ultra_event E k ety gid entity i payload u = Inr v \<Longrightarrow> carries P u v"
proof -
  assume "ultra_event E k ety gid entity i payload u = Inr v"
  then obtain s where s: "log_event E k ety gid (Some entity) (Some i) payload (ul_store u) = Inr s" "v = u\<lparr>ul_store := s\<rparr>"
    by (auto simp: ultra_event_def elim!: and_then_InrE)
  show ?thesis unfolding s(2) by (rule carries_store, rule trans [OF event_op [symmetric] s(1)])
qed

lemma carries_runs:
  assumes "\<And>r. ultra_ok P u \<Longrightarrow> r \<in> set (ul_runs u) \<Longrightarrow> sel r \<Longrightarrow> run_ok (ul_store u) r \<Longrightarrow>
    run_step r (f r) \<and> run_ok (ul_store u) (f r)"
  shows "carries P u (u\<lparr>ul_runs := update_where sel f (ul_runs u)\<rparr>)" (is "carries P u ?v")
  unfolding carries_def
proof
  assume ok: "ultra_ok P u"
  have st: "run_step r (f r) \<and> run_ok (ul_store u) (f r)" if "r \<in> set (ul_runs u)" "sel r" for r
    using assms [OF ok that] ok that by (auto simp: ultra_ok_def runs_ok_def list_all_iff)
  have adv: "rows_advance run_step (ul_runs u) (ul_runs ?v)" using st by (simp add: run_rows.adv_update)
  have mk: "map run_key (ul_runs ?v) = map run_key (ul_runs u)"
    using st by (auto simp: update_where_def run_step_def)
  have keys: "run_key ` set (ul_runs ?v) = run_key ` set (ul_runs u)" "map ur_id (ul_runs ?v) = map ur_id (ul_runs u)"
    using arg_cong [OF mk, of set] arg_cong [OF mk, of "map fst"] by (simp_all add: comp_def run_key_def)
  have "list_all (run_ok (ul_store u)) (ul_runs ?v)"
    using ok st by (auto simp: ultra_ok_def runs_ok_def list_all_iff set_update_where)
  then show "ultra_ok P ?v \<and> ultra_advance u ?v"
    using ok keys adv by (simp add: ultra_ok_def runs_ok_def nodes_ok_def leases_apart_def ultra_advance_def nodes_of_def)
qed

lemma carries_insert_run:
  assumes "insert_run r u = Inr v" "run_ok (ul_store u) r"
  shows "carries P u v"
  unfolding carries_def
proof
  assume ok: "ultra_ok P u"
  have v: "v = u\<lparr>ul_runs := ul_runs u @ [r]\<rparr>" "ur_id r \<notin> ur_id ` set (ul_runs u)"
    using assms(1) by (auto simp: insert_run_def insert_row_Inr elim!: and_then_InrE)
  have "list_all (node_ok (ul_store u) (run_key ` set (ul_runs v)) (node_key ` set (ul_nodes u))) (ul_nodes u)"
    using ok node_ok_mono [of "ul_store u" "ul_store u" P "run_key ` set (ul_runs u)" "run_key ` set (ul_runs v)"] v(1)
    by (auto simp: ultra_ok_def nodes_ok_def list_all_iff)
  then show "ultra_ok P v \<and> ultra_advance u v" using ok assms(2) v
    by (simp add: ultra_ok_def runs_ok_def nodes_ok_def leases_apart_def ultra_advance_def nodes_of_def)
qed

lemma carries_nodes:
  assumes "\<And>n. ultra_ok P u \<Longrightarrow> n \<in> set (ul_nodes u) \<Longrightarrow> sel n \<Longrightarrow>
      node_ok (ul_store u) (run_key ` set (ul_runs u)) (node_key ` set (ul_nodes u)) n \<Longrightarrow>
      node_step n (f n) \<and> node_ok (ul_store u) (run_key ` set (ul_runs u)) (node_key ` set (ul_nodes u)) (f n)"
  shows "carries P u (u\<lparr>ul_nodes := update_where sel f (ul_nodes u)\<rparr>)" (is "carries P u ?v")
  unfolding carries_def
proof
  assume ok: "ultra_ok P u"
  let ?ok = "node_ok (ul_store u) (run_key ` set (ul_runs u)) (node_key ` set (ul_nodes u))"
  have old: "?ok n" if "n \<in> set (ul_nodes u)" for n using ok that by (auto simp: ultra_ok_def nodes_ok_def list_all_iff)
  have st: "node_step n (f n) \<and> ?ok (f n)" if "n \<in> set (ul_nodes u)" "sel n" for n using assms [OF ok that old [OF that(1)]] .
  have adv: "rows_advance node_step (ul_nodes u) (ul_nodes ?v)" using st by (simp add: node_rows.adv_update)
  have mk: "map node_key (ul_nodes ?v) = map node_key (ul_nodes u)" using st by (auto simp: update_where_def node_step_def)
  have keys: "node_key ` set (ul_nodes ?v) = node_key ` set (ul_nodes u)"
    using arg_cong [OF mk, of set] by simp
  have ids: "map wn_id (ul_nodes ?v) = map wn_id (ul_nodes u)" "map wn_run (ul_nodes ?v) = map wn_run (ul_nodes u)"
    using arg_cong [OF mk, of "map fst"] arg_cong [OF mk, of "map (fst \<circ> snd)"] by (simp_all add: comp_def node_key_def)
  have len: "length (nodes_of r ?v) = length (nodes_of r u)" for r
    using arg_cong [OF ids(2), of "\<lambda>xs. length (filter ((=) r) xs)"] by (simp add: nodes_of_def filter_map comp_def eq_commute)
  have "list_all ?ok (ul_nodes ?v)" using old st by (auto simp: list_all_iff set_update_where)
  then show "ultra_ok P ?v \<and> ultra_advance u ?v"
    using ok keys ids len adv by (simp add: ultra_ok_def runs_ok_def nodes_ok_def leases_apart_def ultra_advance_def)
qed

lemma carries_insert_node:
  assumes "insert_node n u = Inr v" "length (nodes_of (wn_run n) u) < 5000"
    and "ultra_ok P u \<Longrightarrow> node_ok (ul_store u) (run_key ` set (ul_runs u)) (node_key ` set (ul_nodes u)) n"
  shows "carries P u v"
  unfolding carries_def
proof
  assume ok: "ultra_ok P u"
  have v: "v = u\<lparr>ul_nodes := ul_nodes u @ [n]\<rparr>" "wn_id n \<notin> wn_id ` set (ul_nodes u)"
    using assms(1) by (auto simp: insert_node_def insert_row_Inr elim!: and_then_InrE split: if_splits)
  let ?ok = "\<lambda>N. node_ok (ul_store u) (run_key ` set (ul_runs u)) N"
  have r: "reachable P (ul_store u)" using ok by (simp add: ultra_ok_def)
  have mono: "?ok (node_key ` set (ul_nodes u)) m \<Longrightarrow> ?ok (node_key ` set (ul_nodes v)) m" for m
    by (rule node_ok_mono [OF advance_refl r r subset_refl]) (auto simp: v)
  have "list_all (?ok (node_key ` set (ul_nodes v))) (ul_nodes v)"
    using ok assms(3) [OF ok] mono unfolding v by (auto simp: ultra_ok_def nodes_ok_def list_all_iff)
  moreover have "length (nodes_of q v) \<le> 5000" for q
    using ok assms(2) by (auto simp: v nodes_of_def ultra_ok_def nodes_ok_def)
  ultimately have "nodes_ok v" using ok v by (simp add: ultra_ok_def nodes_ok_def)
  then show "ultra_ok P v \<and> ultra_advance u v" using ok v(1)
    by (simp add: ultra_ok_def runs_ok_def leases_apart_def ultra_advance_def)
qed

lemma carries_agents:
  assumes "rows_advance agent_step (ul_agents u) as" "distinct (map ar_id (ul_agents u)) \<Longrightarrow> distinct (map ar_id as)"
  shows "carries P u (u\<lparr>ul_agents := as\<rparr>)"
  using assms by (simp add: carries_def ultra_ok_def runs_ok_def nodes_ok_def leases_apart_def nodes_of_def ultra_advance_def)

lemma carries_update_agents:
  "(\<And>a. a \<in> set (ul_agents u) \<Longrightarrow> sel a \<Longrightarrow> agent_step a (f a)) \<Longrightarrow>
     carries P u (u\<lparr>ul_agents := update_where sel f (ul_agents u)\<rparr>)"
proof (rule carries_agents)
  assume st: "\<And>a. a \<in> set (ul_agents u) \<Longrightarrow> sel a \<Longrightarrow> agent_step a (f a)"
  then show "rows_advance agent_step (ul_agents u) (update_where sel f (ul_agents u))" by (rule agent_rows.adv_update)
  have "map ar_id (update_where sel f (ul_agents u)) = map ar_id (ul_agents u)"
    using st by (auto simp: update_where_def agent_step_def)
  then show "distinct (map ar_id (ul_agents u)) \<Longrightarrow> distinct (map ar_id (update_where sel f (ul_agents u)))" by simp
qed

section \<open>Leases\<close>

lemma overlap_keys_sym: "overlap_keys a b = overlap_keys b a"
  by (auto simp: overlap_keys_def)

lemma carries_leases:
  assumes "\<And>l. l \<in> set (ul_leases u) \<Longrightarrow> sel l \<Longrightarrow> hold_step l (f l) \<and> (rl_status (f l) = L_ACTIVE \<longrightarrow> rl_status l = L_ACTIVE)"
  shows "carries P u (u\<lparr>ul_leases := update_where sel f (ul_leases u)\<rparr>)"
  unfolding carries_def
proof
  assume ok: "ultra_ok P u"
  let ?t = "update_where sel f (ul_leases u)"
  have src: "\<exists>k \<in> set (ul_leases u). rl_id k = rl_id l \<and> rl_path k = rl_path l \<and> (steady l \<longrightarrow> steady k)" if "l \<in> set ?t" for l
    using that by (rule in_update_whereE) (use assms in \<open>fastforce simp: hold_step_def steady_def\<close>)+
  have "apart ?t"
    unfolding apart_def
  proof (intro ballI impI)
    fix a b assume ab: "a \<in> set ?t" "b \<in> set ?t" "steady a \<and> steady b \<and> rl_id a \<noteq> rl_id b"
    from src [OF ab(1)] src [OF ab(2)] ab(3) ok
    show "\<not> overlap_keys (casefold (rl_path a)) (casefold (rl_path b))"
      unfolding ultra_ok_def leases_apart_def apart_def by metis
  qed
  moreover have "map rl_id ?t = map rl_id (ul_leases u)"
    using assms by (auto simp: update_where_def hold_step_def)
  moreover have "rows_advance hold_step (ul_leases u) ?t" using assms by (simp add: hold_rows.adv_update)
  ultimately show "ultra_ok P (u\<lparr>ul_leases := ?t\<rparr>) \<and> ultra_advance u (u\<lparr>ul_leases := ?t\<rparr>)"
    using ok by (simp add: ultra_ok_def runs_ok_def nodes_ok_def leases_apart_def nodes_of_def ultra_advance_def)
qed

lemma carries_expire: "carries P u (expire_leases E u)"
  unfolding expire_leases_def by (rule carries_leases) (simp add: hold_step_def)

lemma carries_insert_lease:
  assumes "insert_lease l u = Inr v"
    and "\<And>k. k \<in> set (ul_leases u) \<Longrightarrow> steady k \<Longrightarrow> \<not> overlap_keys (casefold (rl_path k)) (casefold (rl_path l))"
  shows "carries P u v"
  unfolding carries_def
proof
  assume ok: "ultra_ok P u"
  have v: "v = u\<lparr>ul_leases := ul_leases u @ [l]\<rparr>" "rl_id l \<notin> rl_id ` set (ul_leases u)"
    using assms(1) by (auto simp: insert_lease_def insert_row_Inr elim!: and_then_InrE split: if_splits)
  have "apart (ul_leases v)"
    unfolding apart_def v(1)
  proof (simp, intro conjI ballI impI)
    fix b assume "b \<in> set (ul_leases u)" "steady l \<and> steady b \<and> rl_id l \<noteq> rl_id b"
    then show "\<not> overlap_keys (casefold (rl_path l)) (casefold (rl_path b))"
      using assms(2) [of b] overlap_keys_sym by simp
  next
    fix a assume a: "a \<in> set (ul_leases u)"
    { assume "steady a \<and> steady l \<and> rl_id a \<noteq> rl_id l"
      then show "\<not> overlap_keys (casefold (rl_path a)) (casefold (rl_path l))" using assms(2) [OF a] by simp }
    { fix b assume "b \<in> set (ul_leases u)" "steady a \<and> steady b \<and> rl_id a \<noteq> rl_id b"
      then show "\<not> overlap_keys (casefold (rl_path a)) (casefold (rl_path b))"
        using ok a by (auto simp: ultra_ok_def leases_apart_def apart_def) }
  qed
  then show "ultra_ok P v \<and> ultra_advance u v" using ok v
    by (simp add: ultra_ok_def runs_ok_def nodes_ok_def leases_apart_def nodes_of_def ultra_advance_def)
qed

lemma lease_scan_free:
  "lease_scan own p rows = Inr None \<Longrightarrow> row \<in> set rows \<Longrightarrow>
     \<exists>cur. read_lease row = Inr cur \<and> paths_overlap (rl_path cur) p = Inr False"
  by (induction rows) (auto elim!: and_then_InrE split: if_splits)

lemma lease_scan_apart:
  assumes "lease_scan own p rows = Inr None" "row \<in> set rows" "steady row" "normalize_path p = Inr q"
  shows "\<not> overlap_keys (casefold (rl_path row)) (casefold q)"
proof -
  obtain cur where c: "read_lease row = Inr cur" "paths_overlap (rl_path cur) p = Inr False"
    using lease_scan_free [OF assms(1,2)] by blast
  have "rl_path cur = rl_path row" using c(1) assms(3)
    by (auto simp: read_lease_def mk_resource_lease_def steady_def elim!: and_then_InrE)
  then show ?thesis using c(2) assms(3,4) by (simp add: paths_overlap_def steady_def)
qed

lemma acquire_cases:
  assumes "acquire_resource_lease E run node path agent h ttl u = Inr (v, lease)"
  obtains (own) i ext where "v = update_lease i ext (expire_leases E u)"
      "\<And>l. hold_step l (ext l) \<and> rl_status (ext l) = rl_status l"
    | (fresh) own p where
      "lease_scan own p (sort_key (\<lambda>l. (rl_acquired_at l, rl_id l)) (filter (\<lambda>l. rl_status l = L_ACTIVE)
         (ul_leases (expire_leases E u)))) = Inr None"
      "insert_lease lease (expire_leases E u) = Inr v" "normalize_path p = Inr (rl_path lease)"
proof -
  let ?u1 = "expire_leases E u"
  let ?extend = "\<lambda>l. l\<lparr>rl_expires_at := now E + lease_span ttl, rl_updated_at := now E, rl_hash := h\<rparr>"
  from assms obtain p where p: "normalize_path path = Inr p"
    unfolding acquire_resource_lease_def by (auto elim!: and_then_InrE)
  let ?own = "\<lambda>l. rl_run l = run \<and> rl_node l = node \<and> rl_agent l = agent \<and> casefold (rl_path l) = casefold p"
  let ?scan = "lease_scan ?own p (sort_key (\<lambda>l. (rl_acquired_at l, rl_id l))
      (filter (\<lambda>l. rl_status l = L_ACTIVE) (ul_leases ?u1)))"
  let ?new = "\<lparr>rl_id = fresh E ''lease'' 0, rl_run = run, rl_node = node, rl_agent = agent, rl_path = p,
                 rl_hash = h, rl_status = L_ACTIVE, rl_acquired_at = now E, rl_updated_at = now E,
                 rl_expires_at = now E + lease_span ttl, rl_released_at = None\<rparr>"
  from assms obtain found where f: "?scan = Inr found" and
    rest: "(case found of
            Some current \<Rightarrow> Inr (update_lease (rl_id current) ?extend ?u1, ?extend current)
          | None \<Rightarrow> and_then (contract (mk_resource_lease ?new)) (\<lambda>lease. and_then (insert_lease lease ?u1) (\<lambda>u2. Inr (u2, lease))))
       = Inr (v, lease)"
    unfolding acquire_resource_lease_def p
    by (simp add: Let_def split: if_splits) (elim and_then_InrE, blast)
  show thesis
  proof (cases found)
    case (Some current)
    then have "v = update_lease (rl_id current) ?extend ?u1" using rest by simp
    then show thesis by (rule own) (simp add: hold_step_def)
  next
    case None
    then obtain q where q: "mk_resource_lease ?new = Inr lease" "insert_lease lease ?u1 = Inr v"
      using rest by (auto elim!: and_then_InrE)
    have "normalize_path p = Inr (rl_path lease)" using q(1) by (auto simp: mk_resource_lease_def elim!: and_then_InrE)
    with f None q(2) show thesis by (intro fresh) simp_all
  qed
qed

lemma acquire_carries:
  assumes "acquire_resource_lease E run node path agent h ttl u = Inr (v, lease)"
  shows "carries P u v"
  using assms
proof (cases rule: acquire_cases)
  case (own i ext)
  have "carries P (expire_leases E u) v" unfolding own(1) update_lease_def by (rule carries_leases) (simp add: own(2))
  with carries_expire show ?thesis by (rule carries_trans)
next
  case (fresh own p)
  have "carries P (expire_leases E u) v"
  proof (rule carries_insert_lease [OF fresh(2)])
    fix k assume k: "k \<in> set (ul_leases (expire_leases E u))" "steady k"
    show "\<not> overlap_keys (casefold (rl_path k)) (casefold (rl_path lease))"
      by (rule lease_scan_apart [OF fresh(1) _ k(2) fresh(3)]) (use k in \<open>simp add: steady_def\<close>)
  qed
  with carries_expire show ?thesis by (rule carries_trans)
qed

end
