(* ===== verification/Ultra_Invariant.thy ===== *)
theory Ultra_Invariant
  imports Ultra_Safety
begin

text \<open>
  Every ULTRA operation keeps the invariant and the history of \<open>Ultra_Safety\<close>, so every state the
  program can reach satisfies them.
\<close>

section \<open>Runs\<close>

lemma carries_then_event: "carries P u v \<Longrightarrow> ultra_event E k ety gid entity i payload v = Inr w \<Longrightarrow> carries P u w"
  by (blast intro: carries_trans carries_event)

lemma build_run_fields:
  assumes "build_run r = Inr q"
  shows "ur_id q = ur_id r" "ur_goal q = ur_goal r" "ur_approved q = ur_approved r" "1 \<le> ur_concurrency q" "ur_concurrency q \<le> 8"
  using assms unfolding build_run_def mk_run_def by (auto elim!: and_then_InrE split: if_splits)

lemma create_run_carries:
  assumes "create_ultra_run E (unapproved r) u = Inr (v, q)"
  shows "carries P u v"
proof -
  from assms obtain item u1 payload where b: "build_run (unapproved r) = Inr item" "goal_exists (ur_goal item) (ul_store u)"
    "insert_run (item\<lparr>ur_approved_by := None, ur_approved_at := None\<rparr>) u = Inr u1"
    "ultra_event E 0 ''ultra.run_created'' (Some (ur_goal item)) ''ultra_run'' (ur_id item) payload u1 = Inr v"
    unfolding create_ultra_run_def by (auto simp del: exists_row_iff elim!: and_then_InrE split: if_splits option.splits)
  have "run_ok (ul_store u) (item\<lparr>ur_approved_by := None, ur_approved_at := None\<rparr>)"
    using build_run_fields [OF b(1)] b(2) by (simp add: run_ok_def unapproved_def)
  from carries_insert_run [OF b(3) this] b(4) show ?thesis by (rule carries_then_event)
qed

lemma get_run_Inr: "get_ultra_run i u = Inr r \<Longrightarrow> r \<in> set (ul_runs u) \<and> ur_id r = i"
  unfolding get_ultra_run_def by (auto split: option.splits dest!: fetchone_Some)

lemma updated_run_fields:
  "run_step r (updated_run E p c spec arch r)" "ur_goal (updated_run E p c spec arch r) = ur_goal r"
  "ur_approved (updated_run E p c spec arch r) = ur_approved r"
  "ur_plan_revision (updated_run E p c spec arch r) = ur_plan_revision r"
  "ur_fingerprint (updated_run E p c spec arch r) = ur_fingerprint r"
  "ur_concurrency (updated_run E p c spec arch r) = next_concurrency p c"
  by (simp_all add: updated_run_def run_step_def run_key_def)

lemma update_run_carries:
  assumes "update_ultra_run E i p u = Inr (v, q)"
  shows "carries P u v"
proof -
  from assms obtain c spec arch payload where lim: "1 \<le> next_concurrency p c" "next_concurrency p c \<le> 8"
    and ev: "ultra_event E 0 ''ultra.run_updated'' (Some (ur_goal c)) ''ultra_run'' i payload
        (u\<lparr>ul_runs := update_where (\<lambda>r. ur_id r = i \<and> ur_updated_at r = ur_updated_at c) (updated_run E p c spec arch)
           (ul_runs u)\<rparr>) = Inr v"
    unfolding update_ultra_run_def by (auto simp: Let_def simp del: exists_row_iff elim!: and_then_InrE split: if_splits)
  have "carries P u (u\<lparr>ul_runs := update_where (\<lambda>r. ur_id r = i \<and> ur_updated_at r = ur_updated_at c)
      (updated_run E p c spec arch) (ul_runs u)\<rparr>)"
    by (rule carries_runs) (use lim in \<open>simp add: run_ok_def updated_run_fields\<close>)
  then show ?thesis using ev by (rule carries_then_event)
qed

text \<open>A plan that is accepted was approved, under its own fingerprint.\<close>

lemma accepted_approved:
  assumes "reachable P s" "p \<in> set (st_plans s)" "p_status p = PLAN_ACCEPTED"
  shows "approved_plan s (p_goal_id p) p"
proof -
  have m: "approvals_match s" "keys_ok s" using reachable_governance [OF assms(1)] by (auto simp: governance_def approvals_ok_def)
  obtain a where a: "a \<in> set (st_approvals s)" "ap_plan_id a = p_id p" using m(1) assms(2,3) by (auto simp: approvals_match_def)
  obtain q where q: "q \<in> set (st_plans s)" "p_id q = ap_plan_id a" "p_fingerprint q = ap_fingerprint a"
    using m(1) a(1) by (auto simp: approvals_match_def)
  have "q = p" using m(2) q assms(2) a(2) by (intro key_unique [of p_id "st_plans s"]) (auto simp: keys_ok_def)
  then show ?thesis using a q assms(2,3) by (auto simp: approved_plan_def)
qed

lemma approve_cases:
  assumes "approve_ultra_master E i revision fp b u = Inr (v, q)"
  obtains run p f payload where "get_ultra_run i u = Inr run" "p \<in> set (st_plans (ul_store u))" "p_goal_id p = ur_goal run"
    "p_status p = PLAN_ACCEPTED" "p_fingerprint p = fp" "p_revision p = revision" "fp \<noteq> []"
    "\<And>r. run_step r (f r) \<and> ur_goal (f r) = ur_goal r \<and> ur_concurrency (f r) = ur_concurrency r \<and>
        ur_plan_revision (f r) = Some revision \<and> ur_fingerprint (f r) = fp"
    "ultra_event E 0 ''ultra.master_approved'' (Some (ur_goal run)) ''ultra_run'' i payload
       (u\<lparr>ul_runs := update_where (\<lambda>r. ur_id r = i) f (ul_runs u)\<rparr>) = Inr v"
proof -
  from assms obtain run p where r: "get_ultra_run i u = Inr run"
    and p: "fetchone (\<lambda>p. p_goal_id p = ur_goal run \<and> p_revision p = revision) (st_plans (ul_store u)) = Some p"
    and c: "p_status p = PLAN_ACCEPTED" "fp \<noteq> []" "p_fingerprint p = fp"
    and ev: "ultra_event E 0 ''ultra.master_approved'' (Some (ur_goal run)) ''ultra_run'' i
          [(''revision'', JInt revision), (''fingerprint'', JStr fp)]
          (u\<lparr>ul_runs := update_where (\<lambda>r. ur_id r = i)
             ((\<lambda>r. r\<lparr>ur_approved_by := Some b, ur_approved_at := Some (now E)\<rparr>) \<circ>
              (\<lambda>r. r\<lparr>ur_plan_revision := Some revision, ur_fingerprint := fp, ur_approved := True,
                   ur_phase := PH_MODULE_WAVES, ur_status := RUN_RUNNING, ur_updated_at := now E\<rparr>)) (ul_runs u)\<rparr>) = Inr v"
    unfolding approve_ultra_master_def by (auto simp: Let_def elim!: and_then_InrE split: if_splits option.splits)
  from fetchone_Some [OF p] show thesis
    by (intro that [OF r _ _ c(1,3) _ c(2) _ ev]) (auto simp: run_step_def run_key_def)
qed

lemma approve_carries:
  assumes "approve_ultra_master E i revision fp b u = Inr (v, q)"
  shows "carries P u v"
  using assms
proof (cases rule: approve_cases)
  case (1 run p f payload)
  have "carries P u (u\<lparr>ul_runs := update_where (\<lambda>r. ur_id r = i) f (ul_runs u)\<rparr>)"
  proof (rule carries_runs)
    fix r assume ok: "ultra_ok P u" and r: "r \<in> set (ul_runs u)" "ur_id r = i" "run_ok (ul_store u) r"
    have "r = run"
      using ok r get_run_Inr [OF 1(1)] by (intro key_unique [of ur_id "ul_runs u"]) (auto simp: ultra_ok_def runs_ok_def)
    then have "approved_plan (ul_store u) (ur_goal r) p"
      using accepted_approved [of P "ul_store u" p] ok 1(2-4) by (simp add: ultra_ok_def)
    then show "run_step r (f r) \<and> run_ok (ul_store u) (f r)" using 1(5,6) 1(8) [of r] r(3) by (auto simp: run_ok_def)
  qed
  then show ?thesis using 1(9) by (rule carries_then_event)
qed

section \<open>Work nodes\<close>

lemma mk_node_fields:
  assumes "mk_node n = Inr m"
  shows "node_key m = node_key n \<and> wn_parent m = wn_parent n \<and> wn_kind m = wn_kind n \<and> wn_contract m = wn_contract n \<and>
    wn_attempts m = wn_attempts n \<and> wn_status m = wn_status n \<and> wn_updated_at m = wn_updated_at n \<and> wn_result m = wn_result n \<and>
    wn_max_attempts m = wn_max_attempts n \<and> wn_id m \<noteq> [] \<and> 0 \<le> wn_depth m \<and> 1 \<le> wn_max_attempts m"
  using assms unfolding mk_node_def node_key_def by (auto elim!: and_then_InrE split: if_splits)

lemma read_node_fields:
  assumes "read_node n = Inr m"
  shows "node_key m = node_key n \<and> wn_parent m = wn_parent n \<and> wn_kind m = wn_kind n \<and> wn_attempts m = wn_attempts n \<and>
    wn_status m = wn_status n \<and> wn_updated_at m = wn_updated_at n \<and> wn_result m = wn_result n \<and>
    wn_max_attempts m = wn_max_attempts n \<and> wn_id m \<noteq> [] \<and> 0 \<le> wn_depth m"
proof -
  from assms obtain c where "mk_node (n\<lparr>wn_contract := c\<rparr>) = Inr m" by (auto simp: read_node_def elim!: and_then_InrE)
  from mk_node_fields [OF this] show ?thesis by (auto simp: node_key_def)
qed

lemma get_node_Inr:
  assumes "get_work_node i u = Inr m"
  obtains n where "n \<in> set (ul_nodes u)" "wn_id n = i" "read_node n = Inr m" "fetchone (\<lambda>n. wn_id n = i) (ul_nodes u) = Some n"
  using assms unfolding get_work_node_def by (auto split: option.splits dest: fetchone_Some)

lemma build_node_fields:
  assumes "build_node n = Inr m"
  shows "wn_id m \<noteq> []" "1 \<le> wn_max_attempts m" "contract_inside (wn_contract m)"
proof -
  from assms obtain c r where c: "mk_task_contract (wn_contract n) = Inr c" and m: "mk_node (n\<lparr>wn_contract := c, wn_result := r\<rparr>) = Inr m"
    unfolding build_node_def by (auto elim!: and_then_InrE)
  show "wn_id m \<noteq> []" "1 \<le> wn_max_attempts m" using mk_node_fields [OF m] by simp_all
  have "wn_contract m = c" using mk_node_fields [OF m] by simp
  then show "contract_inside (wn_contract m)"
    using contract_paths_inside_workspace [OF c] by (auto simp: contract_inside_def list_all_iff)
qed

lemma setting_cap: "setting cv run k d cap = Inr v \<Longrightarrow> 1 \<le> cap \<Longrightarrow> v \<le> cap"
  unfolding setting_def by (auto split: option.splits)

lemma check_dependencies_Inr:
  "check_dependencies item u ds = Inr () \<Longrightarrow> d \<in> set ds \<Longrightarrow> \<exists>n \<in> set (ul_nodes u). wn_id n = d \<and> wn_run n = wn_run item"
  by (induction ds) (auto split: if_splits)

lemma place_node_Inr:
  assumes "place_node run max_depth item u = Inr (depth, task)" "ultra_ok P u" "run \<in> set (ul_runs u)" "ur_id run = wn_run item"
    and "max_depth \<le> 12" "insert_node (item\<lparr>wn_depth := depth, wn_task := task\<rparr>) u = Inr v"
  shows "depth \<le> 12" and "anchored (ul_store u) (run_key ` set (ul_runs u)) (node_key ` set (ul_nodes u))
      (item\<lparr>wn_depth := depth, wn_task := task\<rparr>)"
proof -
  have fk: "wn_parent item = None \<or> wn_parent item \<in> Some ` wn_id ` set (ul_nodes u)"
    using assms(6) by (auto simp: insert_node_def split: if_splits)
  have ids: "wn_id n \<noteq> []" if "n \<in> set (ul_nodes u)" for n
    using assms(2) that by (auto simp: ultra_ok_def nodes_ok_def node_ok_def list_all_iff)
  have "depth \<le> 12 \<and> anchored (ul_store u) (run_key ` set (ul_runs u)) (node_key ` set (ul_nodes u))
      (item\<lparr>wn_depth := depth, wn_task := task\<rparr>)"
  proof (cases "given (wn_parent item)")
    case True
    then obtain p where p: "wn_parent item = Some p" by (auto simp: given_def split: option.splits)
    from assms(1) True p obtain row parent where f: "fetchone (\<lambda>n. Some (wn_id n) = wn_parent item) (ul_nodes u) = Some row"
      and r: "read_node row = Inr parent" "wn_run parent = wn_run item" "wn_depth parent + 1 \<le> max_depth"
        "depth = wn_depth parent + 1" "task = wn_task parent"
      unfolding place_node_def by (auto elim!: and_then_InrE split: option.splits if_splits)
    have "node_key row \<in> node_key ` set (ul_nodes u)" using fetchone_Some [OF f] by simp
    moreover have "node_key row = (p, wn_run item, wn_depth parent, wn_task parent)" "0 \<le> wn_depth parent"
      using read_node_fields [OF r(1)] fetchone_Some [OF f] r(2) p by (auto simp: node_key_def)
    ultimately show ?thesis using r assms(5) p by (simp add: anchored_def)
  next
    case False
    then have n: "wn_parent item = None" using fk ids by (fastforce simp: given_def split: option.splits)
    have d: "depth = 0 \<and> (wn_kind item = K_MODULE \<longrightarrow> task_in_accepted_plan (ul_store u) (ur_goal run) (ur_plan_revision run) task)"
      using assms(1) False unfolding place_node_def by (auto split: if_splits)
    have "module_bound (ul_store u) (run_key ` set (ul_runs u)) (item\<lparr>wn_depth := depth, wn_task := task\<rparr>)"
      if k: "wn_kind item = K_MODULE"
    proof -
      let ?s = "ul_store u"
      obtain t p where t: "t \<in> set (st_tasks ?s)" "t_goal_id t = ur_goal run" "Some (t_id t) = task"
        and p: "p \<in> set (st_plans ?s)" "p_id p = t_plan_id t" "p_status p = PLAN_ACCEPTED"
        using d k by (auto simp: task_in_accepted_plan_def)
      have r: "reachable P ?s" using assms(2) by (simp add: ultra_ok_def)
      obtain q where q: "q \<in> set (st_plans ?s)" "p_id q = t_plan_id t" "p_goal_id q = t_goal_id t"
        using reachable_content [OF r] t(1) by (auto simp: content_ok_def)
      have "q = p" using q p reachable_keys [OF r] by (intro key_unique [of p_id "st_plans ?s"]) (auto simp: keys_ok_def)
      then have "approved_plan ?s (ur_goal run) p" using accepted_approved [OF r p(1,3)] q(3) t(2) by simp
      moreover have "run_key run = (wn_run item, ur_goal run)" using assms(4) by (simp add: run_key_def)
      then have "(wn_run item, ur_goal run) \<in> run_key ` set (ul_runs u)" using assms(3) by (metis imageI)
      moreover have "task = Some (t_id t)" "t_plan_id t = p_id p" using t(3) p(2) by simp_all
      ultimately show ?thesis using t(1) unfolding module_bound_def by fastforce
    qed
    then show ?thesis using d n by (simp add: anchored_def)
  qed
  then show "depth \<le> 12" and "anchored (ul_store u) (run_key ` set (ul_runs u)) (node_key ` set (ul_nodes u))
      (item\<lparr>wn_depth := depth, wn_task := task\<rparr>)" by simp_all
qed

lemma create_node_cases:
  assumes "create_work_node cv E node u = Inr (v, stored)"
  obtains item run max_depth depth task u1 payload where
    "build_node node = Inr item" "get_ultra_run (wn_run item) u = Inr run" "max_depth \<le> 12"
    "length (nodes_of (wn_run item) u) < 5000" "place_node run max_depth item u = Inr (depth, task)"
    "check_dependencies item u (wn_depends item) = Inr ()" "stored = item\<lparr>wn_depth := depth, wn_task := task\<rparr>"
    "insert_node stored u = Inr u1"
    "ultra_event E 0 ''ultra.node_created'' (Some (ur_goal run)) ''work_node'' (wn_id stored) payload u1 = Inr v"
proof -
  from assms obtain item run max_depth max_nodes where b: "build_node node = Inr item" "get_ultra_run (wn_run item) u = Inr run"
    "setting cv run ''max_depth'' 5 12 = Inr max_depth" "setting cv run ''max_nodes'' 500 5000 = Inr max_nodes"
    "int (length (nodes_of (wn_run item) u)) < max_nodes"
    and rest: "and_then (place_node run max_depth item u) (\<lambda>(depth, task).
       and_then (check_dependencies item u (wn_depends item)) (\<lambda>_.
       let stored = item\<lparr>wn_depth := depth, wn_task := task\<rparr> in
       and_then (insert_node stored u) (\<lambda>u1.
       and_then (ultra_event E 0 ''ultra.node_created'' (Some (ur_goal run)) ''work_node'' (wn_id stored)
           [(''kind'', JStr (kind_value (wn_kind stored))), (''parent_id'', opt_str (wn_parent stored)),
            (''depth'', JInt depth)] u1) (\<lambda>u2.
       Inr (u2, stored))))) = Inr (v, stored)"
    unfolding create_work_node_def nodes_of_def by (auto elim!: and_then_InrE split: if_splits)
  from rest obtain depth task u1 where p: "place_node run max_depth item u = Inr (depth, task)"
    "check_dependencies item u (wn_depends item) = Inr ()" "stored = item\<lparr>wn_depth := depth, wn_task := task\<rparr>"
    "insert_node stored u = Inr u1"
    and e: "ultra_event E 0 ''ultra.node_created'' (Some (ur_goal run)) ''work_node'' (wn_id stored)
           [(''kind'', JStr (kind_value (wn_kind stored))), (''parent_id'', opt_str (wn_parent stored)),
            (''depth'', JInt depth)] u1 = Inr v"
    by (auto simp: Let_def elim!: and_then_InrE)
  have "max_depth \<le> 12" "max_nodes \<le> 5000" using setting_cap [OF b(3)] setting_cap [OF b(4)] by simp_all
  then show thesis using b(5) by (intro that [OF b(1,2) _ _ p(1-4) e]) simp_all
qed

lemma create_node_carries:
  assumes "create_work_node cv E node u = Inr (v, stored)"
  shows "carries P u v"
  using assms
proof (cases rule: create_node_cases)
  case (1 item run max_depth depth task u1 payload)
  have "carries P u u1"
  proof (rule carries_insert_node [OF 1(8)])
    show "length (nodes_of (wn_run stored) u) < 5000" using 1(4,7) by simp
    assume ok: "ultra_ok P u"
    note r = get_run_Inr [OF 1(2)]
    note b = build_node_fields [OF 1(1)]
    have deps: "\<exists>k t. (d, wn_run item, k, t) \<in> node_key ` set (ul_nodes u)" if "d \<in> set (wn_depends item)" for d
      using check_dependencies_Inr [OF 1(6) that] unfolding node_key_def by force
    have "run_key run = (wn_run item, ur_goal run)" using r by (simp add: run_key_def)
    with r have "(wn_run item, ur_goal run) \<in> run_key ` set (ul_runs u)" by (metis imageI)
    then show "node_ok (ul_store u) (run_key ` set (ul_runs u)) (node_key ` set (ul_nodes u)) stored"
      using place_node_Inr [OF 1(5) ok _ _ 1(3)] r b deps 1(7,8) unfolding node_ok_def by auto
  qed
  then show ?thesis using 1(9) by (rule carries_then_event)
qed

lemma change_node_Inr:
  "change_node i stamp f u = Inr v \<Longrightarrow>
     v = u\<lparr>ul_nodes := update_where (\<lambda>n. wn_id n = i \<and> wn_updated_at n = stamp) f (ul_nodes u)\<rparr>"
  by (auto simp: change_node_def Let_def split: if_splits)

lemma node_ok_cong:
  assumes "node_ok s R N n" "node_key m = node_key n" "wn_parent m = wn_parent n" "wn_kind m = wn_kind n"
    "wn_max_attempts m = wn_max_attempts n" "contract_inside (wn_contract m)"
    "\<And>d. d \<in> set (wn_depends m) \<Longrightarrow> \<exists>k t. (d, wn_run n, k, t) \<in> N"
  shows "node_ok s R N m"
proof -
  have k: "wn_id m = wn_id n" "wn_run m = wn_run n" "wn_depth m = wn_depth n" "wn_task m = wn_task n"
    using assms(2) by (simp_all add: node_key_def)
  have "module_bound s R m = module_bound s R n" by (simp add: module_bound_def k)
  then have "anchored s R N m" using assms(1) by (cases "wn_parent n") (simp_all add: node_ok_def anchored_def k assms(3,4))
  then show ?thesis using assms(1,5-7) by (simp add: node_ok_def k)
qed

lemma moved_node_fields:
  "node_key (moved_node E m st pk er cp b n) = node_key n" "wn_parent (moved_node E m st pk er cp b n) = wn_parent n"
  "wn_kind (moved_node E m st pk er cp b n) = wn_kind n" "wn_contract (moved_node E m st pk er cp b n) = wn_contract n"
  "wn_depends (moved_node E m st pk er cp b n) = wn_depends n" "wn_title (moved_node E m st pk er cp b n) = wn_title n"
  "wn_objective (moved_node E m st pk er cp b n) = wn_objective n" "wn_position (moved_node E m st pk er cp b n) = wn_position n"
  "wn_max_attempts (moved_node E m st pk er cp b n) = wn_max_attempts n"
  "wn_created_at (moved_node E m st pk er cp b n) = wn_created_at n" "wn_id (moved_node E m st pk er cp b n) = wn_id n"
  "wn_run (moved_node E m st pk er cp b n) = wn_run n" "wn_depth (moved_node E m st pk er cp b n) = wn_depth n"
  "wn_task (moved_node E m st pk er cp b n) = wn_task n"
  "wn_attempts (moved_node E m st pk er cp b n) = wn_attempts m + (if b then 1 else 0)"
  by (simp_all add: moved_node_def node_key_def)

lemma transition_cases:
  assumes "transition_work_node E i st r er cp b u = Inr (v, q)"
  obtains m package u1 gid payload where "get_work_node i u = Inr m"
    "st = N_IN_PROGRESS \<Longrightarrow> list_all (node_done u) (wn_depends m)"
    "st = N_COMPLETED \<Longrightarrow> package \<noteq> None \<or> wn_result m \<noteq> None"
    "change_node i (wn_updated_at m) (moved_node E m st package er cp b) u = Inr u1"
    "q = moved_node E m st package er cp b m"
    "ultra_event E 0 ''ultra.node_status_changed'' gid ''work_node'' i payload u1 = Inr v"
proof -
  from assms obtain m package where g: "get_work_node i u = Inr m"
    and c: "\<not> (st = N_IN_PROGRESS \<and> \<not> list_all (node_done u) (wn_depends m))"
      "\<not> (st = N_COMPLETED \<and> package = None \<and> wn_result m = None)"
    and rest: "and_then (change_node i (wn_updated_at m) (moved_node E m st package er cp b) u) (\<lambda>u1.
       case fetchone (\<lambda>r. ur_id r = wn_run m) (ul_runs u) of
         None \<Rightarrow> Inl (Journal (PyTypeError ''NoneType''))
       | Some run \<Rightarrow>
         and_then (ultra_event E 0 ''ultra.node_status_changed'' (Some (ur_goal run)) ''work_node'' i
             [(''from'', JStr (node_value (wn_status m))),
              (''to'', JStr (node_value (wn_status (moved_node E m st package er cp b m)))),
              (''attempts'', JInt (wn_attempts (moved_node E m st package er cp b m)))] u1) (\<lambda>u2.
         Inr (u2, moved_node E m st package er cp b m))) = Inr (v, q)"
    unfolding transition_work_node_def Let_def
    by (elim and_then_InrE) (simp split: if_split_asm)
  from rest obtain u1 gid payload where "change_node i (wn_updated_at m) (moved_node E m st package er cp b) u = Inr u1"
    "q = moved_node E m st package er cp b m"
    "ultra_event E 0 ''ultra.node_status_changed'' gid ''work_node'' i payload u1 = Inr v"
    by (auto elim!: and_then_InrE split: option.splits)
  with g c show thesis by (intro that) auto
qed

lemma transition_carries:
  assumes "transition_work_node E i st r er cp b u = Inr (v, q)"
  shows "carries P u v"
  using assms
proof (cases rule: transition_cases)
  case (1 m package u1 gid payload)
  have "carries P u u1"
    unfolding change_node_Inr [OF 1(4)]
  proof (rule carries_nodes)
    fix n assume ok: "ultra_ok P u" and n: "n \<in> set (ul_nodes u)" "wn_id n = i \<and> wn_updated_at n = wn_updated_at m"
      and no: "node_ok (ul_store u) (run_key ` set (ul_runs u)) (node_key ` set (ul_nodes u)) n"
    obtain k where k: "k \<in> set (ul_nodes u)" "wn_id k = i" "read_node k = Inr m" using get_node_Inr [OF 1(1)] by blast
    have "k = n" using ok k n by (intro key_unique [of wn_id "ul_nodes u"]) (auto simp: ultra_ok_def nodes_ok_def)
    then have "wn_attempts m = wn_attempts n" using read_node_fields [OF k(3)] by simp
    moreover have "node_ok (ul_store u) (run_key ` set (ul_runs u)) (node_key ` set (ul_nodes u)) (moved_node E m st package er cp b n)"
      by (rule node_ok_cong [OF no]) (use no in \<open>simp_all add: moved_node_fields node_ok_def\<close>)
    ultimately show "node_step n (moved_node E m st package er cp b n) \<and>
        node_ok (ul_store u) (run_key ` set (ul_runs u)) (node_key ` set (ul_nodes u)) (moved_node E m st package er cp b n)"
      by (simp add: node_step_def moved_node_fields)
  qed
  then show ?thesis using 1(6) by (rule carries_then_event)
qed

text \<open>A change of the columns a process updates without moving the node.\<close>

lemma update_node_carries:
  assumes "update_work_node_definition E i c ds role cp meta u = Inr (v, q)"
  shows "carries P u v"
proof -
  let ?ds = "dict_fromkeys (filter (\<lambda>d. d \<noteq> []) ds)"
  from assms obtain c' m where c: "mk_task_contract c = Inr c'" and m: "get_work_node i u = Inr m"
    and d: "list_all (\<lambda>d. exists_row (\<lambda>n. wn_id n = d \<and> wn_run n = wn_run m) (ul_nodes u)) ?ds"
    and v: "change_node i (wn_updated_at m) (\<lambda>n. n\<lparr>wn_depends := ?ds, wn_contract := c', wn_role := role, wn_checkpoint := cp,
                           wn_metadata := meta, wn_updated_at := now E\<rparr>) u = Inr v"
    unfolding update_work_node_definition_def Let_def
    by (auto simp del: exists_row_iff elim!: and_then_InrE split: if_split_asm)
  show ?thesis
    unfolding change_node_Inr [OF v]
  proof (rule carries_nodes)
    fix n assume ok: "ultra_ok P u" and n: "n \<in> set (ul_nodes u)" "wn_id n = i \<and> wn_updated_at n = wn_updated_at m"
      and no: "node_ok (ul_store u) (run_key ` set (ul_runs u)) (node_key ` set (ul_nodes u)) n"
    obtain k where k: "k \<in> set (ul_nodes u)" "wn_id k = i" "read_node k = Inr m" using get_node_Inr [OF m] by blast
    have "k = n" using ok k n by (intro key_unique [of wn_id "ul_nodes u"]) (auto simp: ultra_ok_def nodes_ok_def)
    then have run: "wn_run m = wn_run n" using read_node_fields [OF k(3)] by (simp add: node_key_def)
    have "contract_inside c'" using contract_paths_inside_workspace [OF c] by (auto simp: contract_inside_def list_all_iff)
    moreover have "\<exists>k t. (x, wn_run n, k, t) \<in> node_key ` set (ul_nodes u)" if x: "x \<in> set ?ds" for x
    proof -
      have "exists_row (\<lambda>n. wn_id n = x \<and> wn_run n = wn_run m) (ul_nodes u)"
        using d x unfolding list_all_iff by blast
      then obtain y where "y \<in> set (ul_nodes u)" "wn_id y = x" "wn_run y = wn_run n" using run by auto
      then show ?thesis unfolding node_key_def by force
    qed
    ultimately have "node_ok (ul_store u) (run_key ` set (ul_runs u)) (node_key ` set (ul_nodes u))
          (n\<lparr>wn_depends := ?ds, wn_contract := c', wn_role := role, wn_checkpoint := cp, wn_metadata := meta,
             wn_updated_at := now E\<rparr>)"
      by (intro node_ok_cong [OF no]) (simp_all add: node_key_def)
    then show "node_step n (n\<lparr>wn_depends := ?ds, wn_contract := c', wn_role := role, wn_checkpoint := cp,
                           wn_metadata := meta, wn_updated_at := now E\<rparr>) \<and>
        node_ok (ul_store u) (run_key ` set (ul_runs u)) (node_key ` set (ul_nodes u))
          (n\<lparr>wn_depends := ?ds, wn_contract := c', wn_role := role, wn_checkpoint := cp, wn_metadata := meta,
             wn_updated_at := now E\<rparr>)"
      by (simp add: node_step_def node_key_def)
  qed
qed

lemma create_module_carries: "create_module cv E run plan i task existing u = Inr (v, n) \<Longrightarrow> carries P u v"
  unfolding create_module_def by (auto elim!: and_then_InrE intro: create_node_carries)

lemma sync_carries: "carries P u (fst (sync_tasks cv E run plan ts existing modules u))"
proof (induction ts arbitrary: existing modules u)
  case (Cons pt ts)
  obtain i task where pt: "pt = (i, task)" by (cases pt)
  show ?case
  proof (cases "map_of existing (t_id task)")
    case None
    then show ?thesis
      using Cons.IH carries_trans [OF create_module_carries] unfolding pt by (auto split: sum.splits prod.splits)
  next
    case (Some node)
    then show ?thesis using Cons.IH unfolding pt by simp
  qed
qed simp

lemma sync_modules_carries: "carries P u (fst (sync_master_modules cv E i u))"
  unfolding sync_master_modules_def by (auto intro: sync_carries split: sum.splits prod.splits)

section \<open>Agents, leases and recovery\<close>

lemma create_agent_carries:
  assumes "create_agent_run E a u = Inr (v, q)"
  shows "carries P u v"
proof -
  from assms obtain item gid payload u1 where i: "insert_agent item u = Inr u1"
    and e: "ultra_event E 0 ''ultra.agent_created'' gid ''agent_run'' (ar_id item) payload u1 = Inr v"
    unfolding create_agent_run_def by (auto elim!: and_then_InrE split: if_splits option.splits)
  have u1: "u1 = u\<lparr>ul_agents := ul_agents u @ [item]\<rparr>" "ar_id item \<notin> ar_id ` set (ul_agents u)"
    using i by (auto simp: insert_agent_def insert_row_Inr elim!: and_then_InrE split: if_splits)
  have "carries P u u1" unfolding u1(1) by (rule carries_agents) (use u1(2) in simp_all)
  then show ?thesis using e by (rule carries_then_event)
qed

lemma update_agent_carries:
  assumes "update_agent_run E i st p u = Inr (v, q)"
  shows "carries P u v"
proof -
  from assms obtain item package gid payload where e: "ultra_event E 0 ''ultra.agent_status_changed'' gid ''agent_run'' i payload
      (u\<lparr>ul_agents := update_where (\<lambda>a. ar_id a = i \<and> ar_updated_at a = ar_updated_at item)
         (updated_agent E item st p package) (ul_agents u)\<rparr>) = Inr v"
    unfolding update_agent_run_def Let_def
    by (auto simp del: exists_row_iff elim!: and_then_InrE split: if_splits option.splits)
  have "carries P u (u\<lparr>ul_agents := update_where (\<lambda>a. ar_id a = i \<and> ar_updated_at a = ar_updated_at item)
         (updated_agent E item st p package) (ul_agents u)\<rparr>)"
    by (rule carries_update_agents) (simp add: updated_agent_def agent_step_def)
  then show ?thesis using e by (rule carries_then_event)
qed

lemma find_lease_Inr:
  assumes "find_lease i u = Inr k"
  obtains l where "l \<in> set (ul_leases u)" "rl_id l = i" "rl_status k = rl_status l" "rl_node k = rl_node l"
proof -
  from assms obtain l where l: "fetchone (\<lambda>l. rl_id l = i) (ul_leases u) = Some l" "read_lease l = Inr k"
    unfolding find_lease_def by (auto split: option.splits)
  have "rl_status k = rl_status l" "rl_node k = rl_node l"
    using l(2) by (auto simp: read_lease_def mk_resource_lease_def elim!: and_then_InrE)
  then show thesis using fetchone_Some [OF l(1)] that by blast
qed

text \<open>An update of the lease that was read, allowed by the status it has.\<close>

lemma carries_update_lease:
  assumes "find_lease i u = Inr k"
    and "\<And>l. rl_status l = rl_status k \<Longrightarrow> hold_step l (f l) \<and> (rl_status (f l) = L_ACTIVE \<longrightarrow> rl_status l = L_ACTIVE)"
  shows "carries P u (update_lease i f u)"
proof (cases "ultra_ok P u")
  case True
  obtain l where l: "l \<in> set (ul_leases u)" "rl_id l = i" "rl_status k = rl_status l" using find_lease_Inr [OF assms(1)] .
  have one: "m = l" if "m \<in> set (ul_leases u)" "rl_id m = i" for m
    using True l that by (intro key_unique [of rl_id "ul_leases u"]) (auto simp: ultra_ok_def leases_apart_def)
  show ?thesis unfolding update_lease_def by (rule carries_leases) (use one assms(2) l(3) in metis)
qed (simp add: carries_def)

lemma renew_carries:
  assumes "renew_resource_lease E i ttl u = Inr (v, q)"
  shows "carries P u v"
proof -
  from assms obtain k where k: "find_lease i u = Inr k"
    and v: "v = update_lease i (\<lambda>l. l\<lparr>rl_expires_at := now E + lease_span ttl, rl_updated_at := now E\<rparr>) u"
    unfolding renew_resource_lease_def by (auto simp: Let_def elim!: and_then_InrE split: if_splits)
  show ?thesis unfolding v by (rule carries_update_lease [OF k]) (simp add: hold_step_def)
qed

lemma release_carries:
  assumes "release_resource_lease E i st u = Inr (v, q)"
  shows "carries P u v"
proof -
  from assms obtain k where k: "find_lease i u = Inr k" and st: "st \<noteq> L_ACTIVE"
    and v: "v = u \<or> (v = update_lease i (\<lambda>l. l\<lparr>rl_status := st, rl_updated_at := now E, rl_released_at := Some (now E)\<rparr>) u \<and>
       (rl_status k = L_ACTIVE \<or> rl_status k = L_UNCERTAIN \<and> st = L_RELEASED))"
    unfolding release_resource_lease_def by (auto simp: Let_def elim!: and_then_InrE split: if_splits)
  from v show ?thesis
  proof
    assume "v = update_lease i (\<lambda>l. l\<lparr>rl_status := st, rl_updated_at := now E, rl_released_at := Some (now E)\<rparr>) u \<and>
       (rl_status k = L_ACTIVE \<or> rl_status k = L_UNCERTAIN \<and> st = L_RELEASED)"
    then show ?thesis using st by (auto intro!: carries_update_lease [OF k] simp: hold_step_def)
  qed simp
qed

text \<open>Marking nodes uncertain.\<close>

lemma carries_mark_nodes:
  "carries P u (u\<lparr>ul_nodes := update_where sel (\<lambda>n. n\<lparr>wn_status := N_UNCERTAIN, wn_error := er n, wn_updated_at := t\<rparr>) (ul_nodes u)\<rparr>)"
proof (rule carries_nodes)
  fix n assume no: "node_ok (ul_store u) (run_key ` set (ul_runs u)) (node_key ` set (ul_nodes u)) n"
  have "node_ok (ul_store u) (run_key ` set (ul_runs u)) (node_key ` set (ul_nodes u))
      (n\<lparr>wn_status := N_UNCERTAIN, wn_error := er n, wn_updated_at := t\<rparr>)"
    by (rule node_ok_cong [OF no]) (use no in \<open>simp_all add: node_key_def node_ok_def\<close>)
  then show "node_step n (n\<lparr>wn_status := N_UNCERTAIN, wn_error := er n, wn_updated_at := t\<rparr>) \<and>
      node_ok (ul_store u) (run_key ` set (ul_runs u)) (node_key ` set (ul_nodes u))
        (n\<lparr>wn_status := N_UNCERTAIN, wn_error := er n, wn_updated_at := t\<rparr>)"
    by (simp add: node_step_def node_key_def)
qed

lemma assert_carries: "carries P u (fst (assert_lease_hash E i h u))"
proof (cases "find_lease i u")
  case (Inr k)
  let ?u1 = "update_lease i (\<lambda>l. l\<lparr>rl_status := L_UNCERTAIN, rl_updated_at := now E, rl_released_at := Some (now E)\<rparr>) u"
  let ?u2 = "?u1\<lparr>ul_nodes := update_where (\<lambda>n. wn_id n = rl_node k) (\<lambda>n. n\<lparr>wn_status := N_UNCERTAIN,
      wn_error := Some ''pre-write hash changed; integration conflict requires inspection'', wn_updated_at := now E\<rparr>) (ul_nodes ?u1)\<rparr>"
  have c: "carries P u ?u2" if "rl_status k = L_ACTIVE"
    by (rule carries_trans [OF carries_update_lease [OF Inr] carries_mark_nodes]) (use that in \<open>simp add: hold_step_def\<close>)
  show ?thesis unfolding assert_lease_hash_def Inr Let_def
    by (auto split: sum.splits intro: carries_then_event [OF c])
qed (simp add: assert_lease_hash_def)

lemma recover_run_carries: "recover_run E as ns ls x u = Inr v \<Longrightarrow> carries P u v"
proof -
  assume r: "recover_run E as ns ls x u = Inr v"
  obtain k run where x: "x = (k, run)" by (cases x)
  have "carries P u (u\<lparr>ul_runs := update_where (\<lambda>r. ur_id r = run \<and> ur_status r \<notin> {RUN_COMPLETED, RUN_CANCELLED})
                (\<lambda>r. r\<lparr>ur_status := RUN_RECOVERING, ur_updated_at := now E\<rparr>) (ul_runs u)\<rparr>)"
    by (rule carries_runs) (simp add: run_step_def run_key_def run_ok_def)
  then show ?thesis using r unfolding recover_run_def x Let_def prod.case by (rule carries_then_event)
qed

lemma recover_carries:
  assumes "recover_ultra_inflight E u = Inr (v, q)"
  shows "carries P u v"
proof -
  let ?u0 = "expire_leases E u"
  let ?u1 = "?u0\<lparr>ul_agents := update_where (\<lambda>a. ar_status a \<in> in_flight_agents)
               (\<lambda>a. a\<lparr>ar_status := A_UNCERTAIN, ar_error := coalesce (ar_error a) ''interrupted before a durable completion checkpoint'',
                       ar_updated_at := now E, ar_finished_at := Some (now E)\<rparr>) (ul_agents ?u0)\<rparr>"
  let ?u2 = "?u1\<lparr>ul_nodes := update_where (\<lambda>n. wn_status n \<in> in_flight_nodes)
               (\<lambda>n. n\<lparr>wn_status := N_UNCERTAIN, wn_error := coalesce (wn_error n) ''interrupted work requires inspection before resume'',
                       wn_updated_at := now E\<rparr>) (ul_nodes ?u1)\<rparr>"
  have "carries P ?u0 ?u1" by (rule carries_update_agents) (simp add: agent_step_def)
  then have c: "carries P u ?u2" by (rule carries_trans [OF carries_trans [OF carries_expire] carries_mark_nodes])
  have [simp]: "ul_agents ?u0 = ul_agents u" "ul_nodes ?u0 = ul_nodes u" by (simp_all add: expire_leases_def)
  from assms obtain as ns ls runs where f: "fold_result (recover_run E as ns ls) runs ?u2 = Inr v"
    unfolding recover_ultra_inflight_def Let_def by (auto elim!: and_then_InrE)
  show ?thesis by (rule fold_result_inv [OF f, of "carries P u"]) (use c in \<open>auto intro: carries_trans recover_run_carries\<close>)
qed

section \<open>All operations\<close>

lemma exec_ultra_carries: "exec_ultra P cv p u = Inr v \<Longrightarrow> carries P u v"
proof -
  assume e: "exec_ultra P cv p u = Inr v"
  obtain E op where p: "p = (E, op)" by (cases p)
  from e show ?thesis unfolding p exec_ultra_def prod.case
    by (cases op)
       (auto elim!: and_then_InrE intro: carries_store create_run_carries update_run_carries approve_carries create_node_carries
          transition_carries update_node_carries sync_modules_carries create_agent_carries update_agent_carries acquire_carries
          renew_carries release_carries assert_carries recover_carries carries_expire simp: reap_expired_leases_def)
qed

interpretation ultra_run: op_relation "exec_ultra P cv" "ultra_ok P" ultra_advance for P cv
  by unfold_locales (auto dest: exec_ultra_carries [unfolded carries_def] intro: ultra_advance_trans)

lemma empty_ultra_ok: "ultra_ok P empty_ultra"
proof -
  have "reachable P empty_store" unfolding reachable_def run_store_def by (rule exI [of _ "[]"]) simp
  then show ?thesis
    by (simp add: ultra_ok_def empty_ultra_def runs_ok_def nodes_ok_def leases_apart_def apart_def nodes_of_def)
qed

lemma run_ultra_ok: "ultra_ok P (run_ultra P cv ops)"
  unfolding run_ultra_def by (rule ultra_run.run_inv [OF empty_ultra_ok])

lemma run_ultra_append: "run_ultra P cv (ops @ qs) = run_ops (exec_ultra P cv) qs (run_ultra P cv ops)"
  by (simp add: run_ultra_def run_ops_append)

end
