(* ===== verification/Ultra_Facts.thy ===== *)
theory Ultra_Facts
  imports Ultra_Invariant
begin

text \<open>
  What the ULTRA operations promise their callers: the walk to the root of a work tree, the gates
  of a transition, and the recovery of interrupted work.
\<close>

section \<open>The walk to the root\<close>

text \<open>The ancestors of a node, nearest first: same run and plan task, one level higher each time.\<close>

fun lineage :: "work_node list \<Rightarrow> work_node \<Rightarrow> bool" where
  "lineage [] n \<longleftrightarrow> wn_parent n = None"
| "lineage (p # ps) n \<longleftrightarrow> wn_parent n = Some (wn_id p) \<and> wn_run p = wn_run n \<and> wn_task p = wn_task n \<and>
     wn_depth n = wn_depth p + 1 \<and> lineage ps p"

definition table_depth :: "ultra \<Rightarrow> string \<Rightarrow> int \<Rightarrow> bool" where
  "table_depth u i d \<longleftrightarrow> (\<exists>n \<in> set (ul_nodes u). wn_id n = i \<and> wn_depth n = d)"

lemma table_depth_unique: "nodes_ok u \<Longrightarrow> table_depth u i d \<Longrightarrow> table_depth u i e \<Longrightarrow> d = e"
  unfolding table_depth_def nodes_ok_def by (metis key_unique)

lemma read_error: "read_node n = Inl e \<Longrightarrow> \<exists>c. e = Contract c"
  unfolding read_node_def map_error_def by (auto split: sum.splits)

lemma node_place:
  assumes "nodes_ok u" "get_work_node i u = Inr n"
  obtains (root) "wn_parent n = None" "wn_depth n = 0"
  | (below) q where "wn_parent n = Some (wn_id q)" "wn_id q \<noteq> []" "q \<in> set (ul_nodes u)" "wn_run q = wn_run n"
      "wn_task q = wn_task n" "wn_depth n = wn_depth q + 1" "get_work_node (wn_id q) u = read_node q"
proof -
  obtain r where r: "r \<in> set (ul_nodes u)" "read_node r = Inr n" using get_node_Inr [OF assms(2)] by blast
  have rf: "wn_parent r = wn_parent n" "wn_run r = wn_run n" "wn_depth r = wn_depth n" "wn_task r = wn_task n"
    using read_node_fields [OF r(2)] by (simp_all add: node_key_def)
  have a: "anchored (ul_store u) (run_key ` set (ul_runs u)) (node_key ` set (ul_nodes u)) r"
    using assms(1) r(1) by (auto simp: nodes_ok_def node_ok_def list_all_iff)
  show thesis
  proof (cases "wn_parent n")
    case None
    then show thesis using a rf root by (simp add: anchored_def)
  next
    case (Some j)
    then have "(j, wn_run n, wn_depth n - 1, wn_task n) \<in> node_key ` set (ul_nodes u)" using a rf by (simp add: anchored_def)
    then obtain q where q: "q \<in> set (ul_nodes u)" "wn_id q = j" "wn_run q = wn_run n" "wn_depth q = wn_depth n - 1" "wn_task q = wn_task n"
      by (auto simp: node_key_def)
    have "fetchone (\<lambda>m. wn_id m = wn_id q) (ul_nodes u) = Some q"
      using fetchone_key [of wn_id "ul_nodes u" q] assms(1) q(1) by (simp add: nodes_ok_def)
    then have "get_work_node (wn_id q) u = read_node q" by (simp add: get_work_node_def)
    moreover have "wn_id q \<noteq> []" using assms(1) q(1) by (auto simp: nodes_ok_def node_ok_def list_all_iff)
    ultimately show thesis using below [of q] q Some by simp
  qed
qed

lemma ancestor_walk_result:
  assumes "nodes_ok u" "get_work_node i u = Inr n" "wn_run n = run"
    and "\<And>j. j \<in> set seen \<Longrightarrow> \<exists>d. table_depth u j d \<and> wn_depth n \<le> d"
  shows "(\<exists>c. ancestor_walk u run seen acc n = Inl (Contract c)) \<or>
    (\<exists>as. ancestor_walk u run seen acc n = Inr (as @ acc) \<and> lineage (rev as) n \<and> int (length as) = wn_depth n)"
  using assms(2-4)
proof (induction "nat (wn_depth n)" arbitrary: i n seen acc rule: less_induct)
  case less
  from assms(1) less(2) show ?case
  proof (cases rule: node_place)
    case root
    then have "ancestor_walk u run seen acc n = Inr acc" by (simp add: ancestor_walk.simps given_def)
    with root show ?thesis by (intro disjI2 exI [of _ "[]"]) simp
  next
    case (below q)
    have g: "given (wn_parent n)" "the (wn_parent n) = wn_id q" using below by (simp_all add: given_def)
    show ?thesis
    proof (cases "read_node q")
      case (Inl e)
      then obtain c where "e = Contract c" using read_error by blast
      then show ?thesis using g below(7) Inl by (simp add: ancestor_walk.simps [of u run seen acc n])
    next
      case (Inr m)
      note mf = read_node_fields [OF Inr]
      have m: "wn_id m = wn_id q" "wn_run m = run" "wn_depth n = wn_depth m + 1" "wn_task m = wn_task n" "0 \<le> wn_depth m"
        using mf below less(3) by (simp_all add: node_key_def)
      have here: "table_depth u (wn_id m) (wn_depth m)" unfolding table_depth_def
        by (rule bexI [of _ q]) (use mf below(3) in \<open>simp_all add: node_key_def\<close>)
      have "wn_id m \<notin> set seen"
      proof
        assume "wn_id m \<in> set seen"
        from less(4) [OF this] obtain d where "table_depth u (wn_id m) d" "wn_depth n \<le> d" by blast
        with table_depth_unique [OF assms(1) here] m(3) show False by simp
      qed
      then have w: "ancestor_walk u run seen acc n = ancestor_walk u run (wn_id m # seen) (m # acc) m"
        using g below(7) Inr m by (simp add: ancestor_walk.simps [of u run seen acc n])
      have lt: "nat (wn_depth m) < nat (wn_depth n)" using m by simp
      have "get_work_node (wn_id q) u = Inr m" using below(7) Inr by simp
      from less(1) [OF lt this m(2), of "wn_id m # seen" "m # acc"]
      have "(\<exists>c. ancestor_walk u run (wn_id m # seen) (m # acc) m = Inl (Contract c)) \<or>
        (\<exists>as. ancestor_walk u run (wn_id m # seen) (m # acc) m = Inr (as @ m # acc) \<and> lineage (rev as) m \<and>
           int (length as) = wn_depth m)"
        using here less(4) m(3) by fastforce
      then show ?thesis
      proof
        assume "\<exists>as. ancestor_walk u run (wn_id m # seen) (m # acc) m = Inr (as @ m # acc) \<and> lineage (rev as) m \<and>
           int (length as) = wn_depth m"
        then obtain as where "ancestor_walk u run (wn_id m # seen) (m # acc) m = Inr (as @ m # acc)" "lineage (rev as) m"
          "int (length as) = wn_depth m" by blast
        then show ?thesis using w m below less(3) by (intro disjI2 exI [of _ "as @ [m]"]) simp
      qed (use w in simp)
    qed
  qed
qed

lemma ancestors_lineage:
  assumes "nodes_ok u" "get_work_node i u = Inr n"
  shows "(\<exists>c. work_node_ancestors i u = Inl (Contract c)) \<or>
    (\<exists>as. work_node_ancestors i u = Inr as \<and> lineage (rev as) n \<and> int (length as) = wn_depth n)"
proof -
  obtain r where r: "r \<in> set (ul_nodes u)" "read_node r = Inr n" using get_node_Inr [OF assms(2)] by blast
  have "table_depth u (wn_id n) (wn_depth n)" unfolding table_depth_def
    by (rule bexI [OF _ r(1)]) (use read_node_fields [OF r(2)] in \<open>simp add: node_key_def\<close>)
  then show ?thesis
    using ancestor_walk_result [OF assms refl, of "[wn_id n]" "[]"] assms(2) by (auto simp: work_node_ancestors_def)
qed

section \<open>The gates of a transition\<close>

lemma moved_status:
  "wn_status (moved_node E m st package er cp b n) = (if exhausted m st b then N_REVISION_REQUIRED else st)"
  "wn_result (moved_node E m st package er cp b n) = (if package = None then wn_result m else package)"
  by (simp_all add: moved_node_def)

lemma transition_gate:
  assumes "transition_work_node E i st r er cp b u = Inr (v, q)"
  shows "wn_status q \<in> {st, N_REVISION_REQUIRED} \<and>
    (wn_status q = N_IN_PROGRESS \<longrightarrow> list_all (node_done u) (wn_depends q)) \<and>
    (wn_status q = N_COMPLETED \<longrightarrow> wn_result q \<noteq> None) \<and>
    (wn_status q \<in> {N_IN_PROGRESS, N_FIXING} \<longrightarrow> wn_attempts q \<le> wn_max_attempts q) \<and>
    exists_row (\<lambda>n. wn_id n = i \<and> wn_status n = wn_status q \<and> wn_attempts n = wn_attempts q) (ul_nodes v)"
  using assms
proof (cases rule: transition_cases)
  case (1 m package u1 gid payload)
  have q: "wn_depends q = wn_depends m" "wn_max_attempts q = wn_max_attempts m" "wn_attempts q = wn_attempts m + (if b then 1 else 0)"
    "wn_status q = (if exhausted m st b then N_REVISION_REQUIRED else st)"
    "wn_result q = (if package = None then wn_result m else package)"
    unfolding 1(5) by (simp_all add: moved_node_fields moved_status)
  obtain k where k: "k \<in> set (ul_nodes u)" "wn_id k = i" "wn_updated_at k = wn_updated_at m"
    using get_node_Inr [OF 1(1)] read_node_fields by metis
  have v: "ul_nodes v = update_where (\<lambda>n. wn_id n = i \<and> wn_updated_at n = wn_updated_at m) (moved_node E m st package er cp b) (ul_nodes u)"
    using 1(6) change_node_Inr [OF 1(4)] by (auto simp: ultra_event_def elim!: and_then_InrE)
  have "moved_node E m st package er cp b k \<in> set (ul_nodes v)" unfolding v set_update_where
    by (rule image_eqI [OF _ k(1)]) (simp add: k)
  then have "exists_row (\<lambda>n. wn_id n = i \<and> wn_status n = wn_status q \<and> wn_attempts n = wn_attempts q) (ul_nodes v)"
    unfolding exists_row_iff by (rule bexI [rotated]) (simp add: k(2) q moved_node_fields moved_status)
  then show ?thesis
    using 1(2,3) q by (auto simp: exhausted_def split: if_splits)
qed

section \<open>Recovery\<close>

definition same_work :: "ultra \<Rightarrow> ultra \<Rightarrow> bool" where
  "same_work u v \<longleftrightarrow> ul_nodes v = ul_nodes u \<and> ul_agents v = ul_agents u \<and> ul_leases v = ul_leases u \<and>
     map ur_id (ul_runs v) = map ur_id (ul_runs u)"

lemma recover_run_same: "recover_run E as ns ls x u = Inr v \<Longrightarrow> same_work u v"
  unfolding recover_run_def same_work_def ultra_event_def
  by (cases x) (auto simp: Let_def map_update_where elim!: and_then_InrE)

lemma event_succeeds:
  assumes "fresh E ''event'' k \<notin> ev_id ` set (st_events s)" "ety \<noteq> []" "ul_store u = s"
  shows "\<exists>v. ultra_event E k ety gid entity i payload u = Inr v \<and>
    map ev_id (st_events (ul_store v)) = map ev_id (st_events s) @ [fresh E ''event'' k]"
proof -
  obtain t where t: "log_event E k ety gid (Some entity) (Some i) payload s = Inr t"
    using assms by (auto simp: log_event_Inr)
  then have "map ev_id (st_events t) = map ev_id (st_events s) @ [fresh E ''event'' k]" by (auto simp: log_event_Inr)
  then show ?thesis using t assms(3) by (intro exI [of _ "u\<lparr>ul_store := t\<rparr>"]) (simp add: ultra_event_def)
qed

lemma recover_runs_succeed:
  assumes "distinct (map ev_id (st_events (ul_store u)) @ map (fresh E ''event'') [k..<k + length runs])"
  shows "\<exists>v. fold_result (recover_run E as ns ls) (enumerate k runs) u = Inr v"
  using assms
proof (induction runs arbitrary: k u)
  case (Cons r runs)
  have range: "[k..<k + length (r # runs)] = k # [Suc k..<Suc k + length runs]" by (simp add: upt_rec)
  have "fresh E ''event'' k \<notin> ev_id ` set (st_events (ul_store u))" using Cons.prems unfolding range by auto
  then have "\<exists>v. recover_run E as ns ls (k, r) u = Inr v \<and>
      map ev_id (st_events (ul_store v)) = map ev_id (st_events (ul_store u)) @ [fresh E ''event'' k]"
    unfolding recover_run_def Let_def prod.case by (rule event_succeeds) simp_all
  then obtain v where v: "recover_run E as ns ls (k, r) u = Inr v"
    "map ev_id (st_events (ul_store v)) = map ev_id (st_events (ul_store u)) @ [fresh E ''event'' k]" by blast
  have "\<exists>w. fold_result (recover_run E as ns ls) (enumerate (Suc k) runs) v = Inr w"
    by (rule Cons.IH) (use Cons.prems in \<open>simp only: range v(2) list.map append_assoc append_Cons append_Nil\<close>)
  then show ?case using v(1) by simp
qed simp

lemma recovery_result:
  assumes "recover_ultra_inflight E u = Inr (v, r)"
  shows "uv_nodes r = map wn_id (filter (\<lambda>n. wn_status n \<in> in_flight_nodes) (ul_nodes u))"
    and "uv_agents r = map ar_id (filter (\<lambda>a. ar_status a \<in> in_flight_agents) (ul_agents u))"
    and "uv_leases r = expired_ids E u"
    and "map wn_status (ul_nodes v) = map (\<lambda>n. if wn_status n \<in> in_flight_nodes then N_UNCERTAIN else wn_status n) (ul_nodes u)"
    and "map ar_status (ul_agents v) = map (\<lambda>a. if ar_status a \<in> in_flight_agents then A_UNCERTAIN else ar_status a) (ul_agents u)"
    and "expired_ids E v = []"
proof -
  let ?u0 = "expire_leases E u"
  let ?agents = "update_where (\<lambda>a. ar_status a \<in> in_flight_agents)
               (\<lambda>a. a\<lparr>ar_status := A_UNCERTAIN, ar_error := coalesce (ar_error a) ''interrupted before a durable completion checkpoint'',
                       ar_updated_at := now E, ar_finished_at := Some (now E)\<rparr>) (ul_agents u)"
  let ?nodes = "update_where (\<lambda>n. wn_status n \<in> in_flight_nodes)
               (\<lambda>n. n\<lparr>wn_status := N_UNCERTAIN, wn_error := coalesce (wn_error n) ''interrupted work requires inspection before resume'',
                       wn_updated_at := now E\<rparr>) (ul_nodes u)"
  let ?u1 = "?u0\<lparr>ul_agents := ?agents, ul_nodes := ?nodes\<rparr>"
  from assms obtain as ns ls runs where f: "fold_result (recover_run E as ns ls) runs ?u1 = Inr v"
    and r: "uv_nodes r = map wn_id (filter (\<lambda>n. wn_status n \<in> in_flight_nodes) (ul_nodes u))"
      "uv_agents r = map ar_id (filter (\<lambda>a. ar_status a \<in> in_flight_agents) (ul_agents u))" "uv_leases r = expired_ids E u"
    unfolding recover_ultra_inflight_def Let_def by (auto elim!: and_then_InrE)
  have same: "same_work ?u1 v"
    by (rule fold_result_inv [OF f, of "same_work ?u1"]) (auto simp: same_work_def dest: recover_run_same [unfolded same_work_def])
  show "uv_nodes r = map wn_id (filter (\<lambda>n. wn_status n \<in> in_flight_nodes) (ul_nodes u))"
    "uv_agents r = map ar_id (filter (\<lambda>a. ar_status a \<in> in_flight_agents) (ul_agents u))" "uv_leases r = expired_ids E u"
    by (fact r)+
  show "map wn_status (ul_nodes v) = map (\<lambda>n. if wn_status n \<in> in_flight_nodes then N_UNCERTAIN else wn_status n) (ul_nodes u)"
    "map ar_status (ul_agents v) = map (\<lambda>a. if ar_status a \<in> in_flight_agents then A_UNCERTAIN else ar_status a) (ul_agents u)"
    using same by (simp_all add: same_work_def update_where_def)
  show "expired_ids E v = []" using same
    by (auto simp: same_work_def expired_ids_def expire_leases_def filter_empty_conv set_update_where)
qed

lemma recovery_total:
  assumes "distinct (map ev_id (st_events (ul_store u)) @
      map (fresh E ''event'') [0..<length (ul_agents u) + length (ul_nodes u)])"
  shows "\<exists>v r. recover_ultra_inflight E u = Inr (v, r)"
proof -
  let ?ids = "map ar_run (filter (\<lambda>a. ar_status a \<in> in_flight_agents) (ul_agents u)) @
      map wn_run (filter (\<lambda>n. wn_status n \<in> in_flight_nodes) (ul_nodes u))"
  let ?n = "length (ul_agents u) + length (ul_nodes u)"
  have "length (sorted_set ?ids) \<le> length ?ids" unfolding sorted_set_def length_sort by (rule length_remdups_leq)
  also have "\<dots> \<le> ?n" by (simp add: add_mono)
  finally have le: "length (sorted_set ?ids) \<le> ?n" .
  then have "[0..<?n] = [0..<length (sorted_set ?ids)] @ [length (sorted_set ?ids)..<?n]"
    using upt_add_eq_append [of 0 "length (sorted_set ?ids)" "?n - length (sorted_set ?ids)"] by simp
  with assms have "distinct (map ev_id (st_events (ul_store u)) @ map (fresh E ''event'') [0..<0 + length (sorted_set ?ids)])"
    by auto
  then have "\<exists>w. fold_result (recover_run E as ns ls) (enumerate 0 (sorted_set ?ids)) x = Inr w"
    if "ul_store x = ul_store u" for as ns ls x
    using that by (intro recover_runs_succeed) simp
  then obtain w where "fold_result (recover_run E (filter (\<lambda>a. ar_status a \<in> in_flight_agents) (ul_agents u))
      (filter (\<lambda>n. wn_status n \<in> in_flight_nodes) (ul_nodes u)) (expired_ids E u)) (enumerate 0 (sorted_set ?ids))
      ((expire_leases E u)
            \<lparr>ul_agents := update_where (\<lambda>a. ar_status a \<in> in_flight_agents)
               (\<lambda>a. a\<lparr>ar_status := A_UNCERTAIN, ar_error := coalesce (ar_error a) ''interrupted before a durable completion checkpoint'',
                       ar_updated_at := now E, ar_finished_at := Some (now E)\<rparr>) (ul_agents u),
             ul_nodes := update_where (\<lambda>n. wn_status n \<in> in_flight_nodes)
               (\<lambda>n. n\<lparr>wn_status := N_UNCERTAIN, wn_error := coalesce (wn_error n) ''interrupted work requires inspection before resume'',
                       wn_updated_at := now E\<rparr>) (ul_nodes u)\<rparr>) = Inr w"
    by (fastforce simp: expire_leases_def)
  then show ?thesis unfolding recover_ultra_inflight_def Let_def by simp
qed

end
