(* ===== verification/Scenario_Ultra.thy ===== *)
theory Scenario_Ultra
  imports Scenario Ultra_Facts
begin

text \<open>Concrete uses of the ULTRA tables.\<close>

definition demo_cv :: conversions where
  "demo_cv = \<lparr>cv_repr = (\<lambda>v. ''r''), cv_float = (\<lambda>v. None), cv_int = (\<lambda>v. None), cv_dict = (\<lambda>v. None)\<rparr>"

definition demo_run :: "string \<Rightarrow> ultra_run" where
  "demo_run i = \<lparr>ur_id = i, ur_goal = demo_goal_id, ur_provider = ''p'', ur_model = ''m'', ur_class = LOCAL,
     ur_access = ACCESS_NORMAL, ur_concurrency = 2, ur_phase = PH_GOAL_INTERVIEW, ur_status = RUN_DRAFT, ur_goal_spec = None,
     ur_architecture = None, ur_plan_revision = None, ur_fingerprint = [], ur_approved = False, ur_config = [],
     ur_error = None, ur_created_at = 0, ur_updated_at = 0, ur_approved_by = None, ur_approved_at = None\<rparr>"

definition demo_work :: task_contract where
  "demo_work = \<lparr>tc_objective = ''o'', tc_criteria = [], tc_write = [''.''], tc_read = [''.''], tc_forbidden = [],
     tc_interfaces = [], tc_dependencies = [], tc_metadata = [], tc_version = 1\<rparr>"

definition demo_node :: work_node where
  "demo_node = \<lparr>wn_id = ''n'', wn_run = ''r'', wn_parent = None, wn_task = None, wn_kind = K_TASK, wn_title = ''t'',
     wn_objective = ''o'', wn_status = N_PENDING, wn_depth = 0, wn_position = 0, wn_depends = [], wn_contract = demo_work,
     wn_role = ''coder'', wn_attempts = 0, wn_max_attempts = 3, wn_result = None, wn_error = None, wn_checkpoint = [],
     wn_metadata = [], wn_created_at = 0, wn_updated_at = 0\<rparr>"

definition demo_agent :: agent_run where
  "demo_agent = \<lparr>ar_id = ''a'', ar_run = ''r'', ar_node = None, ar_role = ''coder'', ar_provider = ''p'', ar_model = ''m'',
     ar_phase = ''i'', ar_status = A_RUNNING, ar_attempt = 1, ar_usage = [], ar_result = None, ar_error = None,
     ar_trace = None, ar_side_effects = True, ar_started_at = 0, ar_updated_at = 0, ar_finished_at = None\<rparr>"

definition no_update :: run_update where
  "no_update = \<lparr>ru_provider = None, ru_model = None, ru_class = None, ru_access = None, ru_concurrency = None, ru_phase = None,
     ru_status = None, ru_goal_spec = None, ru_architecture = None, ru_config = None, ru_error = None\<rparr>"

text \<open>A goal with a run; in it, an agent at work, or a node.\<close>

definition demo_started :: "(env \<times> ultra_op) list" where
  "demo_started = [(demo_env 0, Core (GoalOp (CreateGoal ''b'' ''s'' [] [] []))), (demo_env 4, CreateRun (demo_run ''r''))]"

definition demo_agents :: "(env \<times> ultra_op) list" where
  "demo_agents = demo_started @ [(demo_env 5, CreateAgent demo_agent)]"

definition demo_nodes :: "(env \<times> ultra_op) list" where
  "demo_nodes = demo_started @ [(demo_env 5, CreateNode demo_node)]"

definition demo_blocked :: "(env \<times> ultra_op) list" where
  "demo_blocked = demo_agents @ [(demo_env 6, UpdateRun ''r'' (no_update\<lparr>ru_status := Some RUN_BLOCKED\<rparr>)),
     (demo_env 7, CreateRun (demo_run ''q''))]"

definition recovery_view :: "ultra \<Rightarrow> string list \<times> nat \<times> nat \<times> agent_status list" where
  "recovery_view u =
     (map ev_id (st_events (ul_store u)), length (ul_agents u), length (ul_nodes u), map ar_status (ul_agents u))"

lemma demo_transition_succeeds:
  "succeeds (transition_work_node (demo_env 6) ''n'' N_IN_PROGRESS None None None True (run_ultra demo_platform demo_cv demo_nodes))"
  by code_simp

text \<open>A goal whose approved plan lists a task before the one it depends on, with its modules and a part of the first.\<close>

definition demo_reversed :: plan_request where
  "demo_reversed = demo_request\<lparr>pr_tasks := [TaskObject (demo_task ''a'' [''b'']), TaskObject (demo_task ''b'' [])]\<rparr>"

definition demo_fingerprint :: string where
  "demo_fingerprint = concat (map p_fingerprint (st_plans (run_store demo_platform
     [(demo_env 2, PlanOp (CreatePlan demo_goal_id demo_reversed))] demo_created)))"

definition demo_bound :: "(env \<times> ultra_op) list" where
  "demo_bound =
     [(demo_env 0, Core (GoalOp (CreateGoal ''build it'' ''s'' [] [] []))),
      (demo_env 1, Core (GoalOp (TransitionGoal demo_goal_id GOAL_AWAITING_PLAN_APPROVAL [] []))),
      (demo_env 2, Core (PlanOp (CreatePlan demo_goal_id demo_reversed))),
      (demo_env 3, Core (PlanOp (ApprovePlan demo_goal_id 1 ''user'' None))),
      (demo_env 4, CreateRun (demo_run ''r'')),
      (demo_env 5, ApproveMaster ''r'' 1 demo_fingerprint ''user'')]"

definition demo_part :: work_node where
  "demo_part = demo_node\<lparr>wn_id := ''part'', wn_parent := Some ''node_6_0'', wn_kind := K_SUBMODULE\<rparr>"

definition demo_tree :: "(env \<times> ultra_op) list" where
  "demo_tree = demo_bound @ [(demo_env 6, SyncModules ''r''), (demo_env 7, CreateNode demo_part)]"

text \<open>
  A node may be made to depend on itself after its creation, which \<open>create_work_node\<close> refuses; it
  can then never start.
\<close>

lemma self_dependency_accepted:
  "let u = run_ultra demo_platform demo_cv
       (demo_nodes @ [(demo_env 6, UpdateNode ''n'' demo_work [''n''] ''coder'' [] [])])
   in map wn_depends (ul_nodes u) = [[''n'']] \<and>
      \<not> succeeds (transition_work_node (demo_env 7) ''n'' N_IN_PROGRESS None None None True u)"
  by code_simp

text \<open>
  A contract is normalised when it is built and again when its row is read.  A path that the second
  pass refuses makes the node unreadable, and with it every listing of the run.
\<close>

lemma unreadable_node_accepted:
  "let u = run_ultra demo_platform demo_cv
       (demo_started @ [(demo_env 5, CreateNode (demo_node\<lparr>wn_contract := demo_work\<lparr>tc_write := [''./c:/x'']\<rparr>\<rparr>))])
   in map (\<lambda>n. tc_write (wn_contract n)) (ul_nodes u) = [[''c:/x'']] \<and>
      list_work_nodes ''r'' None None True u = Inl (Contract (NotRelative ''c:/x''))"
  by code_simp

text \<open>
  A lease is compared after one more pass than it was stored with: below a directory
  \<open>workspace/workspace\<close> of the workspace two nodes hold the same path.
\<close>

lemma nested_prefix_leased_twice:
  "let p = ''workspace/workspace/workspace/x'';
       u = run_ultra demo_platform demo_cv (demo_nodes @
         [(demo_env 6, CreateNode (demo_node\<lparr>wn_id := ''m''\<rparr>)), (demo_env 7, AcquireLease ''r'' ''n'' p None None 300),
          (demo_env 8, AcquireLease ''r'' ''m'' p None None 300)])
   in map (\<lambda>l. (rl_node l, rl_path l, rl_status l)) (ul_leases u) =
        [(''n'', ''workspace/x'', L_ACTIVE), (''m'', ''workspace/x'', L_ACTIVE)]"
  by code_simp

text \<open>
  Recovery revives a run that was given up.  A goal has one unfinished run, and a blocked run
  counts as finished, so a second one may start; recovery then makes the blocked run \<open>recovering\<close>
  when an agent of it was at work, and the goal has two unfinished runs.
\<close>

lemma blocked_run_revived:
  "map (\<lambda>r. (ur_id r, ur_goal r, ur_status r)) (ul_runs (run_ultra demo_platform demo_cv demo_blocked)) =
     [(''r'', demo_goal_id, RUN_BLOCKED), (''q'', demo_goal_id, RUN_DRAFT)] \<and>
   map (\<lambda>r. (ur_id r, ur_goal r, ur_status r))
     (ul_runs (run_ultra demo_platform demo_cv (demo_blocked @ [(demo_env 8, RecoverUltra)]))) =
     [(''r'', demo_goal_id, RUN_RECOVERING), (''q'', demo_goal_id, RUN_DRAFT)]"
  by (intro conjI; code_simp)

text \<open>
  \<open>sync_master_modules\<close> forgets a dependency on a task that the approved plan lists later: the
  module of \<open>A\<close>, which depends on \<open>B\<close>, has no dependency and starts while \<open>B\<close> is pending.
\<close>

lemma sync_drops_dependency:
  "let u = run_ultra demo_platform demo_cv (demo_tree @ [(demo_env 8, TransitionNode ''node_6_0'' N_IN_PROGRESS None None None True)])
   in map (\<lambda>t. (t_id t, t_depends_on t)) (st_tasks (ul_store u)) = [(''A'', [''B'']), (''B'', [])] \<and>
      map (\<lambda>n. (wn_task n, wn_depends n, wn_status n)) (filter is_master_module (ul_nodes u)) =
        [(Some ''A'', [], N_IN_PROGRESS), (Some ''B'', [], N_PENDING)]"
  by code_simp

end
