(* ===== verification/Quality.thy ===== *)
theory Quality
  imports Store_Plans
begin

text \<open>
  \<open>agent/quality.py\<close>: the quality policy of a run, change sets, findings and cycles, and what
  blocks completion.  A class is a record and its \<open>__post_init__\<close> a \<open>mk_\<close> function; \<open>P\<close> computes
  the SHA-256 digest of a JSON text.
\<close>

datatype quality_category =
    CAT_CLEAN_CODE | CAT_SECURITY | CAT_TEST_QUALITY | CAT_ARCHITECTURE | CAT_API | CAT_BACKWARD_COMPATIBILITY
  | CAT_PERFORMANCE | CAT_VISUAL

definition category_value :: "quality_category \<Rightarrow> string" where
  "category_value c = (case c of
     CAT_CLEAN_CODE \<Rightarrow> ''clean_code'' | CAT_SECURITY \<Rightarrow> ''security'' | CAT_TEST_QUALITY \<Rightarrow> ''test_quality''
   | CAT_ARCHITECTURE \<Rightarrow> ''architecture'' | CAT_API \<Rightarrow> ''api'' | CAT_BACKWARD_COMPATIBILITY \<Rightarrow> ''backward_compatibility''
   | CAT_PERFORMANCE \<Rightarrow> ''performance'' | CAT_VISUAL \<Rightarrow> ''visual'')"

datatype finding_severity = SEV_INFO | SEV_LOW | SEV_MEDIUM | SEV_HIGH | SEV_CRITICAL

definition severity_value :: "finding_severity \<Rightarrow> string" where
  "severity_value s = (case s of
     SEV_INFO \<Rightarrow> ''info'' | SEV_LOW \<Rightarrow> ''low'' | SEV_MEDIUM \<Rightarrow> ''medium'' | SEV_HIGH \<Rightarrow> ''high'' | SEV_CRITICAL \<Rightarrow> ''critical'')"

definition blocks_completion :: "finding_severity \<Rightarrow> bool" where
  "blocks_completion s \<longleftrightarrow> s \<in> {SEV_MEDIUM, SEV_HIGH, SEV_CRITICAL}"

datatype finding_status = FD_OPEN | FD_ACCEPTED | FD_REMEDIATING | FD_RESOLVED | FD_REPORTED | FD_REQUIRES_PLAN_REVISION

definition finding_value :: "finding_status \<Rightarrow> string" where
  "finding_value s = (case s of
     FD_OPEN \<Rightarrow> ''open'' | FD_ACCEPTED \<Rightarrow> ''accepted'' | FD_REMEDIATING \<Rightarrow> ''remediating'' | FD_RESOLVED \<Rightarrow> ''resolved''
   | FD_REPORTED \<Rightarrow> ''reported'' | FD_REQUIRES_PLAN_REVISION \<Rightarrow> ''requires_plan_revision'')"

datatype cycle_kind = CYC_BASELINE | CYC_DELTA | CYC_PROJECT_SWEEP

datatype change_status = CH_OPEN | CH_CLOSED | CH_REVIEWING | CH_APPROVED | CH_BLOCKED | CH_INTEGRATED | CH_UNCERTAIN

definition change_value :: "change_status \<Rightarrow> string" where
  "change_value s = (case s of
     CH_OPEN \<Rightarrow> ''open'' | CH_CLOSED \<Rightarrow> ''closed'' | CH_REVIEWING \<Rightarrow> ''reviewing'' | CH_APPROVED \<Rightarrow> ''approved''
   | CH_BLOCKED \<Rightarrow> ''blocked'' | CH_INTEGRATED \<Rightarrow> ''integrated'' | CH_UNCERTAIN \<Rightarrow> ''uncertain'')"

definition principles :: "string list" where
  "principles =
     [''correctness'', ''simplicity'', ''naming'', ''cohesion_srp'', ''coupling'', ''duplication'', ''abstraction_quality'',
      ''error_handling'', ''resource_handling'', ''types_contracts'', ''input_validation'',
      ''authentication_authorization'', ''secrets'', ''permissions'', ''unsafe_apis'', ''dependency_security'',
      ''testability'', ''determinism'', ''coverage'', ''architecture_consistency'', ''api_consistency'',
      ''backward_compatibility'', ''visual_quality'']"

datatype quality_defect =
    PolicyVersion | UnknownPrinciples "string list" | ChangeSetFields | UnreviewedChangeSet
  | FindingPrinciple | FindingNotMeasured | FindingFields | CycleFields

section \<open>Policies\<close>

record quality_policy =
  gp_version :: int
  gp_principles :: "string list"
  gp_blocking :: "string list"
  gp_reviews :: "string list"
  gp_measured :: bool

definition mk_policy_v1 :: "quality_policy \<Rightarrow> quality_defect + quality_policy" where
  "mk_policy_v1 p =
     (if gp_version p \<noteq> 1 then Inl PolicyVersion
      else let unknown = filter (\<lambda>x. x \<notin> set principles) (gp_principles p)
           in if unknown \<noteq> [] then Inl (UnknownPrinciples (sorted_set unknown)) else Inr p)"

section \<open>Change sets\<close>

record change_set =
  ch_run :: string
  ch_agent :: string
  ch_parent :: string
  ch_id :: string
  ch_version :: int
  ch_status :: change_status
  ch_files :: "string list"
  ch_pre :: "(string \<times> string option) list"
  ch_post :: "(string \<times> string option) list"
  ch_diff :: string
  ch_commands :: "string list"
  ch_shell_files :: "string list"
  ch_evidence :: "string list"
  ch_reviews :: "(string \<times> string) list"
  ch_integration :: string
  ch_metadata :: json_obj
  ch_created_at :: int
  ch_updated_at :: int

definition mk_change_set :: "change_set \<Rightarrow> quality_defect + change_set" where
  "mk_change_set c =
     (if ch_version c \<noteq> 1 \<or> ch_run c = [] \<or> ch_agent c = [] \<or> ch_parent c = [] then Inl ChangeSetFields
      else Inr (c\<lparr>ch_files := dict_fromkeys (ch_files c)\<rparr>))"

definition review_complete :: "change_set \<Rightarrow> bool" where
  "review_complete c \<longleftrightarrow>
     list_all (\<lambda>role. map_of (ch_reviews c) role = Some ''passed'') [''clean_code'', ''security'', ''test_quality'']"

definition integrate :: "int \<Rightarrow> change_set \<Rightarrow> quality_defect + change_set" where
  "integrate t c =
     (if ch_status c \<noteq> CH_APPROVED \<or> \<not> review_complete c then Inl UnreviewedChangeSet
      else mk_change_set (c\<lparr>ch_status := CH_INTEGRATED, ch_integration := ''integrated'', ch_updated_at := t\<rparr>))"

section \<open>Findings\<close>

record quality_finding =
  fd_run :: string
  fd_principle :: string
  fd_category :: quality_category
  fd_severity :: finding_severity
  fd_path :: string
  fd_location :: string
  fd_file_hash :: string
  fd_evidence :: json_obj
  fd_remediation :: string
  fd_criteria :: "string list"
  fd_verification :: "string list"
  fd_id :: string
  fd_version :: int
  fd_status :: finding_status
  fd_repair :: "string option"
  fd_fingerprint :: string
  fd_created_at :: int
  fd_updated_at :: int

definition finding_fingerprint :: "platform \<Rightarrow> quality_finding \<Rightarrow> string" where
  "finding_fingerprint P f = digest_of P (JObj
     [(''category'', JStr (category_value (fd_category f))), (''principle'', JStr (fd_principle f)),
      (''path'', JStr (fd_path f)), (''location'', JStr (fd_location f)), (''file_hash'', JStr (fd_file_hash f)),
      (''evidence'', JObj (fd_evidence f))])"

definition mk_finding :: "platform \<Rightarrow> quality_finding \<Rightarrow> quality_defect + quality_finding" where
  "mk_finding P f =
     (if fd_version f \<noteq> 1 \<or> fd_principle f \<notin> set principles then Inl FindingPrinciple
      else if fd_category f = CAT_PERFORMANCE \<and> \<not> truthy (get_or JNull (fd_evidence f) ''measurement'')
      then Inl FindingNotMeasured
      else if fd_path f = [] \<or> fd_file_hash f = [] \<or> fd_remediation f = [] \<or> fd_criteria f = [] \<or> fd_verification f = []
      then Inl FindingFields
      else Inr (f\<lparr>fd_fingerprint := (if fd_fingerprint f = [] then finding_fingerprint P f else fd_fingerprint f)\<rparr>))"

section \<open>Cycles\<close>

record quality_cycle =
  qc_run :: string
  qc_kind :: cycle_kind
  qc_attempt :: int
  qc_approach :: string
  qc_inputs :: json_obj
  qc_outputs :: json_obj
  qc_metrics :: json_obj
  qc_result :: string
  qc_id :: string
  qc_version :: int
  qc_blocker :: "string option"
  qc_started_at :: int
  qc_ended_at :: "int option"

definition mk_cycle :: "quality_cycle \<Rightarrow> quality_defect + quality_cycle" where
  "mk_cycle c = (if qc_version c \<noteq> 1 \<or> qc_attempt c < 1 \<or> qc_approach c = [] then Inl CycleFields else Inr c)"

section \<open>What blocks completion\<close>

definition completion_blockers :: "change_set list \<Rightarrow> quality_finding list \<Rightarrow> string list" where
  "completion_blockers changes findings =
     map (\<lambda>c. ''Change Set '' @ ch_id c @ '' is '' @ change_value (ch_status c))
       (filter (\<lambda>c. ch_status c \<noteq> CH_INTEGRATED) changes) @
     map (\<lambda>f. severity_value (fd_severity f) @ '' finding '' @ fd_id f @ '' remains '' @ finding_value (fd_status f))
       (filter (\<lambda>f. blocks_completion (fd_severity f) \<and> fd_status f \<noteq> FD_RESOLVED) findings)"

definition finding_requires_plan_revision :: "bool \<Rightarrow> bool \<Rightarrow> bool \<Rightarrow> bool \<Rightarrow> bool \<Rightarrow> bool" where
  "finding_requires_plan_revision behaviour interface_change dependency path_scope architecture_change \<longleftrightarrow>
     behaviour \<or> interface_change \<or> dependency \<or> path_scope \<or> architecture_change"

definition may_auto_fix_low :: "quality_finding \<Rightarrow> bool \<Rightarrow> bool \<Rightarrow> bool \<Rightarrow> bool" where
  "may_auto_fix_low f deterministic safe within_scope \<longleftrightarrow>
     fd_severity f = SEV_LOW \<and> deterministic \<and> safe \<and> within_scope \<and> fd_status f \<in> {FD_OPEN, FD_ACCEPTED}"

section \<open>Construction is stable\<close>

lemma mk_change_set_stable:
  assumes "mk_change_set c = Inr d"
  shows "mk_change_set d = Inr d"
proof -
  have d: "d = c\<lparr>ch_files := dict_fromkeys (ch_files c)\<rparr>"
    and ok: "ch_version c = 1" "ch_run c \<noteq> []" "ch_agent c \<noteq> []" "ch_parent c \<noteq> []"
    using assms unfolding mk_change_set_def by (simp_all split: if_splits)
  show ?thesis unfolding mk_change_set_def d using ok by (simp add: dict_fromkeys_distinct)
qed

lemma mk_finding_Inr:
  assumes "mk_finding P f = Inr g"
  shows "g = f\<lparr>fd_fingerprint := (if fd_fingerprint f = [] then finding_fingerprint P f else fd_fingerprint f)\<rparr>"
  using assms unfolding mk_finding_def by (simp split: if_split_asm)

lemma mk_finding_stable:
  assumes "mk_finding P f = Inr g"
  shows "mk_finding P g = Inr g"
proof -
  define h where "h = (if fd_fingerprint f = [] then finding_fingerprint P f else fd_fingerprint f)"
  have g: "g = f\<lparr>fd_fingerprint := h\<rparr>" and ok: "fd_version f = 1" "fd_principle f \<in> set principles"
    "fd_category f = CAT_PERFORMANCE \<longrightarrow> truthy (get_or JNull (fd_evidence f) ''measurement'')"
    "fd_path f \<noteq> []" "fd_file_hash f \<noteq> []" "fd_remediation f \<noteq> []" "fd_criteria f \<noteq> []" "fd_verification f \<noteq> []"
    using assms unfolding mk_finding_def h_def [symmetric] by (simp_all split: if_splits)
  have "finding_fingerprint P g = finding_fingerprint P f" unfolding g by (simp add: finding_fingerprint_def)
  then have h: "(if fd_fingerprint g = [] then finding_fingerprint P g else fd_fingerprint g) = h"
    unfolding g by (auto simp: h_def)
  have "mk_finding P g = Inr (g\<lparr>fd_fingerprint := h\<rparr>)"
    unfolding mk_finding_def h using ok by (simp add: g)
  then show ?thesis by (simp add: g)
qed

lemma integrated_only_reviewed:
  "integrate t c = Inr d \<Longrightarrow> ch_status c = CH_APPROVED \<and> review_complete c \<and> ch_status d = CH_INTEGRATED"
  by (auto simp: integrate_def mk_change_set_def split: if_splits)

end
