(* ===== verification/Delivery_Store.thy ===== *)
theory Delivery_Store
  imports Quality Ultra_Leases Acceptance
begin

text \<open>
  The tables of \<open>agent/store.py\<close> about the quality of an ULTRA run (policies, change sets, the
  mutation ledger, findings, cycles) and about the outcome of a goal (its contract and state,
  experiments, final acceptance evidence), laid over the ULTRA tables.  An operation is one
  transaction and returns the error it raises, with the tables unchanged, or the new tables and its
  result; \<open>record_codex_visual_review\<close> is a sequence of transactions and returns the tables with
  either.
\<close>

section \<open>State\<close>

record policy_row =
  pw_run :: string
  pw_fingerprint :: string
  pw_policy :: quality_policy
  pw_created_at :: int
  pw_updated_at :: int

record mutation =
  mu_id :: string
  mu_change :: string
  mu_kind :: string
  mu_path :: "string option"
  mu_command :: "string option"
  mu_pre :: "string option"
  mu_post :: "string option"
  mu_status :: string
  mu_metadata :: json_obj
  mu_created_at :: int

record outcome_row =
  og_goal :: string
  og_run :: "string option"
  og_contract :: json_obj
  og_state :: outcome_state
  og_token :: string
  og_heartbeat :: int
  og_recoveries :: int
  og_decision :: json_obj
  og_accepted_at :: "int option"
  og_created_at :: int
  og_updated_at :: int

record experiment_row =
  ex_id :: string
  ex_run :: string
  ex_node :: "string option"
  ex_source :: opt_experiment
  ex_delta :: rat

record delivery =
  dv_ultra :: ultra
  dv_policies :: "policy_row list"
  dv_changes :: "change_set list"
  dv_mutations :: "mutation list"
  dv_findings :: "quality_finding list"
  dv_cycles :: "quality_cycle list"
  dv_outcomes :: "outcome_row list"
  dv_experiments :: "experiment_row list"
  dv_evidence :: "acceptance_evidence list"

definition empty_delivery :: delivery where
  "empty_delivery =
     \<lparr>dv_ultra = empty_ultra, dv_policies = [], dv_changes = [], dv_mutations = [], dv_findings = [], dv_cycles = [],
      dv_outcomes = [], dv_experiments = [], dv_evidence = []\<rparr>"

datatype (plugins only: code size) delivery_error =
    Ultra ultra_error
  | Defect quality_defect
  | Unread from_dict_error

text \<open>
  What the interpreter and the caller's process supply: \<open>isoformat\<close> and \<open>fromisoformat\<close>, the text
  of a score with three decimals, float subtraction, and the process identifier \<open>pid:..\<close>.
\<close>

record formats =
  fm_iso :: "int \<Rightarrow> string"
  fm_time :: "string \<Rightarrow> int option"
  fm_score :: "rat \<Rightarrow> string"
  fm_minus :: "rat \<Rightarrow> rat \<Rightarrow> rat"
  fm_pid :: string

abbreviation raise_store :: "store_error \<Rightarrow> delivery_error + 'a" where
  "raise_store e \<equiv> Inl (Ultra (Journal e))"

abbreviation tracked :: "ultra_error + 'a \<Rightarrow> delivery_error + 'a" where
  "tracked \<equiv> map_error Ultra"

definition run_exists :: "string \<Rightarrow> delivery \<Rightarrow> bool" where
  "run_exists i d = exists_row (\<lambda>r. ur_id r = i) (ul_runs (dv_ultra d))"

definition require_run :: "string \<Rightarrow> delivery \<Rightarrow> delivery_error + unit" where
  "require_run i d = (if run_exists i d then Inr () else raise_store (IntegrityError ''FOREIGN KEY ultra_runs(id)''))"

text \<open>\<open>INSERT .. ON CONFLICT(k) DO UPDATE SET ..\<close>; only a row that is inserted is checked against \<open>fk\<close>.\<close>

definition upsert :: "('e + unit) \<Rightarrow> ('r \<Rightarrow> 'k) \<Rightarrow> ('r \<Rightarrow> 'r) \<Rightarrow> 'r \<Rightarrow> 'r list \<Rightarrow> 'e + 'r list" where
  "upsert fk k change r t =
     (if exists_row (\<lambda>q. k q = k r) t then Inr (update_where (\<lambda>q. k q = k r) change t)
      else and_then fk (\<lambda>_. Inr (t @ [r])))"

section \<open>Quality\<close>

definition save_quality_policy :: "env \<Rightarrow> string \<Rightarrow> quality_policy \<Rightarrow> string \<Rightarrow> delivery \<Rightarrow> delivery_error + delivery" where
  "save_quality_policy E run policy fp d =
     (if strip fp = [] then raise_store (ValueError ''quality policy must be bound to a Master Plan fingerprint'')
      else and_then (upsert (require_run run d) pw_run
             (\<lambda>q. q\<lparr>pw_fingerprint := fp, pw_policy := policy, pw_updated_at := now E\<rparr>)
             \<lparr>pw_run = run, pw_fingerprint = fp, pw_policy = policy, pw_created_at = now E, pw_updated_at = now E\<rparr>
             (dv_policies d)) (\<lambda>t. Inr (d\<lparr>dv_policies := t\<rparr>)))"

definition get_quality_policy :: "string \<Rightarrow> delivery \<Rightarrow> delivery_error + quality_policy \<times> string" where
  "get_quality_policy run d =
     (case fetchone (\<lambda>q. pw_run q = run) (dv_policies d) of
        None \<Rightarrow> raise_store (NotFoundError ''quality policy'' run)
      | Some q \<Rightarrow> and_then (map_error Defect (mk_policy_v1 (pw_policy q))) (\<lambda>p. Inr (p, pw_fingerprint q)))"

text \<open>The columns that an update of a stored change set leaves alone are its identity.\<close>

definition revise_change :: "change_set \<Rightarrow> change_set \<Rightarrow> change_set" where
  "revise_change item q =
     q\<lparr>ch_status := ch_status item, ch_files := ch_files item, ch_pre := ch_pre item, ch_post := ch_post item,
       ch_diff := ch_diff item, ch_commands := ch_commands item, ch_shell_files := ch_shell_files item,
       ch_evidence := ch_evidence item, ch_reviews := ch_reviews item, ch_integration := ch_integration item,
       ch_metadata := ch_metadata item, ch_updated_at := ch_updated_at item\<rparr>"

definition save_change_set :: "change_set \<Rightarrow> delivery \<Rightarrow> delivery_error + delivery \<times> change_set" where
  "save_change_set item d =
     and_then (upsert (require_run (ch_run item) d) ch_id (revise_change item) item (dv_changes d))
       (\<lambda>t. Inr (d\<lparr>dv_changes := t\<rparr>, item))"

definition list_change_sets :: "string \<Rightarrow> delivery \<Rightarrow> delivery_error + change_set list" where
  "list_change_sets run d =
     map_error Defect (map_result mk_change_set
       (sort_key (\<lambda>c. (ch_created_at c, ch_id c)) (filter (\<lambda>c. ch_run c = run) (dv_changes d))))"

definition record_mutation :: "env \<Rightarrow> string \<Rightarrow> string \<Rightarrow> string option \<Rightarrow> string option \<Rightarrow> string option \<Rightarrow> string option \<Rightarrow>
    string \<Rightarrow> json_obj \<Rightarrow> delivery \<Rightarrow> delivery_error + delivery \<times> string" where
  "record_mutation E change kind path command pre post status metadata d =
     (if \<not> exists_row (\<lambda>c. ch_id c = change) (dv_changes d) then raise_store (NotFoundError ''Change Set'' change)
      else and_then (insert_row (Ultra (Journal (IntegrityError ''mutation_ledger.id''))) mu_id
             \<lparr>mu_id = fresh E ''mutation'' 0, mu_change = change, mu_kind = kind, mu_path = path, mu_command = command,
              mu_pre = pre, mu_post = post, mu_status = status, mu_metadata = metadata, mu_created_at = now E\<rparr>
             (dv_mutations d)) (\<lambda>t. Inr (d\<lparr>dv_mutations := t\<rparr>, fresh E ''mutation'' 0)))"

definition list_mutations :: "string \<Rightarrow> delivery \<Rightarrow> mutation list" where
  "list_mutations change d =
     sort_key (\<lambda>m. (mu_created_at m, mu_id m)) (filter (\<lambda>m. mu_change m = change) (dv_mutations d))"

definition read_finding :: "platform \<Rightarrow> quality_finding \<Rightarrow> delivery_error + quality_finding" where
  "read_finding P f = map_error Defect (mk_finding P f)"

definition put_quality_finding :: "platform \<Rightarrow> quality_finding \<Rightarrow> delivery \<Rightarrow> delivery_error + delivery \<times> quality_finding" where
  "put_quality_finding P item d =
     (case fetchone (\<lambda>f. fd_run f = fd_run item \<and> fd_fingerprint f = fd_fingerprint item) (dv_findings d) of
        Some existing \<Rightarrow> and_then (read_finding P existing) (\<lambda>f. Inr (d, f))
      | None \<Rightarrow>
        and_then (require_run (fd_run item) d) (\<lambda>_.
        and_then (insert_row (Ultra (Journal (IntegrityError ''quality_findings.id''))) fd_id item (dv_findings d)) (\<lambda>t.
          Inr (d\<lparr>dv_findings := t\<rparr>, item))))"

definition list_quality_findings :: "platform \<Rightarrow> string \<Rightarrow> delivery \<Rightarrow> delivery_error + quality_finding list" where
  "list_quality_findings P run d =
     map_result (read_finding P)
       (sort_key (\<lambda>f. (fd_created_at f, fd_id f)) (filter (\<lambda>f. fd_run f = run) (dv_findings d)))"

definition remediated :: "string \<Rightarrow> string \<Rightarrow> delivery \<Rightarrow> bool" where
  "remediated change run d \<longleftrightarrow>
     (case fetchone (\<lambda>c. ch_id c = change \<and> ch_run c = run) (dv_changes d) of
        None \<Rightarrow> False | Some c \<Rightarrow> ch_status c \<in> {CH_APPROVED, CH_INTEGRATED})"

definition delivery_event :: "env \<Rightarrow> nat \<Rightarrow> string \<Rightarrow> string option \<Rightarrow> string \<Rightarrow> string \<Rightarrow> json_obj \<Rightarrow> delivery \<Rightarrow>
    delivery_error + delivery" where
  "delivery_event E k ety gid entity i payload d =
     and_then (tracked (ultra_event E k ety gid entity i payload (dv_ultra d))) (\<lambda>u. Inr (d\<lparr>dv_ultra := u\<rparr>))"

definition moved_finding :: "env \<Rightarrow> finding_status \<Rightarrow> string option \<Rightarrow> quality_finding \<Rightarrow> quality_finding" where
  "moved_finding E target repair f =
     f\<lparr>fd_status := target, fd_repair := (if given repair then repair else fd_repair f), fd_updated_at := now E\<rparr>"

text \<open>The row is updated from the item that was read, which only differs in columns that are not written.\<close>

definition apply_finding_move :: "env \<Rightarrow> string \<Rightarrow> finding_status \<Rightarrow> string option \<Rightarrow> string option \<Rightarrow> string list \<Rightarrow>
    quality_finding \<Rightarrow> delivery \<Rightarrow> delivery_error + delivery \<times> quality_finding" where
  "apply_finding_move E i target repair change evidence item d =
     and_then (delivery_event E 0 ''quality.finding_status_changed'' None ''quality_finding'' i
         [(''from'', JStr (finding_value (fd_status item))), (''to'', JStr (finding_value target)),
          (''remediation_change_set_id'', opt_str change), (''verification_evidence_ids'', jstrs evidence)]
         (d\<lparr>dv_findings := update_where (\<lambda>f. fd_id f = i)
              (\<lambda>f. f\<lparr>fd_status := target, fd_repair := fd_repair (moved_finding E target repair item),
                     fd_updated_at := now E\<rparr>) (dv_findings d)\<rparr>)) (\<lambda>d1.
     Inr (d1, moved_finding E target repair item))"

definition transition_quality_finding :: "platform \<Rightarrow> env \<Rightarrow> string \<Rightarrow> finding_status \<Rightarrow> string option \<Rightarrow> string option \<Rightarrow>
    string list \<Rightarrow> delivery \<Rightarrow> delivery_error + delivery \<times> quality_finding" where
  "transition_quality_finding P E i target repair change evidence d =
     (case fetchone (\<lambda>f. fd_id f = i) (dv_findings d) of
        None \<Rightarrow> raise_store (NotFoundError ''quality finding'' i)
      | Some row \<Rightarrow>
        and_then (read_finding P row) (\<lambda>item.
        if target = FD_RESOLVED \<and> (\<not> given repair \<or> \<not> given change \<or> evidence = [])
        then raise_store (CompletionGateError ''resolving a finding requires a repair node, remediation Change Set, and fresh verification evidence'')
        else if target = FD_RESOLVED \<and> \<not> remediated (the change) (fd_run item) d
        then raise_store (CompletionGateError ''finding remediation Change Set has not passed fresh reviews'')
        else apply_finding_move E i target repair change evidence item d))"

definition save_quality_cycle :: "quality_cycle \<Rightarrow> delivery \<Rightarrow> delivery_error + delivery \<times> quality_cycle" where
  "save_quality_cycle item d =
     and_then (upsert (require_run (qc_run item) d) qc_id
        (\<lambda>q. q\<lparr>qc_outputs := qc_outputs item, qc_metrics := qc_metrics item, qc_result := qc_result item,
               qc_blocker := qc_blocker item, qc_ended_at := qc_ended_at item\<rparr>) item (dv_cycles d))
       (\<lambda>t. Inr (d\<lparr>dv_cycles := t\<rparr>, item))"

definition list_quality_cycles :: "string \<Rightarrow> delivery \<Rightarrow> delivery_error + quality_cycle list" where
  "list_quality_cycles run d =
     map_error Defect (map_result mk_cycle
       (sort_key (\<lambda>c. (qc_started_at c, qc_id c)) (filter (\<lambda>c. qc_run c = run) (dv_cycles d))))"

end
