(* ===== verification/Outcome_Store.thy ===== *)
theory Outcome_Store
  imports Delivery_Store
begin

text \<open>
  The outcome of a goal in \<open>agent/store.py\<close>: its contract and state, the evidence for its final
  acceptance, the evaluation of the gate on what is stored, and the review of a screenshot by an
  external judge, which may complete a blocked goal.
\<close>

section \<open>Contract and state\<close>

definition token_or_pid :: "formats \<Rightarrow> string \<Rightarrow> string" where
  "token_or_pid F token = (if token = [] then fm_pid F else token)"

definition require_opt_run :: "string option \<Rightarrow> delivery \<Rightarrow> delivery_error + unit" where
  "require_opt_run run d = (case run of None \<Rightarrow> Inr () | Some i \<Rightarrow> require_run i d)"

definition get_goal_outcome_contract :: "string \<Rightarrow> delivery \<Rightarrow> delivery_error + outcome_row" where
  "get_goal_outcome_contract gid d =
     (case fetchone (\<lambda>o'. og_goal o' = gid) (dv_outcomes d) of
        None \<Rightarrow> raise_store (NotFoundError ''goal outcome contract'' gid) | Some row \<Rightarrow> Inr row)"

definition fetch_outcome :: "string \<Rightarrow> delivery \<Rightarrow> delivery_error + delivery \<times> outcome_row" where
  "fetch_outcome gid d = and_then (get_goal_outcome_contract gid d) (\<lambda>row. Inr (d, row))"

definition renewed_outcome :: "env \<Rightarrow> string option \<Rightarrow> outcome_state \<Rightarrow> string \<Rightarrow> outcome_row \<Rightarrow> outcome_row" where
  "renewed_outcome E run state token row =
     row\<lparr>og_run := (if run = None then og_run row else run), og_state := state, og_token := token,
         og_heartbeat := now E, og_updated_at := now E\<rparr>"

definition save_goal_outcome_contract :: "formats \<Rightarrow> env \<Rightarrow> outcome_contract \<Rightarrow> string option \<Rightarrow> outcome_state \<Rightarrow> string \<Rightarrow>
    delivery \<Rightarrow> delivery_error + delivery \<times> outcome_row" where
  "save_goal_outcome_contract F E c run state token d =
     and_then (require_opt_run run d) (\<lambda>_.
     and_then (upsert
        (if goal_exists (oc_goal_id c) (ul_store (dv_ultra d)) then Inr ()
         else raise_store (IntegrityError ''FOREIGN KEY goals(id)'')) og_goal
        (\<lambda>row. (renewed_outcome E run (if og_state row = OUT_ACCEPTED then OUT_ACCEPTED else state) (token_or_pid F token) row)
                 \<lparr>og_contract := contract_to_dict c\<rparr>)
        \<lparr>og_goal = oc_goal_id c, og_run = run, og_contract = contract_to_dict c, og_state = state,
         og_token = token_or_pid F token, og_heartbeat = now E, og_recoveries = 0, og_decision = [],
         og_accepted_at = None, og_created_at = now E, og_updated_at = now E\<rparr>
        (dv_outcomes d)) (\<lambda>t. fetch_outcome (oc_goal_id c) (d\<lparr>dv_outcomes := t\<rparr>)))"

definition heartbeat_goal_outcome :: "formats \<Rightarrow> env \<Rightarrow> string \<Rightarrow> string option \<Rightarrow> string \<Rightarrow> delivery \<Rightarrow>
    delivery_error + delivery \<times> outcome_row" where
  "heartbeat_goal_outcome F E gid run token d =
     and_then (get_goal_outcome_contract gid d) (\<lambda>current.
     if og_state current = OUT_ACCEPTED then Inr (d, current)
     else and_then (require_opt_run run d) (\<lambda>_.
       fetch_outcome gid (d\<lparr>dv_outcomes := update_where (\<lambda>row. og_goal row = gid)
         (renewed_outcome E run OUT_RUNNING (token_or_pid F token)) (dv_outcomes d)\<rparr>)))"

definition decided_outcome :: "env \<Rightarrow> outcome_state \<Rightarrow> json_obj \<Rightarrow> outcome_row \<Rightarrow> outcome_row" where
  "decided_outcome E state decision row =
     row\<lparr>og_state := state, og_decision := decision,
         og_accepted_at := (if state = OUT_ACCEPTED then Some (now E) else None), og_updated_at := now E\<rparr>"

definition set_goal_outcome_state :: "env \<Rightarrow> string \<Rightarrow> outcome_state \<Rightarrow> json_obj \<Rightarrow> delivery \<Rightarrow>
    delivery_error + delivery \<times> outcome_row" where
  "set_goal_outcome_state E gid state decision d =
     fetch_outcome gid (d\<lparr>dv_outcomes := update_where (\<lambda>row. og_goal row = gid)
       (decided_outcome E state decision) (dv_outcomes d)\<rparr>)"

section \<open>Experiments and evidence\<close>

definition record_optimization_experiment :: "formats \<Rightarrow> opt_experiment \<Rightarrow> delivery \<Rightarrow> delivery_error + delivery" where
  "record_optimization_experiment F x d =
     (let node = (if exists_row (\<lambda>n. wn_id n = xp_node_id x \<and> wn_run n = xp_run_id x) (ul_nodes (dv_ultra d))
                  then Some (xp_node_id x) else None)
      in and_then (require_run (xp_run_id x) d) (\<lambda>_.
         and_then (insert_row (Ultra (Journal (IntegrityError ''optimization_experiments.id''))) ex_id
            \<lparr>ex_id = xp_id x, ex_run = xp_run_id x, ex_node = node, ex_source = x,
             ex_delta = fm_minus F (xp_after x) (xp_before x)\<rparr> (dv_experiments d))
           (\<lambda>t. Inr (d\<lparr>dv_experiments := t\<rparr>))))"

definition list_optimization_experiments :: "string \<Rightarrow> string option \<Rightarrow> delivery \<Rightarrow> experiment_row list" where
  "list_optimization_experiments run node d =
     sort_key (\<lambda>x. (xp_created_at (ex_source x), ex_id x))
       (filter (\<lambda>x. ex_run x = run \<and> (node = None \<or> ex_node x = node)) (dv_experiments d))"

definition record_final_acceptance_evidence :: "acceptance_evidence \<Rightarrow> delivery \<Rightarrow> delivery_error + delivery" where
  "record_final_acceptance_evidence e d =
     and_then (require_run (ae_run_id e) d) (\<lambda>_.
     and_then (insert_row (Ultra (Journal (IntegrityError ''final_acceptance_evidence.id''))) ae_id e (dv_evidence d))
       (\<lambda>t. Inr (d\<lparr>dv_evidence := t\<rparr>)))"

definition list_final_acceptance_evidence :: "string \<Rightarrow> delivery \<Rightarrow> acceptance_evidence list" where
  "list_final_acceptance_evidence run d =
     sort_key (\<lambda>e. (ae_created_at e, ae_id e)) (filter (\<lambda>e. ae_run_id e = run) (dv_evidence d))"

section \<open>Evaluating the gate on what is stored\<close>

text \<open>
  A row of evidence as the mapping the gate receives (without the text column \<open>details_json\<close>, which
  it does not read), and the gate's reading of those mappings.
\<close>

definition evidence_row :: "formats \<Rightarrow> acceptance_evidence \<Rightarrow> json_obj" where
  "evidence_row F e =
     [(''id'', JStr (ae_id e)), (''ultra_run_id'', JStr (ae_run_id e)), (''kind'', JStr (ae_kind e)),
      (''authority'', JStr (ae_authority e)), (''passed'', JBool (ae_passed e)), (''score'', JFloat (ae_score e)),
      (''critical_findings'', JInt (ae_critical_findings e)), (''artifact_hash'', JStr (ae_artifact_hash e)),
      (''created_at'', JStr (fm_iso F (ae_created_at e))), (''details'', JObj (ae_details e))]"

definition read_evidence :: "conversions \<Rightarrow> formats \<Rightarrow> env \<Rightarrow> acceptance_evidence list \<Rightarrow> from_dict_error + acceptance_evidence list" where
  "read_evidence cv F E rows =
     map_result (\<lambda>(k, e). evidence_from_dict cv (fm_time F) (fresh E ''acceptance_evidence'' k) (now E) (evidence_row F e))
       (enumerate 0 rows)"

definition blocker_text :: "formats \<Rightarrow> blocker \<Rightarrow> string" where
  "blocker_text F b = (case b of
     MissingEvidence kinds \<Rightarrow> ''missing required evidence: '' @ join_with '', '' kinds
   | CriticalFindings \<Rightarrow> ''one or more critical findings remain''
   | FewVisualAuthorities \<Rightarrow> ''fewer than two independent clean visual authorities accepted''
   | LowScore s m \<Rightarrow> ''minimum accepted evidence score '' @ fm_score F s @ '' is below '' @ fm_score F m
   | LowCriticalScore s m \<Rightarrow> ''critical evidence score '' @ fm_score F s @ '' is below '' @ fm_score F m
   | NotPreferred \<Rightarrow> ''Ultra candidate was not proven preferable to baseline'')"

definition decision_to_dict :: "formats \<Rightarrow> env \<Rightarrow> acceptance_decision \<Rightarrow> json_obj" where
  "decision_to_dict F E v =
     [(''schema'', JStr ''FinalAcceptanceDecisionV1''), (''version'', JInt 1),
      (''id'', JStr (fresh E ''acceptance_decision'' 0)), (''contract_id'', JStr (ad_contract_id v)),
      (''accepted'', JBool (ad_accepted v)), (''missing'', jstrs (ad_missing v)),
      (''blockers'', jstrs (map (blocker_text F) (ad_blockers v))), (''evidence_ids'', jstrs (ad_evidence_ids v)),
      (''overall_score'', JFloat (ad_overall v)), (''critical_minimum'', JFloat (ad_critical v)),
      (''created_at'', JStr (fm_iso F (now E)))]"

definition evaluate_final_acceptance :: "conversions \<Rightarrow> formats \<Rightarrow> env \<Rightarrow> string \<Rightarrow> string \<Rightarrow> delivery \<Rightarrow>
    delivery_error + delivery \<times> json_obj" where
  "evaluate_final_acceptance cv F E gid run d =
     and_then (get_goal_outcome_contract gid d) (\<lambda>row.
     and_then (map_error Unread (contract_from_dict cv (fresh E ''outcome_contract'' 0) (og_contract row))) (\<lambda>c.
     and_then (map_error Unread (read_evidence cv F E (list_final_acceptance_evidence run d))) (\<lambda>evs.
     let v = evaluate_gate c evs;
         state = (if ad_accepted v then OUT_ACCEPTED else OUT_QUALITY_BLOCKED)
     in and_then (set_goal_outcome_state E gid state (decision_to_dict F E v) d)
          (\<lambda>(d1, _). Inr (d1, decision_to_dict F E v)))))"

section \<open>The external visual review\<close>

text \<open>What the file system says of the screenshot: its path in the workspace, its suffix, its digest.\<close>

datatype screenshot = NoFile string | OutsideWorkspace | Image string string string

definition image_of :: "screenshot \<Rightarrow> delivery_error + string \<times> string" where
  "image_of shot = (case shot of
     NoFile path \<Rightarrow> raise_store (NotFoundError ''screenshot'' path)
   | OutsideWorkspace \<Rightarrow> raise_store (StateStoreError ''Codex visual review screenshot is outside the workspace'')
   | Image relative ext digest \<Rightarrow>
       if casefold ext \<notin> {''.png'', ''.jpg'', ''.jpeg'', ''.webp''}
       then raise_store (StateStoreError ''Codex visual review requires a durable image artifact'')
       else Inr (relative, digest))"

definition codex_evidence :: "env \<Rightarrow> string \<Rightarrow> bool \<Rightarrow> rat \<Rightarrow> string \<Rightarrow> string \<Rightarrow> string \<Rightarrow> string list \<Rightarrow> acceptance_evidence" where
  "codex_evidence E run passed score relative digest summary nl =
     \<lparr>ae_run_id = run, ae_kind = ''codex_visual_review'', ae_authority = ''codex-supervisor'', ae_passed = passed,
      ae_score = score, ae_critical_findings = (if passed then 0 else 1), ae_artifact_hash = digest,
      ae_details = [(''critical'', JBool True), (''screenshot_path'', JStr relative),
        (''summary'', JStr (take 4000 (strip summary))), (''limitations'', jstrs nl),
        (''review_mode'', JStr ''external_visual_inspection'')],
      ae_id = fresh E ''acceptance_evidence'' 0, ae_created_at = now E, ae_version = 1\<rparr>"

text \<open>Everything that is checked before the first transaction.\<close>

definition codex_checks :: "env \<Rightarrow> string \<Rightarrow> string \<Rightarrow> screenshot \<Rightarrow> bool \<Rightarrow> rat \<Rightarrow> string \<Rightarrow> string list \<Rightarrow> delivery \<Rightarrow>
    delivery_error + acceptance_evidence \<times> string" where
  "codex_checks E gid run shot passed score summary nl d =
     and_then (tracked (journal (get_goal gid (ul_store (dv_ultra d))))) (\<lambda>goal.
     and_then (tracked (get_ultra_run run (dv_ultra d))) (\<lambda>r.
     if ur_goal r \<noteq> g_id goal then raise_store (StateStoreError ''Codex visual review run does not belong to the goal'')
     else and_then (image_of shot) (\<lambda>(relative, digest).
     if \<not> (0 \<le> score \<and> score \<le> 1)
     then raise_store (StateStoreError ''Codex visual review score must be between zero and one'')
     else and_then (map_error (Unread \<circ> Rejected)
         (mk_acceptance_evidence (codex_evidence E run passed score relative digest summary nl))) (\<lambda>e. Inr (e, relative)))))"

text \<open>A transaction that commits before the next one runs.\<close>

definition commit :: "(delivery \<Rightarrow> delivery_error + delivery) \<Rightarrow> (delivery \<Rightarrow> delivery \<times> (delivery_error + 'a)) \<Rightarrow>
    delivery \<Rightarrow> delivery \<times> (delivery_error + 'a)" where
  "commit m k d = (case m d of Inl e \<Rightarrow> (d, Inl e) | Inr d1 \<Rightarrow> k d1)"

definition on_store :: "(store \<Rightarrow> store_error + store \<times> 'a) \<Rightarrow> delivery \<Rightarrow> delivery_error + delivery" where
  "on_store m d =
     and_then (tracked (journal (m (ul_store (dv_ultra d)))))
       (\<lambda>(s, _). Inr (d\<lparr>dv_ultra := (dv_ultra d)\<lparr>ul_store := s\<rparr>\<rparr>))"

text \<open>\<open>if self.get_goal(gid).status is source: self.transition_goal(gid, target, ..)\<close>.\<close>

definition move_goal_from :: "goal_status \<Rightarrow> goal_status \<Rightarrow> env \<Rightarrow> string \<Rightarrow> string \<Rightarrow> delivery \<Rightarrow> delivery_error + delivery" where
  "move_goal_from source target E gid reason d =
     and_then (tracked (journal (get_goal gid (ul_store (dv_ultra d))))) (\<lambda>goal.
     if g_status goal = source then on_store (transition_goal E gid target reason []) d else Inr d)"

definition codex_metadata :: "string list \<Rightarrow> json_obj" where
  "codex_metadata nl =
     [(''completion_disposition'', JStr (disposition_value (if nl = [] then VERIFIED else COMPLETED_WITH_LIMITATIONS))),
      (''limitations'', jstrs nl), (''completion_limitations'', jstrs nl),
      (''evaluator_capability'', JStr ''external_codex_visual_inspection''),
      (''passed_operational_checks'', jstrs [''runtime'', ''browser_interactions'', ''console'', ''network'',
         ''independent_review'', ''codex_visual_review''])]"

definition complete_reviewed_goal :: "env \<Rightarrow> string \<Rightarrow> string list \<Rightarrow> 'a \<Rightarrow> delivery \<Rightarrow> delivery \<times> (delivery_error + 'a)" where
  "complete_reviewed_goal E gid nl result =
     commit (move_goal_from GOAL_BLOCKED GOAL_RECOVERING (shift_env 1 E) gid
               ''Codex visual review supplied the missing acceptance authority'')
    (commit (move_goal_from GOAL_RECOVERING GOAL_REVIEWING (shift_env 2 E) gid
               ''Final acceptance re-evaluated with Codex visual evidence'')
    (commit (on_store (update_goal_metadata (shift_env 3 E) gid (codex_metadata nl)))
    (commit (move_goal_from GOAL_REVIEWING GOAL_COMPLETED (shift_env 4 E) gid
               ''GoalOutcomeContract passed after Codex visual review'')
      (\<lambda>d. (d, Inr result)))))"

definition conclude_review :: "env \<Rightarrow> string \<Rightarrow> string list \<Rightarrow> bool \<Rightarrow> rat \<Rightarrow> string \<Rightarrow> acceptance_evidence \<Rightarrow> json_obj \<Rightarrow>
    delivery \<Rightarrow> delivery \<times> (delivery_error + acceptance_evidence \<times> json_obj)" where
  "conclude_review E gid nl passed score relative e decision =
     (let accepted = truthy (get_or JNull decision ''accepted'') in
      commit (delivery_event E 0 ''codex.visual_review_recorded'' (Some gid) ''acceptance_evidence'' (ae_id e)
          [(''passed'', JBool passed), (''score'', JFloat score), (''screenshot_path'', JStr relative),
           (''decision_accepted'', JBool accepted)])
        (if accepted then complete_reviewed_goal E gid nl (e, decision) else (\<lambda>d. (d, Inr (e, decision)))))"

definition record_codex_visual_review :: "conversions \<Rightarrow> formats \<Rightarrow> env \<Rightarrow> string \<Rightarrow> string \<Rightarrow> screenshot \<Rightarrow> bool \<Rightarrow> rat \<Rightarrow>
    string \<Rightarrow> string list \<Rightarrow> delivery \<Rightarrow> delivery \<times> (delivery_error + acceptance_evidence \<times> json_obj)" where
  "record_codex_visual_review cv F E gid run shot passed score summary limitations d =
     (let nl = dict_fromkeys (filter (\<lambda>s. s \<noteq> []) (map strip limitations)) in
      case codex_checks E gid run shot passed score summary nl d of
        Inl e \<Rightarrow> (d, Inl e)
      | Inr (e, relative) \<Rightarrow>
        commit (record_final_acceptance_evidence e) (\<lambda>d1.
        case evaluate_final_acceptance cv F (shift_env 1 E) gid run d1 of
          Inl err \<Rightarrow> (d1, Inl err)
        | Inr (d2, decision) \<Rightarrow> conclude_review E gid nl passed score relative e decision d2) d)"

section \<open>All operations\<close>

text \<open>
  Only the evaluation of the gate makes an outcome accepted: the callers of
  \<open>save_goal_outcome_contract\<close> and \<open>set_goal_outcome_state\<close> pass \<open>running\<close>, \<open>recovering\<close> and the two
  blocked states.
\<close>

datatype pending_state = RUNNING_STATE | RECOVERING_STATE | QUALITY_BLOCKED_STATE | EXTERNAL_BLOCKED_STATE

definition state_of :: "pending_state \<Rightarrow> outcome_state" where
  "state_of s = (case s of RUNNING_STATE \<Rightarrow> OUT_RUNNING | RECOVERING_STATE \<Rightarrow> OUT_RECOVERING
     | QUALITY_BLOCKED_STATE \<Rightarrow> OUT_QUALITY_BLOCKED | EXTERNAL_BLOCKED_STATE \<Rightarrow> OUT_EXTERNAL_BLOCKED)"

datatype (plugins only: code) delivery_op =
    Under ultra_op
  | SavePolicy string quality_policy string
  | SaveChange change_set
  | Mutate string string "string option" "string option" "string option" "string option" string json_obj
  | PutFinding quality_finding
  | MoveFinding string finding_status "string option" "string option" "string list"
  | SaveCycle quality_cycle
  | SaveOutcome outcome_contract "string option" pending_state string
  | Heartbeat string "string option" string
  | SetOutcome string pending_state json_obj
  | Experiment opt_experiment
  | Evidence acceptance_evidence
  | Evaluate string string
  | CodexReview string string screenshot bool rat string "string list"

abbreviation built :: "quality_defect + 'a \<Rightarrow> delivery_error + 'a" where
  "built \<equiv> map_error Defect"

abbreviation constructed :: "outcome_error + 'a \<Rightarrow> delivery_error + 'a" where
  "constructed \<equiv> map_error (Unread \<circ> Rejected)"

definition kept :: "delivery_error + delivery \<times> 'a \<Rightarrow> delivery_error + delivery" where
  "kept m = and_then m (\<lambda>(d, _). Inr d)"

text \<open>The values an operation receives have been through their constructors.\<close>

primrec exec_delivery_op :: "platform \<Rightarrow> conversions \<Rightarrow> formats \<Rightarrow> env \<Rightarrow> delivery_op \<Rightarrow> delivery \<Rightarrow> delivery_error + delivery" where
  "exec_delivery_op P cv F E (Under p) d =
     and_then (tracked (exec_ultra_op P cv E p (dv_ultra d))) (\<lambda>u. Inr (d\<lparr>dv_ultra := u\<rparr>))"
| "exec_delivery_op P cv F E (SavePolicy run p fp) d = and_then (built (mk_policy_v1 p)) (\<lambda>q. save_quality_policy E run q fp d)"
| "exec_delivery_op P cv F E (SaveChange c) d = and_then (built (mk_change_set c)) (\<lambda>q. kept (save_change_set q d))"
| "exec_delivery_op P cv F E (Mutate c k p cmd pre post st m) d = kept (record_mutation E c k p cmd pre post st m d)"
| "exec_delivery_op P cv F E (PutFinding f) d = and_then (built (mk_finding P f)) (\<lambda>q. kept (put_quality_finding P q d))"
| "exec_delivery_op P cv F E (MoveFinding i st r c ev) d = kept (transition_quality_finding P E i st r c ev d)"
| "exec_delivery_op P cv F E (SaveCycle c) d = and_then (built (mk_cycle c)) (\<lambda>q. kept (save_quality_cycle q d))"
| "exec_delivery_op P cv F E (SaveOutcome c run st tok) d =
     and_then (constructed (mk_contract c)) (\<lambda>q. kept (save_goal_outcome_contract F E q run (state_of st) tok d))"
| "exec_delivery_op P cv F E (Heartbeat g run tok) d = kept (heartbeat_goal_outcome F E g run tok d)"
| "exec_delivery_op P cv F E (SetOutcome g st dec) d = kept (set_goal_outcome_state E g (state_of st) dec d)"
| "exec_delivery_op P cv F E (Experiment x) d =
     and_then (constructed (mk_experiment x)) (\<lambda>q. record_optimization_experiment F q d)"
| "exec_delivery_op P cv F E (Evidence e) d =
     and_then (constructed (mk_acceptance_evidence e)) (\<lambda>q. record_final_acceptance_evidence q d)"
| "exec_delivery_op P cv F E (Evaluate g run) d = kept (evaluate_final_acceptance cv F E g run d)"
| "exec_delivery_op P cv F E (CodexReview g run shot passed score summary limits) d =
     Inr (fst (record_codex_visual_review cv F E g run shot passed score summary limits d))"

definition exec_delivery :: "platform \<Rightarrow> conversions \<Rightarrow> formats \<Rightarrow> env \<times> delivery_op \<Rightarrow> delivery \<Rightarrow> delivery_error + delivery" where
  "exec_delivery P cv F = (\<lambda>(E, p). exec_delivery_op P cv F E p)"

definition run_delivery :: "platform \<Rightarrow> conversions \<Rightarrow> formats \<Rightarrow> (env \<times> delivery_op) list \<Rightarrow> delivery" where
  "run_delivery P cv F ops = run_ops (exec_delivery P cv F) ops empty_delivery"

end
