(* ===== verification/Delivery_Safety.thy ===== *)
theory Delivery_Safety
  imports Outcome_Store Ultra_Invariant
begin

text \<open>
  What every use of the delivery tables keeps: the ULTRA tables stay sound, rows are keyed and refer
  to rows that exist, what is stored reads back, one finding of a run has a fingerprint, and an
  outcome is accepted only on evidence that is stored and that the gate accepted.  Change sets,
  findings and cycles keep their identity; the ledger, the experiments and the evidence only grow.
\<close>

section \<open>Insert or update\<close>

lemma upsert_cases:
  assumes "upsert fk k change r t = Inr u"
  obtains "u = update_where (\<lambda>q. k q = k r) change t" "k r \<in> k ` set t"
  | "u = t @ [r]" "fk = Inr ()" "k r \<notin> k ` set t"
proof (cases "exists_row (\<lambda>q. k q = k r) t")
  case True
  then have "u = update_where (\<lambda>q. k q = k r) change t" "k r \<in> k ` set t"
    using assms by (auto simp: upsert_def image_iff) metis
  then show thesis by (rule that(1))
next
  case False
  then have "u = t @ [r]" "fk = Inr ()" "k r \<notin> k ` set t" using assms by (auto simp: upsert_def image_iff elim!: and_then_InrE)
  then show thesis by (rule that(2))
qed

lemma upsert_distinct:
  assumes "upsert fk k change r t = Inr u" "\<And>q. k (change q) = k q" "distinct (map k t)"
  shows "distinct (map k u)"
  using assms(1)
proof (cases rule: upsert_cases)
  case 1
  then have "map k u = map k t" using assms(2) by (simp add: update_where_def)
  with assms(3) show ?thesis by simp
qed (use assms(3) in simp)

lemma upsert_all:
  assumes "upsert fk k change r t = Inr u" "list_all p t" "fk = Inr () \<Longrightarrow> p r" "\<And>q. p q \<Longrightarrow> p (change q)"
  shows "list_all p u"
  using assms(1)
proof (cases rule: upsert_cases)
  case 1
  then show ?thesis using assms(2,4) by (auto simp: list_all_iff update_where_def)
qed (use assms(2,3) in simp)

lemma upsert_advance:
  assumes "upsert fk k change r t = Inr u" "\<And>q. R q q" "\<And>q. R q (change q)"
  shows "rows_advance R t u"
  using assms(1)
proof (cases rule: upsert_cases)
  case 1
  show ?thesis unfolding 1(1) by (rule rows_advance_update) (use assms in auto)
next
  case 2
  show ?thesis unfolding 2(1) by (rule rows_advance_append) (rule assms(2))
qed

section \<open>The invariant\<close>

definition finding_key :: "quality_finding \<Rightarrow> string \<times> string" where
  "finding_key f = (fd_run f, fd_fingerprint f)"

definition change_ok :: "delivery \<Rightarrow> change_set \<Rightarrow> bool" where
  "change_ok d c \<longleftrightarrow> run_exists (ch_run c) d \<and> mk_change_set c = Inr c"

definition finding_ok :: "platform \<Rightarrow> delivery \<Rightarrow> quality_finding \<Rightarrow> bool" where
  "finding_ok P d f \<longleftrightarrow> run_exists (fd_run f) d \<and> mk_finding P f = Inr f"

definition policy_ok :: "delivery \<Rightarrow> policy_row \<Rightarrow> bool" where
  "policy_ok d q \<longleftrightarrow> run_exists (pw_run q) d \<and> mk_policy_v1 (pw_policy q) = Inr (pw_policy q) \<and> strip (pw_fingerprint q) \<noteq> []"

definition cycle_ok :: "delivery \<Rightarrow> quality_cycle \<Rightarrow> bool" where
  "cycle_ok d c \<longleftrightarrow> run_exists (qc_run c) d \<and> mk_cycle c = Inr c"

definition quality_ok :: "platform \<Rightarrow> delivery \<Rightarrow> bool" where
  "quality_ok P d \<longleftrightarrow>
     distinct (map pw_run (dv_policies d)) \<and> list_all (policy_ok d) (dv_policies d) \<and>
     distinct (map ch_id (dv_changes d)) \<and> list_all (change_ok d) (dv_changes d) \<and>
     distinct (map fd_id (dv_findings d)) \<and> distinct (map finding_key (dv_findings d)) \<and>
     list_all (finding_ok P d) (dv_findings d) \<and>
     distinct (map qc_id (dv_cycles d)) \<and> list_all (cycle_ok d) (dv_cycles d) \<and>
     list_all (\<lambda>m. mu_change m \<in> ch_id ` set (dv_changes d)) (dv_mutations d)"

text \<open>An accepted outcome: the gate accepted stored evidence of one run under a valid contract.\<close>

definition earned :: "conversions \<Rightarrow> formats \<Rightarrow> acceptance_evidence list \<Rightarrow> outcome_row \<Rightarrow> bool" where
  "earned cv F stored row \<longleftrightarrow> og_accepted_at row \<noteq> None \<and>
     (\<exists>E c run rows evs. mk_contract c = Inr c \<and> set rows \<subseteq> set stored \<and> (\<forall>e \<in> set rows. ae_run_id e = run) \<and>
        read_evidence cv F E rows = Inr evs \<and> ad_accepted (evaluate_gate c evs) \<and>
        og_decision row = decision_to_dict F E (evaluate_gate c evs))"

definition outcome_ok :: "conversions \<Rightarrow> formats \<Rightarrow> delivery \<Rightarrow> outcome_row \<Rightarrow> bool" where
  "outcome_ok cv F d row \<longleftrightarrow> goal_exists (og_goal row) (ul_store (dv_ultra d)) \<and>
     (case og_run row of None \<Rightarrow> True | Some r \<Rightarrow> run_exists r d) \<and>
     (og_state row = OUT_ACCEPTED \<longrightarrow> earned cv F (dv_evidence d) row)"

definition evidence_ok :: "delivery \<Rightarrow> acceptance_evidence \<Rightarrow> bool" where
  "evidence_ok d e \<longleftrightarrow> run_exists (ae_run_id e) d \<and> mk_acceptance_evidence e = Inr e"

definition outcomes_ok :: "conversions \<Rightarrow> formats \<Rightarrow> delivery \<Rightarrow> bool" where
  "outcomes_ok cv F d \<longleftrightarrow>
     distinct (map og_goal (dv_outcomes d)) \<and> list_all (outcome_ok cv F d) (dv_outcomes d) \<and>
     distinct (map ae_id (dv_evidence d)) \<and> list_all (evidence_ok d) (dv_evidence d) \<and>
     list_all (\<lambda>x. run_exists (ex_run x) d) (dv_experiments d)"

definition delivery_ok :: "platform \<Rightarrow> conversions \<Rightarrow> formats \<Rightarrow> delivery \<Rightarrow> bool" where
  "delivery_ok P cv F d \<longleftrightarrow> ultra_ok P (dv_ultra d) \<and> quality_ok P d \<and> outcomes_ok cv F d"

section \<open>The history\<close>

definition change_step :: "change_set \<Rightarrow> change_set \<Rightarrow> bool" where
  "change_step c e \<longleftrightarrow> (ch_id e, ch_run e, ch_agent e, ch_parent e, ch_version e, ch_created_at e) =
     (ch_id c, ch_run c, ch_agent c, ch_parent c, ch_version c, ch_created_at c)"

definition finding_step :: "quality_finding \<Rightarrow> quality_finding \<Rightarrow> bool" where
  "finding_step f g \<longleftrightarrow> (\<exists>s r t. g = f\<lparr>fd_status := s, fd_repair := r, fd_updated_at := t\<rparr>)"

definition cycle_step :: "quality_cycle \<Rightarrow> quality_cycle \<Rightarrow> bool" where
  "cycle_step c e \<longleftrightarrow> (qc_id e, qc_run e, qc_kind e, qc_attempt e, qc_approach e, qc_inputs e, qc_started_at e) =
     (qc_id c, qc_run c, qc_kind c, qc_attempt c, qc_approach c, qc_inputs c, qc_started_at c)"

definition outcome_step :: "outcome_row \<Rightarrow> outcome_row \<Rightarrow> bool" where
  "outcome_step o1 o2 \<longleftrightarrow> og_goal o2 = og_goal o1 \<and> og_created_at o2 = og_created_at o1"

interpretation change_rows: row_history change_step
  by unfold_locales (auto simp: change_step_def)

interpretation finding_rows: row_history finding_step
proof
  show "finding_step f f" for f
    unfolding finding_step_def by (rule exI [of _ "fd_status f"], rule exI [of _ "fd_repair f"], rule exI [of _ "fd_updated_at f"]) simp
  show "finding_step f g \<Longrightarrow> finding_step g h \<Longrightarrow> finding_step f h" for f g h
    unfolding finding_step_def by (elim exE) (simp, blast)
qed

interpretation cycle_rows: row_history cycle_step
  by unfold_locales (auto simp: cycle_step_def)

interpretation outcome_rows: row_history outcome_step
  by unfold_locales (auto simp: outcome_step_def)

definition delivery_advance :: "delivery \<Rightarrow> delivery \<Rightarrow> bool" where
  "delivery_advance d e \<longleftrightarrow> ultra_advance (dv_ultra d) (dv_ultra e) \<and>
     rows_advance change_step (dv_changes d) (dv_changes e) \<and> rows_advance finding_step (dv_findings d) (dv_findings e) \<and>
     rows_advance cycle_step (dv_cycles d) (dv_cycles e) \<and> rows_advance outcome_step (dv_outcomes d) (dv_outcomes e) \<and>
     prefix (dv_mutations d) (dv_mutations e) \<and> prefix (dv_evidence d) (dv_evidence e) \<and>
     prefix (dv_experiments d) (dv_experiments e)"

lemma delivery_advance_refl [simp]: "delivery_advance d d"
  by (simp add: delivery_advance_def)

lemma delivery_advance_trans: "delivery_advance d e \<Longrightarrow> delivery_advance e f \<Longrightarrow> delivery_advance d f"
  unfolding delivery_advance_def
  by (blast intro: ultra_advance_trans change_rows.adv_trans finding_rows.adv_trans cycle_rows.adv_trans
      outcome_rows.adv_trans prefix_order.trans)

definition delivers :: "platform \<Rightarrow> conversions \<Rightarrow> formats \<Rightarrow> delivery \<Rightarrow> delivery \<Rightarrow> bool" where
  "delivers P cv F d e \<longleftrightarrow> (delivery_ok P cv F d \<longrightarrow> delivery_ok P cv F e \<and> delivery_advance d e)"

lemma delivers_refl [simp]: "delivers P cv F d d"
  by (simp add: delivers_def)

lemma delivers_trans: "delivers P cv F d e \<Longrightarrow> delivers P cv F e f \<Longrightarrow> delivers P cv F d f"
  by (auto simp: delivers_def intro: delivery_advance_trans)

section \<open>One table at a time\<close>

lemmas ok_defs = delivery_ok_def quality_ok_def outcomes_ok_def

text \<open>The checks of a row look at the runs, the goals and the evidence only.\<close>

lemma run_exists_iff: "run_exists i d \<longleftrightarrow> i \<in> ur_id ` set (ul_runs (dv_ultra d))"
  by (auto simp: run_exists_def)

lemma require_run_Inr [simp]: "require_run i d = Inr x \<longleftrightarrow> run_exists i d"
  by (simp add: require_run_def)

lemma run_exists_cong: "dv_ultra e = dv_ultra d \<Longrightarrow> run_exists i e = run_exists i d"
  by (simp add: run_exists_def)

lemma rows_ok_cong:
  assumes "dv_ultra e = dv_ultra d"
  shows "policy_ok e = policy_ok d" "change_ok e = change_ok d" "finding_ok P e = finding_ok P d" "cycle_ok e = cycle_ok d"
    "evidence_ok e = evidence_ok d" "dv_evidence e = dv_evidence d \<Longrightarrow> outcome_ok cv F e = outcome_ok cv F d"
  using assms run_exists_cong [OF assms]
  by (auto simp: fun_eq_iff policy_ok_def change_ok_def finding_ok_def cycle_ok_def evidence_ok_def outcome_ok_def split: option.splits)

lemma rows_ok_mono:
  assumes "ultra_advance (dv_ultra d) (dv_ultra e)"
  shows "run_exists i d \<Longrightarrow> run_exists i e" "policy_ok d q \<Longrightarrow> policy_ok e q" "change_ok d c \<Longrightarrow> change_ok e c"
    "finding_ok P d f \<Longrightarrow> finding_ok P e f" "cycle_ok d y \<Longrightarrow> cycle_ok e y" "evidence_ok d v \<Longrightarrow> evidence_ok e v"
    "dv_evidence e = dv_evidence d \<Longrightarrow> outcome_ok cv F d row \<Longrightarrow> outcome_ok cv F e row"
proof -
  have "ur_id ` set (ul_runs (dv_ultra d)) \<subseteq> ur_id ` set (ul_runs (dv_ultra e))"
    using assms unfolding ultra_advance_def by (intro rows_advance_image [of run_step]) (auto simp: run_step_def run_key_def)
  then have r: "run_exists i d \<Longrightarrow> run_exists i e" for i by (auto simp: run_exists_iff)
  have g: "goal_exists i (ul_store (dv_ultra d)) \<Longrightarrow> goal_exists i (ul_store (dv_ultra e))" for i
    using assms unfolding ultra_advance_def by (blast intro: goal_advance)
  show "run_exists i d \<Longrightarrow> run_exists i e" by (rule r)
  show "policy_ok d q \<Longrightarrow> policy_ok e q" "change_ok d c \<Longrightarrow> change_ok e c" "finding_ok P d f \<Longrightarrow> finding_ok P e f"
    "cycle_ok d y \<Longrightarrow> cycle_ok e y" "evidence_ok d v \<Longrightarrow> evidence_ok e v"
    using r by (simp_all add: policy_ok_def change_ok_def finding_ok_def cycle_ok_def evidence_ok_def)
  show "dv_evidence e = dv_evidence d \<Longrightarrow> outcome_ok cv F d row \<Longrightarrow> outcome_ok cv F e row"
    unfolding outcome_ok_def using r g by (simp split: option.splits del: exists_row_iff)
qed

lemma delivers_ultra:
  assumes "carries P (dv_ultra d) u"
  shows "delivers P cv F d (d\<lparr>dv_ultra := u\<rparr>)"
  unfolding delivers_def
proof
  assume ok: "delivery_ok P cv F d"
  then have u: "ultra_ok P u" "ultra_advance (dv_ultra d) u" using assms by (auto simp: carries_def delivery_ok_def)
  let ?e = "d\<lparr>dv_ultra := u\<rparr>"
  have "ultra_advance (dv_ultra d) (dv_ultra ?e)" using u(2) by simp
  note mono = rows_ok_mono [OF this]
  have "list_all (policy_ok ?e) (dv_policies d)" "list_all (change_ok ?e) (dv_changes d)"
    "list_all (finding_ok P ?e) (dv_findings d)" "list_all (cycle_ok ?e) (dv_cycles d)"
    "list_all (evidence_ok ?e) (dv_evidence d)" "list_all (outcome_ok cv F ?e) (dv_outcomes d)"
    "list_all (\<lambda>x. run_exists (ex_run x) ?e) (dv_experiments d)"
    using ok mono(1-6) mono(7) [OF _ , of cv F]
    unfolding ok_defs by (auto elim!: list.pred_mono_strong)
  then show "delivery_ok P cv F ?e \<and> delivery_advance d ?e"
    using ok u by (simp add: ok_defs delivery_advance_def)
qed

end
