(* ===== verification/Delivery_Invariant.thy ===== *)
theory Delivery_Invariant
  imports Delivery_Safety
begin

text \<open>
  Every delivery operation keeps the invariant and the history of \<open>Delivery_Safety\<close>, so every state
  the operations reach satisfies them.
\<close>

section \<open>Steps on the tables\<close>

lemma delivers_policies:
  assumes "delivery_ok P cv F d \<Longrightarrow> distinct (map pw_run t) \<and> list_all (policy_ok d) t"
  shows "delivers P cv F d (d\<lparr>dv_policies := t\<rparr>)"
proof -
  note cong = rows_ok_cong [of "d\<lparr>dv_policies := t\<rparr>" d] run_exists_cong [of "d\<lparr>dv_policies := t\<rparr>" d]
  show ?thesis unfolding delivers_def using assms by (simp add: ok_defs cong delivery_advance_def)
qed

lemma delivers_changes:
  assumes "delivery_ok P cv F d \<Longrightarrow> distinct (map ch_id t) \<and> list_all (change_ok d) t \<and> rows_advance change_step (dv_changes d) t"
  shows "delivers P cv F d (d\<lparr>dv_changes := t\<rparr>)"
  unfolding delivers_def
proof
  assume ok: "delivery_ok P cv F d"
  note cong = rows_ok_cong [of "d\<lparr>dv_changes := t\<rparr>" d] run_exists_cong [of "d\<lparr>dv_changes := t\<rparr>" d]
  have "ch_id ` set (dv_changes d) \<subseteq> ch_id ` set t"
    using assms [OF ok] by (intro rows_advance_image [of change_step]) (auto simp: change_step_def)
  then have "list_all (\<lambda>m. mu_change m \<in> ch_id ` set t) (dv_mutations d)"
    using ok by (auto simp: ok_defs list_all_iff)
  then show "delivery_ok P cv F (d\<lparr>dv_changes := t\<rparr>) \<and> delivery_advance d (d\<lparr>dv_changes := t\<rparr>)"
    using ok assms [OF ok] by (simp add: ok_defs cong delivery_advance_def)
qed

lemma delivers_mutation:
  assumes "mu_change m \<in> ch_id ` set (dv_changes d)"
  shows "delivers P cv F d (d\<lparr>dv_mutations := dv_mutations d @ [m]\<rparr>)"
proof -
  let ?e = "d\<lparr>dv_mutations := dv_mutations d @ [m]\<rparr>"
  note cong = rows_ok_cong [of ?e d] run_exists_cong [of ?e d]
  show ?thesis unfolding delivers_def using assms by (simp add: ok_defs cong delivery_advance_def)
qed

lemma delivers_findings:
  assumes "delivery_ok P cv F d \<Longrightarrow> distinct (map fd_id t) \<and> distinct (map finding_key t) \<and> list_all (finding_ok P d) t \<and>
    rows_advance finding_step (dv_findings d) t"
  shows "delivers P cv F d (d\<lparr>dv_findings := t\<rparr>)"
proof -
  note cong = rows_ok_cong [of "d\<lparr>dv_findings := t\<rparr>" d] run_exists_cong [of "d\<lparr>dv_findings := t\<rparr>" d]
  show ?thesis unfolding delivers_def using assms by (simp add: ok_defs cong delivery_advance_def)
qed

lemma delivers_cycles:
  assumes "delivery_ok P cv F d \<Longrightarrow> distinct (map qc_id t) \<and> list_all (cycle_ok d) t \<and> rows_advance cycle_step (dv_cycles d) t"
  shows "delivers P cv F d (d\<lparr>dv_cycles := t\<rparr>)"
proof -
  note cong = rows_ok_cong [of "d\<lparr>dv_cycles := t\<rparr>" d] run_exists_cong [of "d\<lparr>dv_cycles := t\<rparr>" d]
  show ?thesis unfolding delivers_def using assms by (simp add: ok_defs cong delivery_advance_def)
qed

lemma delivers_outcomes:
  assumes "delivery_ok P cv F d \<Longrightarrow> distinct (map og_goal t) \<and> list_all (outcome_ok cv F d) t \<and>
    rows_advance outcome_step (dv_outcomes d) t"
  shows "delivers P cv F d (d\<lparr>dv_outcomes := t\<rparr>)"
proof -
  note cong = rows_ok_cong [of "d\<lparr>dv_outcomes := t\<rparr>" d] run_exists_cong [of "d\<lparr>dv_outcomes := t\<rparr>" d]
  show ?thesis unfolding delivers_def using assms by (simp add: ok_defs cong delivery_advance_def)
qed

lemma delivers_experiment:
  assumes "run_exists (ex_run x) d"
  shows "delivers P cv F d (d\<lparr>dv_experiments := dv_experiments d @ [x]\<rparr>)"
proof -
  let ?e = "d\<lparr>dv_experiments := dv_experiments d @ [x]\<rparr>"
  note cong = rows_ok_cong [of ?e d] run_exists_cong [of ?e d]
  show ?thesis unfolding delivers_def using assms by (simp add: ok_defs cong delivery_advance_def)
qed

text \<open>More evidence does not undo an acceptance.\<close>

lemma earned_mono: "set evs \<subseteq> set later \<Longrightarrow> earned cv F evs row \<Longrightarrow> earned cv F later row"
  unfolding earned_def by (meson subset_trans)

lemma delivers_evidence:
  assumes "evidence_ok d v" "ae_id v \<notin> ae_id ` set (dv_evidence d)"
  shows "delivers P cv F d (d\<lparr>dv_evidence := dv_evidence d @ [v]\<rparr>)" (is "delivers P cv F d ?e")
  unfolding delivers_def
proof
  assume ok: "delivery_ok P cv F d"
  note cong = rows_ok_cong(1-5) [of ?e d] run_exists_cong [of ?e d]
  have "outcome_ok cv F d row \<Longrightarrow> outcome_ok cv F ?e row" for row
    using cong by (auto simp: outcome_ok_def run_exists_cong [of ?e d] split: option.splits
      intro: earned_mono [of "dv_evidence d"] simp del: exists_row_iff)
  then have "list_all (outcome_ok cv F ?e) (dv_outcomes d)" using ok by (auto simp: ok_defs list_all_iff)
  then show "delivery_ok P cv F ?e \<and> delivery_advance d ?e"
    using ok assms by (simp add: ok_defs cong delivery_advance_def)
qed

section \<open>The operations\<close>

lemma save_policy_delivers:
  assumes "mk_policy_v1 p = Inr q" "save_quality_policy E run q fp d = Inr e"
  shows "delivers P cv F d e"
proof -
  have q: "mk_policy_v1 q = Inr q" using assms(1) by (auto simp: mk_policy_v1_def Let_def split: if_splits)
  obtain t where fp: "strip fp \<noteq> []" and t: "upsert (require_run run d) pw_run
        (\<lambda>r. r\<lparr>pw_fingerprint := fp, pw_policy := q, pw_updated_at := now E\<rparr>)
        \<lparr>pw_run = run, pw_fingerprint = fp, pw_policy = q, pw_created_at = now E, pw_updated_at = now E\<rparr> (dv_policies d) = Inr t"
    and e: "e = d\<lparr>dv_policies := t\<rparr>"
    using assms(2) by (auto simp: save_quality_policy_def elim!: and_then_InrE split: if_splits)
  show ?thesis unfolding e
  proof (rule delivers_policies)
    assume ok: "delivery_ok P cv F d"
    have "distinct (map pw_run t)" by (rule upsert_distinct [OF t]) (use ok in \<open>auto simp: ok_defs\<close>)
    moreover have "list_all (policy_ok d) t"
      by (rule upsert_all [OF t]) (use ok q fp in \<open>auto simp: ok_defs policy_ok_def\<close>)
    ultimately show "distinct (map pw_run t) \<and> list_all (policy_ok d) t" by simp
  qed
qed

lemma revise_change_stays:
  assumes "mk_change_set c = Inr c" "change_ok d q"
  shows "change_ok d (revise_change c q)"
proof -
  have "c\<lparr>ch_files := dict_fromkeys (ch_files c)\<rparr> = c" using assms(1) unfolding mk_change_set_def by (simp split: if_splits)
  then have "ch_files (c\<lparr>ch_files := dict_fromkeys (ch_files c)\<rparr>) = ch_files c" by (rule arg_cong)
  then have files: "dict_fromkeys (ch_files c) = ch_files c" by simp
  let ?r = "revise_change c q"
  have "ch_version q = 1" "ch_run q \<noteq> []" "ch_agent q \<noteq> []" "ch_parent q \<noteq> []"
    using assms(2) by (auto simp: change_ok_def mk_change_set_def split: if_splits)
  moreover have "ch_version ?r = ch_version q" "ch_run ?r = ch_run q" "ch_agent ?r = ch_agent q" "ch_parent ?r = ch_parent q"
    "ch_files ?r = ch_files c" by (simp_all add: revise_change_def)
  ultimately have "mk_change_set ?r = Inr (?r\<lparr>ch_files := ch_files ?r\<rparr>)" using files by (simp add: mk_change_set_def)
  then have "mk_change_set ?r = Inr ?r" by simp
  then show ?thesis using assms(2) by (simp add: change_ok_def revise_change_def)
qed

lemma revise_change_step: "change_step q (revise_change c q)" "ch_id (revise_change c q) = ch_id q"
  by (simp_all add: change_step_def revise_change_def)

lemma save_change_delivers:
  assumes "mk_change_set c = Inr i" "save_change_set i d = Inr (e, r)"
  shows "delivers P cv F d e"
proof -
  have i: "mk_change_set i = Inr i" by (rule mk_change_set_stable [OF assms(1)])
  obtain t where t: "upsert (require_run (ch_run i) d) ch_id (revise_change i) i (dv_changes d) = Inr t"
    and e: "e = d\<lparr>dv_changes := t\<rparr>"
    using assms(2) by (auto simp: save_change_set_def elim!: and_then_InrE)
  show ?thesis unfolding e
  proof (rule delivers_changes, intro conjI)
    assume ok: "delivery_ok P cv F d"
    show "distinct (map ch_id t)" by (rule upsert_distinct [OF t]) (use ok in \<open>auto simp: ok_defs revise_change_step\<close>)
    show "list_all (change_ok d) t"
      by (rule upsert_all [OF t]) (use ok i in \<open>auto simp: ok_defs revise_change_stays intro: change_ok_def [THEN iffD2]\<close>)
    show "rows_advance change_step (dv_changes d) t"
      by (rule upsert_advance [OF t]) (auto simp: revise_change_step change_rows.step_refl)
  qed
qed

lemma mutate_delivers:
  assumes "record_mutation E c k p cmd pre post st m d = Inr (e, r)"
  shows "delivers P cv F d e"
proof -
  let ?row = "\<lparr>mu_id = fresh E ''mutation'' 0, mu_change = c, mu_kind = k, mu_path = p, mu_command = cmd,
              mu_pre = pre, mu_post = post, mu_status = st, mu_metadata = m, mu_created_at = now E\<rparr>"
  have c: "exists_row (\<lambda>x. ch_id x = c) (dv_changes d)" and e: "e = d\<lparr>dv_mutations := dv_mutations d @ [?row]\<rparr>"
    using assms unfolding record_mutation_def
    by (auto simp add: insert_row_Inr and_then_Inr simp del: exists_row_iff split: if_split_asm)
  have "mu_change ?row \<in> ch_id ` set (dv_changes d)" using c by auto
  then show ?thesis unfolding e by (rule delivers_mutation)
qed

lemma put_finding_delivers:
  assumes "mk_finding P f = Inr i" "put_quality_finding P i d = Inr (e, r)"
  shows "delivers P cv F d e"
proof (cases "fetchone (\<lambda>g. fd_run g = fd_run i \<and> fd_fingerprint g = fd_fingerprint i) (dv_findings d)")
  case (Some g)
  then have "e = d" using assms(2) by (auto simp: put_quality_finding_def elim!: and_then_InrE)
  then show ?thesis by simp
next
  case None
  then have new: "finding_key i \<notin> finding_key ` set (dv_findings d)" by (auto simp: finding_key_def)
  have e: "e = d\<lparr>dv_findings := dv_findings d @ [i]\<rparr>" "run_exists (fd_run i) d" "fd_id i \<notin> fd_id ` set (dv_findings d)"
    using assms(2) None by (auto simp: put_quality_finding_def insert_row_Inr elim!: and_then_InrE)
  have "finding_ok P d i" using e(2) mk_finding_stable [OF assms(1)] by (simp add: finding_ok_def)
  then show ?thesis unfolding e(1) by (intro delivers_findings) (use e(3) new in \<open>auto simp: ok_defs\<close>)
qed

lemma delivers_then_event:
  assumes "delivers P cv F d d1" "delivery_event E k ety gid entity i payload d1 = Inr e"
  shows "delivers P cv F d e"
proof -
  obtain u where u: "ultra_event E k ety gid entity i payload (dv_ultra d1) = Inr u" "e = d1\<lparr>dv_ultra := u\<rparr>"
    using assms(2) by (auto simp: delivery_event_def elim!: and_then_InrE)
  show ?thesis by (rule delivers_trans [OF assms(1)]) (unfold u(2), rule delivers_ultra, rule carries_event [OF u(1)])
qed

lemma finding_move:
  assumes "g = f\<lparr>fd_status := s, fd_repair := r, fd_updated_at := t\<rparr>"
  shows "finding_step f g" "finding_ok P d f \<Longrightarrow> finding_ok P d g" "fd_id g = fd_id f" "finding_key g = finding_key f"
proof -
  show "finding_step f g" unfolding finding_step_def using assms by blast
  show "fd_id g = fd_id f" "finding_key g = finding_key f" by (simp_all add: assms finding_key_def)
  assume ok: "finding_ok P d f"
  then have m: "mk_finding P f = Inr f" by (simp add: finding_ok_def)
  have fp: "finding_fingerprint P g = finding_fingerprint P f" by (simp add: assms finding_fingerprint_def)
  have "fd_fingerprint f = fd_fingerprint (f\<lparr>fd_fingerprint :=
      (if fd_fingerprint f = [] then finding_fingerprint P f else fd_fingerprint f)\<rparr>)"
    by (rule arg_cong [OF mk_finding_Inr [OF m]])
  then have h: "(if fd_fingerprint f = [] then finding_fingerprint P f else fd_fingerprint f) = fd_fingerprint f"
    by simp
  have "fd_version f = 1" "fd_principle f \<in> set principles"
    "fd_category f = CAT_PERFORMANCE \<longrightarrow> truthy (get_or JNull (fd_evidence f) ''measurement'')"
    "fd_path f \<noteq> []" "fd_file_hash f \<noteq> []" "fd_remediation f \<noteq> []" "fd_criteria f \<noteq> []" "fd_verification f \<noteq> []"
    using m unfolding mk_finding_def h by (simp_all split: if_split_asm)
  then have "mk_finding P g = Inr (g\<lparr>fd_fingerprint := (if fd_fingerprint g = [] then finding_fingerprint P g else fd_fingerprint g)\<rparr>)"
    unfolding mk_finding_def by (simp add: assms)
  moreover have "(if fd_fingerprint g = [] then finding_fingerprint P g else fd_fingerprint g) = fd_fingerprint f"
    using h unfolding fp by (simp add: assms split: if_split_asm)
  ultimately have "mk_finding P g = Inr (g\<lparr>fd_fingerprint := fd_fingerprint f\<rparr>)" by simp
  then have "mk_finding P g = Inr g" by (simp add: assms)
  then show "finding_ok P d g" using ok by (simp add: finding_ok_def assms)
qed

lemma move_finding_delivers:
  assumes "transition_quality_finding P E i st r c ev d = Inr (e, g)"
  shows "delivers P cv F d e"
proof -
  obtain row where "fetchone (\<lambda>f. fd_id f = i) (dv_findings d) = Some row"
    using assms by (simp add: transition_quality_finding_def split: option.splits)
  with assms obtain item where m: "apply_finding_move E i st r c ev item d = Inr (e, g)"
    unfolding transition_quality_finding_def by (auto elim!: and_then_InrE split: if_split_asm)
  define change where "change = (\<lambda>f :: quality_finding. f\<lparr>fd_status := st, fd_repair := fd_repair (moved_finding E st r item), fd_updated_at := now E\<rparr>)"
  have c: "change f = f\<lparr>fd_status := st, fd_repair := fd_repair (moved_finding E st r item), fd_updated_at := now E\<rparr>" for f
    by (simp add: change_def)
  from m obtain payload where event: "delivery_event E 0 ''quality.finding_status_changed'' None ''quality_finding'' i payload
       (d\<lparr>dv_findings := update_where (\<lambda>f. fd_id f = i) change (dv_findings d)\<rparr>) = Inr e"
    unfolding apply_finding_move_def change_def [symmetric] by (auto elim!: and_then_InrE)
  let ?t = "update_where (\<lambda>f. fd_id f = i) change (dv_findings d)"
  note f = finding_move [OF c]
  have keys: "map fd_id ?t = map fd_id (dv_findings d)" "map finding_key ?t = map finding_key (dv_findings d)"
    by (simp_all add: update_where_def f)
  have adv: "rows_advance finding_step (dv_findings d) ?t" by (rule finding_rows.adv_update) (rule f(1))
  have all: "list_all (finding_ok P d) (dv_findings d) \<Longrightarrow> list_all (finding_ok P d) ?t"
    using f(2) by (auto simp: list_all_iff update_where_def)
  have "delivers P cv F d (d\<lparr>dv_findings := ?t\<rparr>)"
    by (rule delivers_findings) (use adv all in \<open>simp add: ok_defs keys\<close>)
  then show ?thesis using event by (rule delivers_then_event)
qed

lemma save_cycle_delivers:
  assumes "mk_cycle c = Inr i" "save_quality_cycle i d = Inr (e, r)"
  shows "delivers P cv F d e"
proof -
  have i: "mk_cycle i = Inr i" using assms(1) by (auto simp: mk_cycle_def split: if_splits)
  obtain t where t: "upsert (require_run (qc_run i) d) qc_id
        (\<lambda>q. q\<lparr>qc_outputs := qc_outputs i, qc_metrics := qc_metrics i, qc_result := qc_result i,
               qc_blocker := qc_blocker i, qc_ended_at := qc_ended_at i\<rparr>) i (dv_cycles d) = Inr t"
    and e: "e = d\<lparr>dv_cycles := t\<rparr>"
    using assms(2) by (auto simp: save_quality_cycle_def elim!: and_then_InrE)
  show ?thesis unfolding e
  proof (rule delivers_cycles, intro conjI)
    assume ok: "delivery_ok P cv F d"
    show "distinct (map qc_id t)" by (rule upsert_distinct [OF t]) (use ok in \<open>auto simp: ok_defs\<close>)
    show "list_all (cycle_ok d) t"
      by (rule upsert_all [OF t]) (use ok i in \<open>auto simp: ok_defs cycle_ok_def mk_cycle_def split: if_splits\<close>)
    show "rows_advance cycle_step (dv_cycles d) t"
      by (rule upsert_advance [OF t]) (auto simp: cycle_step_def)
  qed
qed

section \<open>Outcomes\<close>

lemma outcome_token: "og_goal (renewed_outcome E run st tok o1) = og_goal o1" "outcome_step o1 (renewed_outcome E run st tok o1)"
  by (simp_all add: renewed_outcome_def outcome_step_def)

lemma renewed_ok:
  assumes "outcome_ok cv F d row" "require_opt_run run d = Inr ()" "st = OUT_ACCEPTED \<Longrightarrow> og_state row = OUT_ACCEPTED"
  shows "outcome_ok cv F d (renewed_outcome E run st tok row)"
  using assms by (auto simp: outcome_ok_def renewed_outcome_def require_opt_run_def earned_def split: option.splits)

lemma recontracted: "outcome_ok cv F d (row\<lparr>og_contract := c\<rparr>) = outcome_ok cv F d row"
  "outcome_step row (row\<lparr>og_contract := c\<rparr>)" "og_goal (row\<lparr>og_contract := c\<rparr>) = og_goal row"
  by (simp_all add: outcome_ok_def earned_def outcome_step_def)

lemma fetch_outcome_Inr: "fetch_outcome gid d = Inr (e, r) \<Longrightarrow> e = d"
  by (auto simp: fetch_outcome_def elim!: and_then_InrE)

lemma state_of_pending [simp]: "state_of st \<noteq> OUT_ACCEPTED"
  by (cases st) (simp_all add: state_of_def)

lemma save_outcome_delivers:
  assumes "save_goal_outcome_contract F E c run (state_of st) tok d = Inr (e, r)"
  shows "delivers P cv F d e"
proof -
  define change where "change = (\<lambda>row :: outcome_row. (renewed_outcome E run (if og_state row = OUT_ACCEPTED then OUT_ACCEPTED else state_of st)
      (token_or_pid F tok) row)\<lparr>og_contract := contract_to_dict c\<rparr>)"
  define new where "new = \<lparr>og_goal = oc_goal_id c, og_run = run, og_contract = contract_to_dict c, og_state = state_of st,
         og_token = token_or_pid F tok, og_heartbeat = now E, og_recoveries = 0, og_decision = [],
         og_accepted_at = None, og_created_at = now E, og_updated_at = now E\<rparr>"
  define fk :: "delivery_error + unit" where "fk = (if goal_exists (oc_goal_id c) (ul_store (dv_ultra d)) then Inr ()
         else raise_store (IntegrityError ''FOREIGN KEY goals(id)''))"
  from assms obtain t where run: "require_opt_run run d = Inr ()" and t: "upsert fk og_goal change new (dv_outcomes d) = Inr t"
    and e: "e = d\<lparr>dv_outcomes := t\<rparr>"
    unfolding save_goal_outcome_contract_def change_def [symmetric] new_def [symmetric] fk_def [symmetric]
    by (auto elim!: and_then_InrE dest: fetch_outcome_Inr)
  have ch: "og_goal (change q) = og_goal q" "outcome_step q (change q)" "outcome_ok cv F d q \<Longrightarrow> outcome_ok cv F d (change q)" for q
  proof -
    show "og_goal (change q) = og_goal q" "outcome_step q (change q)"
      by (simp_all add: change_def renewed_outcome_def outcome_step_def)
    assume q: "outcome_ok cv F d q"
    show "outcome_ok cv F d (change q)" unfolding change_def recontracted
      by (rule renewed_ok [OF q run]) (simp split: if_split_asm)
  qed
  have new: "fk = Inr () \<Longrightarrow> outcome_ok cv F d new"
    using run by (auto simp: fk_def new_def outcome_ok_def require_opt_run_def split: option.splits if_split_asm simp del: exists_row_iff)
  show ?thesis unfolding e
  proof (rule delivers_outcomes, intro conjI)
    assume ok: "delivery_ok P cv F d"
    show "distinct (map og_goal t)" by (rule upsert_distinct [OF t ch(1)]) (use ok in \<open>simp add: ok_defs\<close>)
    show "list_all (outcome_ok cv F d) t" by (rule upsert_all [OF t _ new ch(3)]) (use ok in \<open>simp_all add: ok_defs\<close>)
    show "rows_advance outcome_step (dv_outcomes d) t"
      by (rule upsert_advance [OF t]) (rule outcome_rows.step_refl, rule ch(2))
  qed
qed

text \<open>A change of the row of one goal.\<close>

lemma update_outcome_delivers:
  assumes "\<And>q. og_goal (change q) = og_goal q" "\<And>q. outcome_step q (change q)"
    "\<And>q. q \<in> set (dv_outcomes d) \<Longrightarrow> sel q \<Longrightarrow> outcome_ok cv F d q \<Longrightarrow> outcome_ok cv F d (change q)"
  shows "delivers P cv F d (d\<lparr>dv_outcomes := update_where sel change (dv_outcomes d)\<rparr>)" (is "delivers P cv F d (d\<lparr>dv_outcomes := ?t\<rparr>)")
proof (rule delivers_outcomes, intro conjI)
  assume ok: "delivery_ok P cv F d"
  have "map og_goal ?t = map og_goal (dv_outcomes d)" by (simp add: update_where_def assms(1))
  then show "distinct (map og_goal ?t)" using ok by (simp add: ok_defs)
  show "list_all (outcome_ok cv F d) ?t" using ok assms(3) by (auto simp: ok_defs list_all_iff update_where_def)
  show "rows_advance outcome_step (dv_outcomes d) ?t" by (rule outcome_rows.adv_update) (rule assms(2))
qed

lemma heartbeat_delivers:
  assumes "heartbeat_goal_outcome F E gid run tok d = Inr (e, r)"
  shows "delivers P cv F d e"
proof -
  obtain row where row: "get_goal_outcome_contract gid d = Inr row"
    using assms by (auto simp: heartbeat_goal_outcome_def elim!: and_then_InrE)
  show ?thesis
  proof (cases "og_state row = OUT_ACCEPTED")
    case True
    then have "e = d" using assms row by (simp add: heartbeat_goal_outcome_def)
    then show ?thesis by simp
  next
    case False
    let ?f = "renewed_outcome E run OUT_RUNNING (token_or_pid F tok)"
    from False assms row have run: "require_opt_run run d = Inr ()"
      and e: "e = d\<lparr>dv_outcomes := update_where (\<lambda>row. og_goal row = gid) ?f (dv_outcomes d)\<rparr>"
      by (auto simp: heartbeat_goal_outcome_def elim!: and_then_InrE dest: fetch_outcome_Inr)
    show ?thesis unfolding e by (rule update_outcome_delivers) (auto simp: outcome_token intro: renewed_ok [OF _ run])
  qed
qed

lemma decided_delivers:
  assumes "set_goal_outcome_state E gid st dec d = Inr (e, r)"
    and "\<And>row. st = OUT_ACCEPTED \<Longrightarrow> earned cv F (dv_evidence d) (decided_outcome E st dec row)"
  shows "delivers P cv F d e"
proof -
  have e: "e = d\<lparr>dv_outcomes := update_where (\<lambda>row. og_goal row = gid) (decided_outcome E st dec) (dv_outcomes d)\<rparr>"
    using assms(1) by (auto simp: set_goal_outcome_state_def dest: fetch_outcome_Inr)
  show ?thesis unfolding e
  proof (rule update_outcome_delivers)
    fix q
    show "og_goal (decided_outcome E st dec q) = og_goal q" "outcome_step q (decided_outcome E st dec q)"
      by (simp_all add: decided_outcome_def outcome_step_def)
    assume "outcome_ok cv F d q"
    then show "outcome_ok cv F d (decided_outcome E st dec q)"
      using assms(2) [of q] by (simp add: outcome_ok_def decided_outcome_def)
  qed
qed

lemma mk_contract_same: "mk_contract x = Inr c \<Longrightarrow> x = c"
  by (simp add: mk_contract_def split: if_split_asm)

lemma contract_from_dict_valid: "contract_from_dict cv i o1 = Inr c \<Longrightarrow> mk_contract c = Inr c"
  unfolding contract_from_dict_def Let_def by (auto split: option.split_asm dest: mk_contract_same)

lemma evaluate_delivers:
  assumes "evaluate_final_acceptance cv F E gid run d = Inr (e, dec)"
  shows "delivers P cv F d e"
proof -
  from assms obtain row :: outcome_row and c evs r where c: "contract_from_dict cv (fresh E ''outcome_contract'' 0) (og_contract row) = Inr c"
    and evs: "read_evidence cv F E (list_final_acceptance_evidence run d) = Inr evs"
    and s: "set_goal_outcome_state E gid (if ad_accepted (evaluate_gate c evs) then OUT_ACCEPTED else OUT_QUALITY_BLOCKED)
         (decision_to_dict F E (evaluate_gate c evs)) d = Inr (e, r)"
    unfolding evaluate_final_acceptance_def Let_def by (auto elim!: and_then_InrE)
  show ?thesis
  proof (rule decided_delivers [OF s])
    fix q
    let ?st = "if ad_accepted (evaluate_gate c evs) then OUT_ACCEPTED else OUT_QUALITY_BLOCKED"
    assume "?st = OUT_ACCEPTED"
    then have a: "ad_accepted (evaluate_gate c evs)" by (simp split: if_split_asm)
    have rows: "set (list_final_acceptance_evidence run d) \<subseteq> set (dv_evidence d)"
      "\<forall>e \<in> set (list_final_acceptance_evidence run d). ae_run_id e = run"
      by (auto simp: list_final_acceptance_evidence_def)
    show "earned cv F (dv_evidence d) (decided_outcome E ?st (decision_to_dict F E (evaluate_gate c evs)) q)"
      unfolding earned_def
    proof (intro conjI exI)
      show "og_accepted_at (decided_outcome E ?st (decision_to_dict F E (evaluate_gate c evs)) q) \<noteq> None"
        using a by (simp add: decided_outcome_def)
      show "og_decision (decided_outcome E ?st (decision_to_dict F E (evaluate_gate c evs)) q) =
          decision_to_dict F E (evaluate_gate c evs)" by (simp add: decided_outcome_def)
    qed (rule contract_from_dict_valid [OF c] rows evs a)+
  qed
qed

section \<open>Everything\<close>

lemma experiment_delivers:
  assumes "record_optimization_experiment F x d = Inr e"
  shows "delivers P cv F d e"
proof -
  from assms obtain row :: experiment_row where r: "run_exists (ex_run row) d" "e = d\<lparr>dv_experiments := dv_experiments d @ [row]\<rparr>"
    unfolding record_optimization_experiment_def Let_def by (force simp: insert_row_Inr elim!: and_then_InrE)
  show ?thesis unfolding r(2) by (rule delivers_experiment [OF r(1)])
qed

lemma evidence_delivers:
  assumes "mk_acceptance_evidence v = Inr v" "record_final_acceptance_evidence v d = Inr e"
  shows "delivers P cv F d e"
proof -
  from assms(2) have r: "run_exists (ae_run_id v) d" "ae_id v \<notin> ae_id ` set (dv_evidence d)"
    "e = d\<lparr>dv_evidence := dv_evidence d @ [v]\<rparr>"
    unfolding record_final_acceptance_evidence_def by (auto simp: insert_row_Inr elim!: and_then_InrE)
  show ?thesis unfolding r(3) by (rule delivers_evidence) (use r assms(1) in \<open>auto simp: evidence_ok_def\<close>)
qed

text \<open>A sequence of transactions.\<close>

lemma commit_delivers:
  assumes "\<And>e. m d = Inr e \<Longrightarrow> delivers P cv F d e" "\<And>e. m d = Inr e \<Longrightarrow> delivers P cv F e (fst (k e))"
  shows "delivers P cv F d (fst (commit m k d))"
  using assms unfolding commit_def by (auto split: sum.splits intro: delivers_trans)

lemma on_store_delivers:
  assumes "on_store m d = Inr e" "\<And>s r. m (ul_store (dv_ultra d)) = Inr (s, r) \<Longrightarrow> exec_store P E p (ul_store (dv_ultra d)) = Inr s"
  shows "delivers P cv F d e"
proof -
  from assms(1) obtain s r where m: "m (ul_store (dv_ultra d)) = Inr (s, r)" and e: "e = d\<lparr>dv_ultra := (dv_ultra d)\<lparr>ul_store := s\<rparr>\<rparr>"
    unfolding on_store_def by (auto elim!: and_then_InrE)
  show ?thesis unfolding e by (rule delivers_ultra, rule carries_store, rule assms(2) [OF m])
qed

lemma transition_op:
  "transition_goal E g st r m s = Inr (t, x) \<Longrightarrow> exec_store P E (GoalOp (TransitionGoal g st r m)) s = Inr t"
  by simp

lemma metadata_op:
  "update_goal_metadata E g m s = Inr (t, x) \<Longrightarrow> exec_store P E (GoalOp (UpdateGoalMetadata g m)) s = Inr t"
  by simp

lemma transition_delivers: "on_store (transition_goal E g st r m) d = Inr e \<Longrightarrow> delivers P cv F d e"
  by (erule on_store_delivers) (rule transition_op)

lemma metadata_delivers: "on_store (update_goal_metadata E g m) d = Inr e \<Longrightarrow> delivers P cv F d e"
  by (erule on_store_delivers) (rule metadata_op)

lemma move_goal_delivers: "move_goal_from st tg E g r d = Inr e \<Longrightarrow> delivers P cv F d e"
  unfolding move_goal_from_def
  by (auto elim!: and_then_InrE split: if_split_asm intro: transition_delivers)

lemma complete_delivers: "delivers P cv F d (fst (complete_reviewed_goal E g nl r d))"
  unfolding complete_reviewed_goal_def
  by (intro commit_delivers) (auto intro: move_goal_delivers metadata_delivers)

lemma conclude_delivers: "delivers P cv F d (fst (conclude_review E g nl passed score relative v decision d))"
  unfolding conclude_review_def Let_def
  by (rule commit_delivers, erule delivers_then_event [OF delivers_refl]) (simp add: complete_delivers)

lemma codex_delivers: "delivers P cv F d (fst (record_codex_visual_review cv F E g run shot passed score summary ls d))"
proof -
  have checked: "mk_acceptance_evidence v = Inr v" if "codex_checks E g run shot passed score summary nl d = Inr (v, p)" for nl v p
    using that by (auto simp: codex_checks_def mk_acceptance_evidence_def elim!: and_then_InrE split: if_split_asm)
  let ?nl = "dict_fromkeys (filter (\<lambda>s. s \<noteq> []) (map strip ls))"
  show ?thesis
  proof (cases "codex_checks E g run shot passed score summary ?nl d")
    case (Inl e)
    then show ?thesis by (simp add: record_codex_visual_review_def)
  next
    case (Inr a)
    obtain v relative where a: "a = (v, relative)" by (cases a)
    note ok = checked [OF Inr [unfolded a]]
    show ?thesis unfolding record_codex_visual_review_def Let_def Inr a sum.case prod.case
    proof (rule commit_delivers)
      show "record_final_acceptance_evidence v d = Inr e \<Longrightarrow> delivers P cv F d e" for e by (rule evidence_delivers [OF ok])
      fix d1
      show "delivers P cv F d1 (fst (case evaluate_final_acceptance cv F (shift_env 1 E) g run d1 of
          Inl err \<Rightarrow> (d1, Inl err)
        | Inr (d2, decision) \<Rightarrow> conclude_review E g ?nl passed score relative v decision d2))"
      proof (cases "evaluate_final_acceptance cv F (shift_env 1 E) g run d1")
        case ev: (Inr x)
        obtain d2 decision where x: "x = (d2, decision)" by (cases x)
        show ?thesis unfolding ev x sum.case prod.case
          by (rule delivers_trans [OF evaluate_delivers [OF ev [unfolded x]] conclude_delivers])
      qed simp
    qed
  qed
qed

lemma exec_delivery_delivers: "exec_delivery P cv F p d = Inr e \<Longrightarrow> delivers P cv F d e"
proof -
  assume e: "exec_delivery P cv F p d = Inr e"
  obtain E op where p: "p = (E, op)" by (cases p)
  have under: "exec_ultra_op P cv E q (dv_ultra d) = Inr u \<Longrightarrow> delivers P cv F d (d\<lparr>dv_ultra := u\<rparr>)" for q u
    by (rule delivers_ultra, rule exec_ultra_carries [of P cv "(E, q)"]) (simp add: exec_ultra_def)
  have ev: "mk_acceptance_evidence x = Inr y \<Longrightarrow> mk_acceptance_evidence y = Inr y" for x y
    by (auto simp: mk_acceptance_evidence_def split: if_split_asm)
  from e show ?thesis unfolding p exec_delivery_def prod.case
    by (cases op)
       (auto elim!: and_then_InrE simp: kept_def intro: under save_policy_delivers save_change_delivers mutate_delivers put_finding_delivers
          move_finding_delivers save_cycle_delivers save_outcome_delivers heartbeat_delivers experiment_delivers
          evidence_delivers [OF ev] evaluate_delivers codex_delivers decided_delivers)
qed

interpretation delivery_run: op_relation "exec_delivery P cv F" "delivery_ok P cv F" delivery_advance for P cv F
  by unfold_locales (auto dest: exec_delivery_delivers [unfolded delivers_def] intro: delivery_advance_trans)

lemma empty_delivery_ok: "delivery_ok P cv F empty_delivery"
  using empty_ultra_ok by (simp add: delivery_ok_def quality_ok_def outcomes_ok_def empty_delivery_def)

lemma run_delivery_ok: "delivery_ok P cv F (run_delivery P cv F ops)"
  unfolding run_delivery_def by (rule delivery_run.run_inv [OF empty_delivery_ok])

lemma run_delivery_append:
  "run_delivery P cv F (ops @ qs) = run_ops (exec_delivery P cv F) qs (run_delivery P cv F ops)"
  by (simp add: run_delivery_def run_ops_append)

text \<open>
  The delivery tables only advance.  Whatever follows, the ledger, the experiments and the
  evidence only grow, a finding changes nothing but its status and repair, and change sets, cycles
  and outcomes keep their identity.
\<close>

lemma delivery_advances: "delivery_advance (run_delivery P cv F ops) (run_delivery P cv F (ops @ later))"
  unfolding run_delivery_append by (rule delivery_run.run_rel) (rule run_delivery_ok)

end
