(* ===== verification/Delivery_Facts.thy ===== *)
theory Delivery_Facts
  imports Delivery_Invariant
begin

text \<open>
  What the delivery operations promise their callers: the gate of a finding, reading back what is
  stored, the gate of final acceptance on stored evidence, and the external review that completes a
  goal.
\<close>

section \<open>Findings and completion\<close>

lemma event_findings: "delivery_event E k ety gid entity i payload d = Inr e \<Longrightarrow> dv_findings e = dv_findings d"
  by (auto simp: delivery_event_def elim!: and_then_InrE)

lemma finding_gate:
  assumes "transition_quality_finding P E i st repair change evidence d = Inr (e, g)"
  shows "fd_status g = st" "exists_row (\<lambda>f. fd_id f = i \<and> fd_status f = st \<and> fd_repair f = fd_repair g) (dv_findings e)"
    "st = FD_RESOLVED \<Longrightarrow> given (fd_repair g) \<and> evidence \<noteq> [] \<and>
       (\<exists>c \<in> set (dv_changes d). change = Some (ch_id c) \<and> ch_run c = fd_run g \<and> ch_status c \<in> {CH_APPROVED, CH_INTEGRATED})"
proof -
  obtain row where row: "fetchone (\<lambda>f. fd_id f = i) (dv_findings d) = Some row"
    using assms by (simp add: transition_quality_finding_def split: option.splits)
  from assms obtain item where item: "read_finding P row = Inr item"
    and gate: "st = FD_RESOLVED \<Longrightarrow> given repair \<and> given change \<and> evidence \<noteq> [] \<and> remediated (the change) (fd_run item) d"
    and m: "apply_finding_move E i st repair change evidence item d = Inr (e, g)"
    unfolding transition_quality_finding_def row option.case by (auto elim!: and_then_InrE split: if_split_asm)
  from m have g: "g = moved_finding E st repair item"
    and ev: "dv_findings e = update_where (\<lambda>f. fd_id f = i)
      (\<lambda>f. f\<lparr>fd_status := st, fd_repair := fd_repair (moved_finding E st repair item), fd_updated_at := now E\<rparr>) (dv_findings d)"
    unfolding apply_finding_move_def by (auto elim!: and_then_InrE dest: event_findings)
  show "fd_status g = st" by (simp add: g moved_finding_def)
  have row_in: "row \<in> set (dv_findings d)" "fd_id row = i" using fetchone_Some [OF row] by auto
  let ?f = "\<lambda>f :: quality_finding. f\<lparr>fd_status := st, fd_repair := fd_repair (moved_finding E st repair item), fd_updated_at := now E\<rparr>"
  have "(if fd_id row = i then ?f row else row) \<in> set (dv_findings e)"
    unfolding ev update_where_def set_map by (rule imageI [OF row_in(1)])
  then have "?f row \<in> set (dv_findings e)" using row_in(2) by simp
  moreover have "fd_id (?f row) = i \<and> fd_status (?f row) = st \<and> fd_repair (?f row) = fd_repair g"
    using row_in(2) by (simp add: g)
  ultimately show "exists_row (\<lambda>f. fd_id f = i \<and> fd_status f = st \<and> fd_repair f = fd_repair g) (dv_findings e)"
    unfolding exists_row_iff by blast
  assume "st = FD_RESOLVED"
  note gate [OF this]
  moreover from this obtain c where "fetchone (\<lambda>c. ch_id c = the change \<and> ch_run c = fd_run item) (dv_changes d) = Some c"
    "ch_status c \<in> {CH_APPROVED, CH_INTEGRATED}" by (auto simp: remediated_def split: option.splits)
  ultimately show "given (fd_repair g) \<and> evidence \<noteq> [] \<and>
       (\<exists>c \<in> set (dv_changes d). change = Some (ch_id c) \<and> ch_run c = fd_run g \<and> ch_status c \<in> {CH_APPROVED, CH_INTEGRATED})"
    using fetchone_Some [of "\<lambda>c. ch_id c = the change \<and> ch_run c = fd_run item" "dv_changes d" c]
    by (auto simp: g moved_finding_def given_def split: option.splits)
qed

text \<open>Everything stored reads back as it was stored.\<close>

lemma map_result_same: "(\<And>x. x \<in> set xs \<Longrightarrow> f x = Inr x) \<Longrightarrow> map_result f xs = Inr xs"
  by (induction xs) auto

lemma lists_read_back:
  assumes "delivery_ok P cv F d"
  shows "list_change_sets run d = Inr (sort_key (\<lambda>c. (ch_created_at c, ch_id c)) (filter (\<lambda>c. ch_run c = run) (dv_changes d)))"
    "list_quality_findings P run d = Inr (sort_key (\<lambda>f. (fd_created_at f, fd_id f)) (filter (\<lambda>f. fd_run f = run) (dv_findings d)))"
    "list_quality_cycles run d = Inr (sort_key (\<lambda>c. (qc_started_at c, qc_id c)) (filter (\<lambda>c. qc_run c = run) (dv_cycles d)))"
proof -
  have "map_result mk_change_set (sort_key k (filter q (dv_changes d))) = Inr (sort_key k (filter q (dv_changes d)))"
    for k :: "change_set \<Rightarrow> int \<times> string" and q
    by (rule map_result_same) (use assms in \<open>auto simp: ok_defs list_all_iff change_ok_def\<close>)
  then show "list_change_sets run d = Inr (sort_key (\<lambda>c. (ch_created_at c, ch_id c)) (filter (\<lambda>c. ch_run c = run) (dv_changes d)))"
    by (simp add: list_change_sets_def)
  have "map_result (read_finding P) (sort_key k (filter q (dv_findings d))) = Inr (sort_key k (filter q (dv_findings d)))"
    for k :: "quality_finding \<Rightarrow> int \<times> string" and q
    by (rule map_result_same) (use assms in \<open>auto simp: ok_defs list_all_iff finding_ok_def read_finding_def\<close>)
  then show "list_quality_findings P run d = Inr (sort_key (\<lambda>f. (fd_created_at f, fd_id f)) (filter (\<lambda>f. fd_run f = run) (dv_findings d)))"
    by (simp add: list_quality_findings_def)
  have "map_result mk_cycle (sort_key k (filter q (dv_cycles d))) = Inr (sort_key k (filter q (dv_cycles d)))"
    for k :: "quality_cycle \<Rightarrow> int \<times> string" and q
    by (rule map_result_same) (use assms in \<open>auto simp: ok_defs list_all_iff cycle_ok_def\<close>)
  then show "list_quality_cycles run d = Inr (sort_key (\<lambda>c. (qc_started_at c, qc_id c)) (filter (\<lambda>c. qc_run c = run) (dv_cycles d)))"
    by (simp add: list_quality_cycles_def)
qed

lemma completion_blockers_Nil:
  "completion_blockers cs fs = [] \<longleftrightarrow>
   (\<forall>c \<in> set cs. ch_status c = CH_INTEGRATED) \<and> (\<forall>f \<in> set fs. blocks_completion (fd_severity f) \<longrightarrow> fd_status f = FD_RESOLVED)"
  by (auto simp: completion_blockers_def filter_empty_conv)

text \<open>The same finding is stored once, whatever its identifier and times.\<close>

lemma finding_stored_once:
  assumes "delivery_ok P cv F d" "put_quality_finding P f d = Inr (e, g)" "fd_run h = fd_run f" "fd_fingerprint h = fd_fingerprint f"
    "mk_finding P f = Inr f"
  shows "put_quality_finding P h e = Inr (e, g)"
proof (cases "fetchone (\<lambda>q. fd_run q = fd_run f \<and> fd_fingerprint q = fd_fingerprint f) (dv_findings d)")
  case (Some q)
  then show ?thesis using assms(2-4) by (auto simp: put_quality_finding_def elim!: and_then_InrE)
next
  case None
  then have e: "e = d\<lparr>dv_findings := dv_findings d @ [f]\<rparr>" and g: "g = f"
    using assms(2) unfolding put_quality_finding_def None option.case by (auto simp: insert_row_Inr elim!: and_then_InrE)
  have "fetchone (\<lambda>q. fd_run q = fd_run f \<and> fd_fingerprint q = fd_fingerprint f) (dv_findings d @ [f]) = Some f"
    using None by (auto simp: fetchone_def find_Some_iff find_None_iff nth_append intro!: exI [of _ "length (dv_findings d)"])
  then show ?thesis using assms(3-5) e g by (simp add: put_quality_finding_def read_finding_def)
qed

section \<open>Final acceptance on what is stored\<close>

definition readable :: "formats \<Rightarrow> bool" where
  "readable F \<longleftrightarrow> (\<forall>t. fm_time F (fm_iso F t) = Some t \<and> fm_iso F t \<noteq> [])"

lemma evidence_row_reads:
  assumes "mk_acceptance_evidence e = Inr e" "ae_id e \<noteq> []" "readable F"
  shows "evidence_from_dict cv (fm_time F) i t (evidence_row F e) = Inr e"
proof -
  have same: "evidence_from_dict cv (fm_time F) i t (evidence_row F e) =
      evidence_from_dict cv (fm_time F) i t (evidence_to_dict (fm_iso F) e)"
  proof -
    have gets: "get_or dflt (evidence_row F e) ''score'' = get_or dflt (evidence_to_dict (fm_iso F) e) ''score''"
      "get_or dflt (evidence_row F e) ''critical_findings'' = get_or dflt (evidence_to_dict (fm_iso F) e) ''critical_findings''"
      "get_or dflt (evidence_row F e) ''details'' = get_or dflt (evidence_to_dict (fm_iso F) e) ''details''"
      "get_or dflt (evidence_row F e) ''passed'' = get_or dflt (evidence_to_dict (fm_iso F) e) ''passed''"
      "get_or dflt (evidence_row F e) ''created_at'' = get_or dflt (evidence_to_dict (fm_iso F) e) ''created_at''" for dflt
      by (simp_all add: evidence_row_def evidence_to_dict_def)
    have strs: "str_or cv (evidence_row F e) ''ultra_run_id'' s = str_or cv (evidence_to_dict (fm_iso F) e) ''ultra_run_id'' s"
      "str_or cv (evidence_row F e) ''kind'' s = str_or cv (evidence_to_dict (fm_iso F) e) ''kind'' s"
      "str_or cv (evidence_row F e) ''authority'' s = str_or cv (evidence_to_dict (fm_iso F) e) ''authority'' s"
      "str_or cv (evidence_row F e) ''artifact_hash'' s = str_or cv (evidence_to_dict (fm_iso F) e) ''artifact_hash'' s"
      "str_or cv (evidence_row F e) ''id'' s = str_or cv (evidence_to_dict (fm_iso F) e) ''id'' s" for s
      by (simp_all add: str_or_def evidence_row_def evidence_to_dict_def)
    show ?thesis unfolding evidence_from_dict_def gets strs by (rule refl)
  qed
  show ?thesis unfolding same by (rule evidence_roundtrip) (use assms in \<open>auto simp: readable_def\<close>)
qed

lemma map_result_enumerate: "(\<And>k x. x \<in> set xs \<Longrightarrow> f (k, x) = Inr x) \<Longrightarrow> map_result f (enumerate n xs) = Inr xs"
  by (induction xs arbitrary: n) auto

lemma stored_evidence_reads:
  assumes "delivery_ok P cv F d" "readable F" "\<forall>e \<in> set (dv_evidence d). ae_run_id e = run \<longrightarrow> ae_id e \<noteq> []"
  shows "read_evidence cv F E (list_final_acceptance_evidence run d) = Inr (list_final_acceptance_evidence run d)"
  unfolding read_evidence_def
proof (rule map_result_enumerate)
  fix k e assume "e \<in> set (list_final_acceptance_evidence run d)"
  then have "e \<in> set (dv_evidence d)" "ae_run_id e = run" by (auto simp: list_final_acceptance_evidence_def)
  then show "(case (k, e) of (k, e) \<Rightarrow> evidence_from_dict cv (fm_time F) (fresh E ''acceptance_evidence'' k) (now E) (evidence_row F e)) = Inr e"
    using assms by (auto intro!: evidence_row_reads simp: ok_defs list_all_iff evidence_ok_def)
qed

lemma update_where_fetch:
  assumes "\<And>r. p (f r) = p r"
  shows "fetchone p (update_where p f t) = map_option f (fetchone p t)"
  by (induction t) (auto simp: fetchone_def update_where_def assms)

lemma evaluate_decides:
  assumes "delivery_ok P cv F d" "readable F" "\<forall>e \<in> set (dv_evidence d). ae_run_id e = run \<longrightarrow> ae_id e \<noteq> []"
    and row: "get_goal_outcome_contract gid d = Inr row"
    and c: "contract_from_dict cv (fresh E ''outcome_contract'' 0) (og_contract row) = Inr c"
  obtains e where "evaluate_final_acceptance cv F E gid run d =
      Inr (e, decision_to_dict F E (evaluate_gate c (list_final_acceptance_evidence run d)))"
    "get_goal_outcome_contract gid e = Inr (decided_outcome E
       (if ad_accepted (evaluate_gate c (list_final_acceptance_evidence run d)) then OUT_ACCEPTED else OUT_QUALITY_BLOCKED)
       (decision_to_dict F E (evaluate_gate c (list_final_acceptance_evidence run d))) row)"
proof -
  let ?v = "evaluate_gate c (list_final_acceptance_evidence run d)"
  let ?f = "decided_outcome E (if ad_accepted ?v then OUT_ACCEPTED else OUT_QUALITY_BLOCKED) (decision_to_dict F E ?v)"
  let ?e = "d\<lparr>dv_outcomes := update_where (\<lambda>row. og_goal row = gid) ?f (dv_outcomes d)\<rparr>"
  have "fetchone (\<lambda>o'. og_goal o' = gid) (dv_outcomes d) = Some row"
    using row by (simp add: get_goal_outcome_contract_def split: option.splits)
  then have "fetchone (\<lambda>o'. og_goal o' = gid) (dv_outcomes ?e) = Some (?f row)"
    by (simp add: update_where_fetch decided_outcome_def)
  then have e: "get_goal_outcome_contract gid ?e = Inr (?f row)" by (simp add: get_goal_outcome_contract_def)
  then have "evaluate_final_acceptance cv F E gid run d = Inr (?e, decision_to_dict F E ?v)"
    by (simp add: evaluate_final_acceptance_def row c stored_evidence_reads [OF assms(1-3)] Let_def set_goal_outcome_state_def
        fetch_outcome_def)
  then show thesis using e by (rule that)
qed

section \<open>The external review\<close>

definition goal_now :: "string \<Rightarrow> delivery \<Rightarrow> goal_status option" where
  "goal_now gid d = (case get_goal gid (ul_store (dv_ultra d)) of Inl _ \<Rightarrow> None | Inr g \<Rightarrow> Some (g_status g))"

definition outcome_now :: "string \<Rightarrow> delivery \<Rightarrow> (outcome_state \<times> json_obj) option" where
  "outcome_now gid d = (case get_goal_outcome_contract gid d of Inl _ \<Rightarrow> None | Inr row \<Rightarrow> Some (og_state row, og_decision row))"

lemma goal_now_fetch: "goal_now gid d = map_option g_status (fetchone (\<lambda>g. g_id g = gid) (st_goals (ul_store (dv_ultra d))))"
  unfolding goal_now_def get_goal_def
  by (cases "fetchone (\<lambda>g. g_id g = gid) (st_goals (ul_store (dv_ultra d)))"; simp only: option.case sum.case)
    (simp_all add: goal.truncate_def)

lemma commit_Inr:
  assumes "commit m k d = (e, Inr r)"
  obtains d1 where "m d = Inr d1" "k d1 = (e, Inr r)"
  using assms by (auto simp: commit_def split: sum.splits)

lemma event_same: "delivery_event E k ety gid entity i payload d = Inr e \<Longrightarrow>
   goal_now g e = goal_now g d \<and> outcome_now g e = outcome_now g d"
  by (auto simp: delivery_event_def ultra_event_def log_event_def goal_now_def outcome_now_def get_goal_def
      get_goal_outcome_contract_def elim!: and_then_InrE)

lemma on_store_outcome: "on_store m d = Inr e \<Longrightarrow> outcome_now g e = outcome_now g d"
  by (auto simp: on_store_def outcome_now_def get_goal_outcome_contract_def elim!: and_then_InrE)

lemma transition_now:
  assumes "on_store (transition_goal E gid st reason m) d = Inr e"
  shows "goal_now gid e = Some st"
proof -
  from assms obtain s g where t: "transition_goal E gid st reason m (ul_store (dv_ultra d)) = Inr (s, g)"
    and e: "e = d\<lparr>dv_ultra := (dv_ultra d)\<lparr>ul_store := s\<rparr>\<rparr>"
    by (auto simp: on_store_def elim!: and_then_InrE)
  from t obtain current f where "fetchone (\<lambda>g. g_id g = gid) (st_goals (ul_store (dv_ultra d))) = Some current"
    and s: "st_goals s = update_where (\<lambda>g. g_id g = gid) f (st_goals (ul_store (dv_ultra d)))"
    and f: "\<And>g. g_id (f g) = g_id g" "\<And>g. g_status (f g) = st"
    by (auto simp: transition_goal_def log_event_def Let_def elim!: and_then_InrE split: option.splits)
  then have "fetchone (\<lambda>g. g_id g = gid) (st_goals s) = Some (f current)" by (simp add: update_where_fetch f)
  then show ?thesis by (simp add: goal_now_def get_goal_def e f goal.truncate_def)
qed

lemma metadata_now:
  assumes "on_store (update_goal_metadata E gid m) d = Inr e"
  shows "goal_now gid e = goal_now gid d"
proof -
  from assms obtain s g where t: "update_goal_metadata E gid m (ul_store (dv_ultra d)) = Inr (s, g)"
    and e: "e = d\<lparr>dv_ultra := (dv_ultra d)\<lparr>ul_store := s\<rparr>\<rparr>"
    by (auto simp: on_store_def elim!: and_then_InrE)
  from t obtain f where s: "st_goals s = update_where (\<lambda>g. g_id g = gid) f (st_goals (ul_store (dv_ultra d)))"
    and f: "\<And>g. g_id (f g) = g_id g" "\<And>g. g_status (f g) = g_status g"
    by (auto simp: update_goal_metadata_def log_event_def Let_def elim!: and_then_InrE split: option.splits)
  have "fetchone (\<lambda>g. g_id g = gid) (st_goals s) = map_option f (fetchone (\<lambda>g. g_id g = gid) (st_goals (ul_store (dv_ultra d))))"
    by (simp add: s update_where_fetch f)
  then show ?thesis by (simp add: goal_now_fetch e f option.map_comp comp_def)
qed

lemma move_goal_now:
  assumes "move_goal_from source target E gid reason d = Inr e"
  shows "goal_now gid e = (if goal_now gid d = Some source then Some target else goal_now gid d)" "outcome_now g e = outcome_now g d"
proof -
  from assms obtain x where x: "get_goal gid (ul_store (dv_ultra d)) = Inr x"
    and e: "(if g_status x = source then on_store (transition_goal E gid target reason []) d else Inr d) = Inr e"
    unfolding move_goal_from_def by (auto elim!: and_then_InrE)
  have now: "goal_now gid d = Some (g_status x)" by (simp add: goal_now_def x)
  show "goal_now gid e = (if goal_now gid d = Some source then Some target else goal_now gid d)"
    using e transition_now now by (auto split: if_split_asm)
  show "outcome_now g e = outcome_now g d" using e on_store_outcome by (auto split: if_split_asm)
qed

definition reviewed_status :: "goal_status \<Rightarrow> goal_status" where
  "reviewed_status s = (if s \<in> {GOAL_BLOCKED, GOAL_RECOVERING, GOAL_REVIEWING} then GOAL_COMPLETED else s)"

lemma complete_now:
  assumes "complete_reviewed_goal E gid nl r d = (e, Inr q)"
  shows "goal_now gid e = map_option reviewed_status (goal_now gid d) \<and> outcome_now gid e = outcome_now gid d"
proof -
  from assms obtain d1 d2 d3 where
    1: "move_goal_from GOAL_BLOCKED GOAL_RECOVERING (shift_env 1 E) gid ''Codex visual review supplied the missing acceptance authority'' d = Inr d1"
    and 2: "move_goal_from GOAL_RECOVERING GOAL_REVIEWING (shift_env 2 E) gid ''Final acceptance re-evaluated with Codex visual evidence'' d1 = Inr d2"
    and 3: "on_store (update_goal_metadata (shift_env 3 E) gid (codex_metadata nl)) d2 = Inr d3"
    and 4: "move_goal_from GOAL_REVIEWING GOAL_COMPLETED (shift_env 4 E) gid ''GoalOutcomeContract passed after Codex visual review'' d3 = Inr e"
    unfolding complete_reviewed_goal_def by (auto elim!: commit_Inr)
  show ?thesis
    using move_goal_now [OF 1] move_goal_now [OF 2] metadata_now [OF 3] on_store_outcome [OF 3] move_goal_now [OF 4]
    by (cases "goal_now gid d") (auto simp: reviewed_status_def)
qed

lemma evaluate_now:
  assumes "evaluate_final_acceptance cv F E gid run d = Inr (e, decision)"
  shows "goal_now gid e = goal_now gid d" "dv_evidence e = dv_evidence d"
    "outcome_now gid e = Some (if truthy (get_or JNull decision ''accepted'') then OUT_ACCEPTED else OUT_QUALITY_BLOCKED, decision)"
proof -
  from assms obtain v r where dec: "decision = decision_to_dict F E v"
    and s: "set_goal_outcome_state E gid (if ad_accepted v then OUT_ACCEPTED else OUT_QUALITY_BLOCKED) decision d = Inr (e, r)"
    unfolding evaluate_final_acceptance_def Let_def by (auto elim!: and_then_InrE)
  let ?f = "decided_outcome E (if ad_accepted v then OUT_ACCEPTED else OUT_QUALITY_BLOCKED) decision"
  from s have e: "e = d\<lparr>dv_outcomes := update_where (\<lambda>row. og_goal row = gid) ?f (dv_outcomes d)\<rparr>"
    by (auto simp: set_goal_outcome_state_def dest: fetch_outcome_Inr)
  from s obtain row where "get_goal_outcome_contract gid e = Inr row"
    unfolding set_goal_outcome_state_def e [symmetric] fetch_outcome_def by (auto elim!: and_then_InrE)
  then have "fetchone (\<lambda>o'. og_goal o' = gid) (dv_outcomes e) = Some row"
    by (simp add: get_goal_outcome_contract_def split: option.splits)
  moreover have "fetchone (\<lambda>o'. og_goal o' = gid) (dv_outcomes e) = map_option ?f (fetchone (\<lambda>o'. og_goal o' = gid) (dv_outcomes d))"
    by (simp add: e update_where_fetch decided_outcome_def)
  ultimately have "\<exists>q. row = ?f q \<and> fetchone (\<lambda>o'. og_goal o' = gid) (dv_outcomes e) = Some (?f q)" by auto
  then show "outcome_now gid e = Some (if truthy (get_or JNull decision ''accepted'') then OUT_ACCEPTED else OUT_QUALITY_BLOCKED, decision)"
    by (auto simp: outcome_now_def get_goal_outcome_contract_def decided_outcome_def dec decision_to_dict_def)
  show "goal_now gid e = goal_now gid d" "dv_evidence e = dv_evidence d" by (simp_all add: e goal_now_def)
qed

lemma codex_review_result:
  assumes "record_codex_visual_review cv F E gid run shot passed score summary ls d = (e, Inr (v, decision))"
  shows "outcome_now gid e =
      Some (if truthy (get_or JNull decision ''accepted'') then OUT_ACCEPTED else OUT_QUALITY_BLOCKED, decision)"
    "goal_now gid e = (if truthy (get_or JNull decision ''accepted'') then map_option reviewed_status (goal_now gid d) else goal_now gid d)"
proof -
  let ?nl = "dict_fromkeys (filter (\<lambda>s. s \<noteq> []) (map strip ls))"
  from assms obtain v' relative d1 d2 dec where r: "record_final_acceptance_evidence v' d = Inr d1"
    and ev: "evaluate_final_acceptance cv F (shift_env 1 E) gid run d1 = Inr (d2, dec)"
    and c: "conclude_review E gid ?nl passed score relative v' dec d2 = (e, Inr (v, decision))"
    unfolding record_codex_visual_review_def Let_def by (auto split: sum.splits elim!: commit_Inr)
  have d1: "goal_now gid d1 = goal_now gid d"
    using r by (auto simp: record_final_acceptance_evidence_def goal_now_def elim!: and_then_InrE)
  from c obtain d3 where d3: "goal_now gid d3 = goal_now gid d2" "outcome_now gid d3 = outcome_now gid d2"
    and k: "(if truthy (get_or JNull dec ''accepted'') then complete_reviewed_goal E gid ?nl (v', dec) else (\<lambda>d. (d, Inr (v', dec)))) d3
      = (e, Inr (v, decision))"
    unfolding conclude_review_def Let_def by (elim commit_Inr) (use event_same in blast)
  have res: "decision = dec"
    using k by (auto simp: complete_reviewed_goal_def elim!: commit_Inr split: if_split_asm)
  show "outcome_now gid e = Some (if truthy (get_or JNull decision ''accepted'') then OUT_ACCEPTED else OUT_QUALITY_BLOCKED, decision)"
    "goal_now gid e = (if truthy (get_or JNull decision ''accepted'') then map_option reviewed_status (goal_now gid d) else goal_now gid d)"
    using k complete_now [of E gid ?nl "(v', dec)" d3 e "(v, decision)"] evaluate_now [OF ev] d1 d3
    unfolding res by (auto split: if_split_asm)
qed

end
