(* ===== verification/Scenario_Delivery.thy ===== *)
theory Scenario_Delivery
  imports Scenario_Ultra Scenario_Runs Delivery_Facts
begin

text \<open>Concrete uses of the delivery tables.\<close>

text \<open>Times are written in unary, so they can be read back; the other parameters are not used.\<close>

definition demo_formats :: formats where
  "demo_formats = \<lparr>fm_iso = (\<lambda>t. (if t < 0 then CHR ''-'' else CHR ''+'') # replicate (nat \<bar>t\<bar>) CHR ''1''),
     fm_time = (\<lambda>s. case s of [] \<Rightarrow> None | c # r \<Rightarrow> Some (if c = CHR ''-'' then - int (length r) else int (length r))),
     fm_score = (\<lambda>x. ''0''), fm_minus = (\<lambda>x y. x - y), fm_pid = ''pid:1''\<rparr>"

lemma demo_formats_readable: "readable demo_formats"
  by (simp add: readable_def demo_formats_def)

definition demo_delivery :: "(env \<times> delivery_op) list \<Rightarrow> delivery" where
  "demo_delivery ops = run_delivery demo_platform demo_cv demo_formats ops"

definition demo_under :: "(env \<times> delivery_op) list" where
  "demo_under = map (\<lambda>(E, p). (E, Under p)) demo_started"

section \<open>A finding and its repair\<close>

definition demo_change :: change_set where
  "demo_change = \<lparr>ch_run = ''r'', ch_agent = ''a'', ch_parent = ''n'', ch_id = ''c'', ch_version = 1, ch_status = CH_APPROVED,
     ch_files = [''x''], ch_pre = [], ch_post = [], ch_diff = [], ch_commands = [], ch_shell_files = [], ch_evidence = [],
     ch_reviews = map (\<lambda>r. (r, ''passed'')) [''clean_code'', ''security'', ''test_quality''], ch_integration = ''pending'',
     ch_metadata = [], ch_created_at = 0, ch_updated_at = 0\<rparr>"

definition demo_finding :: quality_finding where
  "demo_finding = \<lparr>fd_run = ''r'', fd_principle = ''correctness'', fd_category = CAT_API, fd_severity = SEV_HIGH, fd_path = ''x'',
     fd_location = ''1'', fd_file_hash = ''h'', fd_evidence = [], fd_remediation = ''fix'', fd_criteria = [''a''],
     fd_verification = [''t''], fd_id = ''f'', fd_version = 1, fd_status = FD_OPEN, fd_repair = None, fd_fingerprint = ''p'',
     fd_created_at = 0, fd_updated_at = 0\<rparr>"

definition demo_quality :: "(env \<times> delivery_op) list" where
  "demo_quality = demo_under @ [(demo_env 5, SaveChange demo_change), (demo_env 6, PutFinding demo_finding)]"

definition demo_integrated :: "(env \<times> delivery_op) list" where
  "demo_integrated = demo_quality @ [(demo_env 7, MoveFinding ''f'' FD_RESOLVED (Some ''n'') (Some ''c'') [''e'']),
     (demo_env 8, SaveChange (demo_change\<lparr>ch_status := CH_INTEGRATED\<rparr>))]"

lemma demo_resolution_succeeds:
  "succeeds (transition_quality_finding demo_platform (demo_env 7) ''f'' FD_RESOLVED (Some ''n'') (Some ''c'') [''e'']
     (demo_delivery demo_quality))"
  by code_simp

section \<open>A goal and its acceptance\<close>

definition demo_outcome :: "string \<Rightarrow> outcome_contract" where
  "demo_outcome kind = (demo_contract [kind])\<lparr>oc_goal_id := demo_goal_id\<rparr>"

definition demo_ready :: "(env \<times> delivery_op) list" where
  "demo_ready = demo_under @ [(demo_env 5, SaveOutcome (demo_outcome ''runtime'') (Some ''r'') RUNNING_STATE []),
     (demo_env 6, Evidence ((demo_proof ''runtime'' ''harness'' (96 / 100))\<lparr>ae_run_id := ''r''\<rparr>))]"

lemma demo_ready_contract_case:
  "case get_goal_outcome_contract demo_goal_id (demo_delivery demo_ready) of Inl e \<Rightarrow> False
   | Inr row \<Rightarrow> contract_from_dict demo_cv (fresh (demo_env 7) ''outcome_contract'' 0) (og_contract row) = Inr (demo_outcome ''runtime'')"
  by code_simp

lemma demo_ready_contract:
  obtains row where "get_goal_outcome_contract demo_goal_id (demo_delivery demo_ready) = Inr row"
    "contract_from_dict demo_cv (fresh (demo_env 7) ''outcome_contract'' 0) (og_contract row) = Inr (demo_outcome ''runtime'')"
  using demo_ready_contract_case by (auto split: sum.splits)

lemma demo_ready_ids: "list_all (\<lambda>v. ae_id v \<noteq> []) (dv_evidence (demo_delivery demo_ready))"
  by code_simp

lemma demo_ready_accepts:
  "ad_accepted (evaluate_gate (demo_outcome ''runtime'') (list_final_acceptance_evidence ''r'' (demo_delivery demo_ready)))"
  by code_simp

definition demo_stuck :: "(env \<times> delivery_op) list" where
  "demo_stuck = demo_under @
     [(demo_env 5, Under (Core (GoalOp (TransitionGoal demo_goal_id GOAL_PAUSED [] [])))),
      (demo_env 6, Under (Core (GoalOp (TransitionGoal demo_goal_id GOAL_BLOCKED [] [])))),
      (demo_env 7, SaveOutcome (demo_outcome ''codex_visual_review'') (Some ''r'') RUNNING_STATE [])]"

definition demo_review :: "delivery \<Rightarrow> delivery \<times> (delivery_error + acceptance_evidence \<times> json_obj)" where
  "demo_review d = record_codex_visual_review demo_cv demo_formats (demo_env 8) demo_goal_id ''r'' (Image ''s.png'' ''.png'' ''h'')
     True 1 ''fine'' [] d"

lemma demo_review_accepts:
  "case demo_review (demo_delivery demo_stuck) of (d, Inl e) \<Rightarrow> False
   | (d, Inr (v, decision)) \<Rightarrow> truthy (get_or JNull decision ''accepted'')"
  by code_simp

lemma demo_stuck_blocked: "goal_now demo_goal_id (demo_delivery demo_stuck) = Some GOAL_BLOCKED"
  by code_simp

text \<open>
  A contract that is saved again keeps the state of the one it replaces: the goal stays accepted
  under requirements that its evidence does not meet.
\<close>

lemma contract_replaced_after_acceptance:
  "map (\<lambda>row. (og_state row, og_contract row)) (dv_outcomes (demo_delivery (demo_ready @ [(demo_env 7, Evaluate demo_goal_id ''r''),
      (demo_env 8, SaveOutcome (demo_outcome ''browser'') (Some ''r'') RUNNING_STATE [])]))) =
     [(OUT_ACCEPTED, contract_to_dict (demo_outcome ''browser''))]"
  by code_simp

end
