(* ===== verification/Spec2Isabelle.thy ===== *)
theory Spec2Isabelle
  imports Scenario Scenario_Plans Scenario_Runs Scenario_Swarm Scenario_Ultra Scenario_Delivery
begin

text \<open>
  A verification development for the control plane of the coding-agent harness: the code under
  \<open>agent/\<close> that decides what work is proposed, approved, scheduled, delegated, reviewed, finished
  and recovered.  Everything around it (language-model providers, the tool sandbox, user interfaces)
  reaches durable state only through the modules modelled here.

  \<^bold>\<open>The program and its parts.\<close>  \<open>agent/models.py\<close> defines the statuses, their transition graphs and
  the dataclasses of the journal.  \<open>agent/store.py\<close> (\<open>StateStore\<close>) is that journal: SQLite tables
  of goals, plans, tasks, evidence, delegations, actions, prompts, sessions, ULTRA runs and swarm
  messages, one transaction per operation.  \<open>agent/scheduler.py\<close> runs work items in waves under
  resource scopes; \<open>agent/convergence.py\<close> decides when quality has converged;
  \<open>agent/goal_outcome.py\<close> decides whether a finished goal is accepted; \<open>agent/orchestration.py\<close>
  holds worker missions, evidence, reviews and routing; \<open>agent/ultra_models.py\<close> the scope contracts
  and records of hierarchical (ULTRA) work; \<open>agent/quality.py\<close> change sets, findings and what blocks
  completion; \<open>agent/swarm_protocol.py\<close>, \<open>agent/swarm_bus.py\<close> and
  \<open>agent/swarm_coordinator.py\<close> messages, leader leases and votes among agents.
  \<open>agent/plan_document.py\<close> writes a plan as a Markdown document and reads an edited one back;
  \<open>agent/runtime.py\<close> is the coordinator, whose commands of the user compose operations of the journal.

  \<^bold>\<open>Theories.\<close>  Each follows the order of its source; definitions keep the source's names.

    \<^item> \<open>Prelude\<close>: Python string and container operations, tables as row lists (primary keys, inserts,
      updates, ordered reads), enum parsing, fallible folds, and the locales for systems of
      operations.  \<open>Json\<close>: JSON values and their rendering.
      \<open>Conversions\<close>: how \<open>from_dict\<close> constructors read untyped values.
    \<^item> \<open>Domain_Status\<close>, \<open>Domain_Types\<close>, \<open>Plan_Model\<close>: \<open>models.py\<close>.  An enum is a datatype with its
      value function, a dataclass a record with a \<open>mk_\<close> function for \<open>__post_init__\<close>, an
      \<open>ensure_*_transition\<close> an instance of one checked transition graph.
    \<^item> \<open>Task_Graph\<close>: \<open>validate_task_dag\<close> loop by loop (duplicates, links, Kahn's ordering, parent
      walk), with an abstract characterisation of the graphs it accepts.
    \<^item> \<open>Store_Types\<close>, \<open>Store_Goals\<close>, \<open>Store_Plans\<close>, \<open>Store_Work\<close>, \<open>Store_Sessions\<close>: the record
      \<open>store\<close> has one field per table; each method is a function of the same name from the state to
      an error or the new state and the result.  An error leaves the state unchanged, as the rollback
      of the transaction does.  \<open>Store_System\<close> gathers the operations in one datatype with its
      execution; \<open>Store_Safety\<close>, \<open>Store_Integrity\<close>, \<open>Store_Approval\<close> prove the invariants of every
      run of it, \<open>Store_Gates\<close> what the single gates guarantee.
    \<^item> \<open>Plan_Document\<close>: \<open>plan_document.py\<close>, function by function; an error carries its line.
      \<open>Plan_Walk\<close> proves what the depth-first walk over the dependencies decides, \<open>Plan_Text\<close> and
      \<open>Plan_Roundtrip\<close> that a rendered plan is read back.
    \<^item> \<open>Coordinator\<close>: the commands of \<open>runtime.py\<close> that show and replace the plan document, update a
      task, pause, cancel and checkpoint.  A command is a function from the store to the store it
      leaves and an error or a result, because each call of the journal commits on its own.
      \<open>Coordinator_Runs\<close>: a command is a run of the journal; \<open>Coordinator_Tasks\<close>: reopening
      a task; \<open>Coordinator_Edits\<close>, \<open>Coordinator_Outcomes\<close>: what an edit stores and how it ends.
    \<^item> \<open>Scopes\<close>, \<open>Wave_Scheduler\<close>, \<open>Schedule_Safety\<close>: \<open>scheduler.py\<close>.  Paths are strings, an item
      runs by a table of the outcomes its attempts have, and a wave by any merge of its workers' calls.
    \<^item> \<open>Convergence\<close>, \<open>Acceptance\<close>, \<open>Orchestration\<close>: \<open>convergence.py\<close>, \<open>goal_outcome.py\<close>,
      \<open>orchestration.py\<close>.
    \<^item> \<open>Ultra_Contracts\<close>, \<open>Ultra_Types\<close>: \<open>ultra_models.py\<close>.  \<open>Ultra_Store\<close> and \<open>Ultra_Leases\<close>: the
      ULTRA tables of \<open>store.py\<close> (record \<open>ultra\<close>, which contains the \<open>store\<close> it is laid over) with
      their operations; \<open>Ultra_Safety\<close> states their invariant and history, \<open>Ultra_Invariant\<close> proves
      that each operation keeps them, \<open>Ultra_Facts\<close> what transitions, recovery and the walk to the
      root promise.
    \<^item> \<open>Quality\<close>: \<open>quality.py\<close>.  \<open>Delivery_Store\<close> and \<open>Outcome_Store\<close>: the quality and outcome tables
      of \<open>store.py\<close> (record \<open>delivery\<close>, which contains the \<open>ultra\<close> it is laid over), up to the
      external review that completes a goal through the operations of the journal.
      \<open>Delivery_Safety\<close> states their invariant and history, \<open>Delivery_Invariant\<close> proves that each
      operation keeps them, \<open>Delivery_Facts\<close> what the gates promise.
    \<^item> \<open>Swarm\<close>, \<open>Swarm_Safety\<close>, \<open>Swarm_Coordinator\<close>, \<open>Swarm_Delivery\<close>: messages, leases, consensus
      rounds, the bus, and the coordinator's voting workflow.
    \<^item> \<open>Scenario\<close>, \<open>Scenario_Plans\<close>, \<open>Scenario_Runs\<close>, \<open>Scenario_Swarm\<close>, \<open>Scenario_Ultra\<close>, \<open>Scenario_Delivery\<close>: concrete
      inputs on which the properties are exercised, and small runs that show surprising behaviour of the code.
    \<^item> This theory: the properties, C1 to C40.

  \<^bold>\<open>How a proof is organised.\<close>  A component that keeps state is a fold of one \<open>exec\<close> function over a
  list of operations, failing operations included.  A locale of \<open>Prelude\<close> takes that function, an
  invariant and a relation between earlier and later states, assumes that one operation keeps both,
  and gives them for every run; it is interpreted on the journal, the leases, the engine, the ULTRA
  tables, the delivery tables and the swarm.  Below it, \<open>carries\<close> (ULTRA) and \<open>delivers\<close> (delivery)
  say that a fallible operation keeps invariant and history when it succeeds, and \<open>journaled\<close> that a
  command is a run of the journal, with one rule per combinator, so the proof of an operation follows
  its text.  The remaining groups of lemmas are:
  acceptance and rejection of each check (\<open>validate_*\<close>, \<open>mk_*\<close>, \<open>ensure_*\<close>), round trips, gates
  (what held when an operation was let through), and progress (an operation does succeed).

  \<^bold>\<open>Termination and bounds.\<close>  Every definition is total.  \<open>run_loop\<close> decreases the number of pending
  items, \<open>run_one\<close> the attempts left, \<open>ancestor_walk\<close> the nodes not yet visited (the source's own
  \<open>seen\<close> set), \<open>visit\<close> the tasks not on the trail, \<open>invalidated\<close> the tasks not yet invalidated; \<open>descend\<close> (the recursive query behind \<open>list_work_nodes\<close>) is given one level per row of
  the table, and a level that adds nothing is the last one.  Python integers are \<open>int\<close>.  Where a
  result is said to be produced, the property says so: the scheduler completes every item, recovery
  succeeds, the walk reaches the root, the engine converges.

  \<^bold>\<open>Parameters.\<close>  What the code takes from outside is an argument.  An \<open>env\<close> carries the clock reading and
  the new identifiers of one operation, a platform the SHA-256 digest and limits, the record of
  conversions Python's \<open>str\<close>, \<open>int\<close>, \<open>float\<close> of untyped values; the scheduler's world gives
  worker outcomes, clock and retry delays; float subtraction and summation are functions with no
  assumption but the ones a property names.  Floats are otherwise rationals.  Times are microseconds.
  Identifier generation is assumed injective only where a property says so; a repeated identifier
  makes the insert fail, as the primary key does.

  \<^bold>\<open>Simplifications a reader should know.\<close>  Characters are those below code point 256, with case and white
  space of their ASCII part.  Each operation reads the clock once, where the source may read it twice
  within a call.  The order of keys in a stored JSON object is not represented.  The \<open>Mapping\<close> forms
  of arguments that the source also accepts as constructed values are modelled as the constructed
  values (results of work nodes and agent runs).  The lists of a role read from a mapping hold strings.  Threads are arbitrary
  interleavings of whole calls; a call holding a lock is one step.

  \<^bold>\<open>What the model showed.\<close>  Besides the properties that hold, some results record behaviour that callers
  should know.  Properties here: a refused edit of the plan document leaves a goal that was verifying
  or being reviewed in \<open>revising\<close> (\<open>refused_edit_rolled_back\<close>), and a task that names a dependency
  twice passes the document's checks and not the store's (\<open>edited_plan_links\<close>).  Lemmas of the
  scenarios: a plan without expected changes renders to a document that is refused; a stored path below
  \<open>workspace/\<close> escapes its parent's scope; recovery revives a blocked run beside its successor;
  synchronising modules drops a dependency on a task listed later; two bracket globs that share a match are reported
  as disjoint; evidence with the default score of zero is accepted whatever the threshold; updating a
  node may make it depend on itself; a contract may be stored that cannot be read back; two nodes may
  lease the same nested path; a voter may judge its own tie; a contract saved again keeps the
  acceptance of the one it replaces.

  \<^bold>\<open>Not modelled.\<close>  Of \<open>store.py\<close>: schema migrations, connection and transaction handling (SQLite), the
  mutation journal (it reads and writes workspace files), and the additive tables for brain entries,
  project memory, artifacts, traces, intake, component packages, repository index and chat, which hold
  texts, ranked searches and display records.
  Of the modelled modules: \<open>BackgroundRunController\<close> and the \<open>on_event\<close> callbacks of the scheduler, a
  bus without a store, wire encodings of swarm messages, \<open>should_reprobe_suppressed_role\<close>, the
  fingerprints that hash rendered JSON, and display projections (\<open>to_dict\<close> of results).  The rest of
  \<open>runtime.py\<close>, \<open>ultra.py\<close> and \<open>ultra_session.py\<close> interleave these operations with model output and
  tool effects, and the user interfaces, providers, tools, sandbox and repository indexing are input
  and output.
\<close>

section \<open>The journal\<close>

text \<open>
  C1: every plan stored by any sequence of operations is sound: its tasks form a valid plan,
  they belong to the plan's goal and revision, and its fingerprint is the fingerprint of the
  content that is stored.
\<close>

theorem stored_plans_sound: "content_ok P (run_store P ops empty_store)"
  by (rule reachable_content) (auto simp: reachable_def)

text \<open>
  C2: approval discipline.  After any sequence of operations at most one plan of a goal is
  accepted, a draft or pending plan is the latest revision of its goal, every approval names a
  plan with the approved fingerprint, and every accepted plan has an approval.
\<close>

theorem approvals_sound: "approvals_ok (run_store P ops empty_store)"
  using reachable_governance [of P "run_store P ops empty_store"] by (auto simp: reachable_def governance_def)

text \<open>C3: after any sequence of operations a session has at most one unfinished goal.\<close>

theorem single_active_goal: "one_active (run_store P ops empty_store)"
  using reachable_governance [of P "run_store P ops empty_store"] by (auto simp: reachable_def governance_def)


text \<open>
  C5: the approval gate.  An approval goes through only for the latest revision, with the
  fingerprint that was displayed, from a goal that may start running; afterwards that revision
  is the goal's accepted plan, the goal runs it, and the approval row records the fingerprint
  of the content that is stored.
\<close>

theorem approval_gate:
  assumes "reachable P s" and "approve_plan E gid n who expected s = Inr (t, res, a)"
  shows "latest_revision gid s = Some n \<and>
    (\<forall>f. expected = Some f \<longrightarrow> f \<noteq> [] \<longrightarrow> ap_fingerprint a = f) \<and>
    (\<exists>p \<in> set (st_plans t). p_goal_id p = gid \<and> p_revision p = n \<and> p_status p = PLAN_ACCEPTED \<and>
       ap_plan_id a = p_id p \<and>
       ap_fingerprint a = plan_fingerprint P (p_summary p) (stored_tasks t (p_id p))
         (p_applicability p) (p_strategy p) (p_changes p)) \<and>
    (\<exists>g \<in> set (st_goals t). g_id g = gid \<and> g_status g = GOAL_RUNNING \<and> g_active_plan_revision g = Some n) \<and>
    a \<in> set (st_approvals t)"
  by (rule approve_plan_gate [OF assms])

theorem approval_gate_witness:
  "\<exists>t res a. approve_plan (demo_env 3) demo_goal_id 1 ''user'' None demo_planned = Inr (t, res, a) \<and>
     latest_revision demo_goal_id demo_planned = Some 1 \<and> a \<in> set (st_approvals t)"
proof -
  obtain t res a where r: "approve_plan (demo_env 3) demo_goal_id 1 ''user'' None demo_planned = Inr (t, res, a)"
    by (rule succeedsE [OF demo_approve_succeeds]) (metis prod.exhaust)
  with approval_gate [OF demo_planned_reachable r] show ?thesis by blast
qed

text \<open>
  C6: the completion gate.  A task reaches completed only when all its dependencies in the same
  plan are completed or obsolete and evidence for it is on record; a blocked task has a note;
  no other task changes.
\<close>

theorem completion_gate:
  assumes "reachable P s" and "transition_task E gid n tid target nt evs actor s = Inr (t, r)"
  shows "\<exists>k \<in> set (st_tasks s). t_goal_id k = gid \<and> t_plan_revision k = n \<and> t_id k = tid \<and>
    moves task_transitions (t_status k) target \<and>
    (target = TASK_COMPLETED \<longrightarrow>
       has_evidence gid n tid t \<and>
       (\<forall>d \<in> set (t_depends_on k). \<exists>dep \<in> set (st_tasks s). t_plan_id dep = t_plan_id k \<and> t_id dep = d \<and>
          t_status dep \<in> {TASK_COMPLETED, TASK_OBSOLETE})) \<and>
    (target = TASK_BLOCKED \<longrightarrow> \<not> blank nt) \<and>
    filter (\<lambda>u. \<not> (t_plan_id u = t_plan_id k \<and> t_id u = tid)) (st_tasks t) =
    filter (\<lambda>u. \<not> (t_plan_id u = t_plan_id k \<and> t_id u = tid)) (st_tasks s)"
  using reachable_keys [OF assms(1)] assms(2)
proof (rule transition_task_gate)
  fix k :: task_row
  assume "k \<in> set (st_tasks s)" "t_goal_id k = gid" "t_plan_revision k = n" "t_id k = tid"
    "moves task_transitions (t_status k) target"
    "target \<in> {TASK_READY, TASK_IN_PROGRESS, TASK_VERIFYING, TASK_COMPLETED} \<Longrightarrow>
       \<forall>d \<in> set (t_depends_on k). \<exists>dep \<in> set (st_tasks s). t_plan_id dep = t_plan_id k \<and> t_id dep = d \<and>
          t_status dep \<in> {TASK_COMPLETED, TASK_OBSOLETE}"
    "target = TASK_COMPLETED \<Longrightarrow> has_evidence gid n tid t" "target = TASK_BLOCKED \<Longrightarrow> strip nt \<noteq> []"
    "filter (\<lambda>u. \<not> (t_plan_id u = t_plan_id k \<and> t_id u = tid)) (st_tasks t) =
     filter (\<lambda>u. \<not> (t_plan_id u = t_plan_id k \<and> t_id u = tid)) (st_tasks s)"
  then show ?thesis unfolding strip_empty_iff by (intro bexI [of _ k] conjI impI) simp_all
qed

theorem completion_gate_witness:
  "\<exists>t r. transition_task (demo_env 6) demo_goal_id 1 ''A'' TASK_COMPLETED [] [''tests pass''] ''agent''
      demo_working = Inr (t, r) \<and> has_evidence demo_goal_id 1 ''A'' t"
proof -
  obtain t r where r: "transition_task (demo_env 6) demo_goal_id 1 ''A'' TASK_COMPLETED [] [''tests pass''] ''agent''
      demo_working = Inr (t, r)"
    by (rule succeedsE [OF demo_task_succeeds]) (metis prod.exhaust)
  with completion_gate [OF demo_working_reachable r] show ?thesis by blast
qed



text \<open>
  C8: a plan reads back as it was created: \<open>get_plan\<close> on the new revision returns the created
  plan, its tasks in priority order.
\<close>

theorem create_plan_roundtrip:
  assumes "reachable P s" and "create_plan P E gid r s = Inr (t, plan)"
  shows "get_plan gid (p_revision plan) t =
    Inr (plan\<lparr>p_tasks := sort_key (\<lambda>u. - t_priority u) (p_tasks plan)\<rparr>)"
  by (rule created_plan_reads_back [OF reachable_keys [OF assms(1)] reachable_content [OF assms(1)] assms(2)])

theorem create_plan_roundtrip_witness:
  "\<exists>t plan. create_plan demo_platform (demo_env 2) demo_goal_id demo_request demo_created = Inr (t, plan) \<and>
     get_plan demo_goal_id (p_revision plan) t =
       Inr (plan\<lparr>p_tasks := sort_key (\<lambda>u. - t_priority u) (p_tasks plan)\<rparr>)"
proof -
  obtain t plan where r: "create_plan demo_platform (demo_env 2) demo_goal_id demo_request demo_created = Inr (t, plan)"
    by (rule succeedsE [OF demo_plan_succeeds]) (metis prod.exhaust)
  with create_plan_roundtrip [OF demo_created_reachable r] show ?thesis by blast
qed

section \<open>Plan documents and the user's commands\<close>



text \<open>
  C10: a document that parses is a sound proposal: the identifiers of its tasks are distinct and
  well formed, dependencies name tasks of the document and have no cycle, and every entry supports
  tasks of the document.  The tasks an edit makes of it carry its fields, and the plan store
  accepts their graph exactly when no task names a dependency twice.
\<close>

theorem edited_plan_links:
  assumes "parse_plan_document doc = Inr d"
    and "coerce_tasks P E gid n origin (edited_tasks old (dc_tasks d)) = Inr us"
  shows "document_ok d \<and> list_all2 task_of (dc_tasks d) us \<and>
    ((\<exists>order. validate_task_dag us = Inr order) \<longleftrightarrow> (\<forall>t \<in> set (dc_tasks d). distinct (pt_depends_on t)))"
  using parsed_tasks_validate [OF assms] parsed_document_ok [OF assms(1)] by blast

theorem edited_plan_links_witness:
  "\<exists>d us. parse_plan_document (demo_document [''A'', ''A'']) = Inr d \<and>
     coerce_tasks demo_platform (demo_env 1) ''g'' 1 ''user'' (edited_tasks [] (dc_tasks d)) = Inr us \<and>
     \<not> (\<exists>order. validate_task_dag us = Inr order)"
proof -
  obtain d us where d: "parse_plan_document (demo_document [''A'', ''A'']) = Inr d"
    and us: "coerce_tasks demo_platform (demo_env 1) ''g'' 1 ''user'' (edited_tasks [] (dc_tasks d)) = Inr us"
    and twice: "\<not> list_all (\<lambda>t. distinct (pt_depends_on t)) (dc_tasks d)"
    by (rule demo_repeated_dependency)
  from edited_plan_links [OF d us] twice show ?thesis using d us by (auto simp: list_all_iff)
qed


text \<open>
  C12: a saved edit.  The goal waits for approval, the stored plan is the latest of the goal, pending,
  with the tasks of the document, and the coordinator shows the document exactly as it was saved.
\<close>

theorem saved_edit_shown:
  assumes "reachable P s" and "parse_plan_document doc = Inr d" and "revision_context sid s = (s, Inr (goal, old))"
    and "replace_plan_document P E sid doc reason editor s = (t, Inr plan)"
  shows "status_of (g_id goal) t = Some GOAL_AWAITING_PLAN_APPROVAL \<and> p_status plan = PLAN_PENDING_APPROVAL \<and>
    list_all2 task_of (dc_tasks d) (p_tasks plan) \<and>
    get_latest_plan (g_id goal) t = Inr (Some (plan\<lparr>p_tasks := sort_key (\<lambda>u. - t_priority u) (p_tasks plan)\<rparr>)) \<and>
    plan_document_text P sid t = (t, Inr doc)"
  using saved_edit [OF assms] by blast

theorem saved_edit_shown_witness:
  "\<exists>t plan. demo_edit [''A''] demo_running = (t, Inr plan) \<and>
     plan_document_text demo_platform ''s'' t = (t, Inr (demo_document [''A'']))"
proof -
  obtain d goal old t plan where "parse_plan_document (demo_document [''A'']) = Inr d"
    and "revision_context ''s'' demo_running = (demo_running, Inr (goal, old))"
    and run: "demo_edit [''A''] demo_running = (t, Inr plan)"
    by (rule demo_saved)
  from saved_edit_shown [OF demo_commands_reachable(1) this(1,2) run [unfolded demo_edit_def]] run show ?thesis by blast
qed



text \<open>
  C14: reopening a task.  When the user sets a task back to pending, that task and exactly those
  that depend on it, directly or through others, become pending; every other task keeps its status.
\<close>

theorem reopening_resets_closure:
  assumes "reachable P s" and "update_task_from_user hide E sid i ''pending'' nt s = (t, Inr r)" and "upper i = i"
  shows "\<exists>goal plan. load_active_goal sid s = Inr (Some goal) \<and> get_latest_plan (g_id goal) s = Inr (Some plan) \<and>
    tasks_moved (p_id plan) ((dep_edges (p_tasks plan))\<^sup>* `` {i}) TASK_PENDING s t"
  by (rule reopened_tasks [OF assms]) blast

theorem reopening_resets_closure_witness:
  "\<exists>t r. demo_reopen demo_advanced = (t, Inr r) \<and>
     map (\<lambda>u. (t_id u, t_status u)) (st_tasks demo_advanced) = [(''A'', TASK_COMPLETED), (''B'', TASK_IN_PROGRESS)] \<and>
     (\<exists>goal plan. load_active_goal ''s'' demo_advanced = Inr (Some goal) \<and>
        get_latest_plan (g_id goal) demo_advanced = Inr (Some plan) \<and>
        tasks_moved (p_id plan) ((dep_edges (p_tasks plan))\<^sup>* `` {''A''}) TASK_PENDING demo_advanced t)"
proof -
  obtain t r where run: "demo_reopen demo_advanced = (t, Inr r)"
    and before: "map (\<lambda>u. (t_id u, t_status u)) (st_tasks demo_advanced) = [(''A'', TASK_COMPLETED), (''B'', TASK_IN_PROGRESS)]"
    by (rule demo_reopened)
  have "upper ''A'' = ''A''" by code_simp
  note reopening_resets_closure [OF demo_commands_reachable(2) run [unfolded demo_reopen_def] this]
  with run before show ?thesis by (intro exI [of _ t] exI [of _ r] conjI)
qed

text \<open>
  C15: an update by the user keeps work in order.  If, in the plan at hand, work is begun or finished
  only on tasks whose dependencies are finished or obsolete, this still holds after the update.
\<close>

theorem user_updates_keep_order:
  assumes "reachable P s" and "update_task_from_user hide E sid i status nt s = (t, Inr r)" and "upper i = i"
    and "\<And>goal plan. load_active_goal sid s = Inr (Some goal) \<Longrightarrow> get_latest_plan (g_id goal) s = Inr (Some plan) \<Longrightarrow>
      work_in_order (p_id plan) s"
  shows "\<exists>goal plan. load_active_goal sid s = Inr (Some goal) \<and> get_latest_plan (g_id goal) s = Inr (Some plan) \<and>
    work_in_order (p_id plan) t"
  by (rule update_in_order [OF assms]) blast+

theorem user_updates_keep_order_witness:
  "\<exists>t r goal plan. demo_reopen demo_advanced = (t, Inr r) \<and>
     load_active_goal ''s'' demo_advanced = Inr (Some goal) \<and> get_latest_plan (g_id goal) demo_advanced = Inr (Some plan) \<and>
     work_in_order (p_id plan) t"
proof -
  obtain t r where run: "demo_reopen demo_advanced = (t, Inr r)" by (rule demo_reopened)
  have "upper ''A'' = ''A''" by code_simp
  from user_updates_keep_order [OF demo_commands_reachable(2) run [unfolded demo_reopen_def] this demo_in_order] run
  show ?thesis by blast
qed

section \<open>The task graph\<close>

text \<open>
  C16: \<open>validate_task_dag\<close> accepts a list of tasks exactly when its links are well formed and
  both the dependency graph and the parent graph are acyclic.
\<close>

theorem validate_task_dag_accepts:
  "(\<exists>order. validate_task_dag ts = Inr order) \<longleftrightarrow>
     links_ok ts \<and> acyclic (dep_edges ts) \<and> acyclic (parent_edges ts)"
  by (rule validate_iff)

text \<open>C17: the order it returns lists every task once, each after all its dependencies.\<close>

theorem validate_task_dag_order:
  assumes "validate_task_dag ts = Inr order"
  shows "distinct order \<and> set order = t_id ` set ts \<and> topological ts order"
  using validate_order [OF assms] by blast

theorem validate_task_dag_order_witness:
  "validate_task_dag [demo_task ''B'' [''A''], demo_task ''A'' []] = Inr [''A'', ''B''] \<and>
   topological [demo_task ''B'' [''A''], demo_task ''A'' []] [''A'', ''B'']"
proof -
  have v: "validate_task_dag [demo_task ''B'' [''A''], demo_task ''A'' []] = Inr [''A'', ''B'']"
    by code_simp
  with validate_task_dag_order [OF v] show ?thesis by blast
qed

text \<open>
  C18: the cycle it reports is real: the reported tasks exist, there is at least one, and each
  of them depends on another reported task.
\<close>

theorem validate_task_dag_cycle:
  assumes "validate_task_dag ts = Inl (TaskGraphError (DependencyCycle c))"
  shows "c \<noteq> [] \<and> set c \<subseteq> t_id ` set ts \<and> (\<forall>x \<in> set c. \<exists>d \<in> set c. (d, x) \<in> dep_edges ts)"
  using validate_cycle [OF assms] by blast

theorem validate_task_dag_cycle_witness:
  "validate_task_dag [demo_task ''A'' [''B''], demo_task ''B'' [''A''], demo_task ''C'' []] =
     Inl (TaskGraphError (DependencyCycle [''A'', ''B''])) \<and>
   set [''A'', ''B''] \<subseteq> t_id ` set [demo_task ''A'' [''B''], demo_task ''B'' [''A''], demo_task ''C'' []]"
proof -
  have v: "validate_task_dag [demo_task ''A'' [''B''], demo_task ''B'' [''A''], demo_task ''C'' []] =
     Inl (TaskGraphError (DependencyCycle [''A'', ''B'']))" by code_simp
  with validate_task_dag_cycle [OF v] show ?thesis by blast
qed

section \<open>The scheduler\<close>


text \<open>
  C20: what a report of a run says.  Every item has one outcome, in the deterministic order; a
  completed item ran in a wave and all its dependencies are completed; a blocked item has a
  dependency that is not; every wave is nonempty, no larger than the initial limit, free of
  overlapping write scopes, and depends only on earlier waves; no item runs twice.
\<close>

theorem schedule_report_sound:
  assumes "adaptive_ok ad" and "schedule_run nt retries w items external ad = (ad', Inr rep)"
  shows "report_ok nt (ac_initial ad) (ordered_items items) external rep"
  using schedule_run_cases [OF assms] by simp

theorem schedule_report_sound_witness:
  "\<exists>ad' rep. schedule_run False 3 demo_world demo_items [] demo_adaptive = (ad', Inr rep) \<and>
     sr_waves rep = [[''A''], [''B'', ''C'']] \<and>
     report_ok False 4 (ordered_items demo_items) [] rep"
proof -
  have lim: "adaptive_ok demo_adaptive" "ac_initial demo_adaptive = 4" by (code_simp, code_simp)
  have "(case snd (schedule_run False 3 demo_world demo_items [] demo_adaptive) of
      Inl _ \<Rightarrow> False | Inr rep \<Rightarrow> sr_waves rep = [[''A''], [''B'', ''C'']])" by code_simp
  then obtain rep where "snd (schedule_run False 3 demo_world demo_items [] demo_adaptive) = Inr rep"
    "sr_waves rep = [[''A''], [''B'', ''C'']]" by (auto split: sum.splits)
  then have r: "schedule_run False 3 demo_world demo_items [] demo_adaptive =
      (fst (schedule_run False 3 demo_world demo_items [] demo_adaptive), Inr rep)"
    by (metis prod.collapse)
  show ?thesis
    using r \<open>sr_waves rep = _\<close> schedule_report_sound [OF lim(1) r] lim(2) by auto
qed

text \<open>
  C21: progress.  When no checkpoint is cancelled and every item, within its retry budget, has
  an attempt that returns after at most rate-limited ones, a run over unique items with known,
  acyclic dependencies ends with every item completed.
\<close>

theorem schedule_completes:
  assumes "adaptive_ok ad" and "willing retries w" and "distinct (map si_id items)"
    and "deps_known items external" and "\<And>ps. \<not> waits_in items ps"
  shows "\<exists>ad' rep. schedule_run nt retries w items external ad = (ad', Inr rep) \<and> successful rep"
  by (rule willing_run [OF assms])

theorem schedule_completes_witness:
  "\<exists>ad' rep. schedule_run False 3 demo_world demo_items [] demo_adaptive = (ad', Inr rep) \<and> successful rep"
proof (rule schedule_completes)
  show "adaptive_ok demo_adaptive" by code_simp
  show "willing 3 demo_world"
    by (auto simp: willing_def demo_world_def succeeds_within_def intro!: exI [of _ "2::nat"])
  show "distinct (map si_id demo_items)" by code_simp
  show "deps_known demo_items []" by (simp add: deps_known_def demo_items_def demo_item_def)
  show "\<not> waits_in demo_items ps" for ps
  proof
    assume "waits_in demo_items ps"
    then have w: "\<forall>p \<in> set ps. \<exists>i \<in> set demo_items. si_id i = p \<and> (\<exists>d \<in> set (si_depends_on i). d \<in> set ps)"
      and ne: "ps \<noteq> []" by (simp_all add: waits_in_def)
    have c: "p = ''C'' \<and> ''A'' \<in> set ps" if "p \<in> set ps" for p
      using bspec [OF w that] by (auto simp: demo_items_def demo_item_def)
    from ne obtain p where "p \<in> set ps" by (cases ps) auto
    then have "''A'' \<in> set ps" using c by blast
    from c [OF this] show False by simp
  qed
qed

section \<open>Quality convergence\<close>

text \<open>
  C22: convergence is earned.  After any sequence of mutations and evaluations a converged
  engine has the required number of most recent evaluations, all of the current artifacts, all
  passing, from enough independent evaluators.
\<close>

theorem convergence_sound: "converged_ok (run_ops (exec_engine fsub) ops (engine_init t))"
  by (rule engine_run.run_inv) (rule engine_init_ok)

text \<open>C23: the required number of passing evaluations by different independent evaluators converges.\<close>

theorem convergence_reached:
  assumes "int (length vs) = required_evaluations (en_target e)" and "vs \<noteq> []"
    and "\<And>v. v \<in> set vs \<Longrightarrow> evaluation_passes (en_target e) v \<and> covers (en_target e) v \<and>
      qe_mutation_sequence v = en_latest e \<and> er_independent (qe_evaluator v)"
    and "distinct (map (\<lambda>v. er_id (qe_evaluator v)) vs)"
  shows "en_state (run_ops (exec_engine fsub) (map Evaluated vs) e) = CONVERGED"
  by (rule evaluations_converge [OF assms])

theorem convergence_reached_witness:
  "en_state (run_ops (exec_engine minus) (map Evaluated [demo_evaluation ''r1'' 0, demo_evaluation ''r2'' 0])
     (engine_init demo_target)) = CONVERGED"
proof (rule convergence_reached)
  show "int (length [demo_evaluation ''r1'' 0, demo_evaluation ''r2'' 0]) =
      required_evaluations (en_target (engine_init demo_target))"
    by (simp add: required_evaluations_def engine_init_def demo_target_def)
  show "distinct (map (\<lambda>v. er_id (qe_evaluator v)) [demo_evaluation ''r1'' 0, demo_evaluation ''r2'' 0])"
    by (simp add: demo_evaluation_def)
  fix v assume "v \<in> set [demo_evaluation ''r1'' 0, demo_evaluation ''r2'' 0]"
  then have "v = demo_evaluation ''r1'' 0 \<or> v = demo_evaluation ''r2'' 0" by simp
  then show "evaluation_passes (en_target (engine_init demo_target)) v \<and> covers (en_target (engine_init demo_target)) v \<and>
      qe_mutation_sequence v = en_latest (engine_init demo_target) \<and> er_independent (qe_evaluator v)"
    by (auto simp: engine_init_def demo_target_def demo_evaluation_def evaluation_passes_def covers_def dict_of_def Let_def)
qed simp

theorem release_after_mutation_witness:
  "1 \<le> length (filter (\<lambda>v. evaluation_passes demo_target v \<and> qe_mutation_sequence v = 1)
     [demo_evaluation ''r1'' 1, demo_evaluation ''r2'' 1])"
proof -
  let ?vs = "[demo_evaluation ''r1'' 1, demo_evaluation ''r2'' 1]"
  have init: "run_ops (exec_engine minus) [] (engine_init demo_target) = engine_init demo_target" by simp
  have tgt: "en_target (engine_init demo_target) = demo_target" "en_latest (engine_init demo_target) = 0"
    by (simp_all add: engine_init_def)
  have "may_release_final 0 0 (run_ops (exec_engine minus) (map Evaluated ?vs)
      (mutated (run_ops (exec_engine minus) [] (engine_init demo_target))))"
    by code_simp
  from release_after_mutation [OF this]
  show ?thesis unfolding init tgt by (simp add: required_evaluations_def demo_target_def)
qed

section \<open>Product acceptance\<close>

text \<open>
  C24: what the acceptance gate accepts, over the latest evidence of each kind and authority:
  every required kind has passing evidence, no critical finding is open, enough independent
  visual authorities agree, every positive score of passing evidence meets the overall
  threshold, every score of passing critical evidence meets the critical one, and the candidate
  was preferred to the baseline.
\<close>

theorem acceptance_gate_iff:
  "ad_accepted (evaluate_gate c evs) \<longleftrightarrow>
     (\<forall>k \<in> set (oc_required c). \<exists>e \<in> set (effective evs). ae_kind e = k \<and> ae_passed e) \<and>
     (oc_zero_critical c \<longrightarrow> (\<forall>e \<in> set (effective evs). ae_critical_findings e = 0)) \<and>
     (''independent_visual'' \<in> set (oc_required c) \<longrightarrow>
        oc_visual_acceptances c \<le> int (card (ae_authority ` {e \<in> set (effective evs). ae_kind e = ''independent_visual'' \<and>
          ae_passed e \<and> ae_authority e \<notin> {''builder'', ''self''}}))) \<and>
     (\<forall>e \<in> set (effective evs). ae_passed e \<longrightarrow> 0 < ae_score e \<longrightarrow> oc_min_overall c \<le> ae_score e) \<and>
     (\<forall>e \<in> set (effective evs). ae_passed e \<longrightarrow> detail_set ''critical'' e \<longrightarrow> oc_min_critical c \<le> ae_score e) \<and>
     (oc_candidate_preferred c \<longrightarrow> ''pairwise_baseline'' \<in> set (oc_required c) \<longrightarrow>
        (\<exists>e \<in> set (effective evs). ae_kind e = ''pairwise_baseline'' \<and> ae_passed e \<and> detail_set ''candidate_preferred'' e))"
  by (rule gate_iff)

theorem acceptance_gate_iff_witness:
  "ad_accepted (evaluate_gate (demo_contract [''final_artifact'', ''independent_visual'']) demo_proofs) \<and>
   \<not> ad_accepted (evaluate_gate (demo_contract [''final_artifact'', ''runtime'']) demo_proofs)"
proof -
  have eff: "effective demo_proofs = demo_proofs" by code_simp
  have proofs: "set demo_proofs = {demo_proof ''final_artifact'' ''harness'' (96 / 100),
      demo_proof ''independent_visual'' ''judge'' (97 / 100), demo_proof ''independent_visual'' ''user'' (98 / 100)}"
    by (simp add: demo_proofs_def)
  have "{e \<in> set demo_proofs. ae_kind e = ''independent_visual'' \<and>
      ae_passed e \<and> ae_authority e \<notin> {''builder'', ''self''}} =
    {demo_proof ''independent_visual'' ''judge'' (97 / 100), demo_proof ''independent_visual'' ''user'' (98 / 100)}"
    unfolding proofs by auto
  then have auth: "card (ae_authority ` {e \<in> set demo_proofs. ae_kind e = ''independent_visual'' \<and>
      ae_passed e \<and> ae_authority e \<notin> {''builder'', ''self''}}) = 2"
    by (simp only: image_insert image_empty) simp
  have none: "\<not> (\<exists>e \<in> set demo_proofs. ae_kind e = ''runtime'' \<and> ae_passed e)"
    unfolding proofs by simp
  have "ad_accepted (evaluate_gate (demo_contract [''final_artifact'', ''independent_visual'']) demo_proofs)"
    unfolding acceptance_gate_iff eff auth
  proof (intro conjI impI)
    show "\<forall>k \<in> set (oc_required (demo_contract [''final_artifact'', ''independent_visual''])).
        \<exists>e \<in> set demo_proofs. ae_kind e = k \<and> ae_passed e"
      unfolding proofs by (simp add: demo_contract_def)
    show "\<forall>e \<in> set demo_proofs. ae_passed e \<longrightarrow> detail_set ''critical'' e \<longrightarrow>
        oc_min_critical (demo_contract [''final_artifact'', ''independent_visual'']) \<le> ae_score e"
      unfolding proofs by simp
  qed (unfold proofs, simp_all add: demo_contract_def)
  moreover have "\<not> ad_accepted (evaluate_gate (demo_contract [''final_artifact'', ''runtime'']) demo_proofs)"
  proof
    assume "ad_accepted (evaluate_gate (demo_contract [''final_artifact'', ''runtime'']) demo_proofs)"
    then have "\<forall>k \<in> set (oc_required (demo_contract [''final_artifact'', ''runtime''])).
        \<exists>e \<in> set demo_proofs. ae_kind e = k \<and> ae_passed e"
      unfolding acceptance_gate_iff eff by (rule conjunct1)
    moreover have "''runtime'' \<in> set (oc_required (demo_contract [''final_artifact'', ''runtime'']))"
      by (simp add: demo_contract_def)
    ultimately show False using none by blast
  qed
  ultimately show ?thesis by blast
qed

section \<open>Workers, reviews and scope contracts\<close>

text \<open>
  C25: a constructed mission is in normal form (constructing it again changes nothing), only a
  builder or a repairer may write alone, reviewing roles are read-only and a challenger writes
  to staging only.
\<close>

theorem mission_write_authority:
  assumes "mk_mission m = Inr n"
  shows "mk_mission n = Inr n \<and>
    (ms_role n \<in> set read_only_roles \<longrightarrow> ms_policy n = READ_ONLY) \<and>
    (ms_role n = CHALLENGER \<longrightarrow> ms_policy n = STAGING_ONLY) \<and>
    (ms_policy n = SINGLE_WRITER \<longrightarrow> ms_role n \<in> {BUILDER, REPAIRER}) \<and>
    ms_criteria n \<noteq> [] \<and> length (ms_targets n) \<le> 3 \<and> 1 \<le> ms_calls n \<and> ms_calls n \<le> 4"
  using mission_stable [OF assms] mission_authority [OF assms] by blast

theorem mission_write_authority_witness:
  "\<exists>n. mk_mission (demo_mission REVIEWER READ_ONLY) = Inr n \<and> length (ms_targets n) \<le> 3"
proof -
  have "mk_mission (demo_mission REVIEWER READ_ONLY) = Inr (demo_mission REVIEWER READ_ONLY
      \<lparr>ms_objective := ''check the parser'', ms_targets := [''a'', ''b'', ''c'']\<rparr>)" by code_simp
  with mission_write_authority [OF this] show ?thesis by blast
qed



section \<open>ULTRA runs and work trees\<close>



text \<open>
  C29: the ULTRA tables only advance.  Whatever follows, no run, node, agent run or lease disappears
  or changes its identity, an approval of a run is not taken back, attempts are not forgotten, and a
  lease that was released or has expired stays so (one left uncertain can only be released).
\<close>

theorem ultra_advances: "ultra_advance (run_ultra P cv ops) (run_ultra P cv (ops @ later))"
  unfolding run_ultra_append by (rule ultra_run.run_rel) (rule run_ultra_ok)


text \<open>
  C31: the gates of a work node.  A transition leaves the node in the requested status or asks for a
  revision; the node starts only with all its dependencies completed, completes only with a result,
  and is started or fixed only within its attempts; the table has the new status.
\<close>

theorem node_transition_gate:
  assumes "transition_work_node E i st r er cp b u = Inr (v, n)"
  shows "wn_status n \<in> {st, N_REVISION_REQUIRED} \<and>
    (wn_status n = N_IN_PROGRESS \<longrightarrow> list_all (node_done u) (wn_depends n)) \<and>
    (wn_status n = N_COMPLETED \<longrightarrow> wn_result n \<noteq> None) \<and>
    (wn_status n \<in> {N_IN_PROGRESS, N_FIXING} \<longrightarrow> wn_attempts n \<le> wn_max_attempts n) \<and>
    exists_row (\<lambda>m. wn_id m = i \<and> wn_status m = wn_status n \<and> wn_attempts m = wn_attempts n) (ul_nodes v)"
  by (rule transition_gate [OF assms])

theorem node_transition_gate_witness:
  "\<exists>v n. transition_work_node (demo_env 6) ''n'' N_IN_PROGRESS None None None True
      (run_ultra demo_platform demo_cv demo_nodes) = Inr (v, n) \<and> wn_status n \<in> {N_IN_PROGRESS, N_REVISION_REQUIRED}"
proof -
  obtain v n where t: "transition_work_node (demo_env 6) ''n'' N_IN_PROGRESS None None None True
      (run_ultra demo_platform demo_cv demo_nodes) = Inr (v, n)"
    by (rule succeedsE [OF demo_transition_succeeds]) (metis prod.exhaust)
  with node_transition_gate [OF t] show ?thesis by blast
qed

text \<open>
  C32: recovery of interrupted work.  Given unused event identifiers, \<open>recover_ultra_inflight\<close>
  succeeds, reports exactly the nodes and agents in flight and the expired leases, marks those nodes
  and agents uncertain, leaves the status of every other one alone and leaves no lease that has run out.
\<close>

theorem ultra_recovery_succeeds:
  assumes "distinct (map ev_id (st_events (ul_store u)) @ map (fresh E ''event'') [0..<length (ul_agents u) + length (ul_nodes u)])"
  shows "\<exists>v r. recover_ultra_inflight E u = Inr (v, r) \<and>
    uv_nodes r = map wn_id (filter (\<lambda>n. wn_status n \<in> in_flight_nodes) (ul_nodes u)) \<and>
    uv_agents r = map ar_id (filter (\<lambda>a. ar_status a \<in> in_flight_agents) (ul_agents u)) \<and>
    uv_leases r = expired_ids E u \<and>
    map wn_status (ul_nodes v) = map (\<lambda>n. if wn_status n \<in> in_flight_nodes then N_UNCERTAIN else wn_status n) (ul_nodes u) \<and>
    map ar_status (ul_agents v) = map (\<lambda>a. if ar_status a \<in> in_flight_agents then A_UNCERTAIN else ar_status a) (ul_agents u) \<and>
    expired_ids E v = []"
proof -
  obtain v r where r: "recover_ultra_inflight E u = Inr (v, r)" using recovery_total [OF assms] by blast
  show ?thesis using r recovery_result [OF r] by (intro exI conjI)
qed

theorem ultra_recovery_succeeds_witness:
  "\<exists>v r. recover_ultra_inflight (demo_env 8) (run_ultra demo_platform demo_cv demo_agents) = Inr (v, r) \<and>
     map ar_status (ul_agents v) = [A_UNCERTAIN]"
proof -
  let ?u = "run_ultra demo_platform demo_cv demo_agents"
  have facts: "recovery_view ?u =
      ([fresh (demo_env 0) ''event'' 0, fresh (demo_env 4) ''event'' 0, fresh (demo_env 5) ''event'' 0], 1, 0, [A_RUNNING])"
    by code_simp
  have "distinct ([fresh (demo_env 0) ''event'' 0, fresh (demo_env 4) ''event'' 0, fresh (demo_env 5) ''event'' 0] @
      map (fresh (demo_env 8) ''event'') [0..<1 + 0])" by code_simp
  then show ?thesis using facts ultra_recovery_succeeds [of ?u "demo_env 8"]
    by (auto simp: in_flight_agents_def recovery_view_def)
qed

section \<open>Quality and delivery\<close>


text \<open>
  C34: a finding is resolved only with a repair node, verification evidence and a change set of the
  same run that has passed its reviews; the stored finding records the status and the repair.
\<close>

theorem finding_resolution_gate:
  assumes "transition_quality_finding P E i FD_RESOLVED repair change evidence d = Inr (e, g)"
  shows "given (fd_repair g) \<and> evidence \<noteq> [] \<and>
    (\<exists>c \<in> set (dv_changes d). change = Some (ch_id c) \<and> ch_run c = fd_run g \<and> ch_status c \<in> {CH_APPROVED, CH_INTEGRATED}) \<and>
    exists_row (\<lambda>f. fd_id f = i \<and> fd_status f = FD_RESOLVED \<and> fd_repair f = fd_repair g) (dv_findings e)"
  using finding_gate(2,3) [OF assms] by simp

theorem finding_resolution_gate_witness:
  "\<exists>e g. transition_quality_finding demo_platform (demo_env 7) ''f'' FD_RESOLVED (Some ''n'') (Some ''c'') [''e'']
      (demo_delivery demo_quality) = Inr (e, g) \<and> given (fd_repair g)"
proof -
  obtain e g where t: "transition_quality_finding demo_platform (demo_env 7) ''f'' FD_RESOLVED (Some ''n'') (Some ''c'') [''e'']
      (demo_delivery demo_quality) = Inr (e, g)"
    by (rule succeedsE [OF demo_resolution_succeeds]) (metis prod.exhaust)
  with finding_resolution_gate [OF t] show ?thesis by blast
qed

text \<open>
  C35: the completion gate on what is stored.  The change sets and the findings of a run always read
  back, and nothing blocks completion exactly when every stored change set of the run is integrated
  and every stored finding of it of medium severity or more is resolved.
\<close>

theorem completion_on_stored_quality:
  "\<exists>cs fs. list_change_sets run (run_delivery P cv F ops) = Inr cs \<and>
     list_quality_findings P run (run_delivery P cv F ops) = Inr fs \<and>
     (completion_blockers cs fs = [] \<longleftrightarrow>
       list_all (\<lambda>c. ch_status c = CH_INTEGRATED) (filter (\<lambda>c. ch_run c = run) (dv_changes (run_delivery P cv F ops))) \<and>
       list_all (\<lambda>f. fd_status f = FD_RESOLVED)
         (filter (\<lambda>f. fd_run f = run \<and> blocks_completion (fd_severity f)) (dv_findings (run_delivery P cv F ops))))"
  unfolding lists_read_back(1,2) [OF run_delivery_ok] by (auto simp: completion_blockers_Nil list_all_iff)

text \<open>
  C36: final acceptance is decided on what is stored.  Given times that read back and evidence with
  identifiers, evaluating an outcome under a contract that reads back returns and stores the decision
  of the gate over the stored evidence of the run, oldest first, and accepts exactly when it does.
\<close>

theorem acceptance_on_stored_evidence:
  assumes "readable F" and "list_all (\<lambda>v. ae_id v \<noteq> []) (dv_evidence (run_delivery P cv F ops))"
    and "get_goal_outcome_contract gid (run_delivery P cv F ops) = Inr row"
    and "contract_from_dict cv (fresh E ''outcome_contract'' 0) (og_contract row) = Inr c"
  shows "\<exists>e. evaluate_final_acceptance cv F E gid run (run_delivery P cv F ops) =
      Inr (e, decision_to_dict F E (evaluate_gate c (list_final_acceptance_evidence run (run_delivery P cv F ops)))) \<and>
    outcome_now gid e = Some
      (if ad_accepted (evaluate_gate c (list_final_acceptance_evidence run (run_delivery P cv F ops)))
         then OUT_ACCEPTED else OUT_QUALITY_BLOCKED,
       decision_to_dict F E (evaluate_gate c (list_final_acceptance_evidence run (run_delivery P cv F ops))))"
  by (rule evaluate_decides [OF run_delivery_ok assms(1) _ assms(3,4)])
    (use assms(2) in \<open>auto simp: list_all_iff outcome_now_def decided_outcome_def\<close>)

theorem acceptance_on_stored_evidence_witness:
  "\<exists>e. evaluate_final_acceptance demo_cv demo_formats (demo_env 7) demo_goal_id ''r'' (demo_delivery demo_ready) =
      Inr (e, decision_to_dict demo_formats (demo_env 7)
        (evaluate_gate (demo_outcome ''runtime'') (list_final_acceptance_evidence ''r'' (demo_delivery demo_ready)))) \<and>
    map_option fst (outcome_now demo_goal_id e) = Some OUT_ACCEPTED"
proof -
  obtain row where row: "get_goal_outcome_contract demo_goal_id (demo_delivery demo_ready) = Inr row"
    and c: "contract_from_dict demo_cv (fresh (demo_env 7) ''outcome_contract'' 0) (og_contract row) = Inr (demo_outcome ''runtime'')"
    by (rule demo_ready_contract)
  have a: "ad_accepted (evaluate_gate (demo_outcome ''runtime'') (list_final_acceptance_evidence ''r'' (demo_delivery demo_ready)))"
    by (rule demo_ready_accepts)
  from acceptance_on_stored_evidence [OF demo_formats_readable demo_ready_ids [unfolded demo_delivery_def]
      row [unfolded demo_delivery_def] c, of "''r''"] a
  show ?thesis unfolding demo_delivery_def by auto
qed

text \<open>
  C37: the external visual review.  When it returns, the decision of the gate is stored as the outcome
  of the goal; an accepting decision completes a goal that was blocked, recovering or under review
  and leaves any other status, and a rejecting one leaves the status of the goal.
\<close>

theorem codex_review_completes:
  assumes "record_codex_visual_review cv F E gid run shot passed score summary ls d = (e, Inr (v, decision))"
  shows "outcome_now gid e =
      Some (if truthy (get_or JNull decision ''accepted'') then OUT_ACCEPTED else OUT_QUALITY_BLOCKED, decision) \<and>
    goal_now gid e = (if truthy (get_or JNull decision ''accepted'') then map_option reviewed_status (goal_now gid d) else goal_now gid d)"
  using codex_review_result [OF assms] by simp

theorem codex_review_completes_witness:
  "\<exists>e v decision. demo_review (demo_delivery demo_stuck) = (e, Inr (v, decision)) \<and> goal_now demo_goal_id e = Some GOAL_COMPLETED"
proof -
  obtain e v decision where r: "demo_review (demo_delivery demo_stuck) = (e, Inr (v, decision))"
    and a: "truthy (get_or JNull decision ''accepted'')"
    using demo_review_accepts by (auto split: prod.splits sum.splits)
  from codex_review_completes [OF r [unfolded demo_review_def]] a r demo_stuck_blocked show ?thesis
    by (auto simp: reviewed_status_def)
qed

section \<open>The swarm\<close>

text \<open>
  C38: consensus is justified.  After any sequence of messages, elections, votes and verdicts, a
  voter has one vote in a round and a closed round has a quorum of decisive votes and is either
  what its votes say, with the decision that records them, or a tie that a judge decided; no two
  leases are of the same run.
\<close>

theorem consensus_sound: "swarm_ok fsum (run_ops (exec_swarm fsum) ops (empty_swarm runs))"
  by (rule swarm_run.run_inv) (rule empty_swarm_ok)

text \<open>
  C39: a drained message is not drained again: after an acknowledged drain, whatever the store
  does in between, a later drain of any inbox returns other messages.
\<close>

theorem drained_once:
  assumes "nt_swarm n = run_ops (exec_swarm fsum) before (empty_swarm runs)"
    and "drain E run r topic limit True n = (Inr ms, n')"
    and "nt_swarm n'' = run_ops (exec_swarm fsum) between (nt_swarm n')"
    and "drain E' run' r' topic' limit' ack n'' = (Inr ms', n3)"
  shows "sm_id ` set ms \<inter> sm_id ` set ms' = {}"
  by (rule drains_disjoint [OF _ assms(2,3,4)]) (simp add: assms(1) reachable_swarm_ok)

theorem drained_once_witness:
  "\<exists>ms ms' n' n3. drain demo_clock ''run'' ''a'' None 1 True
       (demo_net (run_ops (exec_swarm sum_list) [PostMessage (demo_message 5), PostMessage (demo_message 6)] (empty_swarm [''run'']))) = (Inr ms, n') \<and>
     drain demo_clock ''run'' ''a'' None 1 True n' = (Inr ms', n3) \<and> length ms = 1 \<and> length ms' = 1 \<and>
     sm_id ` set ms \<inter> sm_id ` set ms' = {}"
proof -
  let ?s = "run_ops (exec_swarm sum_list) [PostMessage (demo_message 5), PostMessage (demo_message 6)] (empty_swarm [''run''])"
  obtain ms n' where d: "drain demo_clock ''run'' ''a'' None 1 True (demo_net ?s) = (Inr ms, n')"
    using drain_result [of demo_clock "''run''" "''a''" None 1 "demo_net ?s"] by auto
  obtain ms' n3 where d': "drain demo_clock ''run'' ''a'' None 1 True n' = (Inr ms', n3)"
    using drain_result [of demo_clock "''run''" "''a''" None 1 n'] by auto
  have len: "length (case drain demo_clock ''run'' ''a'' None 1 True (demo_net ?s) of (Inr xs, n) \<Rightarrow> xs) = 1 \<and>
      length (case drain demo_clock ''run'' ''a'' None 1 True (snd (drain demo_clock ''run'' ''a'' None 1 True (demo_net ?s)))
        of (Inr xs, n) \<Rightarrow> xs) = 1"
    by code_simp
  have "sm_id ` set ms \<inter> sm_id ` set ms' = {}"
  proof (rule drained_once [OF _ d _ d'])
    show "nt_swarm (demo_net ?s) = ?s" by (simp only: demo_net_def net.simps)
    show "nt_swarm n' = run_ops (exec_swarm sum_list) [] (nt_swarm n')" by simp
  qed
  then show ?thesis using d d' len by auto
qed

text \<open>
  C40: a vote that decides a round is announced: a decision message of the round is in the
  journal, sent by the leader of the round under the token of the coordinator lease of the run,
  which the leader then holds.
\<close>

theorem decided_vote_announced:
  assumes "submit_vote fsum vj E i voter verdict confidence rationale evidence n = (Inr (r, vs), n')"
    and "cr_status r = CS_ACCEPTED \<or> cr_status r = CS_REJECTED" and "strip (cr_leader r) \<noteq> []"
  shows "\<exists>m \<in> set (sw_messages (nt_swarm n')). \<exists>l \<in> set (sw_leases (nt_swarm n')).
    sm_type m = DECISION \<and> sm_correlation m = cr_id r \<and> sm_recipient m = ''swarm'' \<and> sm_sender m = cr_leader r \<and>
    le_run l = cr_run r \<and> le_leader l = cr_leader r \<and> sm_fencing m = max 0 (le_token l)"
  by (rule decision_announced [OF assms])

theorem decided_vote_announced_witness:
  "\<exists>n'. (\<exists>rv. submit_vote sum_list (\<lambda>v. JNull) (\<lambda>k. demo_clock (3 + k)) ''consensus1'' ''a'' ''Accept'' 1 [] []
       (demo_net (demo_swarm 1)) = (Inr rv, n')) \<and>
     (\<exists>m \<in> set (sw_messages (nt_swarm n')). sm_type m = DECISION \<and> sm_sender m = ''boss'')"
proof -
  let ?run = "submit_vote sum_list (\<lambda>v. JNull) (\<lambda>k. demo_clock (3 + k)) ''consensus1'' ''a'' ''Accept'' 1 [] []
       (demo_net (demo_swarm 1))"
  have c: "case ?run of (Inr (r, vs), n) \<Rightarrow> cr_status r = CS_ACCEPTED \<and> cr_leader r = ''boss'' | _ \<Rightarrow> False" by code_simp
  obtain r vs n' where run: "?run = (Inr (r, vs), n')" and r: "cr_status r = CS_ACCEPTED" "cr_leader r = ''boss''"
    using c by (auto split: prod.splits sum.splits)
  have "strip (cr_leader r) \<noteq> []" unfolding r(2) by code_simp
  from decided_vote_announced [OF run _ this] r obtain m where "m \<in> set (sw_messages (nt_swarm n'))" "sm_type m = DECISION" "sm_sender m = ''boss''"
    by auto
  with run show ?thesis by blast
qed

end
